(* ===== verification/Prelude.thy ===== *)
theory Prelude
  imports Complex_Main "HOL-Library.Word"
begin

text \<open>
  Shared vocabulary of the development: names for Go's machine integers, the result type of a Go
  function that may fail, the execution of a list of operations with the effects it emits, and
  the contracts (locales) that several components of the service share:
  \<^item> \<open>close_once\<close>: an operation guarded by a fuse or a compare-and-swap flag runs once;
  \<^item> \<open>stepper\<close>, \<open>budgeted\<close>, \<open>monotone_stepper\<close>: invariants, budgets and preorders of a component
    lifted from one operation to any sequence of operations;
  \<^item> \<open>sequenced\<close>: the requests of a dialog carry consecutive numbers;
  \<^item> \<open>traced\<close>: a relation between what was emitted and the state, kept by every operation;
  \<^item> \<open>registry\<close>: a table of calls under a lock, keyed by the local tag;
  \<^item> \<open>ledger\<close>: the books of a component, added up over the steps of a handler and over a run.
\<close>

section \<open>Machine integers and time\<close>

type_synonym u8 = "8 word"
type_synonym u16 = "16 word"
type_synonym i16 = "16 word"
type_synonym u32 = "32 word"
type_synonym u64 = "64 word"

text \<open>A 16- or 32-bit counter kept in a 64-bit atomic comes back unchanged.\<close>

lemma ucast_u64_u16 [simp]: "(ucast (ucast (w :: u16) :: u64) :: u16) = w"
  by transfer simp

lemma ucast_u64_u32 [simp]: "(ucast (ucast (w :: u32) :: u64) :: u32) = w"
  by transfer simp

text \<open>A \<open>time.Duration\<close>, or a wall-clock time as \<open>UnixNano\<close>, in nanoseconds.\<close>

type_synonym nanos = int

definition millisecond :: nanos where
  "millisecond = 1000000"

definition second :: nanos where
  "second = 1000 * millisecond"

definition minute :: nanos where
  "minute = 60 * second"

definition hour :: nanos where
  "hour = 60 * minute"

lemmas duration_defs = millisecond_def second_def minute_def hour_def

text \<open>Go's integer division truncates towards zero; a zero divisor panics (\<open>None\<close>).\<close>

definition go_div :: "int \<Rightarrow> int \<Rightarrow> int option" where
  "go_div a b = (if b = 0 then None else Some (sgn a * sgn b * (\<bar>a\<bar> div \<bar>b\<bar>)))"

section \<open>Running a list of operations\<close>

text \<open>
  An operation takes its argument and the state of the component and returns the new state and
  the effects it emits, in order.
\<close>

fun run :: "('a \<Rightarrow> 's \<Rightarrow> 's \<times> 'e list) \<Rightarrow> 'a list \<Rightarrow> 's \<Rightarrow> 's \<times> 'e list" where
  "run f [] s = (s, [])"
| "run f (x # xs) s =
     (let r = f x s; r' = run f xs (fst r) in (fst r', snd r @ snd r'))"

definition count_by :: "('e \<Rightarrow> bool) \<Rightarrow> 'e list \<Rightarrow> nat" where
  "count_by p es = length (filter p es)"

named_theorems effect_simps \<open>counting and projecting the effects of an operation\<close>

lemma count_by_Nil [simp, effect_simps]: "count_by p [] = 0"
  by (simp add: count_by_def)

lemma count_by_Cons [simp, effect_simps]:
  "count_by p (e # es) = (if p e then Suc (count_by p es) else count_by p es)"
  by (simp add: count_by_def)

lemma count_by_append [simp, effect_simps]: "count_by p (xs @ ys) = count_by p xs + count_by p ys"
  by (simp add: count_by_def)

lemma count_by_zero_iff: "count_by p es = 0 \<longleftrightarrow> (\<forall>e \<in> set es. \<not> p e)"
  by (simp add: count_by_def filter_empty_conv)

lemma count_by_mono: "(\<And>e. p e \<Longrightarrow> q e) \<Longrightarrow> count_by p es \<le> count_by q es"
  by (induction es) auto

lemma count_by_map [simp]: "count_by p (map f xs) = count_by (p \<circ> f) xs"
  by (simp add: count_by_def filter_map)

lemma count_by_replicate [simp]: "count_by p (replicate n x) = (if p x then n else 0)"
  by (simp add: count_by_def)

lemma run_append:
  "run f (xs @ ys) s =
     (let r = run f xs s; r' = run f ys (fst r) in (fst r', snd r @ snd r'))"
  by (induction xs arbitrary: s) (simp_all add: Let_def)

text \<open>Induction over a run that relates the operations so far, what they emitted, and the state.\<close>

lemma run_history_induct:
  assumes "Q [] [] s"
    and step: "\<And>ops es s op. Q ops es s \<Longrightarrow> Q (ops @ [op]) (es @ snd (f op s)) (fst (f op s))"
  shows "Q ops (snd (run f ops s)) (fst (run f ops s))"
proof (induction ops rule: rev_induct)
  case Nil
  show ?case using assms(1) by simp
next
  case (snoc op ops)
  from step [OF snoc.IH, of op] show ?case by (simp add: run_append Let_def)
qed

section \<open>Contracts shared by the components\<close>

text \<open>
  \<open>core.Fuse.Once\<close> and \<open>atomic.Bool.CompareAndSwap(false, true)\<close> guard the teardown of calls, rooms
  and media ports: the first call does the work, every later call does nothing.
\<close>

locale close_once =
  fixes close_op :: "'a \<Rightarrow> 's \<Rightarrow> 's \<times> 'e list"
    and is_closed :: "'s \<Rightarrow> bool"
  assumes close_closes: "is_closed (fst (close_op a s))"
    and close_again: "is_closed s \<Longrightarrow> close_op a s = (s, [])"
begin

lemma close_run_closed: "is_closed s \<Longrightarrow> run close_op as s = (s, [])"
  by (induction as) (simp_all add: close_again)

lemma close_run_first: "run close_op (a # as) s = close_op a s"
  by (simp add: Let_def close_run_closed close_closes)

lemma close_run_any:
  assumes "as \<noteq> []"
  shows "run close_op as s = close_op (hd as) s"
  using assms close_run_first by (cases as) auto

end

locale stepper =
  fixes op :: "'a \<Rightarrow> 's \<Rightarrow> 's \<times> 'e list"
    and allowed :: "'a \<Rightarrow> bool"
    and inv :: "'s \<Rightarrow> bool"
  assumes step_inv: "allowed a \<Longrightarrow> inv s \<Longrightarrow> inv (fst (op a s))"
begin

lemma run_inv: "list_all allowed as \<Longrightarrow> inv s \<Longrightarrow> inv (fst (run op as s))"
  by (induction as arbitrary: s) (simp_all add: Let_def step_inv)

lemma run_effects:
  assumes eff: "\<And>s a e. allowed a \<Longrightarrow> inv s \<Longrightarrow> e \<in> set (snd (op a s)) \<Longrightarrow> P e"
  shows "list_all allowed as \<Longrightarrow> inv s \<Longrightarrow> e \<in> set (snd (run op as s)) \<Longrightarrow> P e"
proof (induction as arbitrary: s)
  case Nil
  then show ?case by simp
next
  case (Cons a as)
  from Cons.prems(3) consider "e \<in> set (snd (op a s))" | "e \<in> set (snd (run op as (fst (op a s))))"
    by (auto simp: Let_def)
  then show ?case
  proof cases
    case 1
    with Cons.prems show ?thesis by (intro eff [of a s e]) simp_all
  next
    case 2
    with Cons.prems show ?thesis by (intro Cons.IH [of "fst (op a s)"]) (simp_all add: step_inv)
  qed
qed

end

text \<open>
  A budget bounds how often an effect can happen: each operation pays for what it emits out of
  what is left, so no sequence of operations emits more than the first state's budget.
\<close>

locale budgeted = stepper op allowed inv
  for op :: "'a \<Rightarrow> 's \<Rightarrow> 's \<times> 'e list" and allowed :: "'a \<Rightarrow> bool" and inv :: "'s \<Rightarrow> bool" +
  fixes costs :: "'e \<Rightarrow> bool" and budget :: "'s \<Rightarrow> nat"
  assumes pays: "allowed a \<Longrightarrow> inv s
    \<Longrightarrow> count_by costs (snd (op a s)) + budget (fst (op a s)) \<le> budget s"
begin

lemma run_pays:
  "list_all allowed as \<Longrightarrow> inv s
    \<Longrightarrow> count_by costs (snd (run op as s)) + budget (fst (run op as s)) \<le> budget s"
proof (induction as arbitrary: s)
  case Nil
  then show ?case by simp
next
  case (Cons a as)
  let ?s = "fst (op a s)"
  have "count_by costs (snd (run op as ?s)) + budget (fst (run op as ?s)) \<le> budget ?s"
    using Cons.prems by (intro Cons.IH) (simp_all add: step_inv)
  moreover have "count_by costs (snd (op a s)) + budget ?s \<le> budget s"
    using Cons.prems by (intro pays) simp_all
  ultimately show ?case by (simp add: Let_def)
qed

lemma run_at_most:
  "list_all allowed as \<Longrightarrow> inv s \<Longrightarrow> count_by costs (snd (run op as s)) \<le> budget s"
  using run_pays [of as s] by simp

end

text \<open>
  The requests a dialog sends are numbered by its CSeq counter: each operation sends nothing or one
  request with the next number, until the dialog is gone and sends nothing more. A run then numbers
  its requests consecutively.
\<close>

locale sequenced = stepper op allowed inv
  for op :: "'a \<Rightarrow> 's \<Rightarrow> 's \<times> 'e list" and allowed :: "'a \<Rightarrow> bool" and inv :: "'s \<Rightarrow> bool" +
  fixes next_seq :: "'s \<Rightarrow> u32" and gone :: "'s \<Rightarrow> bool" and seqs :: "'e list \<Rightarrow> u32 list"
  assumes seqs_Nil: "seqs [] = []"
    and seqs_append: "seqs (xs @ ys) = seqs xs @ seqs ys"
    and gone_silent: "allowed a \<Longrightarrow> inv s \<Longrightarrow> gone s
      \<Longrightarrow> seqs (snd (op a s)) = [] \<and> gone (fst (op a s))"
    and step_seqs: "allowed a \<Longrightarrow> inv s
      \<Longrightarrow> seqs (snd (op a s)) = [] \<and> (next_seq (fst (op a s)) = next_seq s \<or> gone (fst (op a s)))
        \<or> seqs (snd (op a s)) = [next_seq s]
          \<and> (next_seq (fst (op a s)) = next_seq s + 1 \<or> gone (fst (op a s)))"
begin

lemma map_seq_Suc:
  "map (\<lambda>i. (n::u32) + of_nat i) [0..<Suc k] = n # map (\<lambda>i. n + 1 + of_nat i) [0..<k]"
  by (simp add: upt_conv_Cons map_Suc_upt [symmetric] comp_def ac_simps del: upt_Suc)

lemma run_gone: "list_all allowed as \<Longrightarrow> inv s \<Longrightarrow> gone s \<Longrightarrow> seqs (snd (run op as s)) = []"
proof (induction as arbitrary: s)
  case Nil
  show ?case by (simp add: seqs_Nil)
next
  case (Cons a as)
  with gone_silent [of a s] step_inv [of a s] show ?case
    by (simp add: Let_def seqs_append)
qed

lemma run_seqs:
  "list_all allowed as \<Longrightarrow> inv s
    \<Longrightarrow> \<exists>k. seqs (snd (run op as s)) = map (\<lambda>i. next_seq s + of_nat i) [0..<k]"
proof (induction as arbitrary: s)
  case Nil
  show ?case by (rule exI [of _ 0]) (simp add: seqs_Nil)
next
  case (Cons a as)
  let ?s = "fst (op a s)"
  have step: "inv ?s" "list_all allowed as" "allowed a" using Cons.prems step_inv by simp_all
  obtain k where k: "seqs (snd (run op as ?s)) = map (\<lambda>i. next_seq ?s + of_nat i) [0..<k]"
    using Cons.IH step by blast
  note gone = run_gone [of as ?s]
  from step_seqs [OF step(3), of s] Cons.prems(2) consider
    (none) "seqs (snd (op a s)) = []" "next_seq ?s = next_seq s \<or> gone ?s"
  | (one) "seqs (snd (op a s)) = [next_seq s]" "next_seq ?s = next_seq s + 1 \<or> gone ?s"
    by metis
  then show ?case
  proof cases
    case none
    with k gone step show ?thesis
      by (cases "gone ?s") (auto simp: Let_def seqs_append intro: exI [of _ 0] exI [of _ k])
  next
    case one
    show ?thesis
    proof (cases "gone ?s")
      case True
      with one gone step show ?thesis
        by (intro exI [of _ 1]) (simp add: Let_def seqs_append)
    next
      case False
      with one k show ?thesis
        by (intro exI [of _ "Suc k"]) (simp add: Let_def seqs_append map_seq_Suc del: upt_Suc)
    qed
  qed
qed

end

text \<open>A quantity that no operation lets go backwards does not go backwards over a run.\<close>

locale monotone_stepper =
  fixes op :: "'a \<Rightarrow> 's \<Rightarrow> 's \<times> 'e list"
    and level :: "'s \<Rightarrow> 'o::preorder"
  assumes step_mono: "level s \<le> level (fst (op a s))"
begin

lemma run_mono: "level s \<le> level (fst (run op as s))"
proof (induction as arbitrary: s)
  case Nil
  then show ?case by simp
next
  case (Cons a as)
  have "level (fst (op a s)) \<le> level (fst (run op as (fst (op a s))))" by (rule Cons.IH)
  with step_mono [of s a] show ?case by (auto simp: Let_def intro: order_trans)
qed

end

text \<open>
  A relation between the effects emitted so far and the state, kept by every operation, holds after
  every run: what the state says was done is in the trace.
\<close>

locale traced =
  fixes op :: "'a \<Rightarrow> 's \<Rightarrow> 's \<times> 'e list"
    and rel :: "'e list \<Rightarrow> 's \<Rightarrow> bool"
  assumes step_rel: "rel tr s \<Longrightarrow> rel (tr @ snd (op a s)) (fst (op a s))"
begin

lemma run_rel: "rel tr s \<Longrightarrow> rel (tr @ snd (run op as s)) (fst (run op as s))"
proof (induction as arbitrary: tr s)
  case Nil
  then show ?case by simp
next
  case (Cons a as)
  from Cons.IH [OF step_rel [OF Cons.prems, of a]] show ?case by (simp add: Let_def)
qed

lemma run_rel_start: "rel [] s \<Longrightarrow> rel (snd (run op as s)) (fst (run op as s))"
  using run_rel [of "[]" s as] by simp

end

text \<open>
  A table of live calls keyed by a tag: the server's \<open>byLocalTag\<close> and the client's
  \<open>activeCalls\<close>.
\<close>

locale registry =
  fixes lookup :: "'s \<Rightarrow> 'k \<Rightarrow> 'v option"
    and insert :: "'k \<Rightarrow> 'v \<Rightarrow> 's \<Rightarrow> 's"
    and delete :: "'k \<Rightarrow> 's \<Rightarrow> 's"
  assumes lookup_insert: "lookup (insert k v s) = (lookup s)(k := Some v)"
    and lookup_delete: "lookup (delete k s) = (lookup s)(k := None)"
begin

lemma lookup_insert_same [simp]: "lookup (insert k v s) k = Some v"
  by (simp add: lookup_insert)

lemma lookup_insert_other: "k' \<noteq> k \<Longrightarrow> lookup (insert k v s) k' = lookup s k'"
  by (simp add: lookup_insert)

lemma lookup_delete_same [simp]: "lookup (delete k s) k = None"
  by (simp add: lookup_delete)

lemma lookup_delete_other: "k' \<noteq> k \<Longrightarrow> lookup (delete k s) k' = lookup s k'"
  by (simp add: lookup_delete)

lemma insert_delete: "lookup s k = None \<Longrightarrow> lookup (delete k (insert k v s)) = lookup s"
  by (auto simp: lookup_insert lookup_delete fun_eq_iff)

end

section \<open>Results and their books\<close>

text \<open>A result extended by a second operation on the new state.\<close>

definition andThen :: "'s \<times> 'e list \<Rightarrow> ('s \<Rightarrow> 's \<times> 'e list) \<Rightarrow> 's \<times> 'e list" where
  "andThen r f = (case f (fst r) of (s, es) \<Rightarrow> (s, snd r @ es))"

lemma andThen_pair: "andThen r f = (fst (f (fst r)), snd r @ snd (f (fst r)))"
  by (simp add: andThen_def split_def)

text \<open>
  The books of a component: a result keeps them if, from a good state, it leads to a good state and its
  effects settle the difference between the two states. Accounts that add up let the books of whole
  handlers and runs be put together from those of their steps.
\<close>

definition keeps :: "('s \<Rightarrow> bool) \<Rightarrow> ('s \<Rightarrow> 's \<Rightarrow> 'e list \<Rightarrow> bool) \<Rightarrow> 's \<Rightarrow> 's \<times> 'e list \<Rightarrow> bool" where
  "keeps good settles s r = (good s \<longrightarrow> good (fst r) \<and> settles s (fst r) (snd r))"

locale ledger =
  fixes good :: "'s \<Rightarrow> bool"
    and settles :: "'s \<Rightarrow> 's \<Rightarrow> 'e list \<Rightarrow> bool"
  assumes settles_nothing: "settles s s []"
    and settles_adds: "settles s s' es \<Longrightarrow> settles s' s'' es' \<Longrightarrow> settles s s'' (es @ es')"
begin

lemma keeps_nothing: "keeps good settles s (s, [])"
  by (simp add: keeps_def settles_nothing)

lemma keeps_andThen:
  "keeps good settles s r \<Longrightarrow> (\<And>s'. keeps good settles s' (f s')) \<Longrightarrow> keeps good settles s (andThen r f)"
  unfolding keeps_def andThen_pair by (auto intro: settles_adds)

lemma keeps_then:
  "keeps good settles s r \<Longrightarrow> keeps good settles (fst r) (f (fst r)) \<Longrightarrow> keeps good settles s (andThen r f)"
  unfolding keeps_def andThen_pair by (auto intro: settles_adds)

lemma keeps_run:
  assumes "\<And>a s. allowed a \<Longrightarrow> keeps good settles s (op a s)"
  shows "list_all allowed as \<Longrightarrow> keeps good settles s (run op as s)"
proof (induction as arbitrary: s)
  case Nil
  show ?case by (simp add: keeps_nothing)
next
  case (Cons a as)
  have "run op (a # as) s = andThen (op a s) (run op as)" by (simp add: andThen_pair Let_def)
  with keeps_andThen [OF assms [of a s]] Cons show ?case by simp
qed

end

end
