(* ===== verification/Go_Strings.thy ===== *)
theory Go_Strings
  imports Prelude
begin

text \<open>
  The functions of Go's \<open>strings\<close> and \<open>strconv\<close> packages that the service uses. A Go string is a
  sequence of bytes, so \<open>string\<close> (a list of 8-bit characters) represents it. The functions that
  Go defines on Unicode letters and spaces (\<open>ToLower\<close>, \<open>EqualFold\<close>, \<open>TrimSpace\<close>, \<open>Fields\<close>) are
  given on ASCII; bytes from 128 on are neither letters nor spaces here. SIP and SDP tokens are
  ASCII.
\<close>

definition upper_A_Z :: "char \<Rightarrow> bool" where
  "upper_A_Z c = (65 \<le> (of_char c :: nat) \<and> (of_char c :: nat) \<le> 90)"

definition lower_char :: "char \<Rightarrow> char" where
  "lower_char c = (if upper_A_Z c then char_of ((of_char c :: nat) + 32) else c)"

definition to_lower :: "string \<Rightarrow> string" where
  "to_lower s = map lower_char s"

definition upper_char :: "char \<Rightarrow> char" where
  "upper_char c = (if 97 \<le> (of_char c :: nat) \<and> (of_char c :: nat) \<le> 122
                   then char_of ((of_char c :: nat) - 32) else c)"

definition to_upper :: "string \<Rightarrow> string" where
  "to_upper s = map upper_char s"

definition equal_fold :: "string \<Rightarrow> string \<Rightarrow> bool" where
  "equal_fold s t = (to_lower s = to_lower t)"

definition is_space :: "char \<Rightarrow> bool" where
  "is_space c = ((of_char c :: nat) \<in> {9, 10, 11, 12, 13, 32})"

definition trim_left :: "string \<Rightarrow> string" where
  "trim_left s = dropWhile is_space s"

definition trim_space :: "string \<Rightarrow> string" where
  "trim_space s = rev (trim_left (rev (trim_left s)))"

definition has_prefix :: "string \<Rightarrow> string \<Rightarrow> bool" where
  "has_prefix s p = (take (length p) s = p)"

definition has_suffix :: "string \<Rightarrow> string \<Rightarrow> bool" where
  "has_suffix s p = has_prefix (rev s) (rev p)"

definition trim_suffix :: "string \<Rightarrow> string \<Rightarrow> string" where
  "trim_suffix s p = (if has_suffix s p then take (length s - length p) s else s)"

text \<open>\<open>strings.Contains\<close> and \<open>strings.ContainsAny\<close>.\<close>

fun contains :: "string \<Rightarrow> string \<Rightarrow> bool" where
  "contains [] p = (p = [])"
| "contains (c # s) p = (has_prefix (c # s) p \<or> contains s p)"

definition contains_any :: "string \<Rightarrow> string \<Rightarrow> bool" where
  "contains_any s chars = (\<exists>c \<in> set s. c \<in> set chars)"

text \<open>\<open>strings.Cut\<close> at a one-byte separator.\<close>

definition cut :: "char \<Rightarrow> string \<Rightarrow> string \<times> string \<times> bool" where
  "cut c s = (if c \<in> set s
              then (takeWhile (\<lambda>x. x \<noteq> c) s, tl (dropWhile (\<lambda>x. x \<noteq> c) s), True)
              else (s, [], False))"

text \<open>\<open>strings.Split\<close> and \<open>strings.SplitN\<close> at a one-byte separator.\<close>

fun split_on :: "char \<Rightarrow> string \<Rightarrow> string list" where
  "split_on c [] = [[]]"
| "split_on c (x # xs) =
     (if x = c then [] # split_on c xs
      else (case split_on c xs of [] \<Rightarrow> [[x]] | y # ys \<Rightarrow> (x # y) # ys))"

fun split_n :: "char \<Rightarrow> nat \<Rightarrow> string \<Rightarrow> string list" where
  "split_n c 0 s = []"
| "split_n c (Suc 0) s = [s]"
| "split_n c (Suc (Suc n)) s =
     (if c \<in> set s
      then takeWhile (\<lambda>x. x \<noteq> c) s # split_n c (Suc n) (tl (dropWhile (\<lambda>x. x \<noteq> c) s))
      else [s])"

fun join :: "string \<Rightarrow> string list \<Rightarrow> string" where
  "join sep [] = []"
| "join sep [x] = x"
| "join sep (x # y # ys) = x @ sep @ join sep (y # ys)"

text \<open>\<open>strings.Fields\<close>: the maximal runs of non-space bytes.\<close>

fun fields_acc :: "string \<Rightarrow> string \<Rightarrow> string list" where
  "fields_acc w [] = (if w = [] then [] else [w])"
| "fields_acc w (c # s) =
     (if is_space c then (if w = [] then fields_acc [] s else w # fields_acc [] s)
      else fields_acc (w @ [c]) s)"

definition fields :: "string \<Rightarrow> string list" where
  "fields s = fields_acc [] s"

section \<open>Numbers\<close>

definition digit_char :: "nat \<Rightarrow> char" where
  "digit_char d = char_of (48 + d)"

definition is_digit :: "char \<Rightarrow> bool" where
  "is_digit c = (48 \<le> (of_char c :: nat) \<and> (of_char c :: nat) \<le> 57)"

definition digit_val :: "char \<Rightarrow> nat" where
  "digit_val c = (of_char c :: nat) - 48"

fun nat_digits :: "nat \<Rightarrow> string" where
  "nat_digits n = (if n < 10 then [digit_char n] else nat_digits (n div 10) @ [digit_char (n mod 10)])"

declare nat_digits.simps [simp del]

definition itoa :: "int \<Rightarrow> string" where
  "itoa i = (if i < 0 then CHR ''-'' # nat_digits (nat (- i)) else nat_digits (nat i))"

definition digits_val :: "string \<Rightarrow> nat" where
  "digits_val s = foldl (\<lambda>n c. 10 * n + digit_val c) 0 s"

text \<open>
  \<open>strconv.Atoi\<close> on a 64-bit platform: the value and whether there was no error. A syntax error
  gives 0, a value out of range the nearest bound, as in Go.
\<close>

definition int_max :: int where
  "int_max = 2 ^ 63 - 1"

definition int_min :: int where
  "int_min = - (2 ^ 63)"

definition unsigned_dec :: "string \<Rightarrow> nat option" where
  "unsigned_dec s = (if s \<noteq> [] \<and> list_all is_digit s then Some (digits_val s) else None)"

definition clamp_int :: "int \<Rightarrow> int \<times> bool" where
  "clamp_int i = (if i > int_max then (int_max, False)
                  else if i < int_min then (int_min, False) else (i, True))"

definition atoi :: "string \<Rightarrow> int \<times> bool" where
  "atoi s = (case s of
       [] \<Rightarrow> (0, False)
     | c # r \<Rightarrow>
         if c = CHR ''-'' then
           (case unsigned_dec r of None \<Rightarrow> (0, False) | Some n \<Rightarrow> clamp_int (- int n))
         else if c = CHR ''+'' then
           (case unsigned_dec r of None \<Rightarrow> (0, False) | Some n \<Rightarrow> clamp_int (int n))
         else (case unsigned_dec s of None \<Rightarrow> (0, False) | Some n \<Rightarrow> clamp_int (int n)))"

section \<open>Facts\<close>

lemma lower_char_idem [simp]: "lower_char (lower_char c) = lower_char c"
  by (auto simp: lower_char_def upper_A_Z_def)

lemma to_lower_idem [simp]: "to_lower (to_lower s) = to_lower s"
  by (simp add: to_lower_def comp_def)

lemma to_lower_eq_Nil [simp]: "to_lower s = [] \<longleftrightarrow> s = []"
  by (simp add: to_lower_def)

lemma to_lower_Nil [simp]: "to_lower [] = []"
  by (simp add: to_lower_def)

lemma equal_fold_refl [simp]: "equal_fold s s"
  by (simp add: equal_fold_def)

lemma has_prefix_append [simp]: "has_prefix (p @ s) p"
  by (simp add: has_prefix_def)

lemma has_suffix_append [simp]: "has_suffix (s @ p) p"
  by (simp add: has_suffix_def has_prefix_def)

lemma has_prefixD: "has_prefix s p \<Longrightarrow> \<exists>r. s = p @ r"
  by (metis append_take_drop_id has_prefix_def)

lemma has_suffixD: "has_suffix s p \<Longrightarrow> \<exists>r. s = r @ p"
  by (metis has_prefixD has_suffix_def rev_append rev_rev_ident)

lemma trim_suffix_append [simp]: "trim_suffix (s @ p) p = s"
  by (simp add: trim_suffix_def)

lemma split_on_not_Nil [simp]: "split_on c s \<noteq> []"
  by (induction s) (auto split: list.splits)

lemma split_on_Cons_neq:
  "x \<noteq> c \<Longrightarrow> split_on c (x # xs) = (x # hd (split_on c xs)) # tl (split_on c xs)"
  by (cases "split_on c xs") auto

lemma join_Cons: "ys \<noteq> [] \<Longrightarrow> join sep (x # ys) = x @ sep @ join sep ys"
  by (cases ys) auto

lemma join_head: "join sep ((x # y) # ys) = x # join sep (y # ys)"
  by (cases ys) auto

lemma join_split_on [simp]: "join [c] (split_on c s) = s"
proof (induction s)
  case Nil
  then show ?case by simp
next
  case (Cons x s)
  show ?case
  proof (cases "x = c")
    case True
    with Cons show ?thesis by (simp add: join_Cons)
  next
    case False
    with Cons show ?thesis by (cases "split_on c s") (auto simp: join_head)
  qed
qed

lemma split_on_no_sep: "l \<in> set (split_on c s) \<Longrightarrow> c \<notin> set l"
  by (induction s arbitrary: l) (auto split: if_splits list.splits)

lemma split_on_id: "c \<notin> set s \<Longrightarrow> split_on c s = [s]"
  by (induction s) auto

lemma split_on_append: "c \<notin> set s \<Longrightarrow> split_on c (s @ c # t) = s # split_on c t"
  by (induction s) auto

lemma split_join:
  assumes "ls \<noteq> []" and "\<forall>l \<in> set ls. c \<notin> set l"
  shows "split_on c (join [c] ls) = ls"
  using assms
proof (induction ls)
  case Nil
  then show ?case by simp
next
  case (Cons x ls)
  then show ?case
    by (cases ls) (auto simp: split_on_id split_on_append)
qed

lemma split_n_two: "c \<notin> set a \<Longrightarrow> split_n c 2 (a @ c # b) = [a, b]"
proof -
  assume a: "c \<notin> set a"
  then have "takeWhile (\<lambda>x. x \<noteq> c) (a @ c # b) = a"
    by (induction a) auto
  moreover have "dropWhile (\<lambda>x. x \<noteq> c) (a @ c # b) = c # b"
    using a by (induction a) auto
  ultimately show ?thesis by (simp add: numeral_2_eq_2)
qed

lemma split_n_length: "length (split_n c n s) \<le> n"
  by (induction c n s rule: split_n.induct) auto

lemma cut_no [simp]: "c \<notin> set s \<Longrightarrow> cut c s = (s, [], False)"
  by (simp add: cut_def)

lemma cut_append: "c \<notin> set a \<Longrightarrow> cut c (a @ c # b) = (a, b, True)"
proof -
  assume a: "c \<notin> set a"
  then have "takeWhile (\<lambda>x. x \<noteq> c) (a @ c # b) = a"
    by (induction a) auto
  moreover have "dropWhile (\<lambda>x. x \<noteq> c) (a @ c # b) = c # b"
    using a by (induction a) auto
  ultimately show ?thesis by (simp add: cut_def)
qed

lemma of_char_digit_char [simp]: "d < 10 \<Longrightarrow> (of_char (digit_char d) :: nat) = 48 + d"
  by (simp add: digit_char_def)

lemma is_digit_digit_char [simp]: "d < 10 \<Longrightarrow> is_digit (digit_char d)"
  by (simp add: is_digit_def)

lemma digit_val_digit_char [simp]: "d < 10 \<Longrightarrow> digit_val (digit_char d) = d"
  by (simp add: digit_val_def)

lemma digits_val_snoc: "digits_val (s @ [c]) = 10 * digits_val s + digit_val c"
  by (simp add: digits_val_def)

lemma digits_val_single [simp]: "digits_val [c] = digit_val c"
  by (simp add: digits_val_def)

lemma nat_digits_nonempty [simp]: "nat_digits n \<noteq> []"
  by (subst nat_digits.simps) simp

lemma nat_digits_all_digit [simp]: "list_all is_digit (nat_digits n)"
proof (induction n rule: nat_digits.induct)
  case (1 n)
  then show ?case by (subst nat_digits.simps) simp
qed

lemma digits_val_nat_digits [simp]: "digits_val (nat_digits n) = n"
proof (induction n rule: nat_digits.induct)
  case (1 n)
  then show ?case by (subst nat_digits.simps) (simp add: digits_val_snoc)
qed

lemma nat_digits_is_digit: "c \<in> set (nat_digits n) \<Longrightarrow> is_digit c"
  using nat_digits_all_digit [of n] by (simp add: list_all_iff)

lemma unsigned_dec_nat_digits [simp]: "unsigned_dec (nat_digits n) = Some n"
  by (simp add: unsigned_dec_def)

lemma is_digit_not_sign: "is_digit c \<Longrightarrow> c \<noteq> CHR ''-'' \<and> c \<noteq> CHR ''+''"
  by (auto simp: is_digit_def)

lemma is_digit_not_space: "is_digit c \<Longrightarrow> \<not> is_space c"
  by (auto simp: is_digit_def is_space_def)

lemma atoi_nat_digits: "int n \<le> int_max \<Longrightarrow> atoi (nat_digits n) = (int n, True)"
proof -
  assume n: "int n \<le> int_max"
  obtain c r where cr: "nat_digits n = c # r"
    by (meson list.exhaust nat_digits_nonempty)
  then have "is_digit c" using nat_digits_is_digit [of c n] by simp
  then have "c \<noteq> CHR ''-''" and "c \<noteq> CHR ''+''" using is_digit_not_sign by auto
  moreover have "unsigned_dec (c # r) = Some n" using cr unsigned_dec_nat_digits by metis
  ultimately show ?thesis
    using n by (simp add: atoi_def cr clamp_int_def int_min_def)
qed

lemma atoi_itoa:
  assumes "int_min \<le> i" and "i \<le> int_max"
  shows "atoi (itoa i) = (i, True)"
proof (cases "i < 0")
  case True
  then show ?thesis using assms
    by (simp add: atoi_def itoa_def clamp_int_def)
next
  case False
  then show ?thesis using assms
    by (simp add: itoa_def atoi_nat_digits)
qed

lemma atoi_range: "int_min \<le> fst (atoi s) \<and> fst (atoi s) \<le> int_max"
  by (auto simp: atoi_def clamp_int_def int_min_def int_max_def split: list.splits option.splits)

lemma nat_digits_no_space: "c \<in> set (nat_digits n) \<Longrightarrow> \<not> is_space c"
  by (rule is_digit_not_space [OF nat_digits_is_digit])

lemma itoa_no_space: "c \<in> set (itoa i) \<Longrightarrow> \<not> is_space c"
  by (cases "i < 0") (auto simp: itoa_def nat_digits_no_space, simp add: is_space_def)

lemma trim_left_id: "s = [] \<or> \<not> is_space (hd s) \<Longrightarrow> trim_left s = s"
  by (cases s) (auto simp: trim_left_def)

lemma trim_left_no_space: "\<forall>c \<in> set s. \<not> is_space c \<Longrightarrow> trim_left s = s"
  by (cases s) (auto simp: trim_left_def)

lemma trim_space_id: "\<forall>c \<in> set s. \<not> is_space c \<Longrightarrow> trim_space s = s"
  by (simp add: trim_space_def trim_left_no_space)

lemma trim_space_Nil [simp]: "trim_space [] = []"
  by (simp add: trim_space_def trim_left_def)

lemma fields_acc_no_space:
  "\<forall>c \<in> set w. \<not> is_space c \<Longrightarrow> f \<in> set (fields_acc w s) \<Longrightarrow> c \<in> set f \<Longrightarrow> \<not> is_space c"
proof (induction s arbitrary: w)
  case Nil
  then show ?case by (simp split: if_splits)
next
  case (Cons x s)
  show ?case
  proof (cases "is_space x")
    case True
    then show ?thesis using Cons.prems Cons.IH [of "[]"] by (simp split: if_splits) blast
  next
    case False
    then have "\<forall>c \<in> set (w @ [x]). \<not> is_space c" using Cons.prems(1) by simp
    with False show ?thesis using Cons.prems(2,3) Cons.IH [of "w @ [x]"] by simp
  qed
qed

lemma fields_no_space: "f \<in> set (fields s) \<Longrightarrow> c \<in> set f \<Longrightarrow> \<not> is_space c"
  using fields_acc_no_space [of "[]"] by (simp add: fields_def)

lemma fields_acc_nonempty: "f \<in> set (fields_acc w s) \<Longrightarrow> f \<noteq> []"
proof (induction s arbitrary: w)
  case Nil
  then show ?case by (simp split: if_splits)
next
  case (Cons x s)
  then show ?case by (cases "is_space x") (auto split: if_splits)
qed

lemma fields_nonempty: "f \<in> set (fields s) \<Longrightarrow> f \<noteq> []"
  by (simp add: fields_def fields_acc_nonempty)

lemma fields_acc_word:
  "\<forall>c \<in> set v. \<not> is_space c \<Longrightarrow> fields_acc w (v @ s) = fields_acc (w @ v) s"
  by (induction v arbitrary: w) auto

end
