(* ===== verification/Sip_Types.thy ===== *)
theory Sip_Types
  imports Go_Strings
begin

text \<open>
  \<open>pkg/sip/types.go\<close>: SIP addresses, transports, headers and their mapping to participant
  attributes and back.

  The SIP library's messages are represented by the fields the service reads: a URI with its
  parameters, a header with a name and a value. An IPv4 address is its 32 bits; an IPv6 address
  keeps its bits and its canonical text, which stands for \<open>netip.Addr.String\<close>. A Go map that is
  ranged over is the list of its entries in the order the loop visits them.
\<close>

section \<open>Addresses\<close>

datatype addr = NoAddr | IPv4 u32 | IPv6 "128 word" string

record addr_port =
  ap_addr :: addr
  ap_port :: u16

definition addr_valid :: "addr \<Rightarrow> bool" where
  "addr_valid a = (a \<noteq> NoAddr)"

definition ip4_byte :: "u32 \<Rightarrow> nat \<Rightarrow> nat" where
  "ip4_byte w i = (unat w div 256 ^ (3 - i)) mod 256"

definition addr_string :: "addr \<Rightarrow> string" where
  "addr_string a = (case a of
       NoAddr \<Rightarrow> ''invalid IP''
     | IPv4 w \<Rightarrow> join ''.'' (map (\<lambda>i. nat_digits (ip4_byte w i)) [0, 1, 2, 3])
     | IPv6 w t \<Rightarrow> t)"

text \<open>\<open>netip.Addr.IsPrivate\<close>: 10/8, 172.16/12, 192.168/16 and fc00::/7.\<close>

definition addr_is_private :: "addr \<Rightarrow> bool" where
  "addr_is_private a = (case a of
       NoAddr \<Rightarrow> False
     | IPv4 w \<Rightarrow> ip4_byte w 0 = 10
         \<or> (ip4_byte w 0 = 172 \<and> 16 \<le> ip4_byte w 1 \<and> ip4_byte w 1 \<le> 31)
         \<or> (ip4_byte w 0 = 192 \<and> ip4_byte w 1 = 168)
     | IPv6 w t \<Rightarrow> unat w div 2 ^ 121 = 126)"

text \<open>\<open>net.SplitHostPort\<close>.\<close>

fun index_of :: "char \<Rightarrow> string \<Rightarrow> nat option" where
  "index_of c [] = None"
| "index_of c (x # xs) = (if x = c then Some 0 else map_option Suc (index_of c xs))"

definition last_index_of :: "char \<Rightarrow> string \<Rightarrow> nat option" where
  "last_index_of c s = map_option (\<lambda>i. length s - 1 - i) (index_of c (rev s))"

definition split_host_port :: "string \<Rightarrow> (string \<times> string) option" where
  "split_host_port hp = (case last_index_of CHR '':'' hp of
       None \<Rightarrow> None
     | Some i \<Rightarrow>
         if hp \<noteq> [] \<and> hd hp = CHR ''['' then
           (case index_of CHR '']'' hp of
              None \<Rightarrow> None
            | Some e \<Rightarrow>
                if e + 1 = i \<and> CHR ''['' \<notin> set (drop 1 hp) \<and> CHR '']'' \<notin> set (drop (e + 1) hp)
                then Some (take (e - 1) (drop 1 hp), drop (i + 1) hp)
                else None)
         else if CHR '':'' \<in> set (take i hp) \<or> CHR ''['' \<in> set hp \<or> CHR '']'' \<in> set hp then None
         else Some (take i hp, drop (i + 1) hp))"

section \<open>Transports and URIs\<close>

type_synonym transport = string

definition TransportUDP :: transport where "TransportUDP = ''udp''"
definition TransportTCP :: transport where "TransportTCP = ''tcp''"
definition TransportTLS :: transport where "TransportTLS = ''tls''"

lemmas transport_defs = TransportUDP_def TransportTCP_def TransportTLS_def

datatype lk_transport = SIP_TRANSPORT_AUTO | SIP_TRANSPORT_UDP | SIP_TRANSPORT_TCP | SIP_TRANSPORT_TLS

definition TransportFrom :: "lk_transport \<Rightarrow> transport" where
  "TransportFrom t = (case t of
       SIP_TRANSPORT_UDP \<Rightarrow> TransportUDP
     | SIP_TRANSPORT_TCP \<Rightarrow> TransportTCP
     | SIP_TRANSPORT_TLS \<Rightarrow> TransportTLS
     | _ \<Rightarrow> [])"

definition SIPTransportFrom :: "transport \<Rightarrow> lk_transport" where
  "SIPTransportFrom t =
     (if t = TransportUDP then SIP_TRANSPORT_UDP
      else if t = TransportTCP then SIP_TRANSPORT_TCP
      else if t = TransportTLS then SIP_TRANSPORT_TLS
      else SIP_TRANSPORT_AUTO)"

type_synonym params = "string \<rightharpoonup> string"

definition param :: "params \<Rightarrow> string \<Rightarrow> string" where
  "param p k = (case p k of None \<Rightarrow> [] | Some v \<Rightarrow> v)"

record sip_uri =
  su_user :: string
  su_host :: string
  su_port :: int
  su_params :: params

definition empty_uri :: sip_uri where
  "empty_uri = \<lparr>su_user = [], su_host = [], su_port = 0, su_params = Map.empty\<rparr>"

record uri =
  u_user :: string
  u_host :: string
  u_addr :: addr_port
  u_transport :: transport

definition Normalize :: "uri \<Rightarrow> uri" where
  "Normalize u = (case split_host_port (u_host u) of
       None \<Rightarrow> u
     | Some (a, sport) \<Rightarrow>
         (case atoi sport of
            (port, ok) \<Rightarrow>
              if ok then u\<lparr>u_host := a, u_addr := (u_addr u)\<lparr>ap_port := word_of_int port\<rparr>\<rparr>
              else u))"

definition transportFromURI :: "sip_uri \<Rightarrow> transport" where
  "transportFromURI u = (let tr = param (su_params u) ''transport'' in
     if tr \<noteq> [] then to_lower tr else [])"

definition ConvertURI :: "sip_uri \<Rightarrow> uri" where
  "ConvertURI u =
     (let v = \<lparr>u_user = su_user u, u_host = su_host u,
               u_addr = \<lparr>ap_addr = NoAddr, ap_port = word_of_int (su_port u)\<rparr>,
               u_transport = TransportUDP\<rparr>;
          tr = transportFromURI u;
          w = (if tr \<noteq> [] then v\<lparr>u_transport := tr\<rparr> else v)
      in Normalize w)"

definition CreateURIFromUserAndAddress :: "string \<Rightarrow> string \<Rightarrow> transport \<Rightarrow> uri" where
  "CreateURIFromUserAndAddress user address transport =
     Normalize \<lparr>u_user = user, u_host = address,
                u_addr = \<lparr>ap_addr = NoAddr, ap_port = 0\<rparr>, u_transport = transport\<rparr>"

definition GetHost :: "uri \<Rightarrow> string" where
  "GetHost u = (if u_host u = [] then addr_string (ap_addr (u_addr u)) else u_host u)"

definition GetPort :: "uri \<Rightarrow> int" where
  "GetPort u = (let port = uint (ap_port (u_addr u)) in
     if port = 0 then (if u_transport u = TransportTLS then 5061 else 5060) else port)"

definition GetPortOrNone :: "uri \<Rightarrow> int" where
  "GetPortOrNone u = (if GetPort u = 5060 then 0 else GetPort u)"

definition GetHostPort :: "uri \<Rightarrow> string" where
  "GetHostPort u = GetHost u @ '':'' @ itoa (GetPort u)"

definition GetDest :: "uri \<Rightarrow> string" where
  "GetDest u = (if addr_valid (ap_addr (u_addr u)) then addr_string (ap_addr (u_addr u)) else u_host u)
               @ '':'' @ itoa (GetPort u)"

definition GetDestinationURI :: "uri \<Rightarrow> sip_uri" where
  "GetDestinationURI u =
     \<lparr>su_user = u_user u, su_host = GetHost u, su_port = uint (ap_port (u_addr u)),
      su_params = Map.empty\<rparr>"

definition GetURI :: "uri \<Rightarrow> sip_uri" where
  "GetURI u = (let su = GetDestinationURI u in
     if u_transport u \<noteq> [] then su\<lparr>su_params := [''transport'' \<mapsto> u_transport u]\<rparr> else su)"

definition GetContactURI :: "uri \<Rightarrow> sip_uri" where
  "GetContactURI u = (let su = GetURI u in
     if u_transport u = TransportUDP \<or> u_transport u = TransportTCP then
       (if addr_valid (ap_addr (u_addr u)) then su\<lparr>su_host := addr_string (ap_addr (u_addr u))\<rparr> else su)
     else su)"

record lk_uri =
  lk_user :: string
  lk_host :: string
  lk_ip :: string
  lk_port :: u32
  lk_transport :: lk_transport

definition URI_ToSIPUri :: "uri \<Rightarrow> lk_uri" where
  "URI_ToSIPUri u =
     \<lparr>lk_user = u_user u, lk_host = GetHost u,
      lk_ip = (if addr_valid (ap_addr (u_addr u)) then addr_string (ap_addr (u_addr u)) else []),
      lk_port = word_of_int (GetPort u), lk_transport = SIPTransportFrom (u_transport u)\<rparr>"

definition ToSIPUri :: "string \<Rightarrow> sip_uri \<Rightarrow> lk_uri" where
  "ToSIPUri ip u =
     \<lparr>lk_user = su_user u, lk_host = su_host u, lk_ip = ip, lk_port = word_of_int (su_port u),
      lk_transport = SIPTransportFrom (param (su_params u) ''transport'')\<rparr>"

section \<open>Headers and attributes\<close>

record header =
  h_name :: string
  h_value :: string

type_synonym str_map = "string \<rightharpoonup> string"
type_synonym str_entries = "(string \<times> string) list"

fun GetHeader :: "header list \<Rightarrow> string \<Rightarrow> header option" where
  "GetHeader [] name = None"
| "GetHeader (kv # h) name =
     (if to_lower (h_name kv) = to_lower name then Some kv else GetHeader h name)"

datatype header_options = SIP_NO_HEADERS | SIP_X_HEADERS | SIP_ALL_HEADERS

definition map_all_header :: "string \<Rightarrow> header_options \<Rightarrow> header \<Rightarrow> str_map \<Rightarrow> str_map" where
  "map_all_header prefix opts h attrs =
     (let name = to_lower (h_name h) in
      if name = [] then attrs
      else if opts = SIP_X_HEADERS \<and> \<not> has_prefix name ''x-'' then attrs
      else attrs(prefix @ name \<mapsto> h_value h))"

definition map_named_header :: "header list \<Rightarrow> string \<times> string \<Rightarrow> str_map \<Rightarrow> str_map" where
  "map_named_header headers e attrs = (case GetHeader headers (fst e) of
       None \<Rightarrow> attrs
     | Some h \<Rightarrow> attrs(snd e \<mapsto> h_value h))"

text \<open>
  The dialog's remote headers, remote tag and Call-ID, when the call passes its signaling object.
  \<open>h_prefix\<close> and the two attribute names are constants of the LiveKit protocol package.
\<close>

record signaling_view =
  sv_headers :: "header list"
  sv_tag :: string
  sv_call_id :: string

record attr_names =
  an_header_prefix :: string
  an_call_tag :: string
  an_call_id_full :: string

definition HeadersToAttrs ::
  "attr_names \<Rightarrow> str_entries \<Rightarrow> str_map option \<Rightarrow> str_entries \<Rightarrow> header_options
    \<Rightarrow> signaling_view option \<Rightarrow> header list \<Rightarrow> str_map" where
  "HeadersToAttrs an headerToAttr attrs0 hdrToAttr opts c headers0 =
     (let attrs1 = (case attrs0 of None \<Rightarrow> Map.empty | Some m \<Rightarrow> m);
          headers = (case c of None \<Rightarrow> headers0 | Some sv \<Rightarrow> sv_headers sv);
          attrs2 = (if opts \<noteq> SIP_NO_HEADERS
                    then fold (map_all_header (an_header_prefix an) opts) headers attrs1 else attrs1);
          attrs3 = fold (map_named_header headers) headerToAttr attrs2;
          attrs4 = fold (map_named_header headers) hdrToAttr attrs3
      in (case c of
            None \<Rightarrow> attrs4
          | Some sv \<Rightarrow>
              (let attrs5 = (if sv_tag sv \<noteq> [] then attrs4(an_call_tag an \<mapsto> sv_tag sv) else attrs4)
               in if sv_call_id sv \<noteq> [] then attrs5(an_call_id_full an \<mapsto> sv_call_id sv) else attrs5)))"

definition attr_to_header :: "str_map \<Rightarrow> string \<times> string \<Rightarrow> str_map \<Rightarrow> str_map" where
  "attr_to_header attrs e headers = (case attrs (fst e) of
       None \<Rightarrow> headers
     | Some v \<Rightarrow> headers(snd e \<mapsto> v))"

definition AttrsToHeaders :: "str_map \<Rightarrow> str_entries \<Rightarrow> str_map option \<Rightarrow> str_map option" where
  "AttrsToHeaders attrs attrToHdr headers =
     (if attrToHdr = [] then headers
      else Some (fold (attr_to_header attrs) attrToHdr
                   (case headers of None \<Rightarrow> Map.empty | Some m \<Rightarrow> m)))"

section \<open>Dialog tags\<close>

record to_header =
  to_uri :: sip_uri
  to_params :: params

definition getTagFrom :: "params \<Rightarrow> string option" where
  "getTagFrom p = p ''tag''"

definition GetLocalTagUAS :: "to_header option \<Rightarrow> string + string" where
  "GetLocalTagUAS to = (case to of
       None \<Rightarrow> Inl ''no To on Request''
     | Some h \<Rightarrow> (case getTagFrom (to_params h) of
         None \<Rightarrow> Inl ''no tag in To on Request''
       | Some tag \<Rightarrow> Inr tag))"

datatype lk_encryption = ENCRYPT_DISABLE | ENCRYPT_ALLOW | ENCRYPT_REQUIRE | ENCRYPT_OTHER

datatype encryption = EncryptionNone | EncryptionAllow | EncryptionRequire

definition sdpEncryption :: "lk_encryption \<Rightarrow> string + encryption" where
  "sdpEncryption e = (case e of
       ENCRYPT_DISABLE \<Rightarrow> Inr EncryptionNone
     | ENCRYPT_ALLOW \<Rightarrow> Inr EncryptionAllow
     | ENCRYPT_REQUIRE \<Rightarrow> Inr EncryptionRequire
     | ENCRYPT_OTHER \<Rightarrow> Inl ''invalid SIP media encryption type'')"

text \<open>\<open>r\<close> is the result of \<open>rand.Float64\<close>.\<close>

definition SelectValue :: "'a \<Rightarrow> 'a \<Rightarrow> rat \<Rightarrow> rat \<Rightarrow> 'a" where
  "SelectValue thn els probElse r =
     (if probElse \<le> 0 then thn else if r < probElse then thn else els)"

definition SelectValueBool :: "bool \<Rightarrow> rat \<Rightarrow> rat \<Rightarrow> bool" where
  "SelectValueBool thn probElse r = SelectValue thn (\<not> thn) probElse r"

section \<open>Facts\<close>

lemma index_of_None: "index_of c s = None \<longleftrightarrow> c \<notin> set s"
  by (induction s) auto

lemma index_of_append: "c \<notin> set a \<Longrightarrow> index_of c (a @ c # b) = Some (length a)"
  by (induction a) auto

lemma last_index_of_append: "c \<notin> set b \<Longrightarrow> last_index_of c (a @ c # b) = Some (length a)"
  using index_of_append [of c "rev b" "rev a"] by (simp add: last_index_of_def)

lemma split_host_port_plain:
  assumes "\<forall>c \<in> set h. c \<noteq> CHR '':'' \<and> c \<noteq> CHR ''['' \<and> c \<noteq> CHR '']''"
    and "\<forall>c \<in> set p. c \<noteq> CHR '':'' \<and> c \<noteq> CHR ''['' \<and> c \<noteq> CHR '']''"
  shows "split_host_port (h @ '':'' @ p) = Some (h, p)"
proof -
  have "last_index_of CHR '':'' (h @ CHR '':'' # p) = Some (length h)"
    using assms(2) by (intro last_index_of_append) auto
  moreover have "hd (h @ CHR '':'' # p) \<noteq> CHR ''[''"
    using assms(1) by (cases h) auto
  ultimately show ?thesis
    using assms by (auto simp: split_host_port_def)
qed

lemma nat_digits_plain:
  "c \<in> set (nat_digits n) \<Longrightarrow> c \<noteq> CHR '':'' \<and> c \<noteq> CHR ''['' \<and> c \<noteq> CHR '']''"
  using nat_digits_is_digit [of c n] by (auto simp: is_digit_def)

lemma split_host_port_itoa:
  assumes "\<forall>c \<in> set h. c \<noteq> CHR '':'' \<and> c \<noteq> CHR ''['' \<and> c \<noteq> CHR '']''"
  shows "split_host_port (h @ '':'' @ nat_digits n) = Some (h, nat_digits n)"
  using assms nat_digits_plain by (intro split_host_port_plain) blast+

lemma Normalize_plain:
  assumes "\<forall>c \<in> set h. c \<noteq> CHR '':'' \<and> c \<noteq> CHR ''['' \<and> c \<noteq> CHR '']''"
    and "int n \<le> int_max" and "u_host u = h @ '':'' @ nat_digits n"
  shows "Normalize u = u\<lparr>u_host := h, u_addr := (u_addr u)\<lparr>ap_port := word_of_nat n\<rparr>\<rparr>"
  using assms(2,3) split_host_port_itoa [OF assms(1), of n]
  by (simp add: Normalize_def atoi_nat_digits)

lemma Normalize_no_colon:
  assumes "CHR '':'' \<notin> set (u_host u)"
  shows "Normalize u = u"
proof -
  have "last_index_of CHR '':'' (u_host u) = None"
    using assms by (simp add: last_index_of_def index_of_None)
  then show ?thesis by (simp add: Normalize_def split_host_port_def)
qed

lemma Normalize_keeps [simp]:
  "u_user (Normalize u) = u_user u" "u_transport (Normalize u) = u_transport u"
  "ap_addr (u_addr (Normalize u)) = ap_addr (u_addr u)"
  by (auto simp: Normalize_def split: option.splits prod.splits)

lemma GetPort_range: "0 < GetPort u \<and> GetPort u < 65536"
proof -
  have "0 \<le> uint (ap_port (u_addr u))" and "uint (ap_port (u_addr u)) < 65536"
    using uint_lt2p [of "ap_port (u_addr u)"] by auto
  then show ?thesis unfolding GetPort_def Let_def by (simp add: less_le)
qed

lemma transport_roundtrip:
  "TransportFrom (SIPTransportFrom t) = (if t = TransportUDP \<or> t = TransportTCP \<or> t = TransportTLS then t else [])"
  by (auto simp: SIPTransportFrom_def TransportFrom_def)

lemma GetHeader_Some: "GetHeader h n = Some kv \<Longrightarrow> kv \<in> set h \<and> to_lower (h_name kv) = to_lower n"
  by (induction h) (auto split: if_splits)

lemma GetHeader_None: "GetHeader h n = None \<longleftrightarrow> (\<forall>kv \<in> set h. to_lower (h_name kv) \<noteq> to_lower n)"
  by (induction h) auto

lemma GetHeader_fold: "to_lower n = to_lower m \<Longrightarrow> GetHeader h n = GetHeader h m"
  by (induction h) auto

text \<open>
  A key is written by a list of updates only by the entries that name it, and the last such entry
  wins.
\<close>

lemma fold_named_other:
  "\<forall>e \<in> set es. snd e \<noteq> k \<Longrightarrow> fold (map_named_header hs) es m k = m k"
  by (induction es arbitrary: m) (auto simp: map_named_header_def split: option.splits)

lemma fold_named_snoc:
  assumes "GetHeader hs hdr = Some h" and "\<forall>e \<in> set es2. snd e \<noteq> k"
  shows "fold (map_named_header hs) (es1 @ (hdr, k) # es2) m k = Some (h_value h)"
  using assms by (simp add: fold_named_other map_named_header_def)

lemma fold_attr_other:
  "\<forall>e \<in> set es. snd e \<noteq> k \<Longrightarrow> fold (attr_to_header attrs) es m k = m k"
  by (induction es arbitrary: m) (auto simp: attr_to_header_def split: option.splits)

lemma fold_attr_hit:
  assumes "distinct (map snd es)" and "(a, k) \<in> set es" and "attrs a = Some v"
  shows "fold (attr_to_header attrs) es m k = Some v"
  using assms
proof (induction es arbitrary: m)
  case Nil
  then show ?case by simp
next
  case (Cons e es)
  show ?case
  proof (cases "e = (a, k)")
    case True
    then have "\<forall>e' \<in> set es. snd e' \<noteq> k" using Cons.prems(1) by force
    moreover have "fold (attr_to_header attrs) (e # es) m k
        = fold (attr_to_header attrs) es (attr_to_header attrs e m) k" by simp
    ultimately show ?thesis using True Cons.prems(3)
      by (simp only: fold_attr_other) (simp add: attr_to_header_def)
  next
    case False
    with Cons show ?thesis by simp
  qed
qed

end
