(* ===== verification/Sip_Protocol.thy ===== *)
theory Sip_Protocol
  imports Sip_Types
begin

text \<open>
  \<open>pkg/sip/protocol.go\<close> (with \<open>pkg/sip/rpc.go\<close>): status names, the transport of a request, contact
  URIs, NOTIFY and Reason parsing, the outcome of a REFER, the mapping between psrpc error codes and
  SIP statuses, the filter of the GetRemoteHeaders RPC.

  psrpc, the LiveKit status type and their conversion are other modules: an error is represented by
  its code, and the conversion of a SIP status to a psrpc code is an argument.
\<close>

section \<open>Status names\<close>

definition statusNamesMap :: "(int \<times> string) list" where
  "statusNamesMap =
    [(100, ''Trying''), (180, ''Ringing''), (181, ''CallIsForwarded''), (182, ''Queued''),
     (183, ''SessionInProgress''), (200, ''OK''), (202, ''Accepted''),
     (301, ''MovedPermanently''), (302, ''MovedTemporarily''), (305, ''UseProxy''),
     (400, ''BadRequest''), (401, ''Unauthorized''), (402, ''PaymentRequired''), (403, ''Forbidden''),
     (404, ''NotFound''), (405, ''MethodNotAllowed''), (406, ''NotAcceptable''),
     (407, ''ProxyAuthRequired''), (408, ''RequestTimeout''), (409, ''Conflict''), (410, ''Gone''),
     (413, ''RequestEntityTooLarge''), (414, ''RequestURITooLong''), (415, ''UnsupportedMediaType''),
     (416, ''RequestedRangeNotSatisfiable''), (420, ''BadExtension''), (421, ''ExtensionRequired''),
     (423, ''IntervalToBrief''), (480, ''TemporarilyUnavailable''),
     (481, ''CallTransactionDoesNotExists''), (482, ''LoopDetected''), (483, ''TooManyHops''),
     (484, ''AddressIncomplete''), (485, ''Ambiguous''), (486, ''BusyHere''),
     (487, ''RequestTerminated''), (488, ''NotAcceptableHere''), (500, ''InternalServerError''),
     (501, ''NotImplemented''), (502, ''BadGateway''), (503, ''ServiceUnavailable''),
     (504, ''GatewayTimeout''), (505, ''VersionNotSupported''), (513, ''MessageTooLarge''),
     (600, ''GlobalBusyEverywhere''), (603, ''GlobalDecline''), (604, ''GlobalDoesNotExistAnywhere''),
     (606, ''GlobalNotAcceptable'')]"

definition sipStatus :: "int \<Rightarrow> string" where
  "sipStatus code = (case map_of statusNamesMap code of
       Some name \<Rightarrow> name
     | None \<Rightarrow> ''Status'' @ itoa code)"

definition statusName :: "int \<Rightarrow> string" where
  "statusName status = (case map_of statusNamesMap status of
       Some name \<Rightarrow> itoa status @ ''-'' @ name
     | None \<Rightarrow> ''status-'' @ itoa status)"

section \<open>Transports and contact addresses\<close>

text \<open>The parts of a SIP request the transport and the dialog are read from.\<close>

record via_header =
  via_transport :: string
  via_host :: string
  via_port :: int

record sip_request =
  rq_recipient :: sip_uri
  rq_to :: "to_header option"
  rq_from :: "(sip_uri \<times> params option) option"
  rq_via :: "via_header option"
  rq_call_id :: "string option"
  rq_cseq :: "u32 option"
  rq_headers :: "header list"
  rq_body :: string

definition to_transport :: "to_header \<Rightarrow> transport" where
  "to_transport to = (let tr = transportFromURI (to_uri to) in
     if tr \<noteq> [] then tr
     else let tr' = param (to_params to) ''transport'' in if tr' \<noteq> [] then to_lower tr' else [])"

definition callTransportFromReq :: "sip_request \<Rightarrow> transport" where
  "callTransportFromReq req =
     (let from_to = (case rq_to req of None \<Rightarrow> [] | Some to \<Rightarrow> to_transport to) in
      if from_to \<noteq> [] then from_to
      else (case rq_via req of None \<Rightarrow> [] | Some via \<Rightarrow> to_lower (via_transport via)))"

definition legTransportFromReq :: "sip_request \<Rightarrow> transport" where
  "legTransportFromReq req = (case rq_via req of
       Some via \<Rightarrow> to_lower (via_transport via)
     | None \<Rightarrow>
         (let tr = transportFromURI (rq_recipient req) in
          if tr \<noteq> [] then tr
          else (case rq_to req of None \<Rightarrow> [] | Some to \<Rightarrow> to_transport to)))"

record net_config =
  nc_sip_port :: int
  nc_tls_port :: "int option"
  nc_sip_hostname :: string

definition transportPort :: "net_config \<Rightarrow> transport \<Rightarrow> int" where
  "transportPort c t =
     (if t = TransportTLS then (case nc_tls_port c of Some p \<Rightarrow> p | None \<Rightarrow> nc_sip_port c)
      else nc_sip_port c)"

definition getContactURI :: "net_config \<Rightarrow> addr \<Rightarrow> transport \<Rightarrow> uri" where
  "getContactURI c ip t =
     \<lparr>u_user = [], u_host = (if t = TransportTLS then nc_sip_hostname c else []),
      u_addr = \<lparr>ap_addr = ip, ap_port = word_of_int (transportPort c t)\<rparr>, u_transport = t\<rparr>"

section \<open>Errors and statuses\<close>

datatype psrpc_code =
    PsOK | PsCanceled | PsUnknown | PsInvalidArgument | PsMalformedRequest | PsMalformedResponse
  | PsDeadlineExceeded | PsNotFound | PsNotAcceptable | PsAlreadyExists | PsPermissionDenied
  | PsResourceExhausted | PsFailedPrecondition | PsAborted | PsOutOfRange | PsUnimplemented
  | PsInternal | PsUnavailable | PsDataLoss | PsUnauthenticated | PsUpstreamServerError
  | PsUpstreamClientError | PsOther string

fun sipStatusForErrorCode :: "psrpc_code \<Rightarrow> int" where
  "sipStatusForErrorCode PsOK = 200"
| "sipStatusForErrorCode PsCanceled = 408"
| "sipStatusForErrorCode PsDeadlineExceeded = 408"
| "sipStatusForErrorCode PsUnknown = 500"
| "sipStatusForErrorCode PsMalformedResponse = 500"
| "sipStatusForErrorCode PsInternal = 500"
| "sipStatusForErrorCode PsDataLoss = 500"
| "sipStatusForErrorCode PsInvalidArgument = 400"
| "sipStatusForErrorCode PsMalformedRequest = 400"
| "sipStatusForErrorCode PsNotFound = 404"
| "sipStatusForErrorCode PsNotAcceptable = 406"
| "sipStatusForErrorCode PsAlreadyExists = 409"
| "sipStatusForErrorCode PsAborted = 409"
| "sipStatusForErrorCode PsPermissionDenied = 403"
| "sipStatusForErrorCode PsResourceExhausted = 480"
| "sipStatusForErrorCode PsFailedPrecondition = 481"
| "sipStatusForErrorCode PsOutOfRange = 416"
| "sipStatusForErrorCode PsUnimplemented = 501"
| "sipStatusForErrorCode PsUnavailable = 503"
| "sipStatusForErrorCode PsUnauthenticated = 401"
| "sipStatusForErrorCode PsUpstreamServerError = 502"
| "sipStatusForErrorCode PsUpstreamClientError = 480"
| "sipStatusForErrorCode (PsOther _) = 500"

text \<open>A SIP status as an error value (\<open>livekit.SIPStatus\<close>).\<close>

record sip_status =
  st_code :: int
  st_status :: string

text \<open>
  The errors the signaling code distinguishes: a psrpc error with its code (and the SIP status it
  wraps, if any), or any other error.
\<close>

datatype err = PsErr psrpc_code string "sip_status option" | OtherErr string

fun err_msg :: "err \<Rightarrow> string" where
  "err_msg (PsErr c m st) = m"
| "err_msg (OtherErr m) = m"

definition sipCodeAndMessageFromError :: "err option \<Rightarrow> int \<times> string" where
  "sipCodeAndMessageFromError e = (case e of
       None \<Rightarrow> (200, ''success'')
     | Some (PsErr c m st) \<Rightarrow> (sipStatusForErrorCode c, m)
     | Some (OtherErr m) \<Rightarrow> (500, m))"

section \<open>NOTIFY\<close>

definition parseNotifyBody :: "string \<Rightarrow> err + (int \<times> string)" where
  "parseNotifyBody body =
     (let v = split_n CHR '' '' 3 body in
      if length v < 2
      then Inl (PsErr PsInvalidArgument ''invalid notify body: not enough tokens'' None)
      else if to_upper (v ! 0) \<noteq> ''SIP/2.0''
      then Inl (PsErr PsInvalidArgument ''invalid notify body: wrong prefix or SIP version'' None)
      else (case atoi (v ! 1) of
         (c, ok) \<Rightarrow>
           if \<not> ok then Inl (PsErr PsInvalidArgument ''invalid syntax'' None)
           else if length v < 3 then Inr (c, [])
           else (let reason = v ! 2 in
                 Inr (c, case index_of (CHR 0x0A) reason of
                           None \<Rightarrow> reason
                         | Some i \<Rightarrow> trim_suffix (take i reason) [CHR 0x0D]))))"

text \<open>
  The regular expression \<open>^refer(;id=(\d+))?$\<close>: no match, or the digits of the id (empty when the
  group did not participate).
\<close>

definition referId :: "string \<Rightarrow> string option" where
  "referId v =
     (if v = ''refer'' then Some []
      else if has_prefix v ''refer;id='' \<and> drop 9 v \<noteq> [] \<and> list_all is_digit (drop 9 v)
      then Some (drop 9 v) else None)"

text \<open>
  \<open>strconv.ParseUint(s, 10, 32)\<close> with its error dropped: 0 on a syntax error, the largest 32-bit
  value when out of range.
\<close>

definition parse_uint32_or :: "string \<Rightarrow> u32" where
  "parse_uint32_or s = (case unsigned_dec s of
       None \<Rightarrow> 0
     | Some n \<Rightarrow> if n < 2 ^ 32 then word_of_nat n else - 1)"

datatype notify_method = REFER

definition handleNotify :: "sip_request \<Rightarrow> err + (notify_method \<times> u32 \<times> int \<times> string)" where
  "handleNotify req =
     (let event = (case GetHeader (rq_headers req) ''Event'' of
                     Some h \<Rightarrow> Some h
                   | None \<Rightarrow> GetHeader (rq_headers req) ''o'') in
      case event of
        None \<Rightarrow> Inl (PsErr PsMalformedRequest ''no event in NOTIFY request'' None)
      | Some h \<Rightarrow>
          (case referId (to_lower (h_value h)) of
             None \<Rightarrow> Inl (PsErr PsUnimplemented ''unknown event'' None)
           | Some ident \<Rightarrow>
               (case parseNotifyBody (rq_body req) of
                  Inl e \<Rightarrow> Inl e
                | Inr (status, reason) \<Rightarrow> Inr (REFER, parse_uint32_or ident, status, reason))))"

text \<open>
  What a NOTIFY says about a pending REFER: nothing (another REFER's NOTIFY, or a provisional
  status), or the result of the transfer that is sent on \<open>referDone\<close>. \<open>to_code\<close> stands for
  \<open>psrpc.GetErrorCode\<close> of the status.
\<close>

definition refer_error_code :: "(sip_status \<Rightarrow> psrpc_code) \<Rightarrow> sip_status \<Rightarrow> psrpc_code" where
  "refer_error_code to_code st =
     (let c = to_code st in
      if c = PsInternal \<or> c = PsUnavailable then
        (if st_code st < 500 \<or> st_code st \<ge> 600 then PsUpstreamClientError else PsUpstreamServerError)
      else c)"

definition handleReferNotify ::
  "(sip_status \<Rightarrow> psrpc_code) \<Rightarrow> u32 \<Rightarrow> int \<Rightarrow> string \<Rightarrow> u32 \<Rightarrow> err option option" where
  "handleReferNotify to_code cseq status reason referCseq =
     (if cseq \<noteq> 0 \<and> cseq \<noteq> referCseq then None
      else if status \<ge> 100 \<and> status < 200 then None
      else if status = 200 then Some None
      else (let st = \<lparr>st_code = status, st_status = reason\<rparr> in
            Some (Some (PsErr (refer_error_code to_code st) ''call transfer failed'' (Some st)))))"

section \<open>Reason headers\<close>

record reason_header =
  rs_type :: string
  rs_cause :: int
  rs_text :: string

definition zero_reason :: reason_header where
  "zero_reason = \<lparr>rs_type = [], rs_cause = 0, rs_text = []\<rparr>"

definition IsZero :: "reason_header \<Rightarrow> bool" where
  "IsZero r = (r = zero_reason)"

definition IsNormal :: "reason_header \<Rightarrow> bool" where
  "IsNormal r =
     (if IsZero r then True
      else if rs_type r = ''q.850'' then rs_cause r = 16
      else if rs_type r = ''x.int'' then rs_cause r = 0
      else if rs_type r = ''release_cause'' then rs_cause r = 1
      else if rs_type r = ''sip'' then rs_cause r = 200
      else False)"

definition ReasonHeader_String :: "reason_header \<Rightarrow> string" where
  "ReasonHeader_String r =
     (if IsZero r then ''<none>''
      else rs_type r @ ''-'' @ itoa (rs_cause r) @ '': '' @ rs_text r)"

text \<open>
  \<open>strconv.ParseUint(s, 0, 64)\<close>: the base from the prefix, underscores as digit separators where
  Go's \<open>underscoreOK\<close> allows them; the value and whether there was no error.
\<close>

definition hex_lower :: "char \<Rightarrow> nat" where
  "hex_lower c = of_char (lower_char c)"

definition uint_digit :: "char \<Rightarrow> nat option" where
  "uint_digit c = (if is_digit c then Some (digit_val c)
     else if 97 \<le> hex_lower c \<and> hex_lower c \<le> 122 then Some (hex_lower c - 97 + 10) else None)"

fun parse_uint_loop :: "nat \<Rightarrow> nat \<Rightarrow> string \<Rightarrow> nat \<times> bool" where
  "parse_uint_loop b n [] = (n, True)"
| "parse_uint_loop b n (c # s) =
     (if c = CHR ''_'' then parse_uint_loop b n s
      else (case uint_digit c of
          None \<Rightarrow> (0, False)
        | Some d \<Rightarrow>
            if d \<ge> b then (0, False)
            else if b * n + d \<ge> 2 ^ 64 then (2 ^ 64 - 1, False)
            else parse_uint_loop b (b * n + d) s))"

definition uint_base :: "string \<Rightarrow> nat \<times> string" where
  "uint_base s =
     (if s \<noteq> [] \<and> hd s = CHR ''0'' then
        (if length s \<ge> 3 \<and> lower_char (s ! 1) = CHR ''b'' then (2, drop 2 s)
         else if length s \<ge> 3 \<and> lower_char (s ! 1) = CHR ''o'' then (8, drop 2 s)
         else if length s \<ge> 3 \<and> lower_char (s ! 1) = CHR ''x'' then (16, drop 2 s)
         else (8, drop 1 s))
      else (10, s))"

text \<open>
  \<open>underscoreOK\<close>: an underscore stands between digits, or between the base prefix and a digit.
  The scan keeps the class of the previous byte: \<open>^\<close> the start, \<open>0\<close> a digit or the base prefix,
  \<open>_\<close> an underscore, \<open>!\<close> anything else.
\<close>

fun underscore_scan :: "bool \<Rightarrow> char \<Rightarrow> string \<Rightarrow> bool" where
  "underscore_scan hex prev [] = (prev \<noteq> CHR ''_'')"
| "underscore_scan hex prev (c # s) =
     (if is_digit c \<or> (hex \<and> 97 \<le> hex_lower c \<and> hex_lower c \<le> 102) then underscore_scan hex CHR ''0'' s
      else if c = CHR ''_'' then (if prev \<noteq> CHR ''0'' then False else underscore_scan hex CHR ''_'' s)
      else if prev = CHR ''_'' then False
      else underscore_scan hex CHR ''!'' s)"

definition underscore_ok :: "string \<Rightarrow> bool" where
  "underscore_ok s0 =
     (let s = (if s0 \<noteq> [] \<and> (hd s0 = CHR ''-'' \<or> hd s0 = CHR ''+'') then tl s0 else s0);
          base_prefix = (length s \<ge> 2 \<and> hd s = CHR ''0'' \<and> lower_char (s ! 1) \<in> {CHR ''b'', CHR ''o'', CHR ''x''})
      in if base_prefix
         then underscore_scan (lower_char (s ! 1) = CHR ''x'') CHR ''0'' (drop 2 s)
         else underscore_scan False CHR ''^'' s)"

definition parse_uint0 :: "string \<Rightarrow> nat \<times> bool" where
  "parse_uint0 s =
     (if s = [] then (0, False)
      else (case uint_base s of (b, t) \<Rightarrow>
        (case parse_uint_loop b 0 t of (n, ok) \<Rightarrow>
           if ok \<and> CHR ''_'' \<in> set t \<and> \<not> underscore_ok s then (0, False) else (n, ok))))"

text \<open>
  The loop over the fields of the header. \<open>unquote\<close> is \<open>strconv.Unquote\<close>, with the empty string for
  an error, as the code ignores the error.
\<close>

definition reason_field ::
  "(string \<Rightarrow> string) \<Rightarrow> string \<Rightarrow> reason_header \<times> string \<Rightarrow> reason_header \<times> string" where
  "reason_field unquote line0 acc =
     (let line = trim_space line0 in
      case index_of CHR ''='' line of
        None \<Rightarrow> acc
      | Some i \<Rightarrow>
          (let key = trim_space (take i line); val = trim_space (drop (i + 1) line);
               r = fst acc in
           if key = ''cause'' then (r\<lparr>rs_cause := fst (atoi val)\<rparr>, snd acc)
           else if key = ''text'' then (r\<lparr>rs_text := unquote val\<rparr>, snd acc)
           else if key = ''reasoncode'' then (r, val)
           else acc))"

definition to_int64 :: "nat \<Rightarrow> int" where
  "to_int64 n = sint (word_of_nat n :: 64 word)"

definition ParseReasonHeader :: "(string \<Rightarrow> string) \<Rightarrow> string \<Rightarrow> string + reason_header" where
  "ParseReasonHeader unquote hdr =
     (let lst = split_on CHR '';'' hdr in
      if length lst < 2 then Inl ''no fields in the reason''
      else (let typ = to_lower (trim_space (hd lst));
                acc = fold (reason_field unquote) (tl lst) (zero_reason\<lparr>rs_type := typ\<rparr>, []);
                r = fst acc; reasonCode = snd acc in
            if typ = ''x.int'' \<and> rs_cause r = 0 then
              (if reasonCode \<noteq> [] then Inr (r\<lparr>rs_cause := to_int64 (fst (parse_uint0 reasonCode))\<rparr>)
               else if rs_text r \<noteq> [] then
                 (case parse_uint0 (rs_text r) of (v, ok) \<Rightarrow>
                    Inr (let r' = r\<lparr>rs_cause := to_int64 v\<rparr> in if ok then r'\<lparr>rs_text := []\<rparr> else r'))
               else Inr r)
            else Inr r))"

section \<open>The GetRemoteHeaders RPC\<close>

definition getHeadersIgnore :: "string list" where
  "getHeadersIgnore =
    [''route'', ''record-route'', ''via'', ''supported'', ''accept'', ''allow'', ''allow-events'',
     ''content-type'', ''content-length'', ''content-encoding'', ''content-disposition'', ''cseq'',
     ''event'', ''expires'', ''session-expires'', ''min-se'', ''max-forwards'']"

definition header_wanted :: "string list \<Rightarrow> string list \<Rightarrow> string \<Rightarrow> bool" where
  "header_wanted incl excl name =
     (\<not> name \<in> set getHeadersIgnore
      \<and> \<not> (excl \<noteq> [] \<and> name \<in> set (map to_lower excl))
      \<and> (incl = [] \<or> name \<in> set (map to_lower incl)))"

definition rpcGetHeaders :: "header list \<Rightarrow> string list \<Rightarrow> string list \<Rightarrow> str_map" where
  "rpcGetHeaders headers incl excl =
     fold (\<lambda>h out. if header_wanted incl excl (to_lower (h_name h)) then out(h_name h \<mapsto> h_value h) else out)
       headers Map.empty"

section \<open>Facts\<close>

lemma sipStatusForErrorCode_range:
  "sipStatusForErrorCode c = 200 \<and> c = PsOK \<or> c \<noteq> PsOK \<and> 400 \<le> sipStatusForErrorCode c \<and> sipStatusForErrorCode c < 600"
  by (cases c) auto

lemma to_upper_SIP: "to_upper ''SIP/2.0'' = ''SIP/2.0''"
  by code_simp

lemma index_of_first: "c \<notin> set a \<Longrightarrow> index_of c (a @ c # b) = Some (length a)"
  by (rule index_of_append)

lemma split_n_three:
  "\<lbrakk>c \<notin> set a; c \<notin> set b\<rbrakk> \<Longrightarrow> split_n c 3 (a @ c # b @ c # r) = [a, b, r]"
proof -
  assume a: "c \<notin> set a" and b: "c \<notin> set b"
  have tw: "takeWhile (\<lambda>x. x \<noteq> c) (x @ c # y) = x" "dropWhile (\<lambda>x. x \<noteq> c) (x @ c # y) = c # y"
    if "c \<notin> set x" for x y
    using that by (induction x) auto
  show ?thesis by (simp add: numeral_3_eq_3 tw a b)
qed

lemma parseNotifyBody_status_line:
  assumes "int_min \<le> c" and "c \<le> int_max" and "CHR 0x0A \<notin> set reason"
  shows "parseNotifyBody (''SIP/2.0 '' @ itoa c @ '' '' @ reason @ [CHR 0x0D, CHR 0x0A] @ rest)
       = Inr (c, reason)"
proof -
  let ?r = "reason @ [CHR 0x0D, CHR 0x0A] @ rest"
  have no: "CHR '' '' \<notin> set (itoa c)"
    using itoa_no_space [of "CHR '' ''" c] by (auto simp: is_space_def)
  have "split_n CHR '' '' 3 (''SIP/2.0'' @ CHR '' '' # itoa c @ CHR '' '' # ?r) = [''SIP/2.0'', itoa c, ?r]"
    by (rule split_n_three [OF _ no]) simp
  moreover have "index_of (CHR 0x0A) ((reason @ [CHR 0x0D]) @ CHR 0x0A # rest) = Some (length (reason @ [CHR 0x0D]))"
    by (rule index_of_append) (use assms(3) in auto)
  ultimately show ?thesis
    using assms(1,2) trim_suffix_append [of reason "[CHR 0x0D]"]
    by (simp add: parseNotifyBody_def to_upper_SIP atoi_itoa)
qed

lemma refer_error_code_hidden: "refer_error_code tc st \<noteq> PsInternal \<and> refer_error_code tc st \<noteq> PsUnavailable"
  by (auto simp: refer_error_code_def Let_def)

lemma reason_field_type: "rs_type (fst (reason_field u l acc)) = rs_type (fst acc)"
  by (auto simp: reason_field_def Let_def split: option.splits)

lemma fold_reason_field_type: "rs_type (fst (fold (reason_field u) ls acc)) = rs_type (fst acc)"
  by (induction ls arbitrary: acc) (simp_all add: reason_field_type)

lemma find_snoc:
  "find Q (xs @ [x]) = (case find Q xs of None \<Rightarrow> if Q x then Some x else None | Some y \<Rightarrow> Some y)"
  by (induction xs) auto

lemma fold_headers_lookup:
  "fold (\<lambda>h out. if P h then out(h_name h \<mapsto> h_value h) else out) hs m k
     = (case find (\<lambda>h. P h \<and> h_name h = k) (rev hs) of Some h \<Rightarrow> Some (h_value h) | None \<Rightarrow> m k)"
  by (induction hs arbitrary: m) (simp_all add: find_snoc split: option.split)

end
