(* ===== verification/Termination_Class.thy ===== *)
theory Termination_Class
  imports Sip_Protocol
begin

text \<open>
  How a call's end is classified: \<open>pkg/stats/termination.go\<close>, \<open>pkg/sip/participant.go\<close> (call
  statuses and the reason of a room disconnect) and \<open>pkg/sip/errors.go\<close> (the verdict for a failed
  outbound INVITE).

  Go's wrapped errors are represented by what \<open>errors.As\<close> and \<open>errors.Is\<close> find in the chain
  (\<open>err_chain\<close>): the classifier only asks such questions, in a fixed order.
\<close>

section \<open>Terminations\<close>

datatype termination_result = ResultSuccess | ResultServerError | ResultClientError

record termination_class =
  t_result :: termination_result
  t_reason :: string

definition Success :: "string \<Rightarrow> termination_class" where
  "Success reason = \<lparr>t_result = ResultSuccess, t_reason = reason\<rparr>"

definition ServerError :: "string \<Rightarrow> termination_class" where
  "ServerError reason = \<lparr>t_result = ResultServerError, t_reason = reason\<rparr>"

definition ClientError :: "string \<Rightarrow> termination_class" where
  "ClientError reason = \<lparr>t_result = ResultClientError, t_reason = reason\<rparr>"

lemmas termination_defs = Success_def ServerError_def ClientError_def

text \<open>\<open>livekit.DisconnectReason\<close>; other values of the enumeration are \<open>DR_OTHER\<close>.\<close>

datatype disconnect_reason =
    DR_UNKNOWN_REASON | DR_CLIENT_INITIATED | DR_DUPLICATE_IDENTITY | DR_SERVER_SHUTDOWN
  | DR_PARTICIPANT_REMOVED | DR_ROOM_DELETED | DR_STATE_MISMATCH | DR_JOIN_FAILURE | DR_MIGRATION
  | DR_SIGNAL_CLOSE | DR_ROOM_CLOSED | DR_USER_UNAVAILABLE | DR_USER_REJECTED
  | DR_SIP_TRUNK_FAILURE | DR_CONNECTION_TIMEOUT | DR_MEDIA_FAILURE | DR_AGENT_ERROR | DR_OTHER nat

definition terminationFromRoomDisconnect :: "disconnect_reason \<Rightarrow> termination_class" where
  "terminationFromRoomDisconnect reason = (case reason of
       DR_CLIENT_INITIATED \<Rightarrow> Success ''removed''
     | DR_ROOM_CLOSED \<Rightarrow> Success ''removed''
     | DR_ROOM_DELETED \<Rightarrow> Success ''removed''
     | DR_PARTICIPANT_REMOVED \<Rightarrow> Success ''removed''
     | DR_JOIN_FAILURE \<Rightarrow> ServerError ''room-failed''
     | DR_SIGNAL_CLOSE \<Rightarrow> ServerError ''room-failed''
     | DR_STATE_MISMATCH \<Rightarrow> ServerError ''room-failed''
     | DR_SERVER_SHUTDOWN \<Rightarrow> ServerError ''server-shutdown''
     | DR_CONNECTION_TIMEOUT \<Rightarrow> ServerError ''connection-timeout''
     | DR_MIGRATION \<Rightarrow> ServerError ''migration''
     | DR_SIP_TRUNK_FAILURE \<Rightarrow> ServerError ''sip-trunk-failure''
     | DR_MEDIA_FAILURE \<Rightarrow> ServerError ''media-failure''
     | DR_AGENT_ERROR \<Rightarrow> ServerError ''agent-error''
     | DR_DUPLICATE_IDENTITY \<Rightarrow> ClientError ''duplicate-identity''
     | DR_USER_UNAVAILABLE \<Rightarrow> ClientError ''user-unavailable''
     | DR_USER_REJECTED \<Rightarrow> ClientError ''user-rejected''
     | _ \<Rightarrow> ServerError ''room-disconnected'')"

section \<open>Call statuses\<close>

datatype call_status =
    callDropped | callFlood | CallDialing | CallRinging | CallAutomation | CallActive | CallHangup
  | CallCancelled | callUnavailable | callRejected | callMediaFailed | callAcceptFailed | callNoACK
  | callHangupMedia

text \<open>The constants are consecutive integers (\<open>iota\<close>), which orders them.\<close>

definition status_index :: "call_status \<Rightarrow> nat" where
  "status_index v = (case v of
       callDropped \<Rightarrow> 0 | callFlood \<Rightarrow> 1 | CallDialing \<Rightarrow> 2 | CallRinging \<Rightarrow> 3 | CallAutomation \<Rightarrow> 4
     | CallActive \<Rightarrow> 5 | CallHangup \<Rightarrow> 6 | CallCancelled \<Rightarrow> 7 | callUnavailable \<Rightarrow> 8 | callRejected \<Rightarrow> 9
     | callMediaFailed \<Rightarrow> 10 | callAcceptFailed \<Rightarrow> 11 | callNoACK \<Rightarrow> 12 | callHangupMedia \<Rightarrow> 13)"

instantiation call_status :: linorder
begin

definition less_eq_call_status :: "call_status \<Rightarrow> call_status \<Rightarrow> bool" where
  "less_eq_call_status a b = (status_index a \<le> status_index b)"

definition less_call_status :: "call_status \<Rightarrow> call_status \<Rightarrow> bool" where
  "less_call_status a b = (status_index a < status_index b)"

instance
proof
  fix x y z :: call_status
  show "x < y \<longleftrightarrow> x \<le> y \<and> \<not> y \<le> x"
    by (auto simp: less_call_status_def less_eq_call_status_def)
  show "x \<le> x" by (simp add: less_eq_call_status_def)
  show "x \<le> y \<Longrightarrow> y \<le> z \<Longrightarrow> x \<le> z" by (simp add: less_eq_call_status_def)
  show "x \<le> y \<Longrightarrow> y \<le> x \<Longrightarrow> x = y"
    by (cases x; cases y) (simp_all add: less_eq_call_status_def status_index_def)
  show "x \<le> y \<or> y \<le> x" by (auto simp: less_eq_call_status_def)
qed

end

definition Attribute :: "call_status \<Rightarrow> string" where
  "Attribute v = (case v of
       CallDialing \<Rightarrow> ''dialing''
     | CallRinging \<Rightarrow> ''ringing''
     | CallAutomation \<Rightarrow> ''automation''
     | CallActive \<Rightarrow> ''active''
     | CallHangup \<Rightarrow> ''hangup''
     | callHangupMedia \<Rightarrow> ''hangup''
     | CallCancelled \<Rightarrow> ''hangup''
     | _ \<Rightarrow> [])"

definition DisconnectReason :: "call_status \<Rightarrow> disconnect_reason" where
  "DisconnectReason v = (case v of
       CallHangup \<Rightarrow> DR_CLIENT_INITIATED
     | callHangupMedia \<Rightarrow> DR_CLIENT_INITIATED
     | CallCancelled \<Rightarrow> DR_CLIENT_INITIATED
     | callUnavailable \<Rightarrow> DR_USER_UNAVAILABLE
     | callRejected \<Rightarrow> DR_USER_REJECTED
     | _ \<Rightarrow> DR_UNKNOWN_REASON)"

definition SIPStatus :: "call_status \<Rightarrow> int \<times> string" where
  "SIPStatus v = (case v of
       callMediaFailed \<Rightarrow> (488, ''MediaFailed'')
     | CallCancelled \<Rightarrow> (487, ''Request Terminated'')
     | _ \<Rightarrow> (486, ''Rejected''))"

section \<open>Limits\<close>

definition maxCallDuration :: nanos where
  "maxCallDuration = 24 * hour"

definition defaultRingingTimeout :: nanos where
  "defaultRingingTimeout = 3 * minute"

definition referByeTimeout :: nanos where
  "referByeTimeout = second"

section \<open>The verdict for a failed INVITE\<close>

datatype sdp_cause = NoCommonMedia | NoCommonCrypto | OtherSDP

text \<open>What the error's chain contains.\<close>

record err_chain =
  ec_msg :: string
  ec_sdp :: "(sdp_cause \<times> string) option"
  ec_status :: "sip_status option"
  ec_timeout :: bool
  ec_deadline :: bool
  ec_canceled :: bool
  ec_addr_error :: bool
  ec_dns_error :: bool
  ec_op_error :: bool
  ec_auth :: bool

text \<open>The error returned to the caller: as it is, or wrapped with a psrpc code.\<close>

datatype returned = AsIs | Wrapped psrpc_code

record invite_failure =
  if_status :: call_status
  if_term :: termination_class
  if_reason :: disconnect_reason
  if_report :: "string option"
  if_return :: returned

definition SDPError_ClassifyInvite :: "sdp_cause \<Rightarrow> string \<Rightarrow> invite_failure" where
  "SDPError_ClassifyInvite c msg =
     \<lparr>if_status = callRejected,
      if_term = (case c of
          NoCommonMedia \<Rightarrow> ClientError ''no-common-codec''
        | NoCommonCrypto \<Rightarrow> ClientError ''encryption-required''
        | OtherSDP \<Rightarrow> ClientError ''sdp-error''),
      if_reason = DR_MEDIA_FAILURE, if_report = Some msg, if_return = AsIs\<rparr>"

definition classify_status :: "int \<Rightarrow> invite_failure \<Rightarrow> invite_failure" where
  "classify_status code res =
     (let verdict = (\<lambda>s t r. res\<lparr>if_status := s, if_term := t, if_reason := r\<rparr>);
          quiet = (\<lambda>s t r. (verdict s t r)\<lparr>if_report := None\<rparr>) in
      if code = 401 \<or> code = 407 then quiet callRejected (ClientError ''auth-required'') DR_USER_REJECTED
      else if code = 403 then quiet callRejected (ClientError ''forbidden'') DR_USER_REJECTED
      else if code = 404 then quiet callUnavailable (ClientError ''not-found'') DR_USER_UNAVAILABLE
      else if code = 408 then quiet callUnavailable (ClientError ''request-timeout'') DR_USER_UNAVAILABLE
      else if code = 480 then quiet callUnavailable (ClientError ''unavailable'') DR_USER_UNAVAILABLE
      else if code = 486 then quiet callRejected (ClientError ''busy'') DR_USER_REJECTED
      else if code = 488 then quiet callRejected (ClientError ''not-acceptable'') DR_USER_REJECTED
      else if code \<ge> 400 \<and> code < 500
      then quiet callRejected (ClientError (''client-error-'' @ itoa code)) DR_USER_UNAVAILABLE
      else if code \<ge> 500 \<and> code < 600
      then verdict callDropped (ServerError (''upstream-server-error-'' @ itoa code)) DR_SIP_TRUNK_FAILURE
      else if code \<ge> 600 \<and> code < 700
      then quiet callRejected (ClientError (''global-decline-'' @ itoa code)) DR_USER_REJECTED
      else res)"

definition classifyInviteError :: "err_chain \<Rightarrow> invite_failure" where
  "classifyInviteError e =
     (case ec_sdp e of
        Some (c, msg) \<Rightarrow> SDPError_ClassifyInvite c msg
      | None \<Rightarrow>
          (let res = \<lparr>if_status = callDropped, if_term = ServerError ''invite-failed'',
                      if_reason = DR_UNKNOWN_REASON, if_report = Some (ec_msg e), if_return = AsIs\<rparr> in
           case ec_status e of
             Some st \<Rightarrow> classify_status (st_code st) res
           | None \<Rightarrow>
               if ec_timeout e then
                 res\<lparr>if_status := callUnavailable, if_term := ClientError ''no-answer'',
                     if_reason := DR_USER_UNAVAILABLE, if_report := None\<rparr>
               else if ec_deadline e then
                 res\<lparr>if_term := ServerError ''deadline-exceeded'', if_return := Wrapped PsDeadlineExceeded\<rparr>
               else if ec_canceled e then
                 res\<lparr>if_status := callRejected, if_term := ClientError ''canceled'',
                     if_reason := DR_USER_UNAVAILABLE, if_report := None, if_return := Wrapped PsCanceled\<rparr>
               else if ec_addr_error e then
                 res\<lparr>if_term := ClientError ''address-error'', if_reason := DR_SIP_TRUNK_FAILURE,
                     if_return := Wrapped PsInvalidArgument\<rparr>
               else if ec_dns_error e then
                 res\<lparr>if_term := ClientError ''dns-resolution'', if_reason := DR_SIP_TRUNK_FAILURE,
                     if_return := Wrapped PsInvalidArgument\<rparr>
               else if ec_op_error e then
                 res\<lparr>if_term := ServerError ''network-error'', if_reason := DR_SIP_TRUNK_FAILURE,
                     if_return := Wrapped PsUnavailable\<rparr>
               else if ec_auth e then
                 res\<lparr>if_status := callRejected, if_term := ClientError ''auth-failed'',
                     if_reason := DR_USER_REJECTED\<rparr>
               else res))"

section \<open>Facts\<close>

lemma DisconnectReason_not_server: "DisconnectReason v \<noteq> DR_SERVER_SHUTDOWN"
  by (cases v) (simp_all add: DisconnectReason_def)

lemma SIPStatus_final: "400 \<le> fst (SIPStatus v) \<and> fst (SIPStatus v) < 500"
  by (cases v) (simp_all add: SIPStatus_def)

lemma classify_status_result:
  assumes "t_result (if_term res) = ResultServerError"
  shows "t_result (if_term (classify_status code res)) = ResultClientError
     \<longleftrightarrow> (400 \<le> code \<and> code < 500 \<or> 600 \<le> code \<and> code < 700)"
  using assms by (simp add: classify_status_def Let_def termination_defs)

lemma classify_status_report:
  assumes "if_report res = Some m"
  shows "if_report (classify_status code res)
     = (if 400 \<le> code \<and> code < 500 \<or> 600 \<le> code \<and> code < 700 then None else Some m)"
  using assms by (simp add: classify_status_def Let_def)

end
