(* ===== verification/Call_State.thy ===== *)
theory Call_State
  imports Termination_Class
begin

text \<open>
  \<open>pkg/sip/analytics.go\<close>: the state of a call that is reported to the control plane. The RPC client
  is the environment: an operation that sends is given whether the RPC succeeded. What is sent is an
  effect. The mutex makes each operation atomic. A nil client is \<open>cs_has_cli = False\<close>; a method call
  on it panics, except in \<open>flush\<close>, which tests it.
\<close>

datatype call_status_info =
    SCS_CALL_INCOMING | SCS_PARTICIPANT_JOINED | SCS_ACTIVE | SCS_DISCONNECTED | SCS_ERROR

record call_info =
  ci_call_id :: string
  ci_status :: call_status_info
  ci_error :: string
  ci_disconnect :: disconnect_reason
  ci_started :: nanos
  ci_ended :: nanos
  ci_trunk_id :: string
  ci_rule_id :: string
  ci_room_name :: string
  ci_room_id :: string
  ci_identity :: string
  ci_attrs :: "str_map option"
  ci_sip_call_id :: string
  ci_audio_codec :: string
  ci_status_code :: "sip_status option"

datatype transfer_status = TRANSFER_ONGOING | TRANSFER_FAILED | TRANSFER_SUCCESSFUL

record transfer_info =
  ti_id :: string
  ti_call_id :: string
  ti_to :: string
  ti_initiated :: nanos
  ti_completed :: nanos
  ti_status :: transfer_status
  ti_error :: string
  ti_code :: "sip_status option"

record call_state =
  cs_has_cli :: bool
  cs_info :: call_info
  cs_transfers :: "string \<rightharpoonup> transfer_info"
  cs_dirty :: bool

text \<open>\<open>SendInfo i ok\<close>: the request with \<open>i\<close> went out, and it succeeded or not.\<close>

datatype state_effect = SendInfo call_info bool | SendTransfer transfer_info | Panic

definition empty_info :: call_info where
  "empty_info = \<lparr>ci_call_id = [], ci_status = SCS_CALL_INCOMING, ci_error = [],
     ci_disconnect = DR_UNKNOWN_REASON, ci_started = 0, ci_ended = 0, ci_trunk_id = [],
     ci_rule_id = [], ci_room_name = [], ci_room_id = [], ci_identity = [], ci_attrs = None,
     ci_sip_call_id = [], ci_audio_codec = [], ci_status_code = None\<rparr>"

definition NewCallState :: "bool \<Rightarrow> call_info option \<Rightarrow> call_state" where
  "NewCallState has_cli initial =
     \<lparr>cs_has_cli = has_cli,
      cs_info = (case initial of None \<Rightarrow> empty_info | Some i \<Rightarrow> i),
      cs_transfers = Map.empty, cs_dirty = True\<rparr>"

definition flush_state :: "bool \<Rightarrow> call_state \<Rightarrow> call_state \<times> state_effect list" where
  "flush_state ok s =
     (if \<not> cs_has_cli s then (s\<lparr>cs_dirty := False\<rparr>, [])
      else (if ok then s\<lparr>cs_dirty := False\<rparr> else s, [SendInfo (cs_info s) ok]))"

definition DeferUpdate :: "(call_info \<Rightarrow> call_info) \<Rightarrow> call_state \<Rightarrow> call_state \<times> state_effect list" where
  "DeferUpdate upd s = (s\<lparr>cs_dirty := True, cs_info := upd (cs_info s)\<rparr>, [])"

definition Update ::
  "(call_info \<Rightarrow> call_info) \<Rightarrow> bool \<Rightarrow> call_state \<Rightarrow> call_state \<times> state_effect list" where
  "Update upd ok s = flush_state ok (s\<lparr>cs_dirty := True, cs_info := upd (cs_info s)\<rparr>)"

definition Flush :: "bool \<Rightarrow> call_state \<Rightarrow> call_state \<times> state_effect list" where
  "Flush ok s = (if \<not> cs_dirty s then (s, []) else flush_state ok s)"

definition ForceFlush :: "bool \<Rightarrow> call_state \<Rightarrow> call_state \<times> state_effect list" where
  "ForceFlush ok s = flush_state ok s"

text \<open>\<open>tid\<close> is the generated transfer id, \<open>now\<close> the clock.\<close>

definition StartTransfer ::
  "string \<Rightarrow> nanos \<Rightarrow> string \<Rightarrow> call_state \<Rightarrow> call_state \<times> state_effect list" where
  "StartTransfer tid now transferTo s =
     (if \<not> cs_has_cli s then (s, [Panic])
      else (let ti = \<lparr>ti_id = tid, ti_call_id = ci_call_id (cs_info s), ti_to = transferTo,
                      ti_initiated = now, ti_completed = 0, ti_status = TRANSFER_ONGOING,
                      ti_error = [], ti_code = None\<rparr>
            in (s\<lparr>cs_transfers := (cs_transfers s)(tid \<mapsto> ti)\<rparr>, [SendTransfer ti])))"

fun err_status :: "err \<Rightarrow> sip_status option" where
  "err_status (PsErr c m st) = st"
| "err_status (OtherErr m) = None"

definition EndTransfer ::
  "string \<Rightarrow> nanos \<Rightarrow> err option \<Rightarrow> call_state \<Rightarrow> call_state \<times> state_effect list" where
  "EndTransfer tid now inErr s =
     (let s' = s\<lparr>cs_transfers := (cs_transfers s)(tid := None)\<rparr> in
      case cs_transfers s tid of
        None \<Rightarrow> (s', [])
      | Some ti \<Rightarrow>
          (let ti1 = ti\<lparr>ti_completed := now\<rparr>;
               ti2 = (case inErr of
                        None \<Rightarrow> ti1\<lparr>ti_status := TRANSFER_SUCCESSFUL\<rparr>
                      | Some e \<Rightarrow> ti1\<lparr>ti_error := err_msg e, ti_status := TRANSFER_FAILED\<rparr>);
               ti3 = (case Option.bind inErr err_status of None \<Rightarrow> ti2 | Some st \<Rightarrow> ti2\<lparr>ti_code := Some st\<rparr>)
           in (s', if cs_has_cli s then [SendTransfer ti3] else [Panic])))"

datatype state_op =
    OpDeferUpdate "call_info \<Rightarrow> call_info"
  | OpUpdate "call_info \<Rightarrow> call_info" bool
  | OpFlush bool
  | OpForceFlush bool
  | OpStartTransfer string nanos string
  | OpEndTransfer string nanos "err option"

fun state_step :: "state_op \<Rightarrow> call_state \<Rightarrow> call_state \<times> state_effect list" where
  "state_step (OpDeferUpdate u) s = DeferUpdate u s"
| "state_step (OpUpdate u ok) s = Update u ok s"
| "state_step (OpFlush ok) s = Flush ok s"
| "state_step (OpForceFlush ok) s = ForceFlush ok s"
| "state_step (OpStartTransfer tid now to) s = StartTransfer tid now to s"
| "state_step (OpEndTransfer tid now e) s = EndTransfer tid now e s"

text \<open>The call information the control plane received last: that of the last \<open>SendInfo\<close> that succeeded.\<close>

fun last_received :: "state_effect list \<Rightarrow> call_info option" where
  "last_received [] = None"
| "last_received (e # es) = (case last_received es of
       Some i \<Rightarrow> Some i
     | None \<Rightarrow> (case e of SendInfo i ok \<Rightarrow> if ok then Some i else None | _ \<Rightarrow> None))"

section \<open>Facts\<close>

lemmas state_op_defs =
  DeferUpdate_def Update_def Flush_def ForceFlush_def StartTransfer_def EndTransfer_def flush_state_def

lemma last_received_append:
  "last_received (xs @ ys) = (case last_received ys of Some i \<Rightarrow> Some i | None \<Rightarrow> last_received xs)"
  by (induction xs) (auto split: option.splits)

lemma state_step_cli [simp]: "cs_has_cli (fst (state_step a s)) = cs_has_cli s"
  by (cases a) (auto simp: state_op_defs Let_def split: option.splits)

text \<open>
  What is known about the control plane's view: unless the state is dirty, the information last received
  is the current one. \<open>view\<close> is what was last received before the operation.
\<close>

definition view_fresh :: "call_info option \<Rightarrow> call_state \<Rightarrow> bool" where
  "view_fresh view s = (cs_has_cli s \<longrightarrow> cs_dirty s \<or> view = Some (cs_info s))"

definition next_view :: "call_info option \<Rightarrow> state_effect list \<Rightarrow> call_info option" where
  "next_view view es = (case last_received es of Some i \<Rightarrow> Some i | None \<Rightarrow> view)"

lemma state_step_view:
  "view_fresh view s \<Longrightarrow> view_fresh (next_view view (snd (state_step a s))) (fst (state_step a s))"
  by (cases a) (auto simp: view_fresh_def next_view_def state_op_defs Let_def split: option.splits)

lemma run_view:
  "view_fresh view s \<Longrightarrow> view_fresh (next_view view (snd (run state_step as s))) (fst (run state_step as s))"
proof (induction as arbitrary: view s)
  case Nil
  then show ?case by (simp add: next_view_def)
next
  case (Cons a as)
  let ?r = "state_step a s"
  have "view_fresh (next_view view (snd ?r)) (fst ?r)" by (rule state_step_view) (rule Cons.prems)
  then have "view_fresh (next_view (next_view view (snd ?r)) (snd (run state_step as (fst ?r))))
      (fst (run state_step as (fst ?r)))" by (rule Cons.IH)
  moreover have "next_view (next_view view (snd ?r)) es = next_view view (snd ?r @ es)" for es
    by (simp add: next_view_def last_received_append split: option.split)
  ultimately show ?case by (simp add: Let_def)
qed

text \<open>
  Ending a transfer is a one-time operation: the entry is taken out of the table under the lock.
\<close>

definition end_transfer_of ::
  "string \<Rightarrow> nanos \<times> err option \<Rightarrow> call_state \<Rightarrow> call_state \<times> state_effect list" where
  "end_transfer_of tid a s = EndTransfer tid (fst a) (snd a) s"

interpretation transfer_end: close_once "end_transfer_of tid" "\<lambda>s. cs_transfers s tid = None"
  for tid
proof unfold_locales
  show "cs_transfers (fst (end_transfer_of tid a s)) tid = None" for a s
    by (simp add: end_transfer_of_def EndTransfer_def Let_def split: option.split)
  show "end_transfer_of tid a s = (s, [])" if "cs_transfers s tid = None" for a s
  proof -
    have "(cs_transfers s)(tid := None) = cs_transfers s" using that by (auto simp: fun_eq_iff)
    with that show ?thesis by (simp add: end_transfer_of_def EndTransfer_def Let_def)
  qed
qed

section \<open>Properties\<close>

text \<open>
  C26. No update is lost: over any sequence of operations on a fresh call state with an RPC client,
  and whatever RPCs fail, either the state is still marked dirty (a later flush will send it) or the
  information the control plane received last, by a request that succeeded, is the current one.
\<close>

theorem call_state_no_lost_update:
  "cs_dirty (fst (run state_step ops (NewCallState True i)))
   \<or> last_received (snd (run state_step ops (NewCallState True i)))
       = Some (cs_info (fst (run state_step ops (NewCallState True i))))"
proof -
  have cli: "cs_has_cli (fst (run state_step ops s)) = cs_has_cli s" for s
    by (induction ops arbitrary: s) (simp_all add: Let_def)
  have "view_fresh None (NewCallState True i)" by (simp add: view_fresh_def NewCallState_def)
  from run_view [OF this, of ops] show ?thesis
    using cli [of "NewCallState True i"]
    by (auto simp: view_fresh_def next_view_def NewCallState_def split: option.splits)
qed

text \<open>
  A transfer is reported as finished at most once: however often \<open>EndTransfer\<close> runs for a
  transfer that is in the table, exactly one final update is sent, the one of the first call.
\<close>

theorem transfer_reported_once:
  assumes "cs_has_cli s" and "cs_transfers s tid = Some ti" and "as \<noteq> []"
  shows "\<exists>ti'. snd (run (end_transfer_of tid) as s) = [SendTransfer ti']
    \<and> ti_id ti' = ti_id ti \<and> ti_completed ti' = fst (hd as)
    \<and> ti_status ti' = (if snd (hd as) = None then TRANSFER_SUCCESSFUL else TRANSFER_FAILED)
    \<and> cs_transfers (fst (run (end_transfer_of tid) as s)) tid = None"
  using assms transfer_end.close_run_any [of as tid s]
  by (cases "snd (hd as)")
    (auto simp: end_transfer_of_def EndTransfer_def Let_def split: option.split)

theorem transfer_reported_once_witness:
  "\<exists>ti'. snd (run (end_transfer_of ''t'') [(5, None), (9, Some (OtherErr ''x''))]
      (fst (StartTransfer ''t'' 1 ''+1'' (NewCallState True None)))) = [SendTransfer ti']
    \<and> ti_completed ti' = 5 \<and> ti_status ti' = TRANSFER_SUCCESSFUL"
proof -
  let ?s = "fst (StartTransfer ''t'' 1 ''+1'' (NewCallState True None))"
  have "cs_has_cli ?s" and "cs_transfers ?s ''t'' \<noteq> None"
    by (simp_all add: StartTransfer_def NewCallState_def Let_def)
  then obtain ti where "cs_has_cli ?s" and "cs_transfers ?s ''t'' = Some ti" by auto
  from transfer_reported_once [OF this, of "[(5, None), (9, Some (OtherErr ''x''))]"]
  show ?thesis by auto
qed

end
