(* ===== verification/Sip_Messages.thy ===== *)
theory Sip_Messages
  imports Sip_Protocol
begin

text \<open>
  The messages the dialogs of both directions exchange: an INVITE and its response as far as the
  dialogs read them, the requests they send, and the construction of a REFER
  (\<open>NewReferRequest\<close>, \<open>setCSeq\<close> and \<open>sendAndACK\<close> of \<open>pkg/sip/protocol.go\<close>).

  Parsing, serialisation and transport belong to the SIP library. Header maps that the code ranges
  over to append headers are maps: their order on the wire is not fixed by the code.
\<close>

record invite_req = sip_request +
  iv_contact :: "sip_uri option"
  iv_routes :: "string list"
  iv_record_routes :: "sip_uri list"
  iv_source :: string
  iv_destination :: string
  iv_transport :: string

record invite_resp =
  ir_status :: int
  ir_reason :: string
  ir_to :: "to_header option"
  ir_contact :: "sip_uri option"
  ir_record_routes :: "sip_uri list"
  ir_source :: string
  ir_body :: string
  ir_headers :: "header list"

text \<open>A route is either copied as text or built from a Record-Route address.\<close>

datatype route = RouteText string | RouteUri sip_uri

record out_request =
  or_method :: string
  or_cseq :: u32
  or_recipient :: sip_uri
  or_source :: string
  or_dest :: string
  or_transport :: string
  or_from :: "to_header option"
  or_to :: "to_header option"
  or_call_id :: "string option"
  or_routes :: "route list"
  or_record_routes :: "sip_uri list"
  or_contact :: "sip_uri option"
  or_fixed :: "(string \<times> string) list"
  or_headers :: str_map
  or_body :: string

definition set_cseq :: "u32 \<Rightarrow> out_request \<Rightarrow> out_request" where
  "set_cseq cseq req = req\<lparr>or_cseq := cseq\<rparr>"

definition map_add_opt :: "str_map \<Rightarrow> str_map option \<Rightarrow> str_map" where
  "map_add_opt m h = (case h of None \<Rightarrow> m | Some h' \<Rightarrow> m ++ h')"

definition allow_methods :: string where
  "allow_methods = ''INVITE, ACK, CANCEL, BYE, NOTIFY, REFER, MESSAGE, OPTIONS, INFO, SUBSCRIBE''"

text \<open>
  \<open>NewReferRequest\<close>. The From header is the INVITE's, the To header the response's; the CSeq is the
  INVITE's plus one (the dialogs then set their own).
\<close>

definition from_as_to :: "(sip_uri \<times> params option) option \<Rightarrow> to_header option" where
  "from_as_to f = (case f of
       None \<Rightarrow> None
     | Some (u, p) \<Rightarrow> Some \<lparr>to_uri = u, to_params = (case p of None \<Rightarrow> Map.empty | Some m \<Rightarrow> m)\<rparr>)"

definition NewReferRequest ::
  "invite_req \<Rightarrow> invite_resp \<Rightarrow> sip_uri \<Rightarrow> string \<Rightarrow> str_map option \<Rightarrow> out_request" where
  "NewReferRequest ivt resp contact referToUrl headers =
     \<lparr>or_method = ''REFER'',
      or_cseq = (case rq_cseq ivt of None \<Rightarrow> 0 | Some n \<Rightarrow> n + 1),
      or_recipient = rq_recipient ivt,
      or_source = iv_source ivt, or_dest = iv_destination ivt, or_transport = iv_transport ivt,
      or_from = from_as_to (rq_from ivt), or_to = ir_to resp, or_call_id = rq_call_id ivt,
      or_routes = (if iv_routes ivt \<noteq> [] then map RouteText (iv_routes ivt) else []),
      or_record_routes = (if iv_routes ivt \<noteq> [] then [] else rev (ir_record_routes resp)),
      or_contact = Some contact,
      or_fixed = [(''Max-Forwards'', ''70''), (''Refer-To'', referToUrl), (''Allow'', allow_methods)],
      or_headers = map_add_opt Map.empty headers, or_body = []\<rparr>"

text \<open>
  A request that is sent through a client transaction; \<open>AckFor\<close> is the ACK that \<open>sendAndACK\<close> writes
  when the request is answered with 200.
\<close>

datatype msg_effect = SendRequest out_request | AckFor string

definition sendAndACK :: "int option \<Rightarrow> out_request \<Rightarrow> msg_effect list" where
  "sendAndACK answer req =
     SendRequest req # (if answer = Some 200 then [AckFor (or_method req)] else [])"

text \<open>
  \<open>sendRefer\<close>: a REFER that is answered with 200 or 202 is accepted, any other final response is an
  error that carries the status. \<open>Inl\<close> is the error of the transaction itself.
\<close>

definition sendRefer :: "err + (int \<times> string) \<Rightarrow> err option" where
  "sendRefer answer = (case answer of
       Inl e \<Rightarrow> Some e
     | Inr (code, reason) \<Rightarrow>
         if code = 200 \<or> code = 202 then None
         else Some (PsErr (PsOther ''sip-status'') reason (Some \<lparr>st_code = code, st_status = reason\<rparr>)))"

lemma set_cseq_simps [simp]:
  "or_cseq (set_cseq n r) = n" "or_method (set_cseq n r) = or_method r"
  "or_headers (set_cseq n r) = or_headers r" "or_recipient (set_cseq n r) = or_recipient r"
  "or_record_routes (set_cseq n r) = or_record_routes r" "or_routes (set_cseq n r) = or_routes r"
  by (simp_all add: set_cseq_def)

lemma NewReferRequest_method [simp]: "or_method (NewReferRequest i r c u h) = ''REFER''"
  by (simp add: NewReferRequest_def)

text \<open>A sample INVITE, used by the witnesses of the theories that follow.\<close>

definition sample_uri :: "string \<Rightarrow> sip_uri" where
  "sample_uri user = \<lparr>su_user = user, su_host = ''example.com'', su_port = 0, su_params = Map.empty\<rparr>"

definition sample_invite :: invite_req where
  "sample_invite =
     \<lparr>rq_recipient = sample_uri ''bob'',
      rq_to = Some \<lparr>to_uri = sample_uri ''bob'', to_params = Map.empty\<rparr>,
      rq_from = Some (sample_uri ''alice'', Some [''tag'' \<mapsto> ''a1'']),
      rq_via = Some \<lparr>via_transport = ''udp'', via_host = ''10.0.0.9'', via_port = 5060\<rparr>,
      rq_call_id = Some ''call-1'', rq_cseq = Some 7, rq_headers = [], rq_body = [],
      iv_contact = None, iv_routes = [], iv_record_routes = [], iv_source = ''10.0.0.9:5060'',
      iv_destination = ''10.0.0.1:5060'', iv_transport = ''udp''\<rparr>"

definition sample_response :: "int \<Rightarrow> invite_resp" where
  "sample_response status =
     \<lparr>ir_status = status, ir_reason = [],
      ir_to = Some \<lparr>to_uri = sample_uri ''bob'', to_params = [''tag'' \<mapsto> ''b1'']\<rparr>,
      ir_contact = None, ir_record_routes = [], ir_source = ''10.0.0.9:5060'', ir_body = [],
      ir_headers = []\<rparr>"

definition sample_bye :: "invite_req \<Rightarrow> invite_resp \<Rightarrow> out_request" where
  "sample_bye ivt ok =
     (NewReferRequest ivt ok (sample_uri ''bob'') [] None)\<lparr>or_method := ''BYE'', or_fixed := []\<rparr>"

end
