(* ===== verification/Inbound_Dialog.thy ===== *)
theory Inbound_Dialog
  imports Sip_Messages
begin

text \<open>
  \<open>sipInbound\<close> of \<open>pkg/sip/inbound.go\<close>: the UAS dialog of an inbound call. The state holds the
  INVITE and its server transaction until a final response is given, then the 200 OK, and the CSeq
  counter of our own requests. Each method runs under the mutex \<open>mu\<close> and is one operation here.
  What goes to the INVITE transaction, to the network and to the server's rejection cache are
  effects.

  The environment decides whether an ACK comes before a retransmission timer, and whether writing
  the 200 OK fails. The ringing goroutine's events (a tick, a CANCEL) are operations of their own: a
  tick may still fire after the ringing was stopped, as the goroutine takes the mutex late.
\<close>

section \<open>State and effects\<close>

text \<open>
  Configuration and library functions: whether the 200 OK waits for its ACK, whether Record-Route is
  added, whether rejections are cached, our own address, and the library's constructors of a BYE
  and of a response.
\<close>

record dialog_env =
  de_wait_ack :: bool
  de_record_route :: bool
  de_cache_rejects :: bool
  de_signaling_ip :: addr
  de_sip_port :: int
  de_new_bye :: "invite_req \<Rightarrow> invite_resp \<Rightarrow> out_request"
  de_new_response :: "invite_req \<Rightarrow> int \<Rightarrow> string \<Rightarrow> string \<Rightarrow> invite_resp"

record sip_inbound =
  si_id :: string
  si_tag :: string
  si_call_id :: string
  si_invite :: "invite_req option"
  si_invite_cseq :: u32
  si_tx :: bool
  si_contact :: sip_uri
  si_from :: to_header
  si_to :: to_header
  si_leg_tr :: transport
  si_invite_addr :: string
  si_last_sdp :: string
  si_ok :: "invite_resp option"
  si_next_cseq :: u32
  si_refer_cseq :: u32
  si_ringing :: bool
  si_acked :: bool
  si_cancelled :: bool
  si_attrs_to_hdr :: str_entries
  si_room_attrs :: "str_map option"

record response_msg =
  rp_status :: int
  rp_reason :: string
  rp_ctype :: string
  rp_body :: string
  rp_contact :: bool
  rp_record_route :: bool
  rp_headers :: str_map

text \<open>
  \<open>TxRespond r n\<close>: the response was written \<open>n\<close> times to the INVITE transaction; \<open>TxRespondFails r n\<close>: the
  transaction did not take it once more, after \<open>n\<close> times.
\<close>

datatype dlg_effect =
    TxRespond response_msg nat
  | TxRespondFails response_msg nat
  | TxTerminate
  | RespondOther string int
  | Msg msg_effect
  | CacheReject "string \<times> string" int string
  | DlgPanic

section \<open>New dialogs\<close>

text \<open>
  \<open>newInbound\<close>. \<open>cached\<close> is the tag found in the provisional-invite cache for the Call-ID and From
  tag, \<open>fresh\<close> a newly generated call id, \<open>contact_of\<close> the server's contact address for a transport.
\<close>

definition invite_local_tag :: "params \<Rightarrow> string option \<Rightarrow> string \<Rightarrow> string" where
  "invite_local_tag to_ps cached fresh =
     (if param to_ps ''tag'' \<noteq> [] then param to_ps ''tag''
      else (case cached of Some t \<Rightarrow> if t \<noteq> [] then t else fresh | None \<Rightarrow> fresh))"

definition newInbound ::
  "invite_req \<Rightarrow> string \<Rightarrow> (transport \<Rightarrow> uri) \<Rightarrow> string option \<Rightarrow> string \<Rightarrow> string + sip_inbound" where
  "newInbound ivt src contact_of cached fresh =
     (case rq_call_id ivt of
        None \<Rightarrow> Inl ''no Call-ID header in INVITE''
      | Some call_id \<Rightarrow>
          if call_id = [] then Inl ''no Call-ID header in INVITE''
          else (case rq_from ivt of
             None \<Rightarrow> Inl ''no From header in INVITE''
           | Some (from_uri, from_ps) \<Rightarrow>
               (case from_ps of
                  None \<Rightarrow> Inl ''no tag in From in INVITE''
                | Some ps \<Rightarrow>
                    if param ps ''tag'' = [] then Inl ''no tag in From in INVITE''
                    else (case rq_to ivt of
                       None \<Rightarrow> Inl ''no To header in INVITE''
                     | Some to \<Rightarrow>
                         (let tag = invite_local_tag (to_params to) cached fresh;
                              to' = to\<lparr>to_params := (to_params to)(''tag'' \<mapsto> tag)\<rparr>;
                              leg = legTransportFromReq (sip_request.truncate ivt)
                          in Inr \<lparr>si_id = tag, si_tag = param ps ''tag'', si_call_id = call_id,
                                  si_invite = Some (ivt\<lparr>rq_to := Some to'\<rparr>),
                                  si_invite_cseq = (case rq_cseq ivt of None \<Rightarrow> 0 | Some n \<Rightarrow> n),
                                  si_tx = True,
                                  si_contact = GetContactURI (contact_of leg),
                                  si_from = \<lparr>to_uri = from_uri, to_params = ps\<rparr>, si_to = to',
                                  si_leg_tr = leg, si_invite_addr = src, si_last_sdp = [],
                                  si_ok = None,
                                  si_next_cseq = (case rq_cseq ivt of None \<Rightarrow> 0 | Some n \<Rightarrow> n + 1),
                                  si_refer_cseq = 0, si_ringing = False, si_acked = False,
                                  si_cancelled = False, si_attrs_to_hdr = [],
                                  si_room_attrs = None\<rparr>)))))"

section \<open>Responses to the INVITE\<close>

definition drop_dlg :: "sip_inbound \<Rightarrow> sip_inbound \<times> dlg_effect list" where
  "drop_dlg c = (c\<lparr>si_ringing := False, si_tx := False, si_invite := None, si_ok := None,
                   si_next_cseq := 0\<rparr>,
                 if si_tx c then [TxTerminate] else [])"

definition respondWithData ::
  "dialog_env \<Rightarrow> int \<Rightarrow> string \<Rightarrow> string \<Rightarrow> string \<Rightarrow> sip_inbound \<Rightarrow> dlg_effect list" where
  "respondWithData env status reason ctype body c =
     (if \<not> si_tx c then []
      else [TxRespond \<lparr>rp_status = status, rp_reason = reason, rp_ctype = ctype, rp_body = body,
                       rp_contact = (status \<ge> 200), rp_record_route = de_record_route env,
                       rp_headers = Map.empty\<rparr> 1])"

definition respond :: "dialog_env \<Rightarrow> int \<Rightarrow> string \<Rightarrow> sip_inbound \<Rightarrow> dlg_effect list" where
  "respond env status reason c = respondWithData env status reason [] [] c"

definition RespondAndDrop ::
  "dialog_env \<Rightarrow> int \<Rightarrow> string \<Rightarrow> sip_inbound \<Rightarrow> sip_inbound \<times> dlg_effect list" where
  "RespondAndDrop env status reason c =
     (let c1 = c\<lparr>si_ringing := False\<rparr>; es = respond env status reason c1; (c2, es2) = drop_dlg c1 in
      (c2, es @ es2 @
        (if de_cache_rejects env \<and> status \<ge> 300 \<and> si_call_id c \<noteq> []
         then [CacheReject (si_call_id c, si_tag c) status reason] else [])))"

definition Processing :: "dialog_env \<Rightarrow> sip_inbound \<Rightarrow> sip_inbound \<times> dlg_effect list" where
  "Processing env c = (c, respond env 100 ''Processing'' c)"

definition sendRinging :: "dialog_env \<Rightarrow> sip_inbound \<Rightarrow> dlg_effect list" where
  "sendRinging env c = respond env 180 ''Ringing'' c"

definition attachTag :: "sip_inbound \<Rightarrow> sip_inbound" where
  "attachTag c = c\<lparr>si_to := (si_to c)\<lparr>to_params := (to_params (si_to c))(''tag'' \<mapsto> si_id c)\<rparr>\<rparr>"

text \<open>\<open>tx.Cancels()\<close> on a dropped transaction is a nil dereference.\<close>

definition StartRinging :: "dialog_env \<Rightarrow> sip_inbound \<Rightarrow> sip_inbound \<times> dlg_effect list" where
  "StartRinging env c =
     (let c1 = attachTag c in
      if si_tx c1 then (c1\<lparr>si_ringing := True\<rparr>, sendRinging env c1)
      else (c1\<lparr>si_ringing := True\<rparr>, [DlgPanic]))"

definition ring_tick :: "dialog_env \<Rightarrow> sip_inbound \<Rightarrow> sip_inbound \<times> dlg_effect list" where
  "ring_tick env c = (c, if si_cancelled c then [] else sendRinging env c)"

definition ring_cancel :: "sip_inbound \<Rightarrow> sip_inbound \<times> dlg_effect list" where
  "ring_cancel c =
     (if si_ringing c \<and> \<not> si_cancelled c
      then (c\<lparr>si_cancelled := True\<rparr>, [RespondOther ''CANCEL'' 200]) else (c, []))"

definition AcceptAsKeepAlive :: "dialog_env \<Rightarrow> string \<Rightarrow> sip_inbound \<Rightarrow> sip_inbound \<times> dlg_effect list" where
  "AcceptAsKeepAlive env sdp c = (c, respondWithData env 200 ''OK'' ''application/sdp'' sdp c)"

section \<open>Accepting the call\<close>

definition inviteOkRetryInterval :: nanos where
  "inviteOkRetryInterval = 250 * millisecond"

definition inviteOkRetryIntervalMax :: nanos where
  "inviteOkRetryIntervalMax = 3 * second"

definition inviteOKRetryAttempts :: nat where
  "inviteOKRetryAttempts = 5"

definition inviteOKRetryAttemptsNoACK :: nat where
  "inviteOKRetryAttemptsNoACK = 2"

text \<open>
  What happens at the \<open>n\<close>-th transmission of the 200 OK: writing it fails, an ACK arrives before the
  timer, or the timer fires.
\<close>

datatype ack_event = SendFails | GotAck | TimerFires

datatype accept_outcome = AcceptSendFailed | AcceptedAck | AcceptedUnacked

function accept_loop ::
  "bool \<Rightarrow> nat \<Rightarrow> (nat \<Rightarrow> ack_event) \<Rightarrow> nat \<Rightarrow> nanos \<Rightarrow> nanos \<Rightarrow> nat \<times> nanos \<times> accept_outcome" where
  "accept_loop no_wait maxRetries ev att retryAfter waited =
     (if ev att = SendFails then (att - 1, waited, AcceptSendFailed)
      else if no_wait then (att, waited, AcceptedUnacked)
      else if ev att = GotAck then (att, waited, AcceptedAck)
      else if att > maxRetries then (att, waited + retryAfter, AcceptedUnacked)
      else accept_loop no_wait maxRetries ev (att + 1) (min (2 * retryAfter) inviteOkRetryIntervalMax)
             (waited + retryAfter))"
  by pat_completeness auto
termination
  by (relation "measure (\<lambda>(no_wait, maxRetries, ev, att, retryAfter, waited). Suc maxRetries - att)") auto

definition accept_plan :: "dialog_env \<Rightarrow> sip_inbound \<Rightarrow> nat \<times> nanos" where
  "accept_plan env c =
     (if si_leg_tr c \<noteq> TransportUDP then (1, inviteOkRetryIntervalMax)
      else (if de_wait_ack env then inviteOKRetryAttempts else inviteOKRetryAttemptsNoACK,
            inviteOkRetryInterval))"

definition accept_run ::
  "dialog_env \<Rightarrow> (nat \<Rightarrow> ack_event) \<Rightarrow> sip_inbound \<Rightarrow> nat \<times> nanos \<times> accept_outcome" where
  "accept_run env ev c =
     accept_loop (si_leg_tr c \<noteq> TransportUDP \<and> \<not> de_wait_ack env)
       (fst (accept_plan env c)) ev 1 (snd (accept_plan env c)) 0"

datatype accept_error = AlreadyRejected | RespondFailed | ErrNoACK

definition accept_response :: "dialog_env \<Rightarrow> string \<Rightarrow> str_map \<Rightarrow> response_msg" where
  "accept_response env sdp headers =
     \<lparr>rp_status = 200, rp_reason = ''OK'', rp_ctype = ''application/sdp'', rp_body = sdp,
      rp_contact = True, rp_record_route = de_record_route env, rp_headers = headers\<rparr>"

definition Accept ::
  "dialog_env \<Rightarrow> (nat \<Rightarrow> ack_event) \<Rightarrow> string \<Rightarrow> str_map \<Rightarrow> sip_inbound
    \<Rightarrow> sip_inbound \<times> dlg_effect list \<times> accept_error option" where
  "Accept env ev sdp headers c =
     (if \<not> si_tx c then (c, [], Some AlreadyRejected)
      else (let c1 = c\<lparr>si_last_sdp := sdp, si_ringing := False\<rparr>;
                r = accept_response env sdp headers;
                (n, w, outcome) = accept_run env ev c;
                es = (if n = 0 then [] else [TxRespond r n]) in
            if outcome = AcceptSendFailed then (c1, es @ [TxRespondFails r n], Some RespondFailed)
            else (c1\<lparr>si_ok := map_option (\<lambda>i. de_new_response env i 200 ''OK'' sdp) (si_invite c),
                     si_tx := False\<rparr>, es,
                  if outcome = AcceptedUnacked \<and> de_wait_ack env then Some ErrNoACK else None)))"

definition AcceptAck :: "sip_inbound \<Rightarrow> sip_inbound \<times> dlg_effect list" where
  "AcceptAck c = (c\<lparr>si_acked := True\<rparr>, [])"

section \<open>Requests within the dialog\<close>

definition swapSrcDst :: "invite_req \<Rightarrow> invite_resp \<Rightarrow> sip_inbound \<Rightarrow> out_request \<Rightarrow> out_request" where
  "swapSrcDst ivt ok c req =
     req\<lparr>or_recipient := (case iv_contact ivt of Some a \<Rightarrow> a | None \<Rightarrow> to_uri (si_from c)),
         or_source := ir_source ok,
         or_dest := (case iv_record_routes ivt of
                       [] \<Rightarrow> si_invite_addr c
                     | rr # _ \<Rightarrow> GetDest (ConvertURI rr)),
         or_from := Some (si_to c), or_to := Some (si_from c),
         or_routes := map RouteUri (rev (or_record_routes req)) @ or_routes req,
         or_record_routes := []\<rparr>"

definition take_cseq :: "sip_inbound \<Rightarrow> out_request \<Rightarrow> sip_inbound \<times> out_request" where
  "take_cseq c req = (c\<lparr>si_next_cseq := si_next_cseq c + 1\<rparr>, set_cseq (si_next_cseq c) req)"

definition fillHeaders :: "sip_inbound \<Rightarrow> str_map option \<Rightarrow> str_map option" where
  "fillHeaders c headers = (case si_room_attrs c of
       None \<Rightarrow> headers
     | Some attrs \<Rightarrow> AttrsToHeaders attrs (si_attrs_to_hdr c) headers)"

definition sipInfoPictureFastUpdateBody :: string where
  "sipInfoPictureFastUpdateBody = join [CHR 0x0A]
     [''<?xml version=\"1.0\" encoding=\"utf-8\"?>'', ''<media_control>'', ''  <vc_primitive>'',
      ''    <to_encoder>'', ''      <picture_fast_update/>'', ''    </to_encoder>'',
      ''  </vc_primitive>'', ''</media_control>'']"

definition info_request :: "invite_req \<Rightarrow> invite_resp \<Rightarrow> out_request" where
  "info_request ivt ok =
     \<lparr>or_method = ''INFO'', or_cseq = 0, or_recipient = rq_recipient ivt,
      or_source = [], or_dest = [], or_transport = [],
      or_from = from_as_to (rq_from ivt),
      or_to = (case rq_to ivt of
                 None \<Rightarrow> None
               | Some to \<Rightarrow> (case Option.bind (ir_to ok) (\<lambda>h. to_params h ''tag'') of
                   None \<Rightarrow> Some to
                 | Some t \<Rightarrow> Some (to\<lparr>to_params := (to_params to)(''tag'' \<mapsto> t)\<rparr>))),
      or_call_id = rq_call_id ivt, or_routes = [], or_record_routes = [], or_contact = None,
      or_fixed = [(''Content-Type'', ''application/media_control+xml'')], or_headers = Map.empty,
      or_body = sipInfoPictureFastUpdateBody\<rparr>"

definition sendInfoPictureFastUpdate :: "sip_inbound \<Rightarrow> sip_inbound \<times> dlg_effect list" where
  "sendInfoPictureFastUpdate c = (case (si_invite c, si_ok c) of
       (Some ivt, Some ok) \<Rightarrow>
         (let (c1, r) = take_cseq c (info_request ivt ok)
          in (c1, [Msg (SendRequest (swapSrcDst ivt ok c r))]))
     | _ \<Rightarrow> (c, []))"

text \<open>\<open>answer\<close> is the final response the BYE gets, if any.\<close>

definition sendBye ::
  "dialog_env \<Rightarrow> int option \<Rightarrow> sip_inbound \<Rightarrow> sip_inbound \<times> dlg_effect list" where
  "sendBye env answer c = (case (si_ok c, si_invite c) of
       (Some ok, Some ivt) \<Rightarrow>
         (let r0 = de_new_bye env ivt ok;
              r1 = r0\<lparr>or_method := ''BYE'', or_headers := map_add_opt (or_headers r0) (fillHeaders c None)\<rparr>;
              (c1, r2) = take_cseq c r1;
              r3 = swapSrcDst ivt ok c r2;
              (c2, es) = drop_dlg c1
          in (c2, es @ map Msg (sendAndACK answer r3)))
     | _ \<Rightarrow> (c, []))"

definition sendStatus ::
  "dialog_env \<Rightarrow> int \<Rightarrow> string \<Rightarrow> sip_inbound \<Rightarrow> sip_inbound \<times> dlg_effect list" where
  "sendStatus env code status c =
     (if si_ok c \<noteq> None \<or> \<not> si_tx c then (c, [])
      else (let reason = (if status = [] then sipStatus code else status);
                r = \<lparr>rp_status = code, rp_reason = reason, rp_ctype = [], rp_body = [],
                     rp_contact = False, rp_record_route = False,
                     rp_headers = map_add_opt Map.empty (fillHeaders c None)\<rparr>;
                (c1, es) = drop_dlg c
            in (c1, TxRespond r 1 # es)))"

definition CloseWithStatus ::
  "dialog_env \<Rightarrow> int \<Rightarrow> string \<Rightarrow> int option \<Rightarrow> sip_inbound \<Rightarrow> sip_inbound \<times> dlg_effect list" where
  "CloseWithStatus env code status answer c =
     (if si_ok c \<noteq> None then sendBye env answer c
      else if si_tx c then sendStatus env code status c
      else drop_dlg c)"

definition Inbound_Close ::
  "dialog_env \<Rightarrow> int option \<Rightarrow> sip_inbound \<Rightarrow> sip_inbound \<times> dlg_effect list" where
  "Inbound_Close env answer c = CloseWithStatus env 486 ''Rejected'' answer c"

definition AcceptBye :: "sip_inbound \<Rightarrow> sip_inbound \<times> dlg_effect list" where
  "AcceptBye c = (let (c1, es) = drop_dlg c in (c1, RespondOther ''BYE'' 200 # es))"

definition newReferReq ::
  "string \<Rightarrow> str_map option \<Rightarrow> sip_inbound \<Rightarrow> sip_inbound \<times> (err + out_request)" where
  "newReferReq transferTo headers c = (case (si_invite c, si_ok c) of
       (Some ivt, Some ok) \<Rightarrow>
         (if rq_from ivt = None then (c, Inl (PsErr PsInvalidArgument ''no From URI in invite'' None))
          else (let r0 = NewReferRequest ivt ok (si_contact c) transferTo (fillHeaders c headers);
                    (c1, r1) = take_cseq c r0;
                    r2 = swapSrcDst ivt ok c r1
                in (c1\<lparr>si_refer_cseq := or_cseq r2\<rparr>, Inr r2)))
     | _ \<Rightarrow> (c, Inl (PsErr PsFailedPrecondition ''can't transfer non established call'' None)))"

definition transfer_send ::
  "string \<Rightarrow> str_map option \<Rightarrow> sip_inbound \<Rightarrow> sip_inbound \<times> dlg_effect list" where
  "transfer_send transferTo headers c = (case newReferReq transferTo headers c of
       (c1, Inl e) \<Rightarrow> (c1, [])
     | (c1, Inr r) \<Rightarrow> (c1, [Msg (SendRequest r)]))"

text \<open>
  \<open>TransferCall\<close>: how a transfer ends. After the REFER was accepted, the caller's context, the end of
  the call, or the result of a NOTIFY decides.
\<close>

datatype refer_wait = CtxDone | CallDone | ReferResult "err option"

definition TransferCall ::
  "string \<Rightarrow> str_map option \<Rightarrow> err + (int \<times> string) \<Rightarrow> refer_wait \<Rightarrow> sip_inbound
    \<Rightarrow> sip_inbound \<times> err option" where
  "TransferCall transferTo headers answer w c = (case newReferReq transferTo headers c of
       (c1, Inl e) \<Rightarrow> (c1, Some e)
     | (c1, Inr r) \<Rightarrow>
         (case sendRefer answer of
            Some e \<Rightarrow> (c1, Some e)
          | None \<Rightarrow> (c1, case w of
                CtxDone \<Rightarrow> Some (PsErr PsCanceled ''refer canceled'' None)
              | CallDone \<Rightarrow> None
              | ReferResult e \<Rightarrow> e)))"

text \<open>The result a NOTIFY puts on \<open>referDone\<close>, or the error it is answered with.\<close>

definition dlg_handleNotify ::
  "(sip_status \<Rightarrow> psrpc_code) \<Rightarrow> sip_request \<Rightarrow> sip_inbound \<Rightarrow> err + err option option" where
  "dlg_handleNotify to_code req c = (case handleNotify req of
       Inl e \<Rightarrow> Inl e
     | Inr (method, cseq, status, reason) \<Rightarrow>
         Inr (handleReferNotify to_code cseq status reason (si_refer_cseq c)))"

section \<open>Operations of the dialog\<close>

datatype dlg_op =
    OpDrop | OpRespondAndDrop int string | OpProcessing | OpStartRinging | OpRingTick | OpRingCancel
  | OpAccept "nat \<Rightarrow> ack_event" string str_map | OpAcceptAck | OpAcceptBye
  | OpClose int string "int option" | OpTransfer string "str_map option" | OpInfo

fun dlg_step :: "dialog_env \<Rightarrow> dlg_op \<Rightarrow> sip_inbound \<Rightarrow> sip_inbound \<times> dlg_effect list" where
  "dlg_step env OpDrop c = drop_dlg c"
| "dlg_step env (OpRespondAndDrop st reason) c = RespondAndDrop env st reason c"
| "dlg_step env OpProcessing c = Processing env c"
| "dlg_step env OpStartRinging c = StartRinging env c"
| "dlg_step env OpRingTick c = ring_tick env c"
| "dlg_step env OpRingCancel c = ring_cancel c"
| "dlg_step env (OpAccept ev sdp h) c = (case Accept env ev sdp h c of (c', es, e) \<Rightarrow> (c', es))"
| "dlg_step env OpAcceptAck c = AcceptAck c"
| "dlg_step env OpAcceptBye c = AcceptBye c"
| "dlg_step env (OpClose code status answer) c = CloseWithStatus env code status answer c"
| "dlg_step env (OpTransfer to h) c = transfer_send to h c"
| "dlg_step env OpInfo c = sendInfoPictureFastUpdate c"


section \<open>What is observed of a run\<close>

definition is_final :: "dlg_effect \<Rightarrow> bool" where
  "is_final e = (case e of TxRespond r n \<Rightarrow> rp_status r \<ge> 200 | _ \<Rightarrow> False)"

definition retry_fails :: "dlg_effect \<Rightarrow> bool" where
  "retry_fails e = (case e of TxRespondFails r n \<Rightarrow> n > 0 | _ \<Rightarrow> False)"

definition is_request :: "string \<Rightarrow> dlg_effect \<Rightarrow> bool" where
  "is_request m e = (case e of Msg (SendRequest r) \<Rightarrow> or_method r = m | _ \<Rightarrow> False)"

definition is_hangup :: "dlg_effect \<Rightarrow> bool" where
  "is_hangup e =
     (is_request ''BYE'' e \<or> (case e of TxRespond r n \<Rightarrow> rp_status r \<ge> 300 | _ \<Rightarrow> False))"

definition is_rejection :: "dlg_effect \<Rightarrow> bool" where
  "is_rejection e = (case e of TxRespond r n \<Rightarrow> rp_status r \<ge> 300 | _ \<Rightarrow> False)"

fun request_cseqs :: "dlg_effect list \<Rightarrow> u32 list" where
  "request_cseqs [] = []"
| "request_cseqs (Msg (SendRequest r) # es) = or_cseq r # request_cseqs es"
| "request_cseqs (e # es) = request_cseqs es"

text \<open>
  The invariant of a dialog: a live transaction and an accepted dialog both keep the INVITE, and the
  two exclude each other.
\<close>

definition dlg_inv :: "sip_inbound \<Rightarrow> bool" where
  "dlg_inv c = ((si_tx c \<longrightarrow> si_invite c \<noteq> None) \<and> (si_ok c \<noteq> None \<longrightarrow> si_invite c \<noteq> None)
     \<and> \<not> (si_tx c \<and> si_ok c \<noteq> None))"

text \<open>How the service uses the operations: rejections carry a final error status.\<close>

fun dlg_use :: "dlg_op \<Rightarrow> bool" where
  "dlg_use (OpRespondAndDrop st reason) = (st \<ge> 300)"
| "dlg_use (OpClose code status answer) = (code \<ge> 300)"
| "dlg_use op = True"

definition open_responses :: "sip_inbound \<Rightarrow> nat" where
  "open_responses c = (if si_tx c then 1 else 0)"

definition open_hangups :: "sip_inbound \<Rightarrow> nat" where
  "open_hangups c = (if si_tx c \<or> si_ok c \<noteq> None then 1 else 0)"

lemmas dlg_observe = is_final_def retry_fails_def is_request_def is_hangup_def open_responses_def open_hangups_def

section \<open>Lemmas on the operations\<close>

lemma request_cseqs_append [simp]: "request_cseqs (xs @ ys) = request_cseqs xs @ request_cseqs ys"
  by (induction xs rule: request_cseqs.induct) simp_all

lemma swapSrcDst_simps [simp]:
  "or_method (swapSrcDst i ok c r) = or_method r" "or_cseq (swapSrcDst i ok c r) = or_cseq r"
  by (simp_all add: swapSrcDst_def)

lemmas dlg_ops = drop_dlg_def respondWithData_def respond_def RespondAndDrop_def Processing_def
  sendRinging_def attachTag_def StartRinging_def ring_tick_def ring_cancel_def AcceptAck_def
  take_cseq_def sendInfoPictureFastUpdate_def sendBye_def sendStatus_def CloseWithStatus_def
  AcceptBye_def newReferReq_def transfer_send_def sendAndACK_def

declare accept_loop.simps [simp del]

lemma accept_loop_eqs [simp]:
  "ev att = SendFails \<Longrightarrow> accept_loop nw m ev att ra w = (att - 1, w, AcceptSendFailed)"
  "ev att \<noteq> SendFails \<Longrightarrow> nw \<Longrightarrow> accept_loop nw m ev att ra w = (att, w, AcceptedUnacked)"
  "ev att = GotAck \<Longrightarrow> \<not> nw \<Longrightarrow> accept_loop nw m ev att ra w = (att, w, AcceptedAck)"
  "ev att = TimerFires \<Longrightarrow> \<not> nw \<Longrightarrow> m < att
    \<Longrightarrow> accept_loop nw m ev att ra w = (att, w + ra, AcceptedUnacked)"
  "ev att = TimerFires \<Longrightarrow> \<not> nw \<Longrightarrow> att \<le> m \<Longrightarrow> accept_loop nw m ev att ra w
     = accept_loop nw m ev (Suc att) (min (2 * ra) inviteOkRetryIntervalMax) (w + ra)"
  by (subst accept_loop.simps, simp)+

text \<open>The ways one round of the loop goes.\<close>

lemma accept_round:
  obtains (fails) "ev att = SendFails" | (no_wait) "ev att \<noteq> SendFails" "nw"
  | (acked) "ev att = GotAck" "\<not> nw" | (last) "ev att = TimerFires" "\<not> nw" "m < (att::nat)"
  | (again) "ev att = TimerFires" "\<not> nw" "att \<le> m"
  by (cases "ev att"; cases nw; cases "att \<le> m") auto

lemma accept_loop_induct [consumes 1, case_names round]:
  assumes "att \<le> Suc m"
    and round: "\<And>att ra w. att \<le> Suc m
      \<Longrightarrow> (ev att = TimerFires \<Longrightarrow> \<not> nw \<Longrightarrow> att \<le> m
           \<Longrightarrow> P (Suc att) (min (2 * ra) inviteOkRetryIntervalMax) (w + ra)) \<Longrightarrow> P att ra w"
  shows "P att ra w"
  using assms(1)
proof (induction "Suc m - att" arbitrary: att ra w)
  case 0
  show ?case by (rule round) (use 0 in simp_all)
next
  case (Suc d att ra w)
  have "P (Suc att) (min (2 * ra) inviteOkRetryIntervalMax) (w + ra)" if "att \<le> m"
    by (rule Suc.hyps(1)) (use Suc.hyps(2) that in simp_all)
  then show ?case by (rule round [OF Suc.prems])
qed

text \<open>
  The loop goes from timer to timer up to the first other event or the last attempt; with \<open>nw\<close>, the first
  attempt is the last.
\<close>

definition accept_stops :: "bool \<Rightarrow> nat \<Rightarrow> (nat \<Rightarrow> ack_event) \<Rightarrow> nat \<Rightarrow> nat \<Rightarrow> bool" where
  "accept_stops nw m ev att k =
     (att \<le> k \<and> k \<le> (if nw then att else Suc m) \<and> (\<forall>j. att \<le> j \<and> j < k \<longrightarrow> ev j = TimerFires)
      \<and> (ev k \<noteq> TimerFires \<or> k = (if nw then att else Suc m)))"

definition accept_gives :: "bool \<Rightarrow> ack_event \<Rightarrow> nat \<Rightarrow> nat \<times> accept_outcome" where
  "accept_gives nw e k =
     (if e = SendFails then (k - 1, AcceptSendFailed)
      else (k, if \<not> nw \<and> e = GotAck then AcceptedAck else AcceptedUnacked))"

lemma accept_loop_outcome:
  assumes le: "att \<le> Suc m"
  shows "accept_loop nw m ev att ra w = (n, w', out)
    \<Longrightarrow> \<exists>k. accept_stops nw m ev att k \<and> (n, out) = accept_gives nw (ev k) k"
  using le
proof (induction att ra w rule: accept_loop_induct [where nw = nw and m = m and ev = ev])
  case (round att ra w)
  show ?case
  proof (cases rule: accept_round [where ev = ev and att = att and nw = nw and m = m])
    case again
    with round.prems
    have "accept_loop nw m ev (Suc att) (min (2 * ra) inviteOkRetryIntervalMax) (w + ra) = (n, w', out)"
      by simp
    then obtain k where k: "accept_stops nw m ev (Suc att) k" "(n, out) = accept_gives nw (ev k) k"
      using round.IH [OF again] again(3) by auto
    have "ev j = TimerFires" if "att \<le> j" "j < k" for j
      using that again(1) k(1) by (cases "j = att") (auto simp: accept_stops_def)
    with again k show ?thesis by (intro exI [of _ k]) (auto simp: accept_stops_def)
  qed (use round.prems round.hyps in \<open>auto simp: accept_stops_def accept_gives_def intro!: exI [of _ att]\<close>)
qed

text \<open>How many times \<open>Accept\<close> writes the 200 at most.\<close>

lemma accept_limit:
  "(if si_leg_tr c \<noteq> TransportUDP \<and> \<not> de_wait_ack env then 1 else Suc (fst (accept_plan env c)))
    = (if si_leg_tr c = TransportUDP then if de_wait_ack env then 6 else 3 else if de_wait_ack env then 2 else 1)"
  by (simp add: accept_plan_def inviteOKRetryAttempts_def inviteOKRetryAttemptsNoACK_def)

section \<open>Invariant and budgets of the dialog\<close>

lemma accept_response_status [simp]: "rp_status (accept_response env sdp h) = 200"
  by (simp add: accept_response_def)

lemma Accept_cases:
  obtains (rejected) "\<not> si_tx c" "Accept env ev sdp h c = (c, [], Some AlreadyRejected)"
  | (failed) n w where "si_tx c" "accept_run env ev c = (n, w, AcceptSendFailed)"
      "Accept env ev sdp h c
         = (c\<lparr>si_last_sdp := sdp, si_ringing := False\<rparr>,
            (if n = 0 then [] else [TxRespond (accept_response env sdp h) n])
              @ [TxRespondFails (accept_response env sdp h) n], Some RespondFailed)"
  | (accepted) n w out where "si_tx c" "accept_run env ev c = (n, w, out)" "out \<noteq> AcceptSendFailed"
      "Accept env ev sdp h c
         = (c\<lparr>si_last_sdp := sdp, si_ringing := False,
              si_ok := map_option (\<lambda>i. de_new_response env i 200 ''OK'' sdp) (si_invite c), si_tx := False\<rparr>,
            if n = 0 then [] else [TxRespond (accept_response env sdp h) n],
            if out = AcceptedUnacked \<and> de_wait_ack env then Some ErrNoACK else None)"
  by (cases "accept_run env ev c"; cases "si_tx c"; cases "snd (snd (accept_run env ev c)) = AcceptSendFailed")
    (simp_all add: Accept_def Let_def)

lemma dlg_step_inv: "dlg_inv c \<Longrightarrow> dlg_inv (fst (dlg_step env op c))"
proof (cases op)
  case (OpAccept ev sdp h)
  assume "dlg_inv c"
  with OpAccept show ?thesis
    by (cases rule: Accept_cases [of c env ev sdp h]) (auto simp: dlg_inv_def)
qed (auto simp: dlg_ops dlg_inv_def split_def Let_def split: option.splits sum.splits)

text \<open>A final response closes the INVITE, unless it is a 200 that could not be written again.\<close>

definition response_settles :: "sip_inbound \<Rightarrow> sip_inbound \<Rightarrow> dlg_effect list \<Rightarrow> bool" where
  "response_settles c c' es =
     (count_by is_final es + open_responses c' \<le> open_responses c + count_by retry_fails es)"

interpretation dlg_response: ledger dlg_inv response_settles
  by unfold_locales (auto simp: response_settles_def)

lemma dlg_response_kept: "keeps dlg_inv response_settles c (dlg_step env op c)"
  unfolding keeps_def
proof
  assume inv: "dlg_inv c"
  have "response_settles c (fst (dlg_step env op c)) (snd (dlg_step env op c))"
  proof (cases op)
    case (OpAccept ev sdp h)
    then show ?thesis
      by (cases rule: Accept_cases [of c env ev sdp h]) (auto simp: dlg_observe response_settles_def)
  qed (use inv in \<open>auto simp: dlg_ops dlg_inv_def dlg_observe response_settles_def split_def Let_def
         split: option.splits sum.splits\<close>)
  with inv show "dlg_inv (fst (dlg_step env op c)) \<and> response_settles c (fst (dlg_step env op c)) (snd (dlg_step env op c))"
    by (simp add: dlg_step_inv)
qed

lemma dlg_hangup_pays:
  assumes "dlg_inv c"
  shows "count_by is_hangup (snd (dlg_step env op c)) + open_hangups (fst (dlg_step env op c))
    \<le> open_hangups c"
proof (cases op)
  case (OpAccept ev sdp h)
  show ?thesis
    using OpAccept assms
    by (cases rule: Accept_cases [of c env ev sdp h]) (auto simp: dlg_observe)
qed (use assms in \<open>auto simp: dlg_ops dlg_inv_def dlg_observe info_request_def split_def Let_def
       split: option.splits sum.splits\<close>)

interpretation dlg_hangup: budgeted "dlg_step env" "\<lambda>_. True" dlg_inv is_hangup open_hangups
  for env
  by unfold_locales (auto intro: dlg_step_inv dlg_hangup_pays)

lemma one_hangup: "dlg_inv c \<Longrightarrow> count_by is_hangup (snd (run (dlg_step env) ops c)) \<le> 1"
  using dlg_hangup.run_at_most [of ops c env] by (simp add: open_hangups_def list_all_iff split: if_splits)

lemma newInbound_inv: "newInbound ivt src co cached fresh = Inr c \<Longrightarrow> dlg_inv c"
  by (auto simp: newInbound_def dlg_inv_def Let_def split: option.splits if_splits)

section \<open>Sequence numbers of our requests\<close>

lemma request_cseqs_if [simp]:
  "request_cseqs (if b then xs else ys) = (if b then request_cseqs xs else request_cseqs ys)"
  by simp

lemma dlg_step_dropped:
  assumes "dlg_inv c" "si_invite c = None"
  shows "request_cseqs (snd (dlg_step env op c)) = [] \<and> si_invite (fst (dlg_step env op c)) = None"
proof (cases op)
  case (OpAccept ev sdp h)
  with assms show ?thesis
    by (cases rule: Accept_cases [of c env ev sdp h]) (auto simp: dlg_inv_def)
qed (use assms in \<open>auto simp: dlg_ops dlg_inv_def split_def Let_def split: option.splits sum.splits\<close>)

lemma dlg_step_cseq:
  assumes "dlg_inv c"
  shows "request_cseqs (snd (dlg_step env op c)) = []
      \<and> (si_next_cseq (fst (dlg_step env op c)) = si_next_cseq c \<or> si_invite (fst (dlg_step env op c)) = None)
    \<or> request_cseqs (snd (dlg_step env op c)) = [si_next_cseq c]
      \<and> (si_next_cseq (fst (dlg_step env op c)) = si_next_cseq c + 1
         \<or> si_invite (fst (dlg_step env op c)) = None)"
proof (cases op)
  case (OpAccept ev sdp h)
  with assms show ?thesis
    by (cases rule: Accept_cases [of c env ev sdp h]) auto
qed (use assms in \<open>auto simp: dlg_ops dlg_inv_def split_def Let_def
       split: option.splits sum.splits if_splits\<close>)

interpretation dlg_seq: sequenced "dlg_step env" "\<lambda>_. True" dlg_inv si_next_cseq
    "\<lambda>c. si_invite c = None" request_cseqs
  for env
  by unfold_locales
    (simp_all add: dlg_step_inv dlg_step_dropped dlg_step_cseq)

lemma newInbound_next_cseq:
  "newInbound ivt src co cached fresh = Inr c \<Longrightarrow> rq_cseq ivt = Some n \<Longrightarrow> si_next_cseq c = n + 1"
  by (auto simp: newInbound_def Let_def split: option.splits if_splits)

section \<open>A sample dialog\<close>

definition sample_env :: dialog_env where
  "sample_env =
     \<lparr>de_wait_ack = True, de_record_route = False, de_cache_rejects = True,
      de_signaling_ip = NoAddr, de_sip_port = 5060, de_new_bye = sample_bye,
      de_new_response = (\<lambda>i status reason body. sample_response status)\<rparr>"

definition sample_dialog :: sip_inbound where
  "sample_dialog = projr (newInbound sample_invite ''10.0.0.9:5060''
     (\<lambda>tr. \<lparr>u_user = [], u_host = ''sip.example.com'', u_addr = \<lparr>ap_addr = NoAddr, ap_port = 0\<rparr>,
             u_transport = tr\<rparr>) None ''SCL_1'')"

definition sample_ops :: "dlg_op list" where
  "sample_ops = [OpProcessing, OpStartRinging, OpRingTick,
     OpAccept (\<lambda>n. if n < 2 then TimerFires else GotAck) ''sdp'' Map.empty, OpInfo,
     OpTransfer ''sip:carol@example.com'' None, OpClose 486 [] (Some 200), OpClose 486 [] None]"

lemma sample_dialog_new:
  "newInbound sample_invite ''10.0.0.9:5060''
     (\<lambda>tr. \<lparr>u_user = [], u_host = ''sip.example.com'', u_addr = \<lparr>ap_addr = NoAddr, ap_port = 0\<rparr>,
             u_transport = tr\<rparr>) None ''SCL_1'' = Inr sample_dialog"
  by (simp add: sample_dialog_def newInbound_def sample_invite_def param_def Let_def)

lemma sample_dialog_tx:
  "si_tx sample_dialog" "si_ok sample_dialog = None" "si_leg_tr sample_dialog = TransportUDP"
  by (code_simp)+

section \<open>Properties of the dialog\<close>

text \<open>
  C19. From a new inbound dialog, however the operations are interleaved and whatever the transport does, the
  INVITE gets at most one final response (a 200 OK with its retransmissions counts once), and one more for
  every 200 that was written and could not be written again: then the code keeps the transaction, and the
  dialog may still be rejected. At most one of the final responses is a rejection.
\<close>
theorem inbound_one_final_response:
  assumes "newInbound ivt src co cached fresh = Inr c"
  shows "case run (dlg_step env) ops c of (c', es) \<Rightarrow>
     count_by is_final es \<le> 1 + count_by retry_fails es \<and> count_by is_rejection es \<le> 1"
proof -
  let ?es = "snd (run (dlg_step env) ops c)"
  have inv: "dlg_inv c" using assms by (rule newInbound_inv)
  have "response_settles c (fst (run (dlg_step env) ops c)) ?es"
    using dlg_response.keeps_run [of "\<lambda>_. True" "dlg_step env" ops c] inv dlg_response_kept
    by (simp add: keeps_def list_all_iff)
  then have "count_by is_final ?es \<le> 1 + count_by retry_fails ?es"
    by (simp add: response_settles_def open_responses_def split: if_splits)
  moreover have "count_by is_rejection ?es \<le> count_by is_hangup ?es"
    by (rule count_by_mono) (auto simp: is_rejection_def is_hangup_def split: dlg_effect.splits)
  moreover have "count_by is_hangup ?es \<le> 1" using inv by (rule one_hangup)
  ultimately show ?thesis by (simp add: split_def)
qed

theorem inbound_one_final_response_witness:
  "count_by is_final (snd (run (dlg_step sample_env) sample_ops sample_dialog)) = 1"
proof -
  have "count_by retry_fails (snd (run (dlg_step sample_env) sample_ops sample_dialog)) = 0"
    "count_by is_final (snd (run (dlg_step sample_env) sample_ops sample_dialog)) \<noteq> 0" by code_simp+
  with inbound_one_final_response [OF sample_dialog_new, of sample_env sample_ops] show ?thesis
    by (simp add: split_def)
qed

text \<open>The other case does happen: a 200 is written, its retransmission fails, and the INVITE is then answered with 486.\<close>

lemma answered_twice:
  "count_by is_final (snd (run (dlg_step sample_env)
     [OpAccept (\<lambda>n. if n = 1 then TimerFires else SendFails) ''sdp'' Map.empty, OpClose 486 [] None] sample_dialog)) = 2"
  by code_simp

text \<open>
  C17. A dialog is hung up at most once: over any interleaving, BYE requests and rejecting responses
  together number at most one.
\<close>
theorem inbound_one_hangup:
  assumes "newInbound ivt src co cached fresh = Inr c"
  shows "count_by is_hangup (snd (run (dlg_step env) ops c)) \<le> 1"
  using newInbound_inv [OF assms] by (rule one_hangup)

theorem inbound_one_hangup_witness:
  "count_by is_hangup (snd (run (dlg_step sample_env) sample_ops sample_dialog)) \<le> 1"
  by (rule inbound_one_hangup [OF sample_dialog_new])

text \<open>
  The requests we send within an inbound dialog (INFO, REFER, BYE) carry consecutive sequence
  numbers from the INVITE's CSeq plus one, in the order they are sent, over any interleaving of
  operations.
\<close>
theorem inbound_cseqs_consecutive:
  assumes "newInbound ivt src co cached fresh = Inr c" and "rq_cseq ivt = Some n"
    and "cs = request_cseqs (snd (run (dlg_step env) ops c))"
  shows "cs = map (\<lambda>i. n + 1 + of_nat i) [0..<length cs]"
proof -
  obtain k where "cs = map (\<lambda>i. si_next_cseq c + of_nat i) [0..<k]"
    using dlg_seq.run_seqs [OF _ newInbound_inv [OF assms(1)], of ops env] assms(3)
    by (auto simp: list_all_iff)
  then show ?thesis using newInbound_next_cseq [OF assms(1,2)] by simp
qed

theorem inbound_cseqs_consecutive_witness:
  "request_cseqs (snd (run (dlg_step sample_env) sample_ops sample_dialog)) = [8, 9, 10]"
proof -
  have "length (request_cseqs (snd (run (dlg_step sample_env) sample_ops sample_dialog))) = 3"
    by code_simp
  with inbound_cseqs_consecutive [OF sample_dialog_new, of 7 _ sample_env sample_ops] show ?thesis
    by (simp add: sample_invite_def numeral_3_eq_3 upt_conv_Cons)
qed

text \<open>
  Closing an inbound dialog does exactly one thing: an accepted call gets a BYE, a pending INVITE
  the rejecting status, anything else nothing; afterwards the dialog is dropped, and closing it again
  sends nothing.
\<close>
theorem inbound_close_effects:
  assumes "dlg_inv c" and "code \<ge> 300"
  shows "let (c', es) = CloseWithStatus env code status answer c in
    count_by (is_request ''BYE'') es = (if si_ok c \<noteq> None then 1 else 0)
    \<and> count_by is_final es = (if si_ok c = None \<and> si_tx c then 1 else 0)
    \<and> si_invite c' = None \<and> \<not> si_tx c' \<and> si_ok c' = None
    \<and> snd (CloseWithStatus env code2 status2 answer2 c') = []"
  using assms
  by (auto simp: dlg_ops dlg_inv_def dlg_observe split_def Let_def split: option.splits)

theorem inbound_close_effects_witness:
  "count_by is_final (snd (CloseWithStatus sample_env 486 ''Rejected'' None sample_dialog)) = 1"
  using inbound_close_effects [OF newInbound_inv [OF sample_dialog_new], of 486 sample_env "''Rejected''" None]
  by (simp add: Let_def split_def sample_dialog_tx)

text \<open>
  C21. Accepting an INVITE: on a dropped transaction nothing is sent and it is an error. Otherwise the 200 OK
  is written at attempts 1, 2, ..., each after the first following a timer, up to the first attempt that does
  not end with its timer: at most 3 attempts over UDP, 6 with the ACK awaited, and over a reliable transport 1,
  or 2 with the ACK awaited. If the transport does not take the last attempt, the error is returned and the
  transaction is kept; otherwise the dialog is accepted, with the missing-ACK error only if the ACK is awaited
  and none came.
\<close>
theorem inbound_accept_retries:
  assumes "dlg_inv c"
    and "most = (if si_leg_tr c = TransportUDP then if de_wait_ack env then 6 else 3
                 else if de_wait_ack env then 2 else (1::nat))"
  shows "case Accept env ev sdp h c of (c', es, err) \<Rightarrow>
     if \<not> si_tx c then c' = c \<and> es = [] \<and> err = Some AlreadyRejected
     else \<exists>k. 1 \<le> k \<and> k \<le> most \<and> (\<forall>j. 1 \<le> j \<and> j < k \<longrightarrow> ev j = TimerFires) \<and> (ev k \<noteq> TimerFires \<or> k = most)
       \<and> (if ev k = SendFails
          then es = (if k = 1 then [] else [TxRespond (accept_response env sdp h) (k - 1)])
                    @ [TxRespondFails (accept_response env sdp h) (k - 1)]
               \<and> err = Some RespondFailed \<and> si_tx c' \<and> si_ok c' = None
          else es = [TxRespond (accept_response env sdp h) k]
               \<and> err = (if ev k = TimerFires \<and> de_wait_ack env then Some ErrNoACK else None)
               \<and> \<not> si_tx c' \<and> si_ok c' \<noteq> None)"
proof (cases "si_tx c")
  case True
  let ?nw = "si_leg_tr c \<noteq> TransportUDP \<and> \<not> de_wait_ack env"
  obtain n w out where run: "accept_run env ev c = (n, w, out)" by (cases "accept_run env ev c")
  then obtain k where k: "accept_stops ?nw (fst (accept_plan env c)) ev 1 k" "(n, out) = accept_gives ?nw (ev k) k"
    using accept_loop_outcome [OF _ run [unfolded accept_run_def]] by auto
  have stops: "1 \<le> k \<and> k \<le> most \<and> (\<forall>j. 1 \<le> j \<and> j < k \<longrightarrow> ev j = TimerFires) \<and> (ev k \<noteq> TimerFires \<or> k = most)"
    using k(1) unfolding accept_stops_def accept_limit assms(2) by blast
  obtain i where "si_invite c = Some i" "si_ok c = None" using assms(1) True by (auto simp: dlg_inv_def)
  with True run k(2) stops show ?thesis
    by (cases "ev k") (auto simp: Accept_def Let_def accept_gives_def intro!: exI [of _ k])
qed (simp add: Accept_def)

theorem inbound_accept_retries_witness:
  "snd (Accept sample_env (\<lambda>_. TimerFires) ''sdp'' Map.empty sample_dialog)
      = ([TxRespond (accept_response sample_env ''sdp'' Map.empty) 6], Some ErrNoACK)"
proof -
  have wait: "de_wait_ack sample_env" by (simp add: sample_env_def)
  show ?thesis
    using inbound_accept_retries [OF newInbound_inv [OF sample_dialog_new] refl,
        of sample_env "\<lambda>_. TimerFires" "''sdp''" Map.empty]
    by (auto simp: sample_dialog_tx wait split_def prod_eq_iff)
qed

end
