(* ===== verification/Outbound_Dialog.thy ===== *)
theory Outbound_Dialog
  imports Sip_Messages Termination_Class "HOL-Library.Char_ord" "HOL-Library.List_Lexorder"
begin

text \<open>
  \<open>sipOutbound\<close> of \<open>pkg/sip/outbound.go\<close>: the UAC dialog of an outbound call, with \<open>sipResponse\<close>, the
  INVITE and its authentication, the requests within the dialog and its end. Each method runs under
  the mutex \<open>mu\<close> and is one operation.

  The environment is what each INVITE transaction reports, in order, and the digest library; a list
  of reports that ends before the transaction does leaves the operation waiting. The pointer
  \<open>c.invite\<close> aliases the request that was sent: its later changes are changes of the stored INVITE.
\<close>

section \<open>State, effects and environment\<close>

record sip_outbound =
  so_id :: string
  so_from :: to_header
  so_display :: string
  so_contact :: sip_uri
  so_route_headers :: "string list"
  so_tag :: string
  so_call_id :: string
  so_invite :: "invite_req option"
  so_invite_ok :: "invite_resp option"
  so_local_sdp :: string
  so_to :: "sip_uri option"
  so_next_cseq :: u32
  so_get_headers :: "(str_map option \<Rightarrow> str_map option) option"
  so_refer_cseq :: u32
  so_latest_invite_cseq :: u32

datatype sip_event = CtxEnds | ServiceStops | TxEnds | GotResponse invite_resp

text \<open>One INVITE transaction: the addresses the stack gives the request, whether it starts, what it reports.\<close>

record attempt =
  at_source :: string
  at_dest :: string
  at_tx_err :: "err option"
  at_events :: "sip_event list"

text \<open>
  The library: parsing a challenge (\<open>Inl\<close> its error), answering it for a method, a URI and the
  credentials, the text of an address, and the constructors of BYE and CANCEL.
\<close>

record 'ch outbound_env =
  oe_parse_challenge :: "string \<Rightarrow> string + 'ch"
  oe_digest :: "'ch \<Rightarrow> string \<Rightarrow> string \<Rightarrow> string \<Rightarrow> string \<Rightarrow> string + string"
  oe_show_uri :: "sip_uri \<Rightarrow> string"
  oe_new_bye :: "invite_req \<Rightarrow> invite_resp \<Rightarrow> out_request"
  oe_new_cancel :: "invite_req \<Rightarrow> out_request"

datatype out_effect =
    SendInvite invite_req
  | TxCancel
  | ReportState int "header list"
  | OutMsg msg_effect
  | WriteOnly out_request
  | WriteAck invite_req invite_resp
  | RespondBye int

section \<open>New dialogs\<close>

text \<open>\<open>newOutbound\<close>; \<open>hashed\<close> is \<open>guid.HashedID\<close>.\<close>

definition newOutbound ::
  "(string \<Rightarrow> string) \<Rightarrow> string \<Rightarrow> uri \<Rightarrow> uri \<Rightarrow> string option
    \<Rightarrow> (str_map option \<Rightarrow> str_map option) option \<Rightarrow> sip_outbound" where
  "newOutbound hashed ident from contact displayName getHeaders =
     (let from' = Normalize from in
      \<lparr>so_id = ident,
       so_from = \<lparr>to_uri = GetURI from', to_params = [''tag'' \<mapsto> ident]\<rparr>,
       so_display = (case displayName of None \<Rightarrow> u_user from' | Some n \<Rightarrow> n),
       so_contact = GetContactURI contact, so_route_headers = [], so_tag = [],
       so_call_id = hashed ident, so_invite = None, so_invite_ok = None, so_local_sdp = [],
       so_to = None, so_next_cseq = 1, so_get_headers = getHeaders, so_refer_cseq = 0,
       so_latest_invite_cseq = 0\<rparr>)"

definition To :: "sip_outbound \<Rightarrow> sip_uri" where
  "To c = (case so_to c of None \<Rightarrow> empty_uri | Some u \<Rightarrow> u)"

definition RecordInvite :: "u32 \<Rightarrow> sip_outbound \<Rightarrow> sip_outbound" where
  "RecordInvite cseq c =
     (if cseq > so_latest_invite_cseq c then c\<lparr>so_latest_invite_cseq := cseq\<rparr> else c)"

definition SetLocalSDP :: "string \<Rightarrow> sip_outbound \<Rightarrow> sip_outbound" where
  "SetLocalSDP sdp c = c\<lparr>so_local_sdp := sdp\<rparr>"

definition OwnSDP :: "sip_outbound \<Rightarrow> string" where
  "OwnSDP c = (case so_invite c of None \<Rightarrow> [] | Some r \<Rightarrow> rq_body r)"

definition drop_out :: "sip_outbound \<Rightarrow> sip_outbound" where
  "drop_out c = c\<lparr>so_invite := None, so_invite_ok := None, so_next_cseq := 0\<rparr>"

section \<open>Waiting for a response\<close>

text \<open>
  \<open>sipResponse\<close>: provisional responses are reported and counted, the first other response ends the
  wait. \<open>Waiting\<close> means that the transaction has not reported its end.
\<close>

datatype wait_result = Waiting | WaitErr err | Final invite_resp

fun sipResponse :: "sip_event list \<Rightarrow> nat \<Rightarrow> out_effect list \<times> wait_result" where
  "sipResponse [] cnt = ([], Waiting)"
| "sipResponse (CtxEnds # evs) cnt =
     ([TxCancel], WaitErr (PsErr PsCanceled ''sip request timed out'' None))"
| "sipResponse (ServiceStops # evs) cnt =
     ([TxCancel], WaitErr (PsErr PsCanceled ''service shutting down'' None))"
| "sipResponse (TxEnds # evs) cnt =
     ([], WaitErr (PsErr PsCanceled
        (''transaction failed to complete ('' @ itoa (int cnt) @ '' intermediate responses)'') None))"
| "sipResponse (GotResponse r # evs) cnt =
     (if ir_status r div 100 \<noteq> 1 then ([ReportState (ir_status r) (ir_headers r)], Final r)
      else (case sipResponse evs (cnt + 1) of
              (es, res) \<Rightarrow> (ReportState (ir_status r) (ir_headers r) # es, res)))"

section \<open>The INVITE\<close>

datatype invite_error =
    InvTx err
  | InvUnexpected sip_status
  | InvFailed sip_status
  | InvMaxRetry
  | InvMissingCreds
  | InvNoAuthHeader
  | InvBadChallenge string string
  | InvNoToInResponse
  | InvDigest string
  | InvNoTo
  | InvNoTag

definition invite_request ::
  "u32 \<Rightarrow> attempt \<Rightarrow> sip_uri \<Rightarrow> transport \<Rightarrow> string \<Rightarrow> string \<Rightarrow> string \<Rightarrow> header list \<Rightarrow> sip_outbound
    \<Rightarrow> invite_req" where
  "invite_request cseq att to tr offer authName auth headers c =
     \<lparr>rq_recipient = to, rq_to = Some \<lparr>to_uri = to, to_params = Map.empty\<rparr>,
      rq_from = Some (to_uri (so_from c), Some (to_params (so_from c))),
      rq_via = None, rq_call_id = Some (so_call_id c), rq_cseq = Some cseq,
      rq_headers =
        [\<lparr>h_name = ''Content-Type'', h_value = ''application/sdp''\<rparr>,
         \<lparr>h_name = ''Allow'', h_value = allow_methods\<rparr>]
        @ (if auth \<noteq> [] then [\<lparr>h_name = authName, h_value = auth\<rparr>] else []) @ headers,
      rq_body = offer,
      iv_contact = Some (so_contact c), iv_routes = rev (so_route_headers c), iv_record_routes = [],
      iv_source = at_source att, iv_destination = at_dest att, iv_transport = to_upper tr\<rparr>"

definition attemptInvite ::
  "attempt \<Rightarrow> sip_uri \<Rightarrow> transport \<Rightarrow> string \<Rightarrow> string \<Rightarrow> string \<Rightarrow> header list \<Rightarrow> sip_outbound
    \<Rightarrow> sip_outbound \<times> invite_req \<times> out_effect list \<times> wait_result" where
  "attemptInvite att to tr offer authName auth headers c =
     (let req = invite_request (so_next_cseq c) att to tr offer authName auth headers c;
          c1 = c\<lparr>so_next_cseq := so_next_cseq c + 1\<rparr>
      in case at_tx_err att of
           Some e \<Rightarrow> (c1, req, [], WaitErr e)
         | None \<Rightarrow> (case sipResponse (at_events att) 0 of
                     (es, res) \<Rightarrow> (c1, req, SendInvite req # es, res)))"

text \<open>What the status of the final response asks for.\<close>

datatype invite_verdict = Answered | Failed invite_error | Challenged string string

definition response_error :: "invite_resp \<Rightarrow> string \<Rightarrow> sip_status" where
  "response_error r reason =
     \<lparr>st_code = ir_status r,
      st_status = (if ir_body r \<noteq> [] then ir_body r
                   else (case GetHeader (ir_headers r) ''X-Twilio-Error'' of
                           Some h \<Rightarrow> h_value h | None \<Rightarrow> reason))\<rparr>"

definition invite_verdict :: "invite_resp \<Rightarrow> invite_verdict" where
  "invite_verdict r =
     (if ir_status r = 200 then Answered
      else if ir_status r \<in> {400, 404, 480, 488, 486} then Failed (InvFailed (response_error r (ir_reason r)))
      else if ir_status r = 401 then Challenged ''WWW-Authenticate'' ''Authorization''
      else if ir_status r = 407 then Challenged ''Proxy-Authenticate'' ''Proxy-Authorization''
      else Failed (InvUnexpected \<lparr>st_code = ir_status r, st_status = ir_reason r\<rparr>))"

definition auth_answer ::
  "('ch, 'z) outbound_env_scheme \<Rightarrow> string \<Rightarrow> string \<Rightarrow> string \<Rightarrow> invite_resp \<Rightarrow> invite_error + string" where
  "auth_answer env user pass name r =
     (if user = [] \<or> pass = [] then Inl InvMissingCreds
      else (case GetHeader (ir_headers r) name of
         None \<Rightarrow> Inl InvNoAuthHeader
       | Some h \<Rightarrow>
           (case oe_parse_challenge env (h_value h) of
              Inl e \<Rightarrow> Inl (InvBadChallenge (h_value h) e)
            | Inr ch \<Rightarrow>
                (case ir_to r of
                   None \<Rightarrow> Inl InvNoToInResponse
                 | Some t \<Rightarrow>
                     (case oe_digest env ch ''INVITE'' (oe_show_uri env (to_uri t)) user pass of
                        Inl e \<Rightarrow> Inl (InvDigest e)
                      | Inr cred \<Rightarrow> Inr cred)))))"

datatype invite_outcome = StillWaiting | InvErr invite_error | InvOk invite_req invite_resp

text \<open>The loop \<open>authLoop\<close>; \<open>ats\<close> gives the transaction of each try.\<close>

function auth_loop ::
  "('ch, 'z) outbound_env_scheme \<Rightarrow> (nat \<Rightarrow> attempt) \<Rightarrow> sip_uri \<Rightarrow> transport \<Rightarrow> string \<Rightarrow> string \<Rightarrow> string
    \<Rightarrow> header list \<Rightarrow> nat \<Rightarrow> string \<Rightarrow> string \<Rightarrow> sip_outbound
    \<Rightarrow> sip_outbound \<times> out_effect list \<times> invite_outcome" where
  "auth_loop env ats to tr user pass offer headers n authName auth c =
     (if n \<ge> 5 then (c, [], InvErr InvMaxRetry)
      else (case attemptInvite (ats n) to tr offer authName auth headers c of
              (c1, req, es, Waiting) \<Rightarrow> (c1, es, StillWaiting)
            | (c1, req, es, WaitErr e) \<Rightarrow> (c1, es, InvErr (InvTx e))
            | (c1, req, es, Final r) \<Rightarrow>
                (case invite_verdict r of
                   Answered \<Rightarrow> (c1, es, InvOk req r)
                 | Failed e \<Rightarrow> (c1, es, InvErr e)
                 | Challenged name respName \<Rightarrow>
                     (case auth_answer env user pass name r of
                        Inl e \<Rightarrow> (c1, es, InvErr e)
                      | Inr cred \<Rightarrow>
                          (case auth_loop env ats to tr user pass offer headers (Suc n) respName cred c1 of
                             (c2, es2, res) \<Rightarrow> (c2, es @ es2, res))))))"
  by pat_completeness auto
termination
  by (relation "measure (\<lambda>(env, ats, to, tr, user, pass, offer, headers, n, authName, auth, c). 5 - n)") auto

text \<open>The extra headers, sorted by name.\<close>

definition sorted_headers :: "str_entries \<Rightarrow> header list" where
  "sorted_headers hs = map (\<lambda>(k, v). \<lparr>h_name = k, h_value = v\<rparr>) (sort_key fst hs)"

text \<open>The dialog after an answer: our INVITE takes the remote target and the route set.\<close>

definition remote_target :: "sip_uri \<Rightarrow> invite_resp \<Rightarrow> sip_uri" where
  "remote_target recipient r = (case ir_contact r of
       None \<Rightarrow> recipient
     | Some a \<Rightarrow> if su_port a = 0 then a\<lparr>su_port := 5060\<rparr> else a)"

definition Invite ::
  "('ch, 'z) outbound_env_scheme \<Rightarrow> (nat \<Rightarrow> attempt) \<Rightarrow> uri \<Rightarrow> string \<Rightarrow> string \<Rightarrow> str_entries \<Rightarrow> string
    \<Rightarrow> sip_outbound \<Rightarrow> sip_outbound \<times> out_effect list \<times> (invite_error + string) option" where
  "Invite env ats to user pass headers offer c =
     (case auth_loop env ats (GetDestinationURI to) (u_transport to) user pass offer
             (sorted_headers headers) 0 [] [] c of
        (c1, es, StillWaiting) \<Rightarrow> (c1, es, None)
      | (c1, es, InvErr e) \<Rightarrow> (c1, es, Some (Inl e))
      | (c1, es, InvOk req r) \<Rightarrow>
          (let c2 = c1\<lparr>so_invite := Some req, so_invite_ok := Some r\<rparr> in
           case ir_to r of
             None \<Rightarrow> (c2, es, Some (Inl InvNoTo))
           | Some t \<Rightarrow>
               (case getTagFrom (to_params t) of
                  None \<Rightarrow> (c2\<lparr>so_tag := []\<rparr>, es, Some (Inl InvNoTag))
                | Some tag \<Rightarrow>
                    (c2\<lparr>so_tag := tag,
                        so_invite := Some (req\<lparr>rq_recipient := remote_target (rq_recipient req) r,
                           iv_routes := rev (map (oe_show_uri env) (ir_record_routes r))\<rparr>)\<rparr>,
                     es, Some (Inr (ir_body r))))))"

section \<open>Requests within the dialog and its end\<close>

definition Out_AcceptBye :: "sip_outbound \<Rightarrow> sip_outbound \<times> out_effect list" where
  "Out_AcceptBye c = (drop_out c, [RespondBye 200])"

text \<open>The result is false when the call is already closed; the write itself may still fail.\<close>

definition AckInviteOK :: "sip_outbound \<Rightarrow> out_effect list \<times> bool" where
  "AckInviteOK c = (case (so_invite c, so_invite_ok c) of
       (Some i, Some r) \<Rightarrow> ([WriteAck i r], True)
     | _ \<Rightarrow> ([], False))"

definition call_headers :: "str_map option \<Rightarrow> sip_outbound \<Rightarrow> str_map option" where
  "call_headers headers c = (case so_get_headers c of None \<Rightarrow> headers | Some f \<Rightarrow> f headers)"

definition Out_sendBye ::
  "('ch, 'z) outbound_env_scheme \<Rightarrow> bool \<Rightarrow> int option \<Rightarrow> sip_outbound \<Rightarrow> sip_outbound \<times> out_effect list" where
  "Out_sendBye env closing answer c = (case (so_invite c, so_invite_ok c) of
       (Some i, Some r) \<Rightarrow>
         (let r0 = oe_new_bye env i r;
              r1 = r0\<lparr>or_method := ''BYE'', or_fixed := or_fixed r0 @ [(''User-Agent'', ''LiveKit'')],
                      or_headers := map_add_opt (or_headers r0) (call_headers None c)\<rparr>
          in if closing then (c, [WriteOnly r1])
             else (drop_out (c\<lparr>so_next_cseq := so_next_cseq c + 1\<rparr>),
                   map OutMsg (sendAndACK answer (set_cseq (so_next_cseq c) r1))))
     | _ \<Rightarrow> (c, []))"

definition Out_sendCancel ::
  "('ch, 'z) outbound_env_scheme \<Rightarrow> sip_outbound \<Rightarrow> sip_outbound \<times> out_effect list" where
  "Out_sendCancel env c = (case so_invite c of
       None \<Rightarrow> (c, [])
     | Some i \<Rightarrow>
         (let r0 = oe_new_cancel env i;
              r1 = r0\<lparr>or_method := ''CANCEL'', or_fixed := or_fixed r0 @ [(''User-Agent'', ''LiveKit'')],
                      or_headers := map_add_opt (or_headers r0) (call_headers None c)\<rparr>
          in (drop_out c, [WriteOnly r1])))"

definition Out_Close ::
  "('ch, 'z) outbound_env_scheme \<Rightarrow> bool \<Rightarrow> int option \<Rightarrow> sip_outbound \<Rightarrow> sip_outbound \<times> out_effect list" where
  "Out_Close env closing answer c =
     (if so_invite_ok c \<noteq> None then Out_sendBye env closing answer c
      else if so_invite c \<noteq> None then Out_sendCancel env c
      else (drop_out c, []))"

text \<open>\<open>transferCall\<close> up to the REFER it sends.\<close>

definition refer_out ::
  "bool \<Rightarrow> string \<Rightarrow> str_map option \<Rightarrow> sip_outbound \<Rightarrow> sip_outbound \<times> (err + out_request)" where
  "refer_out closing transferTo headers c = (case (so_invite c, so_invite_ok c) of
       (Some i, Some r) \<Rightarrow>
         (if closing then (c, Inl (PsErr PsFailedPrecondition ''can't transfer hung up call'' None))
          else (let req = set_cseq (so_next_cseq c)
                      (NewReferRequest i r (so_contact c) transferTo (call_headers headers c))
                in (c\<lparr>so_next_cseq := so_next_cseq c + 1, so_refer_cseq := or_cseq req\<rparr>, Inr req)))
     | _ \<Rightarrow> (c, Inl (PsErr PsFailedPrecondition ''can't transfer non established call'' None)))"

definition out_transfer_send ::
  "bool \<Rightarrow> string \<Rightarrow> str_map option \<Rightarrow> sip_outbound \<Rightarrow> sip_outbound \<times> out_effect list" where
  "out_transfer_send closing transferTo headers c = (case refer_out closing transferTo headers c of
       (c1, Inl e) \<Rightarrow> (c1, [])
     | (c1, Inr r) \<Rightarrow> (c1, [OutMsg (SendRequest r)]))"

text \<open>How the transfer ends once the REFER is answered: the context, the end of the call, or a NOTIFY.\<close>

datatype out_refer_wait = OutCtxDone | OutCallDone | OutReferResult "err option"

definition out_transferCall ::
  "bool \<Rightarrow> string \<Rightarrow> str_map option \<Rightarrow> err + (int \<times> string) \<Rightarrow> out_refer_wait \<Rightarrow> sip_outbound
    \<Rightarrow> sip_outbound \<times> err option" where
  "out_transferCall closing transferTo headers answer w c = (case refer_out closing transferTo headers c of
       (c1, Inl e) \<Rightarrow> (c1, Some e)
     | (c1, Inr r) \<Rightarrow>
         (case sendRefer answer of
            Some e \<Rightarrow> (c1, Some e)
          | None \<Rightarrow> (c1, case w of
                OutCtxDone \<Rightarrow> Some (PsErr PsCanceled ''refer canceled'' None)
              | OutCallDone \<Rightarrow> None
              | OutReferResult e \<Rightarrow> e)))"

definition out_handleNotify ::
  "(sip_status \<Rightarrow> psrpc_code) \<Rightarrow> sip_request \<Rightarrow> sip_outbound \<Rightarrow> err + err option option" where
  "out_handleNotify to_code req c = (case handleNotify req of
       Inl e \<Rightarrow> Inl e
     | Inr (method, cseq, status, reason) \<Rightarrow>
         Inr (handleReferNotify to_code cseq status reason (so_refer_cseq c)))"

section \<open>Operations\<close>

datatype out_op =
    DoInvite "nat \<Rightarrow> attempt" uri string string str_entries string
  | DoAcceptBye | DoAck | DoDrop | DoRecordInvite u32 | DoSetLocalSDP string
  | DoTransfer bool string "str_map option" | DoClose bool "int option"

fun out_step ::
  "('ch, 'z) outbound_env_scheme \<Rightarrow> out_op \<Rightarrow> sip_outbound \<Rightarrow> sip_outbound \<times> out_effect list" where
  "out_step env (DoInvite ats to user pass hs offer) c =
     (case Invite env ats to user pass hs offer c of (c', es, r) \<Rightarrow> (c', es))"
| "out_step env DoAcceptBye c = Out_AcceptBye c"
| "out_step env DoAck c = (c, fst (AckInviteOK c))"
| "out_step env DoDrop c = (drop_out c, [])"
| "out_step env (DoRecordInvite n) c = (RecordInvite n c, [])"
| "out_step env (DoSetLocalSDP sdp) c = (SetLocalSDP sdp c, [])"
| "out_step env (DoTransfer closing to h) c = out_transfer_send closing to h c"
| "out_step env (DoClose closing answer) c = Out_Close env closing answer c"


section \<open>What is observed of a run\<close>

fun out_cseqs :: "out_effect list \<Rightarrow> u32 list" where
  "out_cseqs [] = []"
| "out_cseqs (SendInvite r # es) = (case rq_cseq r of None \<Rightarrow> [] | Some n \<Rightarrow> [n]) @ out_cseqs es"
| "out_cseqs (OutMsg (SendRequest r) # es) = or_cseq r # out_cseqs es"
| "out_cseqs (e # es) = out_cseqs es"

definition is_invite :: "out_effect \<Rightarrow> bool" where
  "is_invite e = (case e of SendInvite r \<Rightarrow> True | _ \<Rightarrow> False)"

definition is_bye_out :: "out_effect \<Rightarrow> bool" where
  "is_bye_out e = (case e of OutMsg (SendRequest r) \<Rightarrow> or_method r = ''BYE''
     | WriteOnly r \<Rightarrow> or_method r = ''BYE'' | _ \<Rightarrow> False)"

definition is_cancel_out :: "out_effect \<Rightarrow> bool" where
  "is_cancel_out e = (case e of WriteOnly r \<Rightarrow> or_method r = ''CANCEL'' | _ \<Rightarrow> False)"

text \<open>The INVITE and its answer are kept and dropped together.\<close>

definition out_inv :: "sip_outbound \<Rightarrow> bool" where
  "out_inv c = ((so_invite c = None) = (so_invite_ok c = None))"

text \<open>The use of a dialog after its INVITE, while the service is not shutting down.\<close>

fun in_dialog :: "out_op \<Rightarrow> bool" where
  "in_dialog (DoInvite ats to user pass hs offer) = False"
| "in_dialog (DoTransfer closing to h) = (\<not> closing)"
| "in_dialog (DoClose closing answer) = (\<not> closing)"
| "in_dialog op = True"

definition open_byes :: "sip_outbound \<Rightarrow> nat" where
  "open_byes c = (if so_invite_ok c \<noteq> None then 1 else 0)"

lemmas out_observe = is_invite_def is_bye_out_def is_cancel_out_def open_byes_def

lemmas out_ops = drop_out_def RecordInvite_def SetLocalSDP_def Out_AcceptBye_def AckInviteOK_def
  Out_sendBye_def Out_sendCancel_def Out_Close_def refer_out_def out_transfer_send_def sendAndACK_def

section \<open>Lemmas on the INVITE\<close>

lemma out_cseqs_append [simp]: "out_cseqs (xs @ ys) = out_cseqs xs @ out_cseqs ys"
  by (induction xs rule: out_cseqs.induct) simp_all

lemma sipResponse_reports:
  "e \<in> set (fst (sipResponse evs n)) \<Longrightarrow> e = TxCancel \<or> (\<exists>st hs. e = ReportState st hs)"
  by (induction evs n rule: sipResponse.induct) (auto split: if_splits prod.splits)

lemma sipResponse_silent [simp]:
  "out_cseqs (fst (sipResponse evs n)) = []" "count_by is_bye_out (fst (sipResponse evs n)) = 0"
  "count_by is_invite (fst (sipResponse evs n)) = 0"
  by (induction evs n rule: sipResponse.induct) (simp_all add: out_observe split_def)

text \<open>The wait ends with the first response that is not provisional, and says so.\<close>

lemma sipResponse_final: "snd (sipResponse evs n) = Final r \<Longrightarrow> ir_status r div 100 \<noteq> 1"
  by (induction evs n rule: sipResponse.induct) (auto split: if_splits prod.splits)

lemma attempt_sends:
  assumes "attemptInvite att to tr offer an ah hs c = (c1, req, es, w)"
  shows "c1 = c\<lparr>so_next_cseq := so_next_cseq c + 1\<rparr>"
    and "rq_cseq req = Some (so_next_cseq c)"
    and "(\<exists>e. w = WaitErr e) \<and> es = [] \<or> out_cseqs es = [so_next_cseq c] \<and> count_by is_invite es = 1"
  using assms sipResponse_silent [of "at_events att" 0]
  by (auto simp: attemptInvite_def Let_def invite_request_def is_invite_def
       simp del: sipResponse_silent split: option.splits prod.splits)

lemma attempt_effects:
  assumes "attemptInvite att to tr offer an ah hs c = (c1, req, es, w)" and "e \<in> set es"
  shows "e = SendInvite req \<or> e = TxCancel \<or> (\<exists>st hs. e = ReportState st hs)"
  using assms sipResponse_reports [of e "at_events att" 0]
  by (auto simp: attemptInvite_def Let_def split: option.splits prod.splits)

text \<open>The ways one try of the loop goes.\<close>

lemma auth_loop_cases:
  obtains (exhausted) "5 \<le> n"
      "auth_loop env ats to tr user pass offer hs n an ah c = (c, [], InvErr InvMaxRetry)"
  | (stops) c1 req es w res where "n < 5" "attemptInvite (ats n) to tr offer an ah hs c = (c1, req, es, w)"
      "auth_loop env ats to tr user pass offer hs n an ah c = (c1, es, res)"
      "w = Waiting \<and> res = StillWaiting \<or> (\<exists>e. w = WaitErr e \<and> res = InvErr (InvTx e))
       \<or> (\<exists>r. w = Final r \<and> (res = InvOk req r \<and> ir_status r = 200 \<or> (\<exists>e. res = InvErr e)))"
  | (retries) c1 req es r name resp_name cred where "n < 5"
      "attemptInvite (ats n) to tr offer an ah hs c = (c1, req, es, Final r)"
      "invite_verdict r = Challenged name resp_name" "auth_answer env user pass name r = Inr cred"
      "auth_loop env ats to tr user pass offer hs n an ah c
        = (let (c2, es2, res) = auth_loop env ats to tr user pass offer hs (Suc n) resp_name cred c1
           in (c2, es @ es2, res))"
proof (cases "5 \<le> n")
  case True
  with that(1) auth_loop.simps [of env ats to tr user pass offer hs n an ah c] show ?thesis by simp
next
  case False
  obtain c1 req es w where att: "attemptInvite (ats n) to tr offer an ah hs c = (c1, req, es, w)"
    by (cases "attemptInvite (ats n) to tr offer an ah hs c")
  note loop = auth_loop.simps [of env ats to tr user pass offer hs n an ah c]
  show ?thesis
  proof (cases w)
    case (Final r)
    have ok: "ir_status r = 200" if "invite_verdict r = Answered"
      using that by (auto simp: invite_verdict_def split: if_splits)
    show ?thesis
    proof (cases "invite_verdict r")
      case (Challenged name resp_name)
      show ?thesis
      proof (cases "auth_answer env user pass name r")
        case (Inr cred)
        with Challenged Final att False loop that(3) show ?thesis by simp
      qed (use Challenged Final att False loop that(2) in simp)
    qed (use ok Final att False loop that(2) in simp_all)
  qed (use att False loop that(2) in simp_all)
qed

declare auth_loop.simps [simp del]


lemma map_cseq_Suc:
  "map (\<lambda>i. (n::u32) + of_nat i) [0..<Suc k] = n # map (\<lambda>i. n + 1 + of_nat i) [0..<k]"
  by (simp add: upt_conv_Cons map_Suc_upt [symmetric] comp_def ac_simps del: upt_Suc)

text \<open>
  What the loop leaves: only the CSeq counter of the dialog changes, by one for each INVITE sent, and
  by one more if the last transaction could not be started.
\<close>

definition loop_sends :: "nat \<Rightarrow> sip_outbound \<Rightarrow> sip_outbound \<Rightarrow> out_effect list \<Rightarrow> invite_outcome \<Rightarrow> bool" where
  "loop_sends n c c' es res = (\<exists>k j. out_cseqs es = map (\<lambda>i. so_next_cseq c + of_nat i) [0..<k]
     \<and> count_by is_invite es = k \<and> n + k \<le> 5 \<and> c' = c\<lparr>so_next_cseq := so_next_cseq c + of_nat j\<rparr>
     \<and> (j = k \<or> (\<exists>e. res = InvErr e)))"

lemma loop_sendsI:
  "out_cseqs es = map (\<lambda>i. so_next_cseq c + of_nat i) [0..<k] \<Longrightarrow> count_by is_invite es = k
    \<Longrightarrow> n + k \<le> 5 \<Longrightarrow> c' = c\<lparr>so_next_cseq := so_next_cseq c + of_nat j\<rparr>
    \<Longrightarrow> j = k \<or> (\<exists>e. res = InvErr e) \<Longrightarrow> loop_sends n c c' es res"
  unfolding loop_sends_def by blast

lemma loop_sends_Suc:
  assumes "loop_sends (Suc n) (c\<lparr>so_next_cseq := so_next_cseq c + 1\<rparr>) c' es2 res"
    and "out_cseqs es = [so_next_cseq c]" "count_by is_invite es = 1"
  shows "loop_sends n c c' (es @ es2) res"
proof -
  obtain k j where "out_cseqs es2 = map (\<lambda>i. so_next_cseq c + 1 + of_nat i) [0..<k]"
      "count_by is_invite es2 = k" "Suc n + k \<le> 5"
      "c' = c\<lparr>so_next_cseq := so_next_cseq c + 1 + of_nat j\<rparr>" "j = k \<or> (\<exists>e. res = InvErr e)"
    using assms(1) by (auto simp: loop_sends_def)
  with assms(2,3) show ?thesis
    by (intro loop_sendsI [of _ _ "Suc k" n c' "Suc j"])
      (simp_all only: out_cseqs_append count_by_append map_cseq_Suc, simp_all add: ac_simps)
qed

lemma auth_loop_sends:
  "n \<le> 5 \<Longrightarrow> auth_loop env ats to tr user pass offer hs n an ah c = (c', es, res)
    \<Longrightarrow> loop_sends n c c' es res"
proof (induction "5 - n" arbitrary: n an ah c c' es res rule: less_induct)
  case less
  show ?case
  proof (cases rule: auth_loop_cases [of n env ats to tr user pass offer hs an ah c])
    case exhausted
    with less.prems show ?thesis by (intro loop_sendsI [of _ _ 0 _ _ 0]) simp_all
  next
    case (stops c1 req es1 w res1)
    note att = attempt_sends [OF stops(2)]
    from stops(3) less.prems have [simp]: "c' = c1" "es = es1" "res = res1" by simp_all
    from att(3) consider "\<exists>e. w = WaitErr e" "es1 = []"
      | "out_cseqs es1 = [so_next_cseq c]" "count_by is_invite es1 = 1" by blast
    then show ?thesis
    proof cases
      case 1
      with stops att(1) show ?thesis by (intro loop_sendsI [of _ _ 0 _ _ 1]) auto
    next
      case 2
      with stops att(1) show ?thesis by (intro loop_sendsI [of _ _ 1 _ _ 1]) simp_all
    qed
  next
    case (retries c1 req es1 r name resp_name cred)
    note att = attempt_sends [OF retries(2)]
    obtain es2 where rest: "auth_loop env ats to tr user pass offer hs (Suc n) resp_name cred c1 = (c', es2, res)"
        "es = es1 @ es2"
      using retries(5) less.prems by (auto split: prod.splits)
    have "loop_sends (Suc n) c1 c' es2 res"
      using retries(1) rest(1) by (intro less.hyps) simp_all
    with att rest(2) show ?thesis by (auto intro: loop_sends_Suc)
  qed
qed

lemma auth_loop_accepts:
  "auth_loop env ats to tr user pass offer hs n an ah c = (c', es, InvOk req r)
    \<Longrightarrow> ir_status r = 200"
proof (induction "5 - n" arbitrary: n an ah c c' es rule: less_induct)
  case less
  show ?case
  proof (cases rule: auth_loop_cases [of n env ats to tr user pass offer hs an ah c])
    case (retries c1 req1 es1 r1 name resp_name cred)
    then obtain es2 where "auth_loop env ats to tr user pass offer hs (Suc n) resp_name cred c1
        = (c', es2, InvOk req r)"
      using less.prems by (auto split: prod.splits)
    with retries(1) show ?thesis by (intro less.hyps) simp_all
  qed (use less.prems in auto)
qed

text \<open>The effects of \<open>Invite\<close> are those of the loop; the dialog is kept exactly when it was answered.\<close>

lemma Invite_cases:
  assumes "Invite env ats to user pass hs offer c = (c', es, out)"
  obtains (unanswered) res where "loop_sends 0 c c' es res" "\<forall>req r. res \<noteq> InvOk req r" "\<forall>b. out \<noteq> Some (Inr b)"
  | (answered) req r c1 i where "loop_sends 0 c c1 es (InvOk req r)" "ir_status r = 200"
      "so_invite c' = Some i" "so_invite_ok c' = Some r" "so_next_cseq c' = so_next_cseq c1"
      "so_latest_invite_cseq c' = so_latest_invite_cseq c" "so_to c' = so_to c" "so_id c' = so_id c"
      "out = Some (Inr (ir_body r)) \<or> out = Some (Inl InvNoTo) \<or> out = Some (Inl InvNoTag)"
proof -
  obtain c1 es1 res where loop: "auth_loop env ats (GetDestinationURI to) (u_transport to) user pass offer
      (sorted_headers hs) 0 [] [] c = (c1, es1, res)" by (metis prod_cases3)
  note sends = auth_loop_sends [OF _ loop]
  have keep: "so_latest_invite_cseq c1 = so_latest_invite_cseq c" "so_to c1 = so_to c" "so_id c1 = so_id c"
    using sends by (auto simp: loop_sends_def)
  show ?thesis
  proof (cases res)
    case (InvOk req r)
    with loop have ok: "ir_status r = 200" by (auto intro: auth_loop_accepts)
    have "es = es1" using assms loop InvOk
      by (auto simp: Invite_def Let_def split: option.splits)
    with InvOk sends have "loop_sends 0 c c1 es (InvOk req r)" by simp
    with answered ok assms loop InvOk keep show ?thesis
      by (auto simp: Invite_def Let_def split: option.splits)
  qed (use unanswered assms loop sends in \<open>auto simp: Invite_def\<close>)
qed


section \<open>The dialog over a run of operations\<close>

lemma out_step_inv: "out_inv c \<Longrightarrow> out_inv (fst (out_step env op c))"
proof (cases op)
  case (DoInvite ats to user pass hs offer)
  assume inv: "out_inv c"
  obtain c' es out where invite: "Invite env ats to user pass hs offer c = (c', es, out)"
    by (metis prod_cases3)
  from Invite_cases [OF invite] inv show ?thesis
    unfolding DoInvite by cases (auto simp: invite out_inv_def loop_sends_def)
qed (auto simp: out_ops out_inv_def Let_def split: option.splits)

lemma out_step_seqs:
  assumes "in_dialog op" "out_inv c"
  shows "out_cseqs (snd (out_step env op c)) = []
      \<and> (so_next_cseq (fst (out_step env op c)) = so_next_cseq c \<or> so_invite (fst (out_step env op c)) = None)
    \<or> out_cseqs (snd (out_step env op c)) = [so_next_cseq c]
      \<and> (so_next_cseq (fst (out_step env op c)) = so_next_cseq c + 1
         \<or> so_invite (fst (out_step env op c)) = None)"
  using assms
  by (cases op) (auto simp: out_ops out_inv_def Let_def split: option.splits)

lemma out_step_gone:
  assumes "in_dialog op" "out_inv c" "so_invite c = None"
  shows "out_cseqs (snd (out_step env op c)) = [] \<and> so_invite (fst (out_step env op c)) = None"
  using assms by (cases op) (auto simp: out_ops out_inv_def Let_def split: option.splits)

lemma out_bye_pays:
  assumes "in_dialog op" "out_inv c"
  shows "count_by is_bye_out (snd (out_step env op c)) + open_byes (fst (out_step env op c)) \<le> open_byes c"
  using assms
  by (cases op) (auto simp: out_ops out_inv_def out_observe Let_def split: option.splits)

interpretation out_seq: sequenced "out_step env" in_dialog out_inv so_next_cseq
    "\<lambda>c. so_invite c = None" out_cseqs
  for env
  by unfold_locales (simp_all add: out_step_inv out_step_seqs out_step_gone)

interpretation out_bye: budgeted "out_step env" in_dialog out_inv is_bye_out open_byes
  for env
  by unfold_locales (simp_all add: out_step_inv out_bye_pays)

interpretation out_any: stepper "out_step env" "\<lambda>_. True" out_inv
  for env
  by unfold_locales (simp add: out_step_inv)


lemma newOutbound_simps [simp]:
  "so_invite (newOutbound h i f ct d g) = None" "so_invite_ok (newOutbound h i f ct d g) = None"
  "so_next_cseq (newOutbound h i f ct d g) = 1" "so_to (newOutbound h i f ct d g) = None"
  by (simp_all add: newOutbound_def Let_def)

lemma newOutbound_inv: "out_inv (newOutbound h i f ct d g)"
  by (simp add: out_inv_def)

lemma out_step_latest: "so_latest_invite_cseq c \<le> so_latest_invite_cseq (fst (out_step env op c))"
proof (cases op)
  case (DoInvite ats to user pass hs offer)
  obtain c' es out where invite: "Invite env ats to user pass hs offer c = (c', es, out)"
    by (metis prod_cases3)
  from Invite_cases [OF invite] show ?thesis
    unfolding DoInvite by cases (auto simp: invite loop_sends_def)
qed (auto simp: out_ops Let_def less_imp_le split: option.splits)

interpretation out_latest: monotone_stepper "out_step env" so_latest_invite_cseq
  for env
  by unfold_locales (rule out_step_latest)

lemma out_step_to: "so_to (fst (out_step env op c)) = so_to c"
proof (cases op)
  case (DoInvite ats to user pass hs offer)
  obtain c' es out where invite: "Invite env ats to user pass hs offer c = (c', es, out)"
    by (metis prod_cases3)
  from Invite_cases [OF invite] show ?thesis
    unfolding DoInvite by cases (auto simp: invite loop_sends_def)
qed (auto simp: out_ops Let_def split: option.splits)

lemma Invite_id:
  assumes "Invite env ats to user pass hs offer c = (c', es, out)"
  shows "so_id c' = so_id c"
  using assms by (cases rule: Invite_cases) (auto simp: loop_sends_def)

lemma out_step_id: "so_id (fst (out_step env op c)) = so_id c"
proof (cases op)
  case (DoInvite ats to user pass hs offer)
  obtain c' es out where "Invite env ats to user pass hs offer c = (c', es, out)" by (metis prod_cases3)
  with Invite_id [OF this] show ?thesis by (simp add: DoInvite)
qed (auto simp: out_ops Let_def split: option.splits)

lemma run_to: "so_to (fst (run (out_step env) ops c)) = so_to c"
  by (induction ops arbitrary: c) (simp_all add: Let_def out_step_to)

lemma auth_loop_effects:
  "auth_loop env ats t tr user pass offer h n an ah d = (d', es, res) \<Longrightarrow> e \<in> set es
    \<Longrightarrow> (\<exists>r. e = SendInvite r) \<or> e = TxCancel \<or> (\<exists>st hs. e = ReportState st hs)"
proof (induction "5 - n" arbitrary: n an ah d d' es rule: less_induct)
  case less
  show ?case
  proof (cases rule: auth_loop_cases [of n env ats t tr user pass offer h an ah d])
    case (retries d1 req1 es1 r1 name resp_name cred)
    then obtain es2 where es2: "auth_loop env ats t tr user pass offer h (Suc n) resp_name cred d1
        = (d', es2, res)" "es = es1 @ es2"
      using less.prems by (auto split: prod.splits)
    then consider "e \<in> set es1" | "e \<in> set es2" using less.prems by auto
    then show ?thesis
    proof cases
      case 1
      then show ?thesis using attempt_effects [OF retries(2)] by blast
    next
      case 2
      with retries(1) show ?thesis by (intro less.hyps [OF _ es2(1)]) simp_all
    qed
  next
    case (stops d1 req1 es1 w1 res1)
    then show ?thesis using less.prems attempt_effects [OF stops(2), of e] by auto
  qed (use less.prems in auto)
qed

lemma Invite_loop_effects:
  "fst (snd (Invite env ats to user pass hs offer c))
    = fst (snd (auth_loop env ats (GetDestinationURI to) (u_transport to) user pass offer
        (sorted_headers hs) 0 [] [] c))"
  by (simp add: Invite_def Let_def split: prod.split invite_outcome.split option.split)

lemma invite_effects:
  assumes "e \<in> set (snd (out_step env (DoInvite ats to user pass hs offer) c))"
  shows "(\<exists>r. e = SendInvite r) \<or> e = TxCancel \<or> (\<exists>st hs. e = ReportState st hs)"
proof -
  obtain d es res where loop: "auth_loop env ats (GetDestinationURI to) (u_transport to) user pass offer
        (sorted_headers hs) 0 [] [] c = (d, es, res)" by (metis prod_cases3)
  have "e \<in> set es"
    using assms Invite_loop_effects [of env ats to user pass hs offer c]
    by (simp add: loop split_def)
  then show ?thesis by (rule auth_loop_effects [OF loop])
qed

lemma out_step_no_cancel:
  assumes "out_inv c" "e \<in> set (snd (out_step env op c))"
  shows "\<not> is_cancel_out e"
proof (cases op)
  case (DoInvite ats to user pass hs offer)
  show ?thesis
    using invite_effects [OF assms(2) [unfolded DoInvite]] by (auto simp: is_cancel_out_def)
qed (use assms in \<open>auto simp: out_ops out_inv_def is_cancel_out_def Let_def split: option.splits if_splits\<close>)

lemma invite_no_bye:
  "count_by is_bye_out (snd (out_step env (DoInvite ats to user pass hs offer) c)) = 0"
  unfolding count_by_zero_iff by (fastforce dest: invite_effects simp: is_bye_out_def)

section \<open>A sample dialog\<close>

text \<open>The callee asks for credentials once, then rings and answers.\<close>

definition sample_out_env :: "string outbound_env" where
  "sample_out_env =
     \<lparr>oe_parse_challenge = Inr, oe_digest = (\<lambda>ch m u n p. Inr (''response='' @ ch)),
      oe_show_uri = su_host, oe_new_bye = sample_bye,
      oe_new_cancel = (\<lambda>i. sample_bye i (sample_response 200))\<rparr>"

definition sample_challenge :: invite_resp where
  "sample_challenge = (sample_response 401)
     \<lparr>ir_headers := [\<lparr>h_name = ''WWW-Authenticate'', h_value = ''nonce1''\<rparr>]\<rparr>"

definition sample_attempts :: "nat \<Rightarrow> attempt" where
  "sample_attempts n =
     \<lparr>at_source = ''10.0.0.1:5060'', at_dest = ''10.0.0.9:5060'', at_tx_err = None,
      at_events = (if n = 0 then [GotResponse (sample_response 100), GotResponse sample_challenge]
                   else [GotResponse (sample_response 180), GotResponse (sample_response 200)])\<rparr>"

definition sample_party :: "string \<Rightarrow> uri" where
  "sample_party user = \<lparr>u_user = user, u_host = ''example.com'',
     u_addr = \<lparr>ap_addr = NoAddr, ap_port = 5060\<rparr>, u_transport = TransportTCP\<rparr>"

definition sample_out :: sip_outbound where
  "sample_out = newOutbound (\<lambda>x. x) ''SCL_2'' (sample_party ''alice'') (sample_party ''alice'') None None"

definition sample_out_invite :: out_op where
  "sample_out_invite = DoInvite sample_attempts (sample_party ''bob'') ''user'' ''pass'' [] ''sdp''"

definition sample_out_ops :: "out_op list" where
  "sample_out_ops = [DoAck, DoRecordInvite 5, DoTransfer False ''sip:carol@example.com'' None,
     DoClose False (Some 200), DoClose False None]"

lemma shifted_upt: "map (\<lambda>i. 1 + of_nat n + (of_nat i :: u32)) [0..<k] = map (\<lambda>i. 1 + of_nat i) [n..<n + k]"
  by (rule nth_equalityI) (simp_all add: add.assoc)

section \<open>Properties of the dialog\<close>

text \<open>
  C20. An outbound INVITE is sent at most five times, each time with the next sequence number. When it
  succeeds it was sent at least once, the final response was a 200, and the answer is its body.
\<close>
theorem invite_bounded:
  assumes "Invite env ats to user pass hs offer c = (c', es, out)"
  shows "count_by is_invite es \<le> 5
    \<and> out_cseqs es = map (\<lambda>i. so_next_cseq c + of_nat i) [0..<count_by is_invite es]
    \<and> (\<forall>body. out = Some (Inr body) \<longrightarrow>
         (\<exists>r. so_invite_ok c' = Some r \<and> ir_status r = 200 \<and> body = ir_body r
            \<and> so_next_cseq c' = so_next_cseq c + of_nat (count_by is_invite es)))"
  using Invite_cases [OF assms] by cases (auto simp: loop_sends_def)

theorem invite_bounded_witness:
  "count_by is_invite (fst (snd (Invite sample_out_env sample_attempts (sample_party ''bob'')
      ''user'' ''pass'' [] ''sdp'' sample_out))) = 2
   \<and> so_next_cseq (fst (Invite sample_out_env sample_attempts (sample_party ''bob'')
      ''user'' ''pass'' [] ''sdp'' sample_out)) = 3"
proof -
  let ?inv = "Invite sample_out_env sample_attempts (sample_party ''bob'') ''user'' ''pass'' [] ''sdp'' sample_out"
  have "count_by is_invite (fst (snd ?inv)) = 2" "snd (snd ?inv) = Some (Inr [])"
      "so_next_cseq sample_out = 1"
    by code_simp+
  moreover obtain c' es out where inv: "?inv = (c', es, out)" by (metis prod_cases3)
  ultimately show ?thesis using invite_bounded [OF inv] by auto
qed

text \<open>
  An outbound call numbers its requests 1, 2, 3, ... in the order they are sent: the INVITE
  with its authenticated repetitions, then every REFER and the BYE, while the service is running.
\<close>
theorem outbound_cseqs_consecutive:
  assumes "list_all in_dialog ops"
    and "cs = out_cseqs (snd (run (out_step env) (DoInvite ats to user pass hs offer # ops)
           (newOutbound h i f ct d g)))"
  shows "cs = map (\<lambda>i. 1 + of_nat i) [0..<length cs]"
proof -
  let ?c = "newOutbound h i f ct d g"
  obtain c' es out where invite: "Invite env ats to user pass hs offer ?c = (c', es, out)"
    by (metis prod_cases3)
  let ?k = "count_by is_invite es"
  have first: "out_cseqs es = map (\<lambda>i. 1 + of_nat i) [0..<?k]"
    and counter: "so_invite c' = None \<or> so_next_cseq c' = 1 + of_nat ?k"
  proof -
    show "out_cseqs es = map (\<lambda>i. 1 + of_nat i) [0..<?k]"
      using Invite_cases [OF invite] by cases (auto simp: loop_sends_def)
    show "so_invite c' = None \<or> so_next_cseq c' = 1 + of_nat ?k"
      using Invite_cases [OF invite] by cases (auto simp: loop_sends_def)
  qed
  have inv': "out_inv c'"
    using out_step_inv [OF newOutbound_inv [of h i f ct d g], of env "DoInvite ats to user pass hs offer"]
      invite by simp
  obtain k where rest: "out_cseqs (snd (run (out_step env) ops c'))
      = map (\<lambda>i. so_next_cseq c' + of_nat i) [0..<k]"
    using out_seq.run_seqs [OF assms(1) inv'] by blast
  have cs: "cs = out_cseqs es @ out_cseqs (snd (run (out_step env) ops c'))"
    using assms(2) invite by (simp add: Let_def)
  show ?thesis
  proof (cases "so_invite c' = None")
    case True
    have "out_cseqs (snd (run (out_step env) ops c')) = []"
      by (rule out_seq.run_gone [OF assms(1) inv' True])
    then have "cs = map (\<lambda>i. 1 + of_nat i) [0..<?k]" using cs first by simp
    then show ?thesis by (metis length_map diff_zero length_upt)
  next
    case False
    with counter have "so_next_cseq c' = 1 + of_nat ?k" by simp
    with rest have "out_cseqs (snd (run (out_step env) ops c')) = map (\<lambda>i. 1 + of_nat i) [?k..<?k + k]"
      by (simp add: shifted_upt)
    with cs first have "cs = map (\<lambda>i. 1 + of_nat i) [0..<?k + k]"
      by (simp only: upt_add_eq_append [OF le0] map_append)
    then show ?thesis by (metis length_map diff_zero length_upt)
  qed
qed

theorem outbound_cseqs_consecutive_witness:
  "out_cseqs (snd (run (out_step sample_out_env) (sample_out_invite # sample_out_ops) sample_out)) = [1, 2, 3, 4]"
proof -
  let ?cs = "out_cseqs (snd (run (out_step sample_out_env) (sample_out_invite # sample_out_ops) sample_out))"
  have "length ?cs = 4" by code_simp
  moreover have "list_all in_dialog sample_out_ops" by (simp add: sample_out_ops_def)
  then have "?cs = map (\<lambda>i. 1 + of_nat i) [0..<length ?cs]"
    by (rule outbound_cseqs_consecutive) (simp add: sample_out_invite_def sample_out_def)
  ultimately show ?thesis by (simp add: upt_conv_Cons numeral_eq_Suc)
qed

text \<open>
  C18. After its INVITE an outbound call sends at most one BYE, whatever operations follow and in
  whatever order, while the service is running.
\<close>
theorem outbound_one_bye:
  assumes "list_all in_dialog ops"
  shows "count_by is_bye_out (snd (run (out_step env) (DoInvite ats to user pass hs offer # ops)
    (newOutbound h i f ct d g))) \<le> 1"
proof -
  let ?c = "newOutbound h i f ct d g" and ?invite = "DoInvite ats to user pass hs offer"
  let ?c' = "fst (out_step env ?invite ?c)"
  have "out_inv ?c'" by (rule out_step_inv [OF newOutbound_inv])
  then have "count_by is_bye_out (snd (run (out_step env) ops ?c')) \<le> open_byes ?c'"
    by (rule out_bye.run_at_most [OF assms])
  also have "\<dots> \<le> 1" by (simp add: open_byes_def)
  finally show ?thesis
    using invite_no_bye [of env ats to user pass hs offer ?c] by (simp add: Let_def split_def)
qed

theorem outbound_one_bye_witness:
  "count_by is_bye_out (snd (run (out_step sample_out_env) (sample_out_invite # sample_out_ops) sample_out)) \<le> 1"
  unfolding sample_out_invite_def sample_out_def
  by (rule outbound_one_bye) (simp add: sample_out_ops_def)

text \<open>
  The CANCEL of \<open>sendCancel\<close> is never sent: in every run the INVITE and its answer are kept and
  dropped together, so that closing a dialog finds both or none. (A pending INVITE is cancelled by its
  transaction.)
\<close>
theorem outbound_never_cancels:
  "count_by is_cancel_out (snd (run (out_step env) ops (newOutbound h i f ct d g))) = 0"
proof -
  have "\<not> is_cancel_out e"
    if "e \<in> set (snd (run (out_step env) ops (newOutbound h i f ct d g)))" for e
    by (rule out_any.run_effects [OF out_step_no_cancel _ newOutbound_inv that])
      (auto simp: list_all_iff)
  then show ?thesis by (simp add: count_by_zero_iff)
qed

text \<open>
  The newest INVITE number seen on an outbound call never decreases, so a re-INVITE is accepted
  once: after \<open>RecordInvite\<close> no operation makes a number that is not newer look new.
\<close>
theorem record_invite_monotone:
  "n \<le> so_latest_invite_cseq (fst (run (out_step env) (DoRecordInvite n # ops) c))"
proof -
  have "n \<le> so_latest_invite_cseq (RecordInvite n c)"
    by (simp add: RecordInvite_def not_less)
  also have "\<dots> \<le> so_latest_invite_cseq (fst (run (out_step env) ops (RecordInvite n c)))"
    by (rule out_latest.run_mono)
  finally show ?thesis by (simp add: Let_def)
qed

end
