(* ===== verification/Media_Stats.thy ===== *)
theory Media_Stats
  imports Prelude
begin

text \<open>
  The counting wrappers of the media chain (\<open>pkg/sip/media.go\<close>, \<open>pkg/sip/media_latency.go\<close>): each wraps
  a handler of RTP packets or a writer of PCM frames, counts what passes, and hands it on. A handler
  takes an arrival (a time and a packet) and its own state; a wrapper adds its state in front.

  Counters are 64-bit words and wrap. Packets of one stream are handled one after the other.
  \<open>DefFramesPerSec\<close> of the media library is the parameter \<open>fps\<close>.
\<close>

section \<open>Packets and handlers\<close>

record rtp_packet =
  pk_seq :: u16
  pk_ts :: u32
  pk_type :: u8
  pk_payload :: "u8 list"

type_synonym arrival = "nanos \<times> rtp_packet"

type_synonym pcm_frame = "i16 list"

type_synonym ('e, 's, 'r) handler = "'e \<Rightarrow> 's \<Rightarrow> 's \<times> 'r"

fun feed :: "('e, 's, 'r) handler \<Rightarrow> 'e list \<Rightarrow> 's \<Rightarrow> 's \<times> 'r list" where
  "feed h [] s = (s, [])"
| "feed h (e # es) s = (let (s1, r) = h e s; (s2, rs) = feed h es s1 in (s2, r # rs))"

text \<open>
  A transparent wrapper hands every event to the wrapped handler, once and unchanged, and returns its
  result.
\<close>

locale transparent =
  fixes wrap :: "('e, 's, 'r) handler \<Rightarrow> ('e, 'w \<times> 's, 'r) handler"
  assumes forwards: "snd (fst (wrap h e (w, s))) = fst (h e s)"
    and returns: "snd (wrap h e (w, s)) = snd (h e s)"
begin

lemma feed_through:
  "snd (fst (feed (wrap h) es (w, s))) = fst (feed h es s)
   \<and> snd (feed (wrap h) es (w, s)) = snd (feed h es s)"
proof (induction es arbitrary: w s)
  case Nil
  show ?case by simp
next
  case (Cons e es)
  obtain w1 s1 r where step: "wrap h e (w, s) = ((w1, s1), r)" by (metis surj_pair)
  with forwards [of h e w s] returns [of h e w s] have "h e s = (s1, r)" by (simp add: prod_eq_iff)
  with step Cons.IH [of w1 s1] show ?case by (simp add: split_def Let_def)
qed

end

section \<open>Counting packets, bytes, frames and samples\<close>

record rtp_count = cn_packets :: u64  cn_bytes :: u64

definition rtpHandlerCount :: "(arrival, 's, 'r) handler \<Rightarrow> (arrival, rtp_count \<times> 's, 'r) handler" where
  "rtpHandlerCount h e st =
     (let (c, s) = st;
          c1 = c\<lparr>cn_packets := cn_packets c + 1,
                 cn_bytes := cn_bytes c + of_nat (length (pk_payload (snd e)))\<rparr>;
          (s1, r) = h e s
      in ((c1, s1), r))"

record media_count = mc_frames :: u64  mc_samples :: u64

definition mediaWriterCount :: "(nanos \<times> pcm_frame, 's, 'r) handler
    \<Rightarrow> (nanos \<times> pcm_frame, media_count \<times> 's, 'r) handler" where
  "mediaWriterCount h e st =
     (let (c, s) = st;
          c1 = c\<lparr>mc_frames := mc_frames c + 1, mc_samples := mc_samples c + of_nat (length (snd e))\<rparr>;
          (s1, r) = h e s
      in ((c1, s1), r))"

text \<open>
  The label under which the monitor counts a packet: the configured type, else the static payload
  types below 96, else the number. The state lists the labels counted.
\<close>

fun staticPayloadTypes :: "nat \<Rightarrow> string" where
  "staticPayloadTypes n =
     (if n = 0 then ''Auto_PCMU/8000'' else if n = 3 then ''Auto_GSM/8000''
      else if n = 4 then ''Auto_G723/8000'' else if n = 5 then ''Auto_DVI4/8000''
      else if n = 6 then ''Auto_DVI4/16000'' else if n = 7 then ''Auto_LPC/8000''
      else if n = 8 then ''Auto_PCMA/8000'' else if n = 9 then ''Auto_G722/8000''
      else if n = 10 then ''Auto_L16/44100/2'' else if n = 11 then ''Auto_L16/44100''
      else if n = 12 then ''Auto_QCELP/8000'' else if n = 13 then ''Auto_CN/8000''
      else if n = 14 then ''Auto_MPA/90000'' else if n = 15 then ''Auto_G728/16000''
      else if n = 16 then ''Auto_DVI4/11025'' else if n = 17 then ''Auto_DVI4/22050''
      else if n = 18 then ''Auto_G729/8000'' else if n = 25 then ''Auto_CELLB/90000''
      else if n = 26 then ''Auto_JPEG/90000'' else if n = 28 then ''Auto_NV/90000''
      else if n = 31 then ''Auto_H261/90000'' else if n = 32 then ''Auto_MPV/90000''
      else if n = 33 then ''Auto_MP2T/90000'' else if n = 34 then ''Auto_H263/90000'' else [])"

definition static_or_number :: "(nat \<Rightarrow> string) \<Rightarrow> string \<Rightarrow> u8 \<Rightarrow> string" where
  "static_or_number show_nat typ pt =
     (let t1 = (if typ = [] \<and> unat pt < 96 then staticPayloadTypes (unat pt) else typ) in
      if t1 = [] then show_nat (unat pt) else t1)"

definition rtpStatsHandler :: "(nat \<Rightarrow> string) \<Rightarrow> bool \<Rightarrow> string \<Rightarrow> (arrival, 's, 'r) handler
    \<Rightarrow> (arrival, string list \<times> 's, 'r) handler" where
  "rtpStatsHandler show_nat has_mon typ h e st =
     (let (ls, s) = st;
          ls1 = (if has_mon then ls @ [static_or_number show_nat typ (pk_type (snd e))] else ls);
          (s1, r) = h e s
      in ((ls1, s1), r))"

record stats_writer =
  sw_audio_type :: u8
  sw_dtmf_type :: u8
  sw_audio :: string
  sw_dtmf :: string

definition rtpStatsWriter :: "(nat \<Rightarrow> string) \<Rightarrow> bool \<Rightarrow> stats_writer \<Rightarrow> (arrival, 's, 'r) handler
    \<Rightarrow> (arrival, string list \<times> 's, 'r) handler" where
  "rtpStatsWriter show_nat has_mon w h e st =
     (let (ls, s) = st;
          pt = pk_type (snd e);
          typ = (if pt = sw_audio_type w then sw_audio w
                 else if pt = sw_dtmf_type w then sw_dtmf w else []);
          ls1 = (if has_mon then ls @ [static_or_number show_nat typ pt] else ls);
          (s1, r) = h e s
      in ((ls1, s1), r))"

section \<open>Sequence gaps, late, rapid and delayed packets\<close>

record rtp_counting_stats =
  rc_packets :: u64
  rc_bytes :: u64
  rc_resets :: u64
  rc_gaps :: u64
  rc_gaps_sum :: u64
  rc_late :: u64
  rc_late_sum :: u64
  rc_delayed :: u64
  rc_delayed_sum :: u64
  rc_rapid :: u64

record stream_stats =
  ss_packets :: u64
  ss_last_seq :: u64
  ss_last_packet :: int
  ss_stats :: rtp_counting_stats

definition maxPositiveSeqDiff :: "int \<Rightarrow> i16" where
  "maxPositiveSeqDiff fps = word_of_int (30 * fps)"

definition maxNegativeSeqDiff :: "int \<Rightarrow> i16" where
  "maxNegativeSeqDiff fps = word_of_int (- 5 * fps)"

definition rapidPacketThreshold :: "int \<Rightarrow> int" where
  "rapidPacketThreshold fps = (1000 div fps) div 2"

definition delayedPacketThreshold :: "int \<Rightarrow> int" where
  "delayedPacketThreshold fps = (3 * (1000 div fps)) div 2"

definition Diff16 :: "u16 \<Rightarrow> u16 \<Rightarrow> i16" where
  "Diff16 cur prev = cur - prev"

definition count_order :: "int \<Rightarrow> i16 \<Rightarrow> rtp_counting_stats \<Rightarrow> rtp_counting_stats" where
  "count_order fps diff st =
     (if maxPositiveSeqDiff fps <s diff \<or> diff <s maxNegativeSeqDiff fps
      then st\<lparr>rc_resets := rc_resets st + 1\<rparr>
      else if diff <s 0
      then st\<lparr>rc_late := rc_late st + 1, rc_late_sum := rc_late_sum st + scast (- diff)\<rparr>
      else if 1 <s diff
      then st\<lparr>rc_gaps := rc_gaps st + 1, rc_gaps_sum := rc_gaps_sum st + scast diff\<rparr>
      else st)"

definition count_timing :: "int \<Rightarrow> int \<Rightarrow> rtp_counting_stats \<Rightarrow> rtp_counting_stats" where
  "count_timing fps since st =
     (if since < rapidPacketThreshold fps then st\<lparr>rc_rapid := rc_rapid st + 1\<rparr>
      else if since > delayedPacketThreshold fps
      then st\<lparr>rc_delayed := rc_delayed st + 1, rc_delayed_sum := rc_delayed_sum st + word_of_int since\<rparr>
      else st)"

definition stream_note :: "int \<Rightarrow> arrival \<Rightarrow> stream_stats \<Rightarrow> stream_stats" where
  "stream_note fps e w =
     (let (now_ns, p) = e;
          count = ss_packets w + 1;
          now = now_ns div millisecond;
          st1 = (ss_stats w)\<lparr>rc_packets := rc_packets (ss_stats w) + 1,
                             rc_bytes := rc_bytes (ss_stats w) + of_nat (length (pk_payload p))\<rparr>;
          st2 = (if count > 1
                 then count_timing fps (now - ss_last_packet w)
                        (count_order fps (Diff16 (pk_seq p) (ucast (ss_last_seq w))) st1)
                 else st1)
      in \<lparr>ss_packets = count, ss_last_seq = ucast (pk_seq p), ss_last_packet = now, ss_stats = st2\<rparr>)"

definition rtpStreamStats :: "int \<Rightarrow> (arrival, 's, 'r) handler \<Rightarrow> (arrival, stream_stats \<times> 's, 'r) handler" where
  "rtpStreamStats fps h e st =
     (let (w, s) = st; (s1, r) = h e s in ((stream_note fps e w, s1), r))"

definition fresh_stats :: rtp_counting_stats where
  "fresh_stats = \<lparr>rc_packets = 0, rc_bytes = 0, rc_resets = 0, rc_gaps = 0, rc_gaps_sum = 0,
     rc_late = 0, rc_late_sum = 0, rc_delayed = 0, rc_delayed_sum = 0, rc_rapid = 0\<rparr>"

definition newRTPStreamStats :: "rtp_counting_stats \<Rightarrow> stream_stats" where
  "newRTPStreamStats st = \<lparr>ss_packets = 0, ss_last_seq = 0, ss_last_packet = 0, ss_stats = st\<rparr>"

section \<open>Latency\<close>

record latency_stats =
  la_count :: u64
  la_sum :: u64
  la_max :: u64

text \<open>
  \<open>Record\<close>; the compare-and-swap loop stores the maximum. A negative duration becomes a huge count
  of nanoseconds.
\<close>

definition Record :: "nanos \<Rightarrow> latency_stats \<Rightarrow> latency_stats" where
  "Record d st =
     (let ns = word_of_int d in
      \<lparr>la_count = la_count st + 1, la_sum = la_sum st + ns, la_max = max (la_max st) ns\<rparr>)"

definition Latency_Load :: "latency_stats \<Rightarrow> u64 \<times> u64 \<times> u64" where
  "Latency_Load st =
     (la_count st, if la_count st > 0 then la_sum st div la_count st else 0, la_max st)"

definition latencyEntry :: "(nanos \<times> 'p, 's, 'r) handler \<Rightarrow> (nanos \<times> 'p, int \<times> 's, 'r) handler" where
  "latencyEntry h e st = (let (t, s) = st; (s1, r) = h e s in ((fst e, s1), r))"

text \<open>
  The exit reads the clock after the wrapped writer has returned: \<open>exit_at\<close> is that time, \<open>entered\<close>
  the time its entry wrapper stored.
\<close>

definition latencyExit ::
  "(nat \<Rightarrow> nanos) \<Rightarrow> nanos \<Rightarrow> (nanos \<times> 'p, 's, 'r) handler
    \<Rightarrow> (nanos \<times> 'p, (latency_stats \<times> nat) \<times> 's, 'r) handler" where
  "latencyExit exit_at entered h e st =
     (let ((l, n), s) = st; (s1, r) = h e s in
      (((if entered > 0 then Record (exit_at n - entered) l else l, n + 1), s1), r))"


section \<open>The wrappers are transparent\<close>

interpretation handler_count: transparent rtpHandlerCount
  by unfold_locales (simp_all add: rtpHandlerCount_def Let_def split_def)

interpretation writer_count: transparent mediaWriterCount
  by unfold_locales (simp_all add: mediaWriterCount_def Let_def split_def)

interpretation stats_handler: transparent "rtpStatsHandler show_nat has_mon label"
  for show_nat has_mon label
  by unfold_locales (simp_all add: rtpStatsHandler_def Let_def split_def)

interpretation stats_writer: transparent "rtpStatsWriter show_nat has_mon w"
  for show_nat has_mon w
  by unfold_locales (simp_all add: rtpStatsWriter_def Let_def split_def)

interpretation stream_stats: transparent "rtpStreamStats fps"
  for fps
  by unfold_locales (simp_all add: rtpStreamStats_def Let_def split_def)

interpretation latency_entry: transparent latencyEntry
  by unfold_locales (simp_all add: latencyEntry_def Let_def split_def)

interpretation latency_exit: transparent "latencyExit exit_at entered"
  for exit_at entered
  by unfold_locales (simp_all add: latencyExit_def Let_def split_def)

lemma rtpHandlerCount_apply:
  "rtpHandlerCount h e (c, s) =
     ((c\<lparr>cn_packets := cn_packets c + 1,
         cn_bytes := cn_bytes c + of_nat (length (pk_payload (snd e)))\<rparr>, fst (h e s)), snd (h e s))"
  by (simp add: rtpHandlerCount_def split_def Let_def)

lemma feed_count:
  "cn_packets (fst (fst (feed (rtpHandlerCount h) es (c, s)))) = cn_packets c + of_nat (length es)
   \<and> cn_bytes (fst (fst (feed (rtpHandlerCount h) es (c, s))))
     = cn_bytes c + of_nat (sum_list (map (\<lambda>e. length (pk_payload (snd e))) es))"
proof (induction es arbitrary: c s)
  case Nil
  show ?case by simp
next
  case (Cons e es)
  show ?case
    by (simp add: split_def Let_def rtpHandlerCount_apply Cons.IH)
qed

section \<open>Lost packets\<close>

text \<open>What a stream's own state becomes does not depend on the wrapped handler.\<close>

lemma feed_stream_notes: "fst (fst (feed (rtpStreamStats fps h) es (w, s))) = fold (stream_note fps) es w"
  by (induction es arbitrary: w s) (simp_all add: split_def Let_def rtpStreamStats_def)

text \<open>A stream whose sequence numbers advance by the given steps, arriving at the given times.\<close>

fun stream_from :: "u16 \<Rightarrow> (nanos \<times> nat) list \<Rightarrow> (nat \<Rightarrow> rtp_packet) \<Rightarrow> arrival list" where
  "stream_from n [] body = []"
| "stream_from n ((t, d) # ds) body =
     (t, (body (length ds))\<lparr>pk_seq := n + of_nat d\<rparr>) # stream_from (n + of_nat d) ds body"

lemma count_timing_order [simp]:
  "rc_gaps (count_timing fps d st) = rc_gaps st" "rc_gaps_sum (count_timing fps d st) = rc_gaps_sum st"
  "rc_late (count_timing fps d st) = rc_late st" "rc_resets (count_timing fps d st) = rc_resets st"
  "rc_packets (count_timing fps d st) = rc_packets st"
  by (simp_all add: count_timing_def)

lemma count_order_rest [simp]: "rc_packets (count_order fps d st) = rc_packets st"
  by (simp add: count_order_def)

lemma sint_of_int: "- (2 ^ 15) \<le> i \<Longrightarrow> i < 2 ^ 15 \<Longrightarrow> sint (word_of_int i :: i16) = i"
  by (simp add: signed_of_int signed_take_bit_int_eq_self)

lemma sint_small: "int d < 2 ^ 15 \<Longrightarrow> sint (of_nat d :: i16) = int d"
  using sint_of_int [of "int d"] by simp

lemma count_order_advance:
  assumes fps: "0 < fps" "fps \<le> 1000" and d: "1 \<le> d" "int d \<le> 30 * fps"
  shows "rc_gaps_sum (count_order fps (of_nat d) st) - rc_gaps (count_order fps (of_nat d) st)
      = rc_gaps_sum st - rc_gaps st + of_nat (d - 1)"
    and "rc_late (count_order fps (of_nat d) st) = rc_late st"
    and "rc_resets (count_order fps (of_nat d) st) = rc_resets st"
proof -
  have small: "int d < 2 ^ 15" using fps d by simp
  have pos: "sint (maxPositiveSeqDiff fps) = 30 * fps"
    unfolding maxPositiveSeqDiff_def using fps by (intro sint_of_int) simp_all
  have neg: "sint (maxNegativeSeqDiff fps) = - 5 * fps"
    unfolding maxNegativeSeqDiff_def using fps by (intro sint_of_int) simp_all
  have ord: "\<not> maxPositiveSeqDiff fps <s of_nat d" "\<not> (of_nat d :: i16) <s maxNegativeSeqDiff fps"
      "\<not> (of_nat d :: i16) <s 0"
    using sint_small [OF small] pos neg fps d by (simp_all add: word_sless_alt)
  have one: "(1 :: i16) <s of_nat d \<longleftrightarrow> 1 < d"
    using sint_small [OF small] by (simp add: word_sless_alt)
  have ext: "(scast (of_nat d :: i16) :: u64) = of_nat d"
    using sint_small [OF small] by (simp add: scast_eq)
  show "rc_gaps_sum (count_order fps (of_nat d) st) - rc_gaps (count_order fps (of_nat d) st)
      = rc_gaps_sum st - rc_gaps st + of_nat (d - 1)"
    using d by (cases "d = 1") (simp_all add: count_order_def ord one ext of_nat_diff algebra_simps)
  show "rc_late (count_order fps (of_nat d) st) = rc_late st"
    "rc_resets (count_order fps (of_nat d) st) = rc_resets st"
    by (simp_all add: count_order_def ord)
qed


definition lost :: "rtp_counting_stats \<Rightarrow> u64" where
  "lost st = rc_gaps_sum st - rc_gaps st"

lemma stream_note_advance:
  assumes "0 < fps" "fps \<le> 1000" "1 \<le> d" "int d \<le> 30 * fps"
    and "ss_packets w = of_nat m" "1 \<le> m" "m + 1 < 2 ^ 64" "ss_last_seq w = ucast n"
    and w': "w' = stream_note fps (t, q\<lparr>pk_seq := n + of_nat d\<rparr>) w"
  shows "ss_packets w' = of_nat (Suc m)" "ss_last_seq w' = ucast (n + of_nat d)"
    "lost (ss_stats w') = lost (ss_stats w) + of_nat (d - 1)"
    "rc_late (ss_stats w') = rc_late (ss_stats w)" "rc_resets (ss_stats w') = rc_resets (ss_stats w)"
proof -
  have more: "ss_packets w + 1 > 1"
  proof -
    have "unat (of_nat (Suc m) :: u64) = Suc m" using assms(7) by (simp add: unat_of_nat take_bit_nat_eq_self del: of_nat_Suc)
    with assms(5,6) show ?thesis by (simp add: word_less_nat_alt add.commute)
  qed
  have diff: "Diff16 (n + of_nat d) (ucast (ss_last_seq w)) = of_nat d"
    by (simp add: Diff16_def assms(8))
  note step = w' stream_note_def Let_def
  note advance = count_order_advance [OF assms(1-4)]
  show "ss_packets w' = of_nat (Suc m)" "ss_last_seq w' = ucast (n + of_nat d)"
    by (simp_all add: step assms(5))
  show "lost (ss_stats w') = lost (ss_stats w) + of_nat (d - 1)"
    by (simp add: step more diff advance lost_def)
  show "rc_late (ss_stats w') = rc_late (ss_stats w)" "rc_resets (ss_stats w') = rc_resets (ss_stats w)"
    by (simp_all add: step more diff advance)
qed

lemma stream_notes_advance:
  assumes fps: "0 < fps" "fps \<le> 1000"
  shows "list_all (\<lambda>(t, d). 1 \<le> d \<and> int d \<le> 30 * fps) ds
    \<Longrightarrow> ss_packets w = of_nat m \<Longrightarrow> 1 \<le> m \<Longrightarrow> m + length ds < 2 ^ 64 \<Longrightarrow> ss_last_seq w = ucast n
    \<Longrightarrow> lost (ss_stats (fold (stream_note fps) (stream_from n ds body) w))
          = lost (ss_stats w) + of_nat (sum_list (map (\<lambda>(t, d). d - 1) ds))
      \<and> rc_late (ss_stats (fold (stream_note fps) (stream_from n ds body) w)) = rc_late (ss_stats w)
      \<and> rc_resets (ss_stats (fold (stream_note fps) (stream_from n ds body) w)) = rc_resets (ss_stats w)"
proof (induction ds arbitrary: n m w)
  case Nil
  show ?case by simp
next
  case (Cons td ds)
  obtain t d where td: "td = (t, d)" by (cases td)
  let ?w = "stream_note fps (t, (body (length ds))\<lparr>pk_seq := n + of_nat d\<rparr>) w"
  have d: "1 \<le> d" "int d \<le> 30 * fps" and ds: "list_all (\<lambda>(t, d). 1 \<le> d \<and> int d \<le> 30 * fps) ds"
    using Cons.prems(1) td by simp_all
  have m: "m + 1 < 2 ^ 64" using Cons.prems(4) by simp
  note step = stream_note_advance [OF fps d Cons.prems(2,3) m Cons.prems(5) refl, of t "body (length ds)"]
  have "lost (ss_stats (fold (stream_note fps) (stream_from (n + of_nat d) ds body) ?w))
          = lost (ss_stats ?w) + of_nat (sum_list (map (\<lambda>(t, d). d - 1) ds))
      \<and> rc_late (ss_stats (fold (stream_note fps) (stream_from (n + of_nat d) ds body) ?w)) = rc_late (ss_stats ?w)
      \<and> rc_resets (ss_stats (fold (stream_note fps) (stream_from (n + of_nat d) ds body) ?w)) = rc_resets (ss_stats ?w)"
    using Cons.prems by (intro Cons.IH [OF ds step(1)] step(2)) simp_all
  with step show ?case by (simp add: td)
qed

section \<open>Latency\<close>

lemma Record_max: "la_max st \<le> la_max (Record d st)"
  by (simp add: Record_def Let_def)

interpretation latency_max: monotone_stepper "\<lambda>d st. (Record d st, [])" la_max
  by unfold_locales (simp add: Record_max)

text \<open>While the sum does not wrap, count times maximum bounds it.\<close>

lemma Record_bounded:
  assumes "unat (la_sum st) + nat d < 2 ^ 64" "0 \<le> d" "unat (la_count st) + 1 < 2 ^ 64"
    and "unat (la_sum st) \<le> unat (la_count st) * unat (la_max st)"
  shows "unat (la_sum (Record d st)) = unat (la_sum st) + nat d"
    "unat (la_count (Record d st)) = unat (la_count st) + 1"
    "unat (la_sum (Record d st)) \<le> unat (la_count (Record d st)) * unat (la_max (Record d st))"
proof -
  have "nat d < 2 ^ 64" using assms(1) by simp
  then have "d < 2 ^ 64" using assms(2) by simp
  with assms(2) have "uint (word_of_int d :: u64) = d" by (simp add: uint_word_of_int)
  then have ns: "unat (word_of_int d :: u64) = nat d" by (simp add: unat_eq_nat_uint)
  have plus: "unat (la_sum st + word_of_int d) = unat (la_sum st) + unat (word_of_int d :: u64)"
    using assms(1) by (intro unat_add_lem [THEN iffD1]) (simp add: ns)
  show sum: "unat (la_sum (Record d st)) = unat (la_sum st) + nat d"
    using plus by (simp add: Record_def Let_def ns)
  have plus1: "unat (la_count st + 1) = unat (la_count st) + unat (1 :: u64)"
    using assms(3) by (intro unat_add_lem [THEN iffD1]) simp
  show count: "unat (la_count (Record d st)) = unat (la_count st) + 1"
    using plus1 by (simp add: Record_def Let_def)
  have max: "unat (la_max (Record d st)) = max (unat (la_max st)) (nat d)"
    by (simp add: Record_def Let_def max_def word_le_nat_alt ns)
  have "unat (la_sum st) + nat d \<le> unat (la_count st) * unat (la_max st) + nat d" using assms(4) by simp
  also have "\<dots> \<le> unat (la_count st) * max (unat (la_max st)) (nat d) + max (unat (la_max st)) (nat d)"
    by (intro add_mono mult_left_mono) simp_all
  finally show "unat (la_sum (Record d st)) \<le> unat (la_count (Record d st)) * unat (la_max (Record d st))"
    by (simp add: sum count max)
qed

lemma Records_bounded:
  "list_all (\<lambda>d. 0 \<le> d) ds \<Longrightarrow> unat (la_sum st) + nat (sum_list ds) < 2 ^ 64
    \<Longrightarrow> unat (la_count st) + length ds < 2 ^ 64
    \<Longrightarrow> unat (la_sum st) \<le> unat (la_count st) * unat (la_max st)
    \<Longrightarrow> unat (la_sum (fold Record ds st)) \<le> unat (la_count (fold Record ds st)) * unat (la_max (fold Record ds st))"
proof (induction ds arbitrary: st)
  case Nil
  then show ?case by simp
next
  case (Cons d ds)
  have pos: "0 \<le> d" "0 \<le> sum_list ds" "list_all (\<lambda>d. 0 \<le> d) ds"
    using Cons.prems(1) by (auto simp: list_all_iff intro: sum_list_nonneg)
  have d: "unat (la_sum st) + nat d < 2 ^ 64" "unat (la_count st) + 1 < 2 ^ 64"
    using Cons.prems(2,3) pos by (simp_all add: nat_add_distrib)
  note step = Record_bounded [OF d(1) pos(1) d(2) Cons.prems(4)]
  have "unat (la_sum (Record d st)) + nat (sum_list ds) < 2 ^ 64"
      "unat (la_count (Record d st)) + length ds < 2 ^ 64"
    using Cons.prems(2,3) pos step(1,2) by (simp_all add: nat_add_distrib)
  with Cons.IH [OF pos(3) _ _ step(3)] show ?case by simp
qed

section \<open>Properties\<close>

definition sample_packet :: rtp_packet where
  "sample_packet = \<lparr>pk_seq = 65534, pk_ts = 0, pk_type = 8, pk_payload = [1, 2, 3]\<rparr>"

text \<open>
  C30. A stream whose sequence numbers advance by 1 to 30 seconds of frames each, across any number
  of wrap-arounds, reports exactly its lost packets: the sum of the gaps less their number is the
  total of the skipped numbers, and nothing is counted as late or as a reset.
\<close>
theorem lost_packets_counted:
  assumes "0 < fps" "fps \<le> 1000" "list_all (\<lambda>(t, d). 1 \<le> d \<and> int d \<le> 30 * fps) ds"
    and "length ds + 1 < 2 ^ 64"
    and "st = ss_stats (fst (fst (feed (rtpStreamStats fps h)
           ((t0, p) # stream_from (pk_seq p) ds body) (newRTPStreamStats fresh_stats, s))))"
  shows "rc_gaps_sum st - rc_gaps st = of_nat (sum_list (map (\<lambda>(t, d). d - 1) ds))
    \<and> rc_late st = 0 \<and> rc_resets st = 0"
proof -
  let ?w = "stream_note fps (t0, p) (newRTPStreamStats fresh_stats)"
  have first: "ss_packets ?w = of_nat 1" "ss_last_seq ?w = ucast (pk_seq p)"
      "lost (ss_stats ?w) = 0" "rc_late (ss_stats ?w) = 0" "rc_resets (ss_stats ?w) = 0"
    by (simp_all add: stream_note_def newRTPStreamStats_def fresh_stats_def Let_def lost_def)
  have "st = ss_stats (fold (stream_note fps) (stream_from (pk_seq p) ds body) ?w)"
    using assms(5) by (simp add: feed_stream_notes del: feed.simps)
  with stream_notes_advance [OF assms(1,2,3) first(1) _ _ first(2), of body] assms(4) first
  show ?thesis by (simp add: lost_def)
qed

theorem lost_packets_counted_witness:
  "rc_gaps_sum (ss_stats (fst (fst (feed (rtpStreamStats 50 (\<lambda>e s. (s, ())))
     ((0, sample_packet) # stream_from 65534 [(20000000, 1), (40000000, 4)] (\<lambda>_. sample_packet))
     (newRTPStreamStats fresh_stats, ()))))) - rc_gaps (ss_stats (fst (fst (feed (rtpStreamStats 50 (\<lambda>e s. (s, ())))
     ((0, sample_packet) # stream_from 65534 [(20000000, 1), (40000000, 4)] (\<lambda>_. sample_packet))
     (newRTPStreamStats fresh_stats, ()))))) = 3"
  using lost_packets_counted [of 50 "[(20000000, 1), (40000000, 4)]" _ "\<lambda>e s. (s, ())" 0 sample_packet
      "\<lambda>_. sample_packet" "()", OF _ _ _ _ refl]
  by (simp add: sample_packet_def)

text \<open>
  The latency report is consistent: for durations that are not negative and whose sum fits the
  counter, the reported average never exceeds the reported maximum.
\<close>
theorem latency_avg_le_max:
  assumes "list_all (\<lambda>d. 0 \<le> d) ds" "nat (sum_list ds) < 2 ^ 64" "length ds < 2 ^ 64"
    and "Latency_Load (fold Record ds \<lparr>la_count = 0, la_sum = 0, la_max = 0\<rparr>) = (n, avg, mx)"
  shows "avg \<le> mx"
proof -
  let ?st = "fold Record ds \<lparr>la_count = 0, la_sum = 0, la_max = 0\<rparr>"
  have "unat (la_sum ?st) \<le> unat (la_count ?st) * unat (la_max ?st)"
    using assms by (intro Records_bounded) simp_all
  then have "unat (la_sum ?st) div unat (la_count ?st) \<le> unat (la_max ?st)"
    by (metis div_le_mono nonzero_mult_div_cancel_left div_by_0 zero_le)
  then show ?thesis
    using assms(4) by (auto simp: Latency_Load_def word_le_nat_alt unat_div split: if_splits)
qed

theorem latency_avg_le_max_witness:
  "let (n, avg, mx) = Latency_Load (fold Record [300, 100, 250] \<lparr>la_count = 0, la_sum = 0, la_max = 0\<rparr>)
   in avg \<le> mx"
  using latency_avg_le_max [of "[300, 100, 250]"] by (simp add: Let_def split: prod.split)

end
