(* ===== verification/Silence_Filler.thy ===== *)
theory Silence_Filler
  imports Media_Stats
begin

text \<open>
  \<open>pkg/sip/silence_filler.go\<close>: a sender that suppresses silence leaves a jump in the RTP timestamps
  of consecutive packets; the filler writes the missing frames of silence to the PCM sink before it
  hands the packet on.

  Sequence numbers and timestamps wrap at 16 and 32 bits. \<open>fps\<close> is \<open>rtp.DefFramesPerSec\<close>. Whether a
  frame of silence can be written is the environment's answer for each frame of a gap.
\<close>

section \<open>State and operations\<close>

record silence_filler =
  sf_max_gap :: int
  sf_rtp_frame :: int
  sf_pcm_frame :: int
  sf_last_ts :: u64
  sf_last_seq :: u64
  sf_packets :: u64
  sf_gap_count :: u64
  sf_gap_sum :: u64
  sf_last_print :: "nanos option"

datatype filler_effect =
    Silence int
  | Forward rtp_packet
  | GapLogged u64 int u64
  | FillerPanic

definition WithMaxGapSize :: "int \<Rightarrow> silence_filler \<Rightarrow> silence_filler" where
  "WithMaxGapSize n h = (if n > 0 then h\<lparr>sf_max_gap := n\<rparr> else h)"

definition newSilenceFiller :: "int \<Rightarrow> int \<Rightarrow> int \<Rightarrow> int list \<Rightarrow> silence_filler" where
  "newSilenceFiller fps rtpClockRate pcmSampleRate options =
     fold WithMaxGapSize options
       \<lparr>sf_max_gap = 25, sf_rtp_frame = rtpClockRate div fps, sf_pcm_frame = pcmSampleRate div fps,
        sf_last_ts = 0, sf_last_seq = 0, sf_packets = 0, sf_gap_count = 0, sf_gap_sum = 0,
        sf_last_print = None\<rparr>"

text \<open>\<open>None\<close> is the panic of a division by a frame of no samples.\<close>

definition isSilenceSuppression ::
  "rtp_packet \<Rightarrow> silence_filler \<Rightarrow> silence_filler \<times> (bool \<times> int) option" where
  "isSilenceSuppression p h =
     (let packets = sf_packets h + 1;
          lastSeq = (ucast (sf_last_seq h) :: u16);
          lastTS = (ucast (sf_last_ts h) :: u32);
          h1 = h\<lparr>sf_packets := packets, sf_last_seq := ucast (pk_seq p), sf_last_ts := ucast (pk_ts p)\<rparr>
      in if packets = 1 then (h1, Some (False, 0))
         else (let expectedSeq = lastSeq + 1;
                   expectedTS = lastTS + word_of_int (sf_rtp_frame h);
                   seqDiff = pk_seq p - expectedSeq;
                   tsDiff = pk_ts p - expectedTS
               in if seqDiff \<noteq> 0 then (h1, Some (False, 0))
                  else (case go_div (uint tsDiff) (sf_rtp_frame h) of
                          None \<Rightarrow> (h1, None)
                        | Some missed \<Rightarrow>
                            if missed = 0 then (h1, Some (False, 0)) else (h1, Some (True, missed)))))"

text \<open>\<open>ok i\<close>: the \<open>i\<close>-th frame of silence of this gap is written.\<close>

fun fillWithSilence :: "(nat \<Rightarrow> bool) \<Rightarrow> int \<Rightarrow> nat \<Rightarrow> nat \<Rightarrow> filler_effect list \<times> bool" where
  "fillWithSilence ok frame i 0 = ([], True)"
| "fillWithSilence ok frame i (Suc n) =
     (if ok i then (case fillWithSilence ok frame (Suc i) n of (es, b) \<Rightarrow> (Silence frame # es, b))
      else ([], False))"

definition gap_log :: "nanos \<Rightarrow> int \<Rightarrow> silence_filler \<Rightarrow> silence_filler \<times> filler_effect list" where
  "gap_log now missing h =
     (let h1 = h\<lparr>sf_gap_count := sf_gap_count h + 1, sf_gap_sum := sf_gap_sum h + word_of_int missing\<rparr> in
      if (case sf_last_print h of None \<Rightarrow> True | Some t \<Rightarrow> now - t > 15 * second)
      then (h1\<lparr>sf_last_print := Some now\<rparr>, [GapLogged (sf_gap_count h1) missing (sf_gap_sum h1)])
      else (h1, []))"

definition Filler_HandleRTP ::
  "(nat \<Rightarrow> bool) \<Rightarrow> arrival \<Rightarrow> silence_filler \<Rightarrow> silence_filler \<times> filler_effect list" where
  "Filler_HandleRTP ok e h =
     (let (now, p) = e in
      case isSilenceSuppression p h of
        (h1, None) \<Rightarrow> (h1, [FillerPanic])
      | (h1, Some (dtx, missing)) \<Rightarrow>
          if dtx \<and> missing \<le> sf_max_gap h1 * 100
          then (let (h2, log) = gap_log now missing h1 in
                if missing \<le> sf_max_gap h2
                then (case fillWithSilence ok (sf_pcm_frame h2) 0 (nat missing) of
                        (es, True) \<Rightarrow> (h2, log @ es @ [Forward p])
                      | (es, False) \<Rightarrow> (h2, log @ es))
                else (h2, log @ [Forward p]))
          else (h1, [Forward p]))"

definition is_silence :: "filler_effect \<Rightarrow> bool" where
  "is_silence e = (case e of Silence n \<Rightarrow> True | _ \<Rightarrow> False)"

fun is_audio :: "filler_effect \<Rightarrow> bool" where
  "is_audio (Silence n) = True"
| "is_audio (Forward p) = True"
| "is_audio e = False"

text \<open>
  A talk spurt with suppressed silence: \<open>(t, k, p)\<close> is a packet that arrives at \<open>t\<close>, next in the
  sequence, after \<open>k\<close> frames that were not sent.
\<close>

fun dtx_stream :: "u16 \<Rightarrow> u32 \<Rightarrow> int \<Rightarrow> (nanos \<times> nat \<times> rtp_packet) list \<Rightarrow> arrival list" where
  "dtx_stream sq ts frame [] = []"
| "dtx_stream sq ts frame ((t, k, p) # rest) =
     (let ts' = ts + word_of_int frame * of_nat (Suc k) in
      (t, p\<lparr>pk_seq := sq + 1, pk_ts := ts'\<rparr>) # dtx_stream (sq + 1) ts' frame rest)"

section \<open>Lemmas\<close>

lemma fillWithSilence_ok: "(\<And>i. ok i) \<Longrightarrow> fillWithSilence ok fr i n = (replicate n (Silence fr), True)"
  by (induction n arbitrary: i) simp_all

lemma fillWithSilence_count: "count_by is_silence (fst (fillWithSilence ok fr i n)) \<le> n"
  by (induction ok fr i n rule: fillWithSilence.induct) (auto simp: is_silence_def split: prod.splits)

lemma gap_log_simps [simp]:
  "sf_max_gap (fst (gap_log now m h)) = sf_max_gap h" "sf_pcm_frame (fst (gap_log now m h)) = sf_pcm_frame h"
  "sf_rtp_frame (fst (gap_log now m h)) = sf_rtp_frame h" "sf_last_ts (fst (gap_log now m h)) = sf_last_ts h"
  "sf_last_seq (fst (gap_log now m h)) = sf_last_seq h" "sf_packets (fst (gap_log now m h)) = sf_packets h"
  "count_by is_silence (snd (gap_log now m h)) = 0" "filter is_audio (snd (gap_log now m h)) = []"
  by (simp_all add: gap_log_def Let_def is_silence_def)

lemma suppression_state [simp]:
  "sf_max_gap (fst (isSilenceSuppression p h)) = sf_max_gap h"
  "sf_pcm_frame (fst (isSilenceSuppression p h)) = sf_pcm_frame h"
  "sf_rtp_frame (fst (isSilenceSuppression p h)) = sf_rtp_frame h"
  "sf_last_ts (fst (isSilenceSuppression p h)) = ucast (pk_ts p)"
  "sf_last_seq (fst (isSilenceSuppression p h)) = ucast (pk_seq p)"
  "sf_packets (fst (isSilenceSuppression p h)) = sf_packets h + 1"
  by (auto simp: isSilenceSuppression_def Let_def split: option.splits)

lemma uint_small: "0 \<le> i \<Longrightarrow> i < 2 ^ 32 \<Longrightarrow> uint (word_of_int i :: u32) = i"
  by (simp add: uint_word_of_int)

text \<open>A next packet after \<open>k\<close> missing frames is seen as exactly that gap.\<close>

lemma suppression_gap:
  assumes "0 < sf_rtp_frame h" "sf_rtp_frame h * int (Suc k) < 2 ^ 32"
    and "sf_packets h = of_nat m" "1 \<le> m" "m + 1 < 2 ^ 64"
    and "pk_seq p = ucast (sf_last_seq h) + 1"
    and "pk_ts p = ucast (sf_last_ts h) + word_of_int (sf_rtp_frame h) * of_nat (Suc k)"
  shows "snd (isSilenceSuppression p h) = Some (k \<noteq> 0, int k)"
proof -
  have "of_nat (Suc m) \<noteq> (1 :: u64)"
  proof
    assume "of_nat (Suc m) = (1 :: u64)"
    then have "unat (of_nat (Suc m) :: u64) = 1" by (simp only: unat_1)
    with assms(4,5) show False by (simp add: unat_of_nat take_bit_nat_eq_self del: of_nat_Suc)
  qed
  then have later: "sf_packets h + 1 \<noteq> 1" using assms(3) by (simp add: add.commute)
  let ?f = "sf_rtp_frame h"
  have "?f * int k < 2 ^ 32"
    using assms(1,2) by (simp add: algebra_simps)
  then have "uint (word_of_int (?f * int k) :: u32) = ?f * int k"
    using assms(1) by (intro uint_small) simp_all
  moreover have "pk_ts p - (ucast (sf_last_ts h) + word_of_int ?f) = word_of_int (?f * int k)"
    by (simp add: assms(7) algebra_simps)
  ultimately have "uint (pk_ts p - (ucast (sf_last_ts h) + word_of_int ?f)) = ?f * int k" by simp
  then show ?thesis
    using later assms(1,6)
    by (simp add: isSilenceSuppression_def Let_def go_div_def sgn_mult abs_mult)
qed


text \<open>One packet of a talk spurt.\<close>

lemma filler_step:
  assumes "0 < sf_rtp_frame h" "sf_rtp_frame h * int (Suc k) < 2 ^ 32" "int k \<le> sf_max_gap h"
    and "sf_packets h = of_nat m" "1 \<le> m" "m + 1 < 2 ^ 64"
    and "pk_seq p = ucast (sf_last_seq h) + 1"
    and "pk_ts p = ucast (sf_last_ts h) + word_of_int (sf_rtp_frame h) * of_nat (Suc k)"
    and "\<And>i. ok i" and "r = Filler_HandleRTP ok (t, p) h"
  shows "filter is_audio (snd r) = replicate k (Silence (sf_pcm_frame h)) @ [Forward p]"
    "sf_max_gap (fst r) = sf_max_gap h" "sf_pcm_frame (fst r) = sf_pcm_frame h"
    "sf_rtp_frame (fst r) = sf_rtp_frame h" "sf_last_ts (fst r) = ucast (pk_ts p)"
    "sf_last_seq (fst r) = ucast (pk_seq p)" "sf_packets (fst r) = of_nat (Suc m)"
proof -
  obtain h1 where sup: "isSilenceSuppression p h = (h1, Some (k \<noteq> 0, int k))"
    using suppression_gap [OF assms(1,2,4-8)] by (cases "isSilenceSuppression p h") auto
  note h1 = suppression_state [of p h, unfolded sup, simplified]
  obtain h2 log where log: "gap_log t (int k) h1 = (h2, log)" by (cases "gap_log t (int k) h1")
  note h2 = gap_log_simps [of t "int k" h1, unfolded log, simplified]
  have r: "r = (if k = 0 then (h1, [Forward p])
      else (h2, log @ replicate k (Silence (sf_pcm_frame h2)) @ [Forward p]))"
    using assms(3,9,10) h1(1) h2(1)
    by (simp add: Filler_HandleRTP_def sup log fillWithSilence_ok)
  show "filter is_audio (snd r) = replicate k (Silence (sf_pcm_frame h)) @ [Forward p]"
    using r h1 h2 by (simp add: filter_replicate)
  show "sf_max_gap (fst r) = sf_max_gap h" "sf_pcm_frame (fst r) = sf_pcm_frame h"
    "sf_rtp_frame (fst r) = sf_rtp_frame h" "sf_last_ts (fst r) = ucast (pk_ts p)"
    "sf_last_seq (fst r) = ucast (pk_seq p)" "sf_packets (fst r) = of_nat (Suc m)"
    using r h1 h2 assms(4) by (simp_all add: add.commute)
qed

fun spurt_audio :: "int \<Rightarrow> nat list \<Rightarrow> arrival list \<Rightarrow> filler_effect list" where
  "spurt_audio n (k # ks) (e # es) = replicate k (Silence n) @ Forward (snd e) # spurt_audio n ks es"
| "spurt_audio n _ _ = []"

lemma filler_spurt:
  assumes ok: "\<And>i. ok i"
  shows "0 < sf_rtp_frame h
    \<Longrightarrow> list_all (\<lambda>(t, k, p). int k \<le> sf_max_gap h \<and> sf_rtp_frame h * int (Suc k) < 2 ^ 32) ds
    \<Longrightarrow> sf_packets h = of_nat m \<Longrightarrow> 1 \<le> m \<Longrightarrow> m + length ds < 2 ^ 64
    \<Longrightarrow> es = dtx_stream (ucast (sf_last_seq h)) (ucast (sf_last_ts h)) (sf_rtp_frame h) ds
    \<Longrightarrow> filter is_audio (snd (run (Filler_HandleRTP ok) es h))
      = spurt_audio (sf_pcm_frame h) (map (\<lambda>d. fst (snd d)) ds) es"
proof (induction ds arbitrary: h m es)
  case Nil
  then show ?case by simp
next
  case (Cons d ds)
  obtain t k p where d: "d = (t, k, p)" by (cases d)
  let ?ts = "ucast (sf_last_ts h) + word_of_int (sf_rtp_frame h) * of_nat (Suc k) :: u32"
  let ?p = "p\<lparr>pk_seq := ucast (sf_last_seq h) + 1, pk_ts := ?ts\<rparr>"
  let ?r = "Filler_HandleRTP ok (t, ?p) h"
  let ?es = "dtx_stream (ucast (sf_last_seq h) + 1) ?ts (sf_rtp_frame h) ds"
  have es: "es = (t, ?p) # ?es" using Cons.prems(6) by (simp add: d Let_def)
  have k: "int k \<le> sf_max_gap h" "sf_rtp_frame h * int (Suc k) < 2 ^ 32" and m: "m + 1 < 2 ^ 64"
    using Cons.prems(2,5) d by simp_all
  note step = filler_step [where ok = ok and t = t and p = ?p and r = ?r,
      OF Cons.prems(1) k(2) k(1) Cons.prems(3,4) m _ _ ok refl, simplified]
  have "filter is_audio (snd (run (Filler_HandleRTP ok) ?es (fst ?r)))
      = spurt_audio (sf_pcm_frame (fst ?r)) (map (\<lambda>d. fst (snd d)) ds) ?es"
    by (rule Cons.IH [of _ "Suc m"]) (use Cons.prems d step in \<open>simp_all\<close>)
  with step show ?case by (simp add: es d Let_def)
qed


section \<open>Properties\<close>

lemma fold_max_gap [simp]:
  "sf_rtp_frame (fold WithMaxGapSize os h) = sf_rtp_frame h"
  "sf_pcm_frame (fold WithMaxGapSize os h) = sf_pcm_frame h"
  "sf_packets (fold WithMaxGapSize os h) = sf_packets h"
  by (induction os arbitrary: h) (simp_all add: WithMaxGapSize_def)

lemma filler_first:
  assumes "sf_packets h = 0"
  shows "snd (Filler_HandleRTP ok (t, p) h) = [Forward p]"
    "fst (Filler_HandleRTP ok (t, p) h)
      = h\<lparr>sf_packets := 1, sf_last_seq := ucast (pk_seq p), sf_last_ts := ucast (pk_ts p)\<rparr>"
  using assms by (simp_all add: Filler_HandleRTP_def isSilenceSuppression_def Let_def)

text \<open>
  C24. The silence filler restores the timeline: when the sender leaves out \<open>k\<close> frames before a
  packet, for any \<open>k\<close> up to the maximum, exactly \<open>k\<close> frames of silence go out just before that
  packet; every packet is handed on, in order, and nothing else is played. Sequence numbers and
  timestamps may wrap.
\<close>
theorem silence_fills_timeline:
  assumes "h = newSilenceFiller fps clock rate options" "0 < sf_rtp_frame h" "\<And>i. ok i"
    and "list_all (\<lambda>(t, k, p). int k \<le> sf_max_gap h \<and> sf_rtp_frame h * int (Suc k) < 2 ^ 32) ds"
    and "length ds + 1 < 2 ^ 64"
    and "es = dtx_stream (pk_seq p) (pk_ts p) (sf_rtp_frame h) ds"
  shows "filter is_audio (snd (run (Filler_HandleRTP ok) ((t0, p) # es) h))
    = Forward p # spurt_audio (rate div fps) (map (\<lambda>d. fst (snd d)) ds) es"
proof -
  have new: "sf_packets h = 0" "sf_pcm_frame h = rate div fps"
    by (simp_all add: assms(1) newSilenceFiller_def)
  note first = filler_first [OF new(1), of ok t0 p]
  have "filter is_audio (snd (run (Filler_HandleRTP ok) es (fst (Filler_HandleRTP ok (t0, p) h))))
      = spurt_audio (rate div fps) (map (\<lambda>d. fst (snd d)) ds) es"
    using filler_spurt [OF assms(3), of "fst (Filler_HandleRTP ok (t0, p) h)" ds 1 es] assms(2,4-6)
    by (simp add: first new)
  then show ?thesis by (simp add: Let_def first)
qed

theorem silence_fills_timeline_witness:
  "filter is_audio (snd (run (Filler_HandleRTP (\<lambda>_. True))
     ((0, sample_packet) # dtx_stream 65534 0 160 [(20000000, 0, sample_packet), (80000000, 2, sample_packet)])
     (newSilenceFiller 50 8000 48000 [])))
   = [Forward sample_packet, Forward (sample_packet\<lparr>pk_seq := 65535, pk_ts := 160\<rparr>),
      Silence 960, Silence 960, Forward (sample_packet\<lparr>pk_seq := 0, pk_ts := 640\<rparr>)]"
proof -
  have h: "newSilenceFiller 50 8000 48000 [] = \<lparr>sf_max_gap = 25, sf_rtp_frame = 160, sf_pcm_frame = 960,
      sf_last_ts = 0, sf_last_seq = 0, sf_packets = 0, sf_gap_count = 0, sf_gap_sum = 0,
      sf_last_print = None\<rparr>" by (simp add: newSilenceFiller_def)
  have p: "pk_seq sample_packet = 65534" "pk_ts sample_packet = 0" by (simp_all add: sample_packet_def)
  have two: "replicate 2 x = [x, x]" for x :: filler_effect by (simp add: numeral_2_eq_2)
  have wrap: "(65536 :: u16) = 0" by (simp flip: word_uint_eq_iff)
  show ?thesis
    by (subst silence_fills_timeline [where fps = 50 and clock = 8000 and rate = 48000 and options = "[]"
          and ds = "[(20000000, 0, sample_packet), (80000000, 2, sample_packet)]", OF refl])
      (simp_all add: h p Let_def two wrap)
qed

text \<open>
  Whatever arrives, one packet never makes the filler play more than the maximum of silence, and
  none at all unless the packet is the next in sequence: losses, reordering and resets are not filled.
\<close>
theorem silence_bounded:
  "count_by is_silence (snd (Filler_HandleRTP ok e h))
    \<le> (if pk_seq (snd e) = ucast (sf_last_seq h) + 1 then nat (sf_max_gap h) else 0)"
proof -
  obtain now p where e: "e = (now, p)" by (cases e)
  show ?thesis
  proof (cases "snd (isSilenceSuppression p h)")
    case None
    then show ?thesis
      by (cases "isSilenceSuppression p h") (simp add: e Filler_HandleRTP_def is_silence_def)
  next
    case (Some r)
    then obtain h1 dtx missing where sup: "isSilenceSuppression p h = (h1, Some (dtx, missing))"
      by (cases "isSilenceSuppression p h"; cases r) auto
    have next_seq: "pk_seq p = ucast (sf_last_seq h) + 1" if dtx
      using sup that by (auto simp: isSilenceSuppression_def Let_def split: if_splits option.splits)
    obtain h2 log where log: "gap_log now missing h1 = (h2, log)" by (cases "gap_log now missing h1")
    obtain es b where fill: "fillWithSilence ok (sf_pcm_frame h2) 0 (nat missing) = (es, b)"
      by (cases "fillWithSilence ok (sf_pcm_frame h2) 0 (nat missing)")
    have "count_by is_silence es \<le> nat missing" "count_by is_silence log = 0" "sf_max_gap h2 = sf_max_gap h"
      using fillWithSilence_count [of ok "sf_pcm_frame h2" 0 "nat missing"] fill
        gap_log_simps(1,7) [of now missing h1] log suppression_state(1) [of p h] sup by simp_all
    with next_seq sup log fill show ?thesis
      by (cases b) (auto simp: e Filler_HandleRTP_def is_silence_def)
  qed
qed

end
