(* ===== verification/Media_Port.thy ===== *)
theory Media_Port
  imports Sip_Types Silence_Filler
begin

text \<open>
  \<open>pkg/sip/media_port.go\<close>: the UDP connection that follows the remote address, the media timeout
  loop, the loops that read RTP, the life cycle of the port, keyframe requests and the rates of the
  port's statistics.

  Sockets, RTP sessions, codecs and the mixer belong to libraries: what they answer is a parameter,
  what the port asks of them an effect. Times are nanoseconds; a time that was never set is \<open>None\<close>.
\<close>

unbundle bit_operations_syntax

section \<open>The UDP connection\<close>

record udp_conn =
  uc_symmetric :: bool
  uc_src :: "addr_port option"
  uc_dst :: "addr_port option"
  uc_src_changes :: u64
  uc_dst_changes :: u64
  uc_src_print :: nanos
  uc_dst_print :: nanos

definition ap_valid :: "addr_port \<Rightarrow> bool" where
  "ap_valid a = addr_valid (ap_addr a)"

definition newUDPConn :: "bool \<Rightarrow> udp_conn" where
  "newUDPConn symmetric = \<lparr>uc_symmetric = symmetric, uc_src = None, uc_dst = None,
     uc_src_changes = 0, uc_dst_changes = 0, uc_src_print = 0, uc_dst_print = 0\<rparr>"

definition SetSymmetric :: "bool \<Rightarrow> udp_conn \<Rightarrow> udp_conn" where
  "SetSymmetric on c = c\<lparr>uc_symmetric := on\<rparr>"

definition GetSrc :: "udp_conn \<Rightarrow> addr_port option" where
  "GetSrc c = (case uc_src c of Some a \<Rightarrow> if ap_valid a then Some a else None | None \<Rightarrow> None)"

definition srcChangePrintInterval :: nanos where
  "srcChangePrintInterval = 10 * second"

definition known :: "addr_port option \<Rightarrow> addr_port option" where
  "known p = (case p of Some a \<Rightarrow> if ap_valid a then Some a else None | None \<Rightarrow> None)"

definition SetDst :: "nanos \<Rightarrow> addr_port \<Rightarrow> udp_conn \<Rightarrow> udp_conn" where
  "SetDst now a c =
     (if \<not> ap_valid a then c
      else (let c1 = c\<lparr>uc_dst := Some a\<rparr> in
            case known (uc_dst c) of
              None \<Rightarrow> c1
            | Some prev \<Rightarrow>
                if prev = a then c1
                else (let c2 = c1\<lparr>uc_dst_changes := uc_dst_changes c1 + 1\<rparr> in
                      if now - uc_dst_print c2 > srcChangePrintInterval then c2\<lparr>uc_dst_print := now\<rparr> else c2)))"

text \<open>
  \<open>Read\<close> after the socket returned a packet from \<open>a\<close>; on an error the socket returns the invalid
  address, which is stored as well.
\<close>

definition note_src :: "nanos \<Rightarrow> addr_port \<Rightarrow> udp_conn \<Rightarrow> udp_conn" where
  "note_src now a c =
     (let c1 = c\<lparr>uc_src := Some a\<rparr> in
      case known (uc_src c) of
        None \<Rightarrow> c1
      | Some prev \<Rightarrow>
          if prev = a then c1
          else (let c2 = c1\<lparr>uc_src_changes := uc_src_changes c1 + 1\<rparr> in
                if now - uc_src_print c2 > srcChangePrintInterval
                then c2\<lparr>uc_src_print := now, uc_src_changes := uc_src_changes c2 + 1\<rparr>
                else c2))"

definition udp_Read :: "nanos \<Rightarrow> addr_port \<Rightarrow> udp_conn \<Rightarrow> udp_conn" where
  "udp_Read now a c =
     (let c1 = note_src now a c in
      if uc_symmetric c1 \<and> known (uc_dst c1) \<noteq> Some a then SetDst now a c1 else c1)"

text \<open>Where a packet is written to; without a destination it is dropped and counts as written.\<close>

definition udp_Write :: "udp_conn \<Rightarrow> addr_port option" where
  "udp_Write c = uc_dst c"

datatype udp_op = UdpRead nanos addr_port | UdpSetDst nanos addr_port | UdpSymmetric bool

fun udp_step :: "udp_op \<Rightarrow> udp_conn \<Rightarrow> udp_conn \<times> addr_port list" where
  "udp_step (UdpRead now a) c = (udp_Read now a c, [])"
| "udp_step (UdpSetDst now a) c = (SetDst now a c, [])"
| "udp_step (UdpSymmetric on) c = (SetSymmetric on c, [])"

text \<open>
  \<open>discardLoop\<close> before the answer is applied: packets are read and thrown away until the port stops
  discarding or the socket fails. The result is the number discarded.
\<close>

datatype discard_event = Stopping | DeadlineFails | ReadDeadline | ReadFails | PacketRead

fun discardLoop :: "discard_event list \<Rightarrow> u64 \<Rightarrow> u64 option" where
  "discardLoop [] n = None"
| "discardLoop (Stopping # es) n = Some n"
| "discardLoop (DeadlineFails # es) n = Some n"
| "discardLoop (ReadFails # es) n = Some n"
| "discardLoop (ReadDeadline # es) n = discardLoop es n"
| "discardLoop (PacketRead # es) n = discardLoop es (n + 1)"

section \<open>The media timeout\<close>

record timeout_state =
  to_start :: "nanos option"
  to_initial :: nanos
  to_general :: nanos
  to_last_packet :: "nanos option"

definition disabledPark :: nanos where
  "disabledPark = hour"

definition disableTimeout :: "timeout_state \<Rightarrow> timeout_state" where
  "disableTimeout s = s\<lparr>to_start := None\<rparr>"

definition enableTimeout :: "nanos \<Rightarrow> nanos \<Rightarrow> nanos \<Rightarrow> nanos \<Rightarrow> nanos \<Rightarrow> timeout_state \<Rightarrow> timeout_state" where
  "enableTimeout def_initial def_general now initial general s =
     s\<lparr>to_initial := (if initial \<le> 0 then def_initial else initial),
       to_general := (if general \<le> 0 then def_general else general),
       to_start := Some now\<rparr>"

definition note_packet :: "nanos \<Rightarrow> timeout_state \<Rightarrow> timeout_state" where
  "note_packet now s = s\<lparr>to_last_packet := Some now\<rparr>"

definition timeout_deadline :: "nanos \<Rightarrow> timeout_state \<Rightarrow> nanos" where
  "timeout_deadline start s = (case to_last_packet s of
       None \<Rightarrow> start + to_initial s
     | Some t \<Rightarrow> t + to_general s)"

text \<open>What one round of the loop does when it wakes at \<open>now\<close>: fire, or sleep until the next round.\<close>

datatype timeout_action = Fire | SleepFor nanos

definition timeout_round :: "nanos \<Rightarrow> timeout_state \<Rightarrow> timeout_action" where
  "timeout_round now s = (case to_start s of
       None \<Rightarrow> SleepFor disabledPark
     | Some start \<Rightarrow>
         (let remaining = timeout_deadline start s - now in
          if remaining \<le> 0 then Fire else SleepFor (min remaining (to_general s))))"

text \<open>
  The loop over a quiet period: no packet and no change of the timeout comes, so each sleep ends with
  its timer, which fires late by the next element of \<open>lates\<close>. The result is the time of the callback,
  \<open>None\<close> if the loop is asleep again after the last of these timers.
\<close>

fun timeout_quiet :: "nanos list \<Rightarrow> nanos \<Rightarrow> timeout_state \<Rightarrow> nanos option" where
  "timeout_quiet [] now s = (case timeout_round now s of Fire \<Rightarrow> Some now | SleepFor d \<Rightarrow> None)"
| "timeout_quiet (late # lates) now s = (case timeout_round now s of
       Fire \<Rightarrow> Some now
     | SleepFor d \<Rightarrow> timeout_quiet lates (now + d + late) s)"

section \<open>Reading RTP\<close>

record port_stats =
  ps_streams :: u64
  ps_packets :: u64
  ps_ignored :: u64
  ps_failed :: u64
  ps_input :: u64

datatype read_event = ReadEOF | ReadError | ReadPacket nat bool bool

text \<open>
  \<open>rtpReadLoop\<close>: \<open>ReadPacket n has_handler ok\<close> is a packet of \<open>n\<close> bytes, whether a handler is set, and
  whether it accepts the packet. The loop ends at EOF, at a read error, and after fifty packets in
  a row that the handler refused. \<open>True\<close> tells that the loop has ended.
\<close>

definition maxErrors :: nat where
  "maxErrors = 50"

definition count_packet :: "port_stats \<Rightarrow> port_stats" where
  "count_packet s = s\<lparr>ps_packets := ps_packets s + 1\<rparr>"

fun rtpReadLoop :: "nat \<Rightarrow> read_event list \<Rightarrow> nat \<Rightarrow> port_stats \<Rightarrow> port_stats \<times> bool" where
  "rtpReadLoop mtu [] errs s = (s, False)"
| "rtpReadLoop mtu (ReadEOF # es) errs s = (s, True)"
| "rtpReadLoop mtu (ReadError # es) errs s = (s, True)"
| "rtpReadLoop mtu (ReadPacket n has_handler ok # es) errs s =
     (let s1 = count_packet s in
      if n > mtu \<or> \<not> has_handler then rtpReadLoop mtu es errs (s1\<lparr>ps_ignored := ps_ignored s1 + 1\<rparr>)
      else if \<not> ok then
        (let s2 = s1\<lparr>ps_failed := ps_failed s1 + 1\<rparr> in
         if Suc errs \<ge> maxErrors then (s2, True) else rtpReadLoop mtu es (Suc errs) s2)
      else rtpReadLoop mtu es 0 (s1\<lparr>ps_input := ps_input s1 + 1\<rparr>))"

text \<open>\<open>videoReadStream\<close>: the packets handed to the depacketizer, and how often it failed.\<close>

fun videoReadStream :: "nat \<Rightarrow> read_event list \<Rightarrow> nat \<Rightarrow> nat \<times> bool" where
  "videoReadStream mtu [] n = (n, False)"
| "videoReadStream mtu (ReadEOF # es) n = (n, True)"
| "videoReadStream mtu (ReadError # es) n = (n, True)"
| "videoReadStream mtu (ReadPacket len has_handler ok # es) n =
     (if len > mtu then videoReadStream mtu es n else videoReadStream mtu es (Suc n))"


section \<open>The port\<close>

text \<open>
  What an answer fixes: the remote address, whether media is encrypted, the payload types. A writer is
  a name; writers, sessions and handlers that exist are recorded, their contents belong to the library.
\<close>

record media_answer =
  an_remote :: addr_port
  an_crypto :: bool
  an_audio :: u8
  an_dtmf :: u8
  an_processor :: bool

record media_opts =
  op_ignore_local :: bool
  op_ignore_preanswer :: bool
  op_no_resample :: bool
  op_jitter :: bool
  op_log_signal :: bool
  op_dtmf_audio :: bool

record video_conf =
  vc_remote :: addr_port
  vc_type :: u8
  vc_profile :: string
  vc_mode :: int
  vc_clock :: nat

record media_port =
  mp_opts :: media_opts
  mp_closed :: bool
  mp_udp :: udp_conn
  mp_conf :: "media_answer option"
  mp_sess :: bool
  mp_audio_out :: "string option"
  mp_audio_in :: "string option"
  mp_out_rtp :: bool
  mp_dtmf_rtp :: bool
  mp_dtmf_audio :: bool
  mp_dtmf_in :: bool
  mp_hnd :: bool
  mp_video_udp :: "udp_conn option"
  mp_video_conf :: "video_conf option"
  mp_video_sess :: bool
  mp_video_enabled :: bool
  mp_video_ssrc :: u32
  mp_stats_closed :: bool

datatype port_effect =
    CloseWriter string | CloseSession | CloseSocket | CloseVideoSession | CloseVideoSocket
  | CloseHandler | CloseDtmfMixer | StopDiscarding | OpenSession bool | StartRtpLoop
  | StartVideoLoop | StartPliLoop bool | StartVideoRead u32 | StartDiscardLoop | StartTimeoutLoop
  | Rtcp addr_port "u8 list" | WriteTones bool bool u32 string

definition close_opt :: "string option \<Rightarrow> port_effect list" where
  "close_opt w = (case w of None \<Rightarrow> [] | Some n \<Rightarrow> [CloseWriter n])"

text \<open>
  \<open>NewMediaPortWith\<close>: \<open>audio_ok\<close> and \<open>video_ok\<close> tell whether a socket is found in the port range; a
  video socket that is not found closes the audio socket. The time limits default to the code's.
\<close>

definition NewMediaPortWith ::
  "bool \<Rightarrow> bool \<Rightarrow> bool \<Rightarrow> bool \<Rightarrow> nanos \<Rightarrow> nanos \<Rightarrow> nanos \<Rightarrow> nanos \<Rightarrow> media_opts
    \<Rightarrow> (media_port \<times> timeout_state) option \<times> port_effect list" where
  "NewMediaPortWith audio_ok video_ok video symmetric def_initial def_general initial general op =
     (if \<not> audio_ok then (None, [])
      else if video \<and> \<not> video_ok then (None, [CloseSocket])
      else (Some
        (\<lparr>mp_opts = op, mp_closed = False, mp_udp = newUDPConn symmetric, mp_conf = None, mp_sess = False,
          mp_audio_out = None, mp_audio_in = None, mp_out_rtp = False, mp_dtmf_rtp = False,
          mp_dtmf_audio = False, mp_dtmf_in = False, mp_hnd = False,
          mp_video_udp = (if video then Some (newUDPConn symmetric) else None), mp_video_conf = None,
          mp_video_sess = False, mp_video_enabled = False, mp_video_ssrc = 0, mp_stats_closed = False\<rparr>,
         \<lparr>to_start = None, to_initial = (if initial \<le> 0 then def_initial else initial),
          to_general = (if general \<le> 0 then def_general else general), to_last_packet = None\<rparr>),
        (if op_ignore_preanswer op then [StartDiscardLoop] else []) @ [StartTimeoutLoop]))"

definition Port_Close :: "unit \<Rightarrow> media_port \<Rightarrow> media_port \<times> port_effect list" where
  "Port_Close u p =
     (if mp_closed p then (p, [])
      else (p\<lparr>mp_closed := True, mp_audio_out := None, mp_audio_in := None, mp_out_rtp := False,
              mp_dtmf_rtp := False, mp_dtmf_audio := False, mp_dtmf_in := False,
              mp_video_enabled := False, mp_stats_closed := True\<rparr>,
            close_opt (mp_audio_out p) @ close_opt (mp_audio_in p)
            @ (if mp_dtmf_audio p then [CloseDtmfMixer] else [])
            @ (if mp_sess p then [CloseSession] else []) @ [CloseSocket]
            @ (if mp_video_sess p then [CloseVideoSession] else [])
            @ (if mp_video_udp p \<noteq> None then [CloseVideoSocket] else [])
            @ (if mp_hnd p then [CloseHandler] else [])))"

text \<open>The stages of the two audio pipelines, from the source to the sink.\<close>

datatype stage =
    LatencyEntry | LatencyExit | StreamStats | JitterBuffer | Mux | PacketCount | TypeStats
  | SilenceFill | Decode | SignalLog | FrameCount | RoomWriter | Mixer | Encode | SeqStream | Network

definition setupInput :: "media_opts \<Rightarrow> stage list" where
  "setupInput op =
     [LatencyEntry] @ (if op_jitter op then [JitterBuffer] else [])
     @ [StreamStats, Mux, PacketCount, TypeStats, SilenceFill, Decode]
     @ (if op_log_signal op then [SignalLog] else []) @ [FrameCount, LatencyExit, RoomWriter]"

definition setupOutput :: "media_opts \<Rightarrow> media_answer \<Rightarrow> stage list" where
  "setupOutput op a =
     [LatencyEntry] @ (if an_dtmf a \<noteq> 0 \<and> op_dtmf_audio op then [Mixer] else [])
     @ (if op_log_signal op then [SignalLog] else [])
     @ [FrameCount, Encode, SeqStream, TypeStats, LatencyExit, Network]"

text \<open>
  \<open>SetConfig\<close>: \<open>sess_ok\<close> and \<open>write_ok\<close> tell whether the session and its write stream can be opened.
\<close>

definition Port_SetConfig ::
  "bool \<Rightarrow> bool \<Rightarrow> nanos \<Rightarrow> media_answer \<Rightarrow> media_port \<Rightarrow> media_port \<times> port_effect list \<times> string option" where
  "Port_SetConfig sess_ok write_ok now a p =
     (if mp_closed p then (p, [], Some ''media is already closed'')
      else (let symmetric = (op_ignore_local (mp_opts p) \<and> addr_is_private (ap_addr (an_remote a)));
                u1 = SetDst now (an_remote a) (mp_udp p);
                u2 = (if symmetric then SetSymmetric True u1 else u1);
                es = (if op_ignore_preanswer (mp_opts p) then [StopDiscarding] else []) @ [OpenSession (an_crypto a)]
            in if \<not> sess_ok then (p\<lparr>mp_udp := u2\<rparr>, es, Some ''session'')
               else (let u3 = (if symmetric then u2 else SetDst now (an_remote a) u2);
                         p1 = p\<lparr>mp_udp := u3, mp_conf := Some a, mp_sess := True\<rparr>;
                         es1 = es @ [StartRtpLoop]
                     in if \<not> write_ok then (p1, es1, Some ''write stream'')
                        else (p1\<lparr>mp_out_rtp := True, mp_dtmf_rtp := (mp_dtmf_rtp p1 \<or> an_dtmf a \<noteq> 0),
                                 mp_dtmf_audio := (mp_dtmf_audio p1 \<or> an_dtmf a \<noteq> 0 \<and> op_dtmf_audio (mp_opts p)),
                                 mp_audio_out := Some ''rtp'', mp_hnd := True\<rparr>,
                              es1 @ close_opt (mp_audio_out p1), None))))"

text \<open>
  \<open>WriteAudioTo\<close>: the processor of the configuration wraps the writer, the previous writer is closed.
  \<open>None\<close> is the panic before \<open>SetConfig\<close> has stored a configuration.
\<close>

definition WriteAudioTo ::
  "(string \<Rightarrow> string) \<Rightarrow> string \<Rightarrow> media_port \<Rightarrow> (media_port \<times> port_effect list) option" where
  "WriteAudioTo processor w p = (case mp_conf p of
       None \<Rightarrow> None
     | Some a \<Rightarrow> Some (p\<lparr>mp_audio_in := Some (if an_processor a then processor w else w)\<rparr>,
                      close_opt (mp_audio_in p)))"

definition VideoEnabled :: "media_port option \<Rightarrow> bool" where
  "VideoEnabled p = (case p of None \<Rightarrow> False | Some p \<Rightarrow> mp_video_udp p \<noteq> None)"

definition SetVideoConfig ::
  "bool \<Rightarrow> nanos \<Rightarrow> video_conf option \<Rightarrow> media_port \<Rightarrow> media_port \<times> port_effect list \<times> string option" where
  "SetVideoConfig write_ok now v p = (case (mp_video_udp p, v) of
       (Some u, Some v) \<Rightarrow>
         (if mp_closed p then (p, [], Some ''media is already closed'')
          else (let u1 = SetDst now (vc_remote v) u;
                    u2 = (if op_ignore_local (mp_opts p) \<and> addr_is_private (ap_addr (vc_remote v))
                          then SetSymmetric True u1 else u1);
                    p1 = p\<lparr>mp_video_udp := Some u2, mp_video_conf := Some v, mp_video_sess := True\<rparr>
                in if \<not> write_ok then (p1, [], Some ''write stream'') else (p1, [StartVideoLoop], None)))
     | _ \<Rightarrow> (p, [], None))"

definition EnableVideoOut :: "bool \<Rightarrow> media_port \<Rightarrow> media_port" where
  "EnableVideoOut on p = (if mp_video_udp p = None then p else p\<lparr>mp_video_enabled := on\<rparr>)"

text \<open>\<open>RequestVideoPLI\<close>: the RTCP packet and the address it is sent to.\<close>

definition ssrc_bytes :: "u32 \<Rightarrow> u8 list" where
  "ssrc_bytes w = [ucast (drop_bit 24 w), ucast (drop_bit 16 w), ucast (drop_bit 8 w), ucast w]"

definition pli_packet :: "u32 \<Rightarrow> u8 list" where
  "pli_packet ssrc = [0x81, 0xce, 0x00, 0x02, 0x00, 0x00, 0x00, 0x00] @ ssrc_bytes ssrc"

definition rtcp_addr :: "addr_port \<Rightarrow> addr_port" where
  "rtcp_addr a = a\<lparr>ap_port := ap_port a + 1\<rparr>"

definition RequestVideoPLI :: "media_port \<Rightarrow> port_effect list" where
  "RequestVideoPLI p = (case mp_video_conf p of
       None \<Rightarrow> []
     | Some v \<Rightarrow>
         [Rtcp (rtcp_addr (case Option.bind (mp_video_udp p) GetSrc of Some a \<Rightarrow> a | None \<Rightarrow> vc_remote v))
            (pli_packet (mp_video_ssrc p))])"

text \<open>
  \<open>videoRTPLoop\<close>: for each accepted stream its SSRC and whether a keyframe callback is registered then.
  The periodic keyframe requests start with the first stream, with the callback or with plain RTCP.
\<close>

fun videoRTPLoop :: "bool \<Rightarrow> (u32 \<times> bool) list \<Rightarrow> media_port \<Rightarrow> media_port \<times> port_effect list" where
  "videoRTPLoop pliStarted [] p = (p, [])"
| "videoRTPLoop pliStarted ((ssrc, callback) # rs) p =
     (let (p1, es) = videoRTPLoop True rs (p\<lparr>mp_video_ssrc := ssrc\<rparr>) in
      (p1, (if pliStarted then [] else [StartPliLoop callback]) @ [StartVideoRead ssrc] @ es))"

text \<open>\<open>WriteDTMF\<close>: which of the two outputs, tones and telephone events, get the digits.\<close>

definition WriteDTMF :: "u32 \<Rightarrow> string \<Rightarrow> media_port \<Rightarrow> port_effect list" where
  "WriteDTMF rtp_ts digits p =
     (if digits = [] then []
      else (let tones = (mp_dtmf_audio p \<and> op_dtmf_audio (mp_opts p)) in
            if \<not> mp_dtmf_rtp p \<and> \<not> tones then []
            else [WriteTones tones (mp_dtmf_rtp p) (if mp_out_rtp p then rtp_ts else 0) digits]))"

definition HandleDTMF :: "bool \<Rightarrow> media_port \<Rightarrow> media_port" where
  "HandleDTMF on p = p\<lparr>mp_dtmf_in := on\<rparr>"

text \<open>\<open>dtmfHandler\<close>: an event is passed on if it decodes and a handler is set.\<close>

definition dtmfHandler :: "'ev option \<Rightarrow> media_port \<Rightarrow> 'ev list" where
  "dtmfHandler decoded p = (if mp_dtmf_in p then (case decoded of Some ev \<Rightarrow> [ev] | None \<Rightarrow> []) else [])"

section \<open>Rates\<close>

record port_rates =
  pr_last_time :: "nanos option"
  pr_last_in :: u64
  pr_last_out :: u64
  pr_rx :: real
  pr_tx :: real

definition rate_of :: "u64 \<Rightarrow> u64 \<Rightarrow> nanos \<Rightarrow> real" where
  "rate_of cur prev dt = real (unat (cur - prev)) / (real_of_int dt / real_of_int second)"

definition PortStats_Update :: "nanos \<Rightarrow> u64 \<Rightarrow> u64 \<Rightarrow> port_rates \<Rightarrow> port_rates" where
  "PortStats_Update t cur_in cur_out s =
     (let dt = (case pr_last_time s of None \<Rightarrow> 0 | Some l \<Rightarrow> t - l);
          s1 = (if dt > 0 then s\<lparr>pr_rx := rate_of cur_in (pr_last_in s) dt,
                                 pr_tx := rate_of cur_out (pr_last_out s) dt\<rparr> else s)
      in s1\<lparr>pr_last_time := Some t, pr_last_in := cur_in, pr_last_out := cur_out\<rparr>)"

text \<open>\<open>ratePPM\<close>: the deviation from the expected rate in parts per million.\<close>

definition ratePPM :: "real \<Rightarrow> int \<Rightarrow> real" where
  "ratePPM rate expected =
     (if expected \<le> 0 then 0
      else (rate - real_of_int expected) / real_of_int expected * 1000000)"


section \<open>Facts\<close>

interpretation port_close: close_once Port_Close mp_closed
  by unfold_locales (simp_all add: Port_Close_def)

lemma known_valid: "ap_valid a \<Longrightarrow> known (Some a) = Some a"
  by (simp add: known_def)

lemma SetDst_dst [simp]: "uc_dst (SetDst now a c) = (if ap_valid a then Some a else uc_dst c)"
  by (auto simp: SetDst_def Let_def split: option.splits)

lemma note_src_simps [simp]:
  "uc_dst (note_src now a c) = uc_dst c" "uc_symmetric (note_src now a c) = uc_symmetric c"
  "uc_src (note_src now a c) = Some a"
  by (auto simp: note_src_def Let_def split: option.splits)

text \<open>
  A change of the source that is also logged is counted twice, unlike a change of the destination.
\<close>

lemma src_change_counted_twice:
  assumes "known (uc_src c) = Some b" "b \<noteq> a" "now - uc_src_print c > srcChangePrintInterval"
  shows "uc_src_changes (note_src now a c) = uc_src_changes c + 2"
  using assms by (simp add: note_src_def Let_def)

lemma timeout_round_deadline:
  assumes "to_start s = Some start" "0 < to_general s"
  shows "timeout_round now s =
    (if timeout_deadline start s \<le> now then Fire
     else SleepFor (min (timeout_deadline start s - now) (to_general s)))"
  using assms by (simp add: timeout_round_def Let_def)

lemma timeout_quiet_fires:
  assumes "to_start s = Some start" and g: "0 < to_general s"
  shows "list_all (\<lambda>l. 0 \<le> l \<and> l \<le> latest) lates \<Longrightarrow> 0 \<le> latest \<Longrightarrow> now \<le> timeout_deadline start s + latest
    \<Longrightarrow> timeout_deadline start s - now \<le> int (length lates) * to_general s
    \<Longrightarrow> \<exists>t. timeout_quiet lates now s = Some t \<and> max now (timeout_deadline start s) \<le> t
          \<and> t \<le> timeout_deadline start s + latest"
proof (induction lates arbitrary: now)
  case Nil
  then show ?case by (simp add: timeout_round_deadline [OF assms])
next
  case (Cons late lates)
  let ?d = "timeout_deadline start s"
  show ?case
  proof (cases "?d \<le> now")
    case True
    with Cons.prems(3) show ?thesis by (simp add: timeout_round_deadline [OF assms])
  next
    case False
    let ?now = "now + min (?d - now) (to_general s) + late"
    have "?now \<le> ?d + latest" using Cons.prems(1) by auto
    moreover have "?d - ?now \<le> int (length lates) * to_general s"
    proof (cases "?d - now \<le> to_general s")
      case True
      have "0 \<le> int (length lates) * to_general s" using g by simp
      with True Cons.prems(1) show ?thesis by simp
    qed (use Cons.prems(1,4) in \<open>simp add: algebra_simps\<close>)
    ultimately obtain t where "timeout_quiet lates ?now s = Some t" "max ?now ?d \<le> t" "t \<le> ?d + latest"
      using Cons.IH [of ?now] Cons.prems(1,2) by auto
    with False Cons.prems(1) g show ?thesis by (simp add: timeout_round_deadline [OF assms])
  qed
qed

text \<open>The periodic requests of a port start once, and the request carries the last stream's SSRC.\<close>

definition is_pli_start :: "port_effect \<Rightarrow> bool" where
  "is_pli_start e = (case e of StartPliLoop c \<Rightarrow> True | _ \<Rightarrow> False)"

lemma videoRTPLoop_pli_once:
  "count_by is_pli_start (snd (videoRTPLoop b rs p)) = (if b \<or> rs = [] then 0 else 1)"
  by (induction b rs p rule: videoRTPLoop.induct) (auto simp: is_pli_start_def split: prod.splits)

lemma videoRTPLoop_ssrc:
  "mp_video_ssrc (fst (videoRTPLoop b rs p)) = (if rs = [] then mp_video_ssrc p else fst (last rs))"
  by (induction b rs p rule: videoRTPLoop.induct) (auto split: prod.splits)

definition unaccounted :: "port_stats \<Rightarrow> u64" where
  "unaccounted s = ps_packets s - (ps_ignored s + ps_failed s + ps_input s)"

lemma rtpReadLoop_accounts: "unaccounted (fst (rtpReadLoop mtu es errs s)) = unaccounted s"
  by (induction mtu es errs s rule: rtpReadLoop.induct)
    (simp_all add: unaccounted_def count_packet_def Let_def algebra_simps)

text \<open>The loop is killed only by fifty refusals in a row.\<close>

lemma rtpReadLoop_survives:
  "list_all (\<lambda>e. case e of ReadPacket n h ok \<Rightarrow> ok \<or> \<not> h | _ \<Rightarrow> False) es
    \<Longrightarrow> \<not> snd (rtpReadLoop mtu es errs s)"
  by (induction mtu es errs s rule: rtpReadLoop.induct) (auto simp: Let_def)

definition ssrc_of_bytes :: "u8 list \<Rightarrow> u32" where
  "ssrc_of_bytes bs = fold (\<lambda>b w. push_bit 8 w OR ucast b) bs 0"

lemma videoRTPLoop_conf [simp]:
  "mp_video_conf (fst (videoRTPLoop b rs p)) = mp_video_conf p"
  "mp_video_udp (fst (videoRTPLoop b rs p)) = mp_video_udp p"
  by (induction b rs p rule: videoRTPLoop.induct) (auto split: prod.splits)

lemma pli_packet_ssrc:
  "length (pli_packet ssrc) = 12" "ssrc_of_bytes (drop 8 (pli_packet ssrc)) = ssrc"
proof -
  have "ssrc_of_bytes (ssrc_bytes ssrc) = ssrc"
  proof (rule bit_word_eqI)
    fix n
    assume "n < LENGTH(32)"
    then show "bit (ssrc_of_bytes (ssrc_bytes ssrc)) n = bit ssrc n"
      by (cases "n < 8"; cases "n < 16"; cases "n < 24")
        (auto simp: ssrc_of_bytes_def ssrc_bytes_def bit_simps)
  qed
  then show "length (pli_packet ssrc) = 12" "ssrc_of_bytes (drop 8 (pli_packet ssrc)) = ssrc"
    by (simp_all add: pli_packet_def ssrc_bytes_def)
qed

section \<open>Properties\<close>

text \<open>
  Symmetric media: once a packet has been read from a valid address, packets are written to that
  address; a packet from an invalid address (a failed read), or without symmetric media, leaves the
  destination alone.
\<close>
theorem symmetric_follows_source:
  "udp_Write (udp_Read now a c) = (if uc_symmetric c \<and> ap_valid a then Some a else udp_Write c)"
  by (auto simp: udp_Write_def udp_Read_def Let_def known_def split: option.splits if_splits)

text \<open>
  C27. The media timeout calls back in a quiet period, and in time. When the loop looks at the clock before the
  deadline, the callback comes at the deadline or after it, by no more than the time a timer is late: the start
  plus the initial timeout if no packet ever came, the last packet plus the general timeout otherwise. The
  number of sleeps is at most the time left over the general timeout, rounded up.
\<close>
theorem media_timeout_fires:
  assumes "to_start s = Some start" and "0 < to_general s" and "list_all (\<lambda>l. 0 \<le> l \<and> l \<le> latest) lates" and "0 \<le> latest"
    and "deadline = (case to_last_packet s of None \<Rightarrow> start + to_initial s | Some t \<Rightarrow> t + to_general s)"
    and "now \<le> deadline" and "deadline - now \<le> int (length lates) * to_general s"
  shows "case timeout_quiet lates now s of None \<Rightarrow> False | Some t \<Rightarrow> deadline \<le> t \<and> t \<le> deadline + latest"
proof -
  have d: "deadline = timeout_deadline start s" using assms(5) by (simp add: timeout_deadline_def)
  have "now \<le> timeout_deadline start s + latest" using assms(4,6) d by simp
  from timeout_quiet_fires [OF assms(1-4) this] assms(7) show ?thesis unfolding d by auto
qed

theorem media_timeout_fires_witness:
  "case timeout_quiet [1, 2, 0] 5 \<lparr>to_start = Some 0, to_initial = 40, to_general = 15, to_last_packet = None\<rparr> of
     None \<Rightarrow> False | Some t \<Rightarrow> 40 \<le> t \<and> t \<le> 40 + 2"
  using media_timeout_fires [where s = "\<lparr>to_start = Some 0, to_initial = 40, to_general = 15, to_last_packet = None\<rparr>"
      and start = 0 and latest = 2 and lates = "[1, 2, 0]" and deadline = 40 and now = 5]
  by (simp del: timeout_quiet.simps)

text \<open>
  Every RTP packet read is accounted for once: whatever is read, the packets counted are those
  ignored, those refused by the handler and those taken, together.
\<close>
theorem rtp_packets_accounted:
  "let s = fst (rtpReadLoop mtu es 0
      \<lparr>ps_streams = 1, ps_packets = 0, ps_ignored = 0, ps_failed = 0, ps_input = 0\<rparr>)
   in ps_packets s = ps_ignored s + ps_failed s + ps_input s"
  using rtpReadLoop_accounts [of mtu es 0
      "\<lparr>ps_streams = 1, ps_packets = 0, ps_ignored = 0, ps_failed = 0, ps_input = 0\<rparr>"]
  by (simp add: unaccounted_def Let_def)

text \<open>
  A media port is torn down once, however often it is closed, and a closed port takes no audio or
  video configuration and starts no loop.
\<close>
theorem port_closed_once:
  "run Port_Close (u # us) p = Port_Close u p
   \<and> (let q = fst (Port_Close u p) in
        fst (snd (Port_SetConfig sok wok now a q)) = [] \<and> snd (snd (Port_SetConfig sok wok now a q)) \<noteq> None
        \<and> fst (snd (SetVideoConfig wok now v q)) = [] \<and> fst (SetVideoConfig wok now v q) = q)"
proof
  show "run Port_Close (u # us) p = Port_Close u p" by (rule port_close.close_run_first)
  show "let q = fst (Port_Close u p) in
      fst (snd (Port_SetConfig sok wok now a q)) = [] \<and> snd (snd (Port_SetConfig sok wok now a q)) \<noteq> None
      \<and> fst (snd (SetVideoConfig wok now v q)) = [] \<and> fst (SetVideoConfig wok now v q) = q"
    using port_close.close_closes [of u p]
    by (auto simp: Port_SetConfig_def SetVideoConfig_def Let_def split: option.splits)
qed

text \<open>
  A keyframe request goes out exactly when video is configured, as one 12-byte RTCP packet to the
  port after the media source (the negotiated address before any packet came), and its last four bytes
  are the SSRC of the stream accepted last, most significant byte first.
\<close>
theorem pli_carries_ssrc:
  "let q = fst (videoRTPLoop b (rs @ [(ssrc, cb)]) p) in
   list_all (\<lambda>e. case e of
       Rtcp a bs \<Rightarrow> length bs = 12 \<and> ssrc_of_bytes (drop 8 bs) = ssrc
         \<and> ap_port a = 1 + ap_port (case Option.bind (mp_video_udp p) GetSrc of
                                       Some s \<Rightarrow> s | None \<Rightarrow> vc_remote (the (mp_video_conf p)))
     | _ \<Rightarrow> False) (RequestVideoPLI q)
   \<and> length (RequestVideoPLI q) = (if mp_video_conf p = None then 0 else 1)"
  by (auto simp: RequestVideoPLI_def videoRTPLoop_ssrc pli_packet_ssrc rtcp_addr_def Let_def add.commute
      split: option.split)

end
