(* ===== verification/Signal_Logger.thy ===== *)
theory Signal_Logger
  imports Media_Stats
begin

text \<open>
  \<open>pkg/sip/signal_logger.go\<close>: a PCM writer that decides from the level of each frame whether there is
  a signal, with hysteresis and a hangover, and logs the changes. Levels in dBFS are real numbers here;
  the code computes them in floating point. A \<open>time.Time\<close> that was never set is \<open>None\<close>: the time since
  is then the largest duration.
\<close>

section \<open>State and options\<close>

record signal_logger =
  sg_hangover :: nanos
  sg_noise :: real
  sg_enter :: real
  sg_exit :: real
  sg_last_signal :: "nanos option"
  sg_is_signal :: bool
  sg_frames :: u64
  sg_changes :: u64

definition minDBFS :: real where
  "minDBFS = - 100"

datatype signal_option =
    WithNoiseFloor real | WithHangoverDuration nanos | WithEnterVoiceOffsetDB real
  | WithExitVoiceOffsetDB real

fun apply_option :: "signal_option \<Rightarrow> signal_logger \<Rightarrow> signal_logger option" where
  "apply_option (WithNoiseFloor f) s = (if f < minDBFS then None else Some (s\<lparr>sg_noise := f\<rparr>))"
| "apply_option (WithHangoverDuration d) s = (if d \<le> 0 then None else Some (s\<lparr>sg_hangover := d\<rparr>))"
| "apply_option (WithEnterVoiceOffsetDB db) s = (if db \<le> 0 then None else Some (s\<lparr>sg_enter := db\<rparr>))"
| "apply_option (WithExitVoiceOffsetDB db) s = (if db \<le> 0 then None else Some (s\<lparr>sg_exit := db\<rparr>))"

fun apply_options :: "signal_option list \<Rightarrow> signal_logger \<Rightarrow> signal_logger option" where
  "apply_options [] s = Some s"
| "apply_options (p # ps) s = Option.bind (apply_option p s) (apply_options ps)"

definition default_logger :: signal_logger where
  "default_logger = \<lparr>sg_hangover = 1 * second, sg_noise = - 50, sg_enter = 10, sg_exit = 5,
     sg_last_signal = None, sg_is_signal = False, sg_frames = 0, sg_changes = 0\<rparr>"

text \<open>\<open>NewSignalLogger\<close>; \<open>None\<close> is the error, with which the writer is left unwrapped.\<close>

definition NewSignalLogger :: "signal_option list \<Rightarrow> signal_logger option" where
  "NewSignalLogger opts = apply_options opts default_logger"

section \<open>The level of a frame\<close>

definition sum_squares :: "pcm_frame \<Rightarrow> int" where
  "sum_squares sample = sum_list (map (\<lambda>v. sint v * sint v) sample)"

definition rmsToDBFS :: "pcm_frame \<Rightarrow> real \<Rightarrow> real" where
  "rmsToDBFS sample floor_db =
     (if sample = [] then floor_db
      else (let meanSq = real_of_int (sum_squares sample) / real (length sample);
                refSq = 32767 * 32767 in
            if meanSq \<le> 0 then floor_db
            else (let db = 10 * log 10 (meanSq / refSq) in
                  if db < floor_db then floor_db else db)))"

section \<open>Writing a frame\<close>

datatype signal_change = SignalChanged bool u64 real

definition signal_note ::
  "nanos \<Rightarrow> real \<Rightarrow> signal_logger \<Rightarrow> signal_logger \<times> signal_change list" where
  "signal_note now db s =
     (let aboveEnter = (db > sg_noise s + sg_enter s);
          belowExit = (db < sg_noise s + sg_exit s);
          s1 = (if aboveEnter then s\<lparr>sg_last_signal := Some now\<rparr> else s);
          s2 = s1\<lparr>sg_frames := sg_frames s1 + 1\<rparr>
      in if sg_frames s2 \<le> 10 then (s2\<lparr>sg_is_signal := aboveEnter\<rparr>, [])
         else if aboveEnter \<and> \<not> sg_is_signal s2
         then (s2\<lparr>sg_is_signal := True, sg_changes := sg_changes s2 + 1\<rparr>,
               [SignalChanged True (sg_changes s2 + 1) db])
         else if belowExit \<and> sg_is_signal s2
         then (if (case sg_last_signal s2 of None \<Rightarrow> True | Some t \<Rightarrow> now - t \<ge> sg_hangover s2)
               then (s2\<lparr>sg_is_signal := False, sg_changes := sg_changes s2 + 1\<rparr>,
                     [SignalChanged False (sg_changes s2 + 1) db])
               else (s2, []))
         else (s2, []))"

definition signalLogger ::
  "(nanos \<times> pcm_frame, 's, 'r) handler \<Rightarrow> (nanos \<times> pcm_frame, signal_logger \<times> 's, 'r) handler" where
  "signalLogger h e st =
     (let (w, s) = st;
          w1 = fst (signal_note (fst e) (rmsToDBFS (snd e) minDBFS) w);
          (s1, r) = h e s
      in ((w1, s1), r))"

text \<open>\<open>Close\<close> logs the number of changes, if any.\<close>

definition signal_close_log :: "signal_logger \<Rightarrow> u64 option" where
  "signal_close_log s = (if sg_changes s > 0 then Some (sg_changes s) else None)"

definition loud :: "signal_logger \<Rightarrow> real \<Rightarrow> bool" where
  "loud s db = (db > sg_noise s + sg_enter s)"

section \<open>Lemmas\<close>

interpretation signal_logger: transparent signalLogger
  by unfold_locales (simp_all add: signalLogger_def Let_def split_def)

lemma signal_note_config [simp]:
  "sg_noise (fst (signal_note now db s)) = sg_noise s" "sg_enter (fst (signal_note now db s)) = sg_enter s"
  "sg_exit (fst (signal_note now db s)) = sg_exit s" "sg_hangover (fst (signal_note now db s)) = sg_hangover s"
  "sg_frames (fst (signal_note now db s)) = sg_frames s + 1"
  by (simp_all add: signal_note_def Let_def split: option.split)

lemma signal_note_last:
  "sg_last_signal (fst (signal_note now db s)) = (if loud s db then Some now else sg_last_signal s)"
  by (simp add: signal_note_def Let_def loud_def split: option.split)

definition listen :: "(nanos \<times> real) list \<Rightarrow> signal_logger \<Rightarrow> signal_logger \<times> signal_change list" where
  "listen fs s = run (\<lambda>(t, db). signal_note t db) fs s"

lemma listen_simps [simp]:
  "listen [] s = (s, [])"
  "listen ((t, db) # fs) s = (let r = signal_note t db s; r' = listen fs (fst r) in (fst r', snd r @ snd r'))"
  by (simp_all add: listen_def)

text \<open>The last loud frame is remembered when times do not run backwards.\<close>

lemma listen_last_signal:
  "sorted (map fst fs) \<Longrightarrow> (t, db) \<in> set fs \<Longrightarrow> loud s db
    \<Longrightarrow> \<exists>l. sg_last_signal (fst (listen fs s)) = Some l \<and> t \<le> l"
proof (induction fs arbitrary: s t db)
  case Nil
  then show ?case by simp
next
  case (Cons f fs)
  obtain t1 db1 where f: "f = (t1, db1)" by (cases f)
  let ?s = "fst (signal_note t1 db1 s)"
  have same: "loud ?s = loud s" by (simp add: loud_def fun_eq_iff)
  show ?case
  proof (cases "(t, db) \<in> set fs")
    case True
    with Cons.IH [OF _ True, of ?s] Cons.prems f same show ?thesis by (simp add: Let_def)
  next
    case False
    with Cons.prems f have now: "t1 = t" "db1 = db" "loud s db1" by auto
    show ?thesis
    proof (cases "\<exists>(t2, db2) \<in> set fs. loud s db2")
      case True
      then obtain t2 db2 where later: "(t2, db2) \<in> set fs" "loud s db2" by auto
      obtain l where "sg_last_signal (fst (listen fs ?s)) = Some l" "t2 \<le> l"
        using Cons.IH [OF _ later(1), of ?s] Cons.prems(1) later(2) same by auto
      moreover have "t \<le> t2" using Cons.prems(1) f now later(1) by force
      ultimately show ?thesis using f by (auto simp: Let_def)
    next
      case False
      have "sg_last_signal (fst (listen fs w)) = sg_last_signal w" if "loud w = loud s" for w
        using False that
      proof (induction fs arbitrary: w)
        case (Cons g gs)
        obtain t2 db2 where g: "g = (t2, db2)" by (cases g)
        have "loud (fst (signal_note t2 db2 w)) = loud s"
          using Cons.prems(2) by (simp add: loud_def fun_eq_iff)
        with Cons g show ?case by (simp add: Let_def signal_note_last)
      qed simp
      with same f now show ?thesis by (simp add: Let_def signal_note_last)
    qed
  qed
qed

lemma listen_config [simp]:
  "sg_noise (fst (listen fs s)) = sg_noise s" "sg_enter (fst (listen fs s)) = sg_enter s"
  "sg_exit (fst (listen fs s)) = sg_exit s" "sg_hangover (fst (listen fs s)) = sg_hangover s"
  "sg_frames (fst (listen fs s)) = sg_frames s + of_nat (length fs)"
  by (induction fs arbitrary: s) (auto simp: Let_def)

lemma sum_squares_bound:
  "\<forall>v \<in> set sample. \<bar>sint v\<bar> \<le> m \<Longrightarrow> 0 \<le> m \<Longrightarrow> sum_squares sample \<le> int (length sample) * (m * m)"
proof (induction sample)
  case Nil
  show ?case by (simp add: sum_squares_def)
next
  case (Cons v sample)
  have "sint v * sint v \<le> m * m"
    using Cons.prems abs_le_square_iff [of "sint v" m] by (simp add: power2_eq_square)
  with Cons show ?case by (simp add: sum_squares_def algebra_simps)
qed

text \<open>
  The comment on \<open>rmsToDBFS\<close> promises a value of at most 0; a frame of the most negative sample is
  louder than the reference and gives a positive one.
\<close>

lemma full_scale_frame_positive: "0 < rmsToDBFS [word_of_int (- 32768)] minDBFS"
proof -
  have "sint (word_of_int (- 32768) :: i16) = - 32768"
    by (simp add: signed_of_int signed_take_bit_int_eq_self)
  then have sq: "sum_squares [word_of_int (- 32768)] = 1073741824" by (simp add: sum_squares_def)
  have "0 < log 10 (1073741824 / 1073676289 :: real)" by simp
  then have "0 < log 10 (1073741824 / 1073676289 :: real) \<and> \<not> log 10 (1073741824 / 1073676289 :: real) < - 10"
    by linarith
  then show ?thesis unfolding rmsToDBFS_def sq Let_def minDBFS_def by simp
qed

lemma signal_note_steady:
  "loud s db \<Longrightarrow> sg_exit s \<le> sg_enter s \<Longrightarrow> sg_is_signal s \<or> sg_frames s + 1 \<le> 10
    \<Longrightarrow> signal_note now db s
      = (s\<lparr>sg_last_signal := Some now, sg_frames := sg_frames s + 1, sg_is_signal := True\<rparr>, [])"
  by (auto simp: signal_note_def Let_def loud_def)

lemma fst_listen_Cons: "fst (listen ((t, db) # fs) s) = fst (listen fs (fst (signal_note t db s)))"
  by (simp add: Let_def)

definition sample_frames :: "(nanos \<times> real) list" where
  "sample_frames = [(0, - 20), (1, - 20), (2, - 20), (3, - 20), (4, - 20), (5, - 20), (6, - 20),
     (7, - 20), (8, - 20), (9, - 20), (10, - 20)]"

text \<open>A logger that was made: its hangover is positive, and no frame was written to it.\<close>

lemma apply_options_fresh:
  "apply_options ps s = Some s' \<Longrightarrow> 0 < sg_hangover s \<Longrightarrow> 0 < sg_hangover s' \<and> sg_frames s' = sg_frames s"
proof (induction ps arbitrary: s)
  case (Cons p ps)
  then obtain s1 where s1: "apply_option p s = Some s1" "apply_options ps s1 = Some s'"
    by (auto simp: bind_eq_Some_conv)
  then have "0 < sg_hangover s1 \<and> sg_frames s1 = sg_frames s"
    using Cons.prems(2) by (cases p) (auto split: if_splits)
  with Cons.IH [OF s1(2)] show ?case by simp
qed simp

lemma new_logger: "NewSignalLogger opts = Some s \<Longrightarrow> 0 < sg_hangover s \<and> sg_frames s = 0"
  using apply_options_fresh [of opts default_logger s]
  by (simp add: NewSignalLogger_def default_logger_def duration_defs)

lemma signal_ends:
  assumes "SignalChanged False n d \<in> set (snd (signal_note now db s))"
  shows "db < sg_noise s + sg_exit s" "10 < sg_frames s + 1"
    "case sg_last_signal (fst (signal_note now db s)) of None \<Rightarrow> True | Some t \<Rightarrow> t + sg_hangover s \<le> now"
  using assms by (auto simp: signal_note_def Let_def not_le split: if_splits option.splits)

lemma ten_frames: "10 < (of_nat n + 1 :: u64) \<Longrightarrow> 10 \<le> n"
proof (rule ccontr)
  assume "10 < (of_nat n + 1 :: u64)" and "\<not> 10 \<le> n"
  then have "n \<in> {0, 1, 2, 3, 4, 5, 6, 7, 8, 9}" by auto
  with \<open>10 < (of_nat n + 1 :: u64)\<close> show False by auto
qed

section \<open>Properties\<close>

text \<open>
  C31. A signal ends only after the hangover. Write any frames to a new logger, at times that do not run
  backwards. If the next frame makes it log the end of a signal, then that frame is below the exit level, at
  least ten frames came before it, and every frame above the enter level, also the one just written, lies back
  at least the hangover.
\<close>
theorem signal_ends_after_hangover:
  assumes "NewSignalLogger opts = Some s" and "sorted (map fst fs)"
    and "SignalChanged False n d \<in> set (snd (signal_note now db (fst (listen fs s))))"
  shows "db < sg_noise s + sg_exit s \<and> 10 \<le> length fs
    \<and> list_all (\<lambda>(t, e). if sg_noise s + sg_enter s < e then t + sg_hangover s \<le> now else True) (fs @ [(now, db)])"
proof -
  let ?s = "fst (listen fs s)"
  note off = signal_ends [OF assms(3)] and new = new_logger [OF assms(1)]
  have quiet: "\<not> loud ?s db" using off(3) new by (auto simp: signal_note_last)
  have "t + sg_hangover s \<le> now" if frame: "(t, e) \<in> set fs" "sg_noise s + sg_enter s < e" for t e
  proof -
    obtain l where "sg_last_signal ?s = Some l" "t \<le> l"
      using listen_last_signal [OF assms(2) frame(1), of s] frame(2) by (auto simp: loud_def)
    with off(3) quiet show ?thesis by (simp add: signal_note_last)
  qed
  moreover have "10 \<le> length fs" using ten_frames [of "length fs"] off(2) new by simp
  ultimately show ?thesis using off(1) quiet by (auto simp: list_all_iff loud_def)
qed

theorem signal_ends_after_hangover_witness:
  "snd (signal_note 2000000000 (- 60) (fst (listen sample_frames default_logger))) = [SignalChanged False 1 (- 60)]
   \<and> list_all (\<lambda>(t, e). if - 40 < e then t + second \<le> 2000000000 else True) sample_frames"
proof -
  have listened: "fst (listen sample_frames default_logger)
      = default_logger\<lparr>sg_last_signal := Some 10, sg_frames := 11, sg_is_signal := True\<rparr>"
    by (simp add: sample_frames_def default_logger_def fst_listen_Cons signal_note_steady loud_def
        del: listen_simps(2))
  have ends: "snd (signal_note 2000000000 (- 60) (fst (listen sample_frames default_logger))) = [SignalChanged False 1 (- 60)]"
    unfolding listened by (simp add: default_logger_def signal_note_def duration_defs)
  have levels: "sg_hangover default_logger = second" "sg_noise default_logger + sg_enter default_logger = - 40"
    by (simp_all add: default_logger_def)
  have "sorted (map fst sample_frames)" "NewSignalLogger [] = Some default_logger"
    by (simp_all add: sample_frames_def NewSignalLogger_def)
  show ?thesis
    using signal_ends_after_hangover [OF \<open>NewSignalLogger [] = Some default_logger\<close> \<open>sorted (map fst sample_frames)\<close>,
        of 1 "- 60" 2000000000 "- 60"] ends
    unfolding levels by simp
qed

text \<open>
  The level of a frame is never below the floor, and it is at most 0 dBFS as long as no sample is
  the most negative 16-bit value.
\<close>
theorem rms_level_range:
  assumes "\<forall>v \<in> set sample. sint v \<noteq> - 32768"
  shows "minDBFS \<le> rmsToDBFS sample minDBFS \<and> rmsToDBFS sample minDBFS \<le> 0"
proof -
  let ?mean = "real_of_int (sum_squares sample) / real (length sample)"
  have small: "\<bar>sint v\<bar> \<le> 32767" if "v \<in> set sample" for v
    using assms that sint_ge [of v] sint_lt [of v] by fastforce
  have "?mean / (32767 * 32767) \<le> 1" if "sample \<noteq> []"
  proof -
    have "real_of_int (sum_squares sample) \<le> real_of_int (int (length sample) * (32767 * 32767))"
      using sum_squares_bound [of sample 32767] small by (intro of_int_le_iff [THEN iffD2]) simp
    with that show ?thesis by (simp add: field_simps)
  qed
  then have "10 * log 10 (?mean / (32767 * 32767)) \<le> 0" if "sample \<noteq> []" "0 < ?mean"
    using that by simp
  then show ?thesis by (auto simp: rmsToDBFS_def minDBFS_def Let_def not_le)
qed

theorem rms_level_range_witness: "rmsToDBFS [1000, 2000] minDBFS \<le> 0"
  using rms_level_range [of "[1000, 2000]"] by simp

end
