(* ===== verification/Service_Config.thy ===== *)
theory Service_Config
  imports Sip_Types Media_Stats
begin

text \<open>
  Start-up configuration: the defaults of \<open>pkg/config/config.go\<close>, the addresses of
  \<open>pkg/sip/config.go\<close>, the TLS settings of \<open>pkg/sip/tls.go\<close>, the codec settings of
  \<open>pkg/sip/media_codecs.go\<close>, the host name and interval checks of \<open>pkg/sip/service.go\<close>, and the
  log of \<open>pkg/sip/signaling_timestamps.go\<close>.

  What the host answers (STUN, interfaces, address parsing, the TLS library's suites) is a parameter.
\<close>

section \<open>Defaults\<close>

record video_settings =
  vs_enabled :: bool
  vs_width :: int
  vs_height :: int
  vs_fps :: int
  vs_bitrate :: int
  vs_keyframe :: nanos

record tls_settings =
  ts_port :: int
  ts_listen :: int
  ts_certs :: "(string \<times> string) list"
  ts_min :: string
  ts_max :: string
  ts_suites :: "string list"
  ts_alpn :: "string list option"

record svc_config =
  cf_node_id :: string
  cf_sip_port :: int
  cf_sip_listen :: int
  cf_tls :: "tls_settings option"
  cf_rtp_start :: int
  cf_rtp_end :: int
  cf_max_cpu :: real
  cf_video :: video_settings
  cf_use_external_ip :: bool
  cf_local_net :: string
  cf_nat_ip :: string
  cf_media_use_external_ip :: bool
  cf_media_nat_ip :: string
  cf_media_timeout :: nanos
  cf_media_timeout_initial :: nanos
  cf_hostname :: string
  cf_ringing_interval :: nanos

definition VideoConfig_init :: "video_settings \<Rightarrow> video_settings" where
  "VideoConfig_init c =
     c\<lparr>vs_width := (if vs_width c \<le> 0 then 1280 else vs_width c),
       vs_height := (if vs_height c \<le> 0 then 720 else vs_height c),
       vs_fps := (if vs_fps c \<le> 0 then 30 else vs_fps c),
       vs_bitrate := (if vs_bitrate c \<le> 0 then 2000 else vs_bitrate c),
       vs_keyframe := (if vs_keyframe c \<le> 0 then 2 * second else vs_keyframe c)\<rparr>"

definition init_tls :: "tls_settings \<Rightarrow> tls_settings" where
  "init_tls t =
     (let t1 = (if ts_port t = 0 then t\<lparr>ts_port := 5061\<rparr> else t) in
      if ts_listen t1 = 0 then t1\<lparr>ts_listen := ts_port t1\<rparr> else t1)"

text \<open>\<open>Init\<close>: \<open>node\<close> is the fresh node id, \<open>logger\<close> the error of the logger, if any.\<close>

definition init_defaults :: "string \<Rightarrow> svc_config \<Rightarrow> svc_config" where
  "init_defaults node c =
     (let port = (if cf_sip_port c = 0 then 5060 else cf_sip_port c) in
      c\<lparr>cf_node_id := node, cf_sip_port := port,
        cf_sip_listen := (if cf_sip_listen c = 0 then port else cf_sip_listen c),
        cf_tls := map_option init_tls (cf_tls c),
        cf_rtp_start := (if cf_rtp_start c = 0 then 10000 else cf_rtp_start c),
        cf_rtp_end := (if cf_rtp_end c = 0 then 20000 else cf_rtp_end c),
        cf_max_cpu := (if cf_max_cpu c \<le> 0 \<or> cf_max_cpu c > 1 then 9 / 10 else cf_max_cpu c),
        cf_video := (if vs_enabled (cf_video c) then VideoConfig_init (cf_video c) else cf_video c)\<rparr>)"

definition Config_Init :: "string \<Rightarrow> string option \<Rightarrow> svc_config \<Rightarrow> svc_config \<times> string option" where
  "Config_Init node logger c =
     (let c' = init_defaults node c in
      (c', case logger of
             Some e \<Rightarrow> Some e
           | None \<Rightarrow>
               if cf_use_external_ip c' \<and> cf_nat_ip c' \<noteq> []
               then Some ''use_external_ip and nat_1_to_1_ip can not both be set''
               else if cf_media_use_external_ip c' \<and> cf_media_nat_ip c' \<noteq> []
               then Some ''media_use_external_ip and media_nat_1_to_1_ip can not both be set''
               else None))"

text \<open>The checks of \<open>NewService\<close> on time limits; the defaults of the limits are the code's.\<close>

definition normalize_timeouts :: "nanos \<Rightarrow> nanos \<Rightarrow> svc_config \<Rightarrow> svc_config" where
  "normalize_timeouts def_timeout def_initial c =
     (let c1 = (if cf_media_timeout c \<le> 0 then c\<lparr>cf_media_timeout := def_timeout\<rparr> else c);
          c2 = (if cf_media_timeout_initial c1 \<le> 0 then c1\<lparr>cf_media_timeout_initial := def_initial\<rparr> else c1)
      in if cf_ringing_interval c2 < 1 * second \<or> cf_ringing_interval c2 > 60 * second
         then c2\<lparr>cf_ringing_interval := 1 * second\<rparr> else c2)"

text \<open>The host name: the placeholder becomes the signaling address with dashes.\<close>

fun replace_all :: "string \<Rightarrow> string \<Rightarrow> string \<Rightarrow> string" where
  "replace_all p r [] = []"
| "replace_all p r (x # xs) =
     (if p \<noteq> [] \<and> take (length p) (x # xs) = p then r @ replace_all p r (drop (length p - 1) xs)
      else x # replace_all p r xs)"

definition dashed :: "string \<Rightarrow> string" where
  "dashed ip = concat (map (\<lambda>c. if c = CHR ''.'' \<or> c = CHR '':'' then ''-''
                                else if c = CHR ''['' \<or> c = CHR '']'' then [] else [c]) ip)"

definition service_hostname :: "string \<Rightarrow> string \<Rightarrow> string option" where
  "service_hostname host ip =
     (let h = (if contains host ''${IP}'' then replace_all ''${IP}'' (dashed ip) host else host) in
      if contains_any h ''$%{}[]:/| '' then None else Some h)"

section \<open>Addresses\<close>

record host_env =
  he_stun :: "nat \<Rightarrow> string + string"
  he_parse_addr :: "string \<Rightarrow> string + addr"
  he_interfaces :: "string + (addr list option) list"
  he_parse_prefix :: "string \<Rightarrow> string + (addr \<Rightarrow> bool)"
  he_loopback :: "addr \<Rightarrow> bool"

record service_config =
  sc_signaling :: addr
  sc_signaling_local :: addr
  sc_media :: addr

text \<open>\<open>getPublicIP\<close>: three attempts, the first answer is parsed.\<close>

fun public_ip_from :: "host_env \<Rightarrow> nat \<Rightarrow> nat \<Rightarrow> string + addr" where
  "public_ip_from env i 0 = Inl ''could not resolve external IP''"
| "public_ip_from env i (Suc n) = (case he_stun env i of
       Inr ip \<Rightarrow> he_parse_addr env ip
     | Inl e \<Rightarrow> public_ip_from env (Suc i) n)"

definition getPublicIP :: "host_env \<Rightarrow> string + addr" where
  "getPublicIP env = public_ip_from env 0 3"

text \<open>
  \<open>getLocalIP\<close>: an interface whose addresses cannot be read is skipped (\<open>None\<close>); the first address
  that is IPv4, not a loopback and in the configured network wins.
\<close>

definition local_candidate :: "host_env \<Rightarrow> (addr \<Rightarrow> bool) option \<Rightarrow> addr \<Rightarrow> bool" where
  "local_candidate env netw a =
     ((case a of IPv4 w \<Rightarrow> True | _ \<Rightarrow> False) \<and> \<not> he_loopback env a
      \<and> (case netw of None \<Rightarrow> True | Some p \<Rightarrow> p a))"

definition getLocalIP :: "host_env \<Rightarrow> string \<Rightarrow> string + addr" where
  "getLocalIP env localNet = (case he_interfaces env of
       Inl e \<Rightarrow> Inl e
     | Inr ifaces \<Rightarrow>
         (case (if localNet = [] then Inr None
                else (case he_parse_prefix env localNet of Inl e \<Rightarrow> Inl e | Inr p \<Rightarrow> Inr (Some p))) of
            Inl e \<Rightarrow> Inl e
          | Inr netw \<Rightarrow>
              (case filter (local_candidate env netw)
                      (concat (map (\<lambda>i. case i of None \<Rightarrow> [] | Some as \<Rightarrow> as) ifaces)) of
                 [] \<Rightarrow> Inl ''no local interface found''
               | a # _ \<Rightarrow> Inr a)))"

definition signaling_ips :: "host_env \<Rightarrow> svc_config \<Rightarrow> string + addr \<times> addr" where
  "signaling_ips env c =
     (if cf_use_external_ip c then
        (case getPublicIP env of
           Inl e \<Rightarrow> Inl e
         | Inr a \<Rightarrow> (case getLocalIP env (cf_local_net c) of Inl e \<Rightarrow> Inl e | Inr l \<Rightarrow> Inr (a, l)))
      else if cf_nat_ip c \<noteq> [] then
        (case he_parse_addr env (cf_nat_ip c) of Inl e \<Rightarrow> Inl e | Inr a \<Rightarrow> Inr (a, a))
      else (case getLocalIP env (cf_local_net c) of Inl e \<Rightarrow> Inl e | Inr a \<Rightarrow> Inr (a, a)))"

definition GetServiceConfig :: "host_env \<Rightarrow> svc_config \<Rightarrow> string + service_config" where
  "GetServiceConfig env c = (case signaling_ips env c of
       Inl e \<Rightarrow> Inl e
     | Inr (a, l) \<Rightarrow>
         (case (if cf_media_use_external_ip c \<and> \<not> cf_use_external_ip c then getPublicIP env
                else if cf_media_nat_ip c \<noteq> [] \<and> cf_media_nat_ip c \<noteq> cf_nat_ip c
                then he_parse_addr env (cf_media_nat_ip c)
                else Inr a) of
            Inl e \<Rightarrow> Inl e
          | Inr m \<Rightarrow> Inr \<lparr>sc_signaling = a, sc_signaling_local = l, sc_media = m\<rparr>))"

section \<open>TLS\<close>

definition tlsALPNProtocols :: "string list option \<Rightarrow> string list" where
  "tlsALPNProtocols alpn = (case alpn of None \<Rightarrow> [''sip''] | Some ps \<Rightarrow> ps)"

text \<open>The suites in order, or the error, and the names the log warned about on the way.\<close>

fun parse_suites :: "(string \<rightharpoonup> u16) \<Rightarrow> (string \<rightharpoonup> u16) \<Rightarrow> string list \<Rightarrow> (string + u16 list) \<times> string list" where
  "parse_suites secure insecure [] = (Inr [], [])"
| "parse_suites secure insecure (x # xs) =
     (case secure x of
        Some i \<Rightarrow> (case parse_suites secure insecure xs of (r, ws) \<Rightarrow> (map_sum id ((#) i) r, ws))
      | None \<Rightarrow> (case insecure x of
            Some i \<Rightarrow> (case parse_suites secure insecure xs of (r, ws) \<Rightarrow> (map_sum id ((#) i) r, x # ws))
          | None \<Rightarrow> (Inl (''unknown cipher suite: '' @ x), [])))"

definition parseCipherSuites ::
  "(string \<rightharpoonup> u16) \<Rightarrow> (string \<rightharpoonup> u16) \<Rightarrow> string list \<Rightarrow> (string + u16 list option) \<times> string list" where
  "parseCipherSuites secure insecure suites =
     (if suites = [] then (Inr None, [])
      else (case parse_suites secure insecure suites of (r, ws) \<Rightarrow> (map_sum id Some r, ws)))"

text \<open>TLS 1.0 to 1.3 are 0x0301 to 0x0304.\<close>

definition parseTLSVersion :: "string \<Rightarrow> string + u16" where
  "parseTLSVersion v =
     (if v = [] then Inr 0
      else if v = ''tls1.0'' \<or> v = ''TLS1.0'' then Inr 0x0301
      else if v = ''tls1.1'' \<or> v = ''TLS1.1'' then Inr 0x0302
      else if v = ''tls1.2'' \<or> v = ''TLS1.2'' then Inr 0x0303
      else if v = ''tls1.3'' \<or> v = ''TLS1.3'' then Inr 0x0304
      else Inl (''unknown TLS version: '' @ v))"

section \<open>Codecs of a call\<close>

record codec_names =
  co_alaw :: string
  co_ulaw :: string
  co_g722 :: string
  co_amrwb :: string

text \<open>
  \<open>codecSet\<close>: the base set (the defaults, or empty) and the names it then enables, in order.
\<close>

datatype codec_base = EmptySet | DefaultSet

definition codec_key :: "codec_names \<Rightarrow> string \<times> u32 \<Rightarrow> string + string" where
  "codec_key n c =
     (let (name, rate) = c in
      if name = [] then Inl ''no codec name specified''
      else (case (if rate \<noteq> 0 then Some (uint rate)
                  else if name = co_alaw n \<or> name = co_ulaw n \<or> name = co_g722 n then Some 8000
                  else if name = co_amrwb n then Some 16000 else None) of
              None \<Rightarrow> Inl ''sample rate not specified for codec''
            | Some r \<Rightarrow> Inr (name @ ''/'' @ itoa r)))"

fun codec_keys :: "codec_names \<Rightarrow> (string \<times> u32) list \<Rightarrow> string + string list" where
  "codec_keys n [] = Inr []"
| "codec_keys n (c # cs) = (case codec_key n c of
       Inl e \<Rightarrow> Inl e
     | Inr k \<Rightarrow> (case codec_keys n cs of Inl e \<Rightarrow> Inl e | Inr ks \<Rightarrow> Inr (k # ks)))"

definition codecSet :: "codec_names \<Rightarrow> bool \<Rightarrow> (string \<times> u32) list \<Rightarrow> string + codec_base \<times> string list" where
  "codecSet n only cs =
     (if only \<and> cs = [] then Inl ''no codecs specified''
      else (case codec_keys n cs of
              Inl e \<Rightarrow> Inl e
            | Inr ks \<Rightarrow> Inr (if only then EmptySet else DefaultSet, ks)))"

record media_conf =
  me_encryption :: encryption
  me_base :: codec_base
  me_enabled :: "string list"
  me_timeout :: nanos

text \<open>\<open>livekit.SIPMediaConfig\<close>; a missing one is the empty one.\<close>

record media_request =
  mr_encryption :: lk_encryption
  mr_only_listed :: bool
  mr_codecs :: "(string \<times> u32) list"
  mr_timeout :: "nanos option"

definition newMediaConfig ::
  "codec_names \<Rightarrow> lk_encryption \<Rightarrow> bool \<Rightarrow> (string \<times> u32) list \<Rightarrow> nanos option \<Rightarrow> nanos \<Rightarrow> string + media_conf" where
  "newMediaConfig n enc only cs timeout default_timeout = (case sdpEncryption enc of
       Inl e \<Rightarrow> Inl e
     | Inr en \<Rightarrow>
         (case codecSet n only cs of
            Inl e \<Rightarrow> Inl e
          | Inr (b, ks) \<Rightarrow>
              Inr \<lparr>me_encryption = en, me_base = b, me_enabled = ks,
                   me_timeout = (case timeout of
                       Some t \<Rightarrow> if t > 0 then t else default_timeout
                     | None \<Rightarrow> default_timeout)\<rparr>))"

section \<open>Signaling timestamps\<close>

record signaling_timestamps =
  st_invite :: "nanos option"
  st_trying :: "nanos option"
  st_ringing :: "nanos option"
  st_accept :: "nanos option"
  st_api :: "nanos option"
  st_ack :: "nanos option"

definition ms_between :: "string \<Rightarrow> nanos option \<Rightarrow> nanos option \<Rightarrow> (string \<times> int) list" where
  "ms_between name from till = (case (from, till) of
       (Some a, Some b) \<Rightarrow> [(name, (case go_div (b - a) millisecond of Some m \<Rightarrow> m | None \<Rightarrow> 0))]
     | _ \<Rightarrow> [])"

definition timestamps_log :: "signaling_timestamps \<Rightarrow> (string \<times> int) list option" where
  "timestamps_log ts = (case st_invite ts of
       None \<Rightarrow> None
     | Some t0 \<Rightarrow> Some
         (ms_between ''apiToInviteMs'' (st_api ts) (st_invite ts)
          @ ms_between ''inviteToTryingMs'' (st_invite ts) (st_trying ts)
          @ ms_between ''inviteToRingingMs'' (st_invite ts) (st_ringing ts)
          @ ms_between ''inviteToAcceptMs'' (st_invite ts) (st_accept ts)
          @ ms_between ''acceptToAckMs'' (st_accept ts) (st_ack ts)
          @ ms_between ''apiToAckMs'' (st_api ts) (st_ack ts)))"


section \<open>Facts\<close>

lemma VideoConfig_init_idem [simp]: "VideoConfig_init (VideoConfig_init v) = VideoConfig_init v"
  by (simp add: VideoConfig_init_def duration_defs)

lemma VideoConfig_init_enabled [simp]: "vs_enabled (VideoConfig_init v) = vs_enabled v"
  by (simp add: VideoConfig_init_def)

lemma init_tls_idem [simp]: "init_tls (init_tls t) = init_tls t"
  by (simp add: init_tls_def Let_def)

definition known_suite :: "(string \<rightharpoonup> u16) \<Rightarrow> (string \<rightharpoonup> u16) \<Rightarrow> string \<Rightarrow> bool" where
  "known_suite sec ins x = (x \<in> dom sec \<union> dom ins)"

lemma known_suite_iff: "known_suite sec ins x = (sec x \<noteq> None \<or> ins x \<noteq> None)"
  by (auto simp: known_suite_def)

lemma parse_suites_spec:
  "snd (parse_suites sec ins xs) = filter (\<lambda>x. sec x = None) (takeWhile (known_suite sec ins) xs)"
  "list_all (known_suite sec ins) xs \<Longrightarrow> \<exists>ids. fst (parse_suites sec ins xs) = Inr ids
      \<and> map Some ids = map (\<lambda>x. case sec x of Some i \<Rightarrow> Some i | None \<Rightarrow> ins x) xs"
  "\<not> list_all (known_suite sec ins) xs \<Longrightarrow> \<exists>e. fst (parse_suites sec ins xs) = Inl e"
  by (induction xs) (auto simp: known_suite_iff split_def split: option.splits)

definition video_usable :: "video_settings \<Rightarrow> bool" where
  "video_usable v = (vs_enabled v \<longrightarrow> 0 < vs_width v \<and> 0 < vs_height v \<and> 0 < vs_fps v
     \<and> 0 < vs_bitrate v \<and> 0 < vs_keyframe v)"

definition config_usable :: "svc_config \<Rightarrow> bool" where
  "config_usable c = (cf_sip_port c \<noteq> 0 \<and> cf_sip_listen c \<noteq> 0
     \<and> pred_option (\<lambda>t. ts_port t \<noteq> 0 \<and> ts_listen t \<noteq> 0) (cf_tls c)
     \<and> cf_rtp_start c \<noteq> 0 \<and> cf_rtp_end c \<noteq> 0 \<and> 0 < cf_max_cpu c \<and> cf_max_cpu c \<le> 1
     \<and> video_usable (cf_video c))"

section \<open>Properties\<close>

text \<open>
  \<open>Init\<close> leaves a usable configuration: every port it defaults is set, the CPU limit lies in
  (0, 1], enabled video has positive parameters; and running it again changes nothing but the node id.
\<close>
theorem config_init_usable:
  "config_usable (init_defaults node c)
   \<and> init_defaults node2 (init_defaults node c) = (init_defaults node c)\<lparr>cf_node_id := node2\<rparr>"
proof
  have tls: "pred_option (\<lambda>t. ts_port t \<noteq> 0 \<and> ts_listen t \<noteq> 0) (map_option init_tls t)" for t
    by (cases t) (simp_all add: init_tls_def Let_def)
  show "config_usable (init_defaults node c)"
    by (simp add: init_defaults_def Let_def config_usable_def tls video_usable_def VideoConfig_init_def
        duration_defs)
  have idem: "map_option init_tls (map_option init_tls t) = map_option init_tls t" for t
    by (cases t) simp_all
  show "init_defaults node2 (init_defaults node c) = (init_defaults node c)\<lparr>cf_node_id := node2\<rparr>"
    by (simp add: init_defaults_def Let_def idem del: option.map_comp)
qed

text \<open>
  C32. A list of cipher suite names is accepted exactly when every name is known to the TLS library;
  the ids then keep the configured order, and the log warns about exactly the insecure names. An unknown name
  ends the parsing: the log has then warned about the insecure names before it.
\<close>
theorem cipher_suites_parsed:
  "case parse_suites sec ins xs of (r, ws) \<Rightarrow>
     (\<exists>ids. r = Inr ids
        \<and> map Some ids = map (\<lambda>x. case sec x of Some i \<Rightarrow> Some i | None \<Rightarrow> ins x) xs
        \<and> ws = filter (\<lambda>x. sec x = None) xs)
     = list_all (known_suite sec ins) xs
     \<and> ws = filter (\<lambda>x. sec x = None) (takeWhile (known_suite sec ins) xs)"
proof (cases "list_all (known_suite sec ins) xs")
  case True
  then have all: "takeWhile (known_suite sec ins) xs = xs" by (simp add: list_all_iff)
  show ?thesis
    using True parse_suites_spec [where sec = sec and ins = ins and xs = xs] unfolding split_def all by auto
next
  case False
  with parse_suites_spec [where sec = sec and ins = ins and xs = xs] show ?thesis by (auto simp: split_def)
qed

end
