(* ===== verification/Call_Monitor.thy ===== *)
theory Call_Monitor
  imports Termination_Class
begin

text \<open>
  \<open>pkg/stats/monitor.go\<close>: the metrics of a call and the health of the node. A metric update is an
  effect; Prometheus itself is not modelled. Labels are the label pairs in any order.
\<close>

section \<open>Metrics of a call\<close>

type_synonym labels = "string \<rightharpoonup> string"

datatype metric =
    InviteReqRaw | InviteReqM labels | InviteAcceptM labels | InviteErrM labels
  | CallsActiveInc labels | CallsActiveDec labels | CallsTerminated labels
  | CallsTerminationFailures labels | PacketsRTP labels
  | TransfersTotal string | TransfersActiveInc string | TransfersActiveDec string
  | TransfersSucceeded string | TransfersFailed string string
  | SdpSize string nat

record call_monitor =
  cm_dir :: string
  cm_from :: string
  cm_to :: string
  cm_started :: bool
  cm_terminated :: bool

datatype call_dir = Inbound | Outbound

definition dir_string :: "call_dir \<Rightarrow> string" where
  "dir_string d = (case d of Inbound \<Rightarrow> ''in'' | Outbound \<Rightarrow> ''out'')"

definition NewCall :: "call_dir \<Rightarrow> string \<Rightarrow> string \<Rightarrow> call_monitor" where
  "NewCall d from to = \<lparr>cm_dir = dir_string d, cm_from = from, cm_to = to,
     cm_started = False, cm_terminated = False\<rparr>"

definition labelsShort :: "labels \<Rightarrow> call_monitor \<Rightarrow> labels" where
  "labelsShort l c = [''dir'' \<mapsto> cm_dir c] ++ l"

definition labels_full :: "labels \<Rightarrow> call_monitor \<Rightarrow> labels" where
  "labels_full l c = [''dir'' \<mapsto> cm_dir c, ''to'' \<mapsto> cm_to c] ++ l"

definition result_string :: "termination_result \<Rightarrow> string" where
  "result_string r = (case r of
       ResultSuccess \<Rightarrow> ''success''
     | ResultServerError \<Rightarrow> ''server_error''
     | ResultClientError \<Rightarrow> ''client_error'')"

datatype mon_op =
    MInviteReq | MInviteAccept | MInviteErrorShort termination_class | MInviteError string
  | MCallStart | MCallEnd | MCallTerminate termination_class | MCallTerminationFailure
  | MPacketSend string | MPacketRecv string

definition CallStart :: "call_monitor \<Rightarrow> call_monitor \<times> metric list" where
  "CallStart c =
     (if cm_started c then (c, [])
      else (c\<lparr>cm_started := True\<rparr>, [CallsActiveInc (labels_full Map.empty c)]))"

definition CallEnd :: "call_monitor \<Rightarrow> call_monitor \<times> metric list" where
  "CallEnd c =
     (if \<not> cm_started c then (c, [])
      else (c\<lparr>cm_started := False\<rparr>, [CallsActiveDec (labels_full Map.empty c)]))"

definition CallTerminate :: "termination_class \<Rightarrow> call_monitor \<Rightarrow> call_monitor \<times> metric list" where
  "CallTerminate t c =
     (if cm_terminated c then (c, [])
      else (c\<lparr>cm_terminated := True\<rparr>,
            [CallsTerminated (labels_full [''result'' \<mapsto> result_string (t_result t),
                                           ''reason'' \<mapsto> t_reason t] c)]))"

definition InviteErrorShort :: "termination_class \<Rightarrow> call_monitor \<Rightarrow> metric list" where
  "InviteErrorShort t c =
     [InviteErrM (labelsShort [''reason'' \<mapsto> t_reason t, ''to'' \<mapsto> ''unknown''] c),
      CallsTerminated (labelsShort [''to'' \<mapsto> ''unknown'', ''result'' \<mapsto> result_string (t_result t),
                                    ''reason'' \<mapsto> t_reason t] c)]"

fun mon_step :: "mon_op \<Rightarrow> call_monitor \<Rightarrow> call_monitor \<times> metric list" where
  "mon_step MInviteReq c = (c, [InviteReqM (labelsShort Map.empty c)])"
| "mon_step MInviteAccept c = (c, [InviteAcceptM (labels_full Map.empty c)])"
| "mon_step (MInviteErrorShort t) c = (c, InviteErrorShort t c)"
| "mon_step (MInviteError r) c = (c, [InviteErrM (labels_full [''reason'' \<mapsto> r] c)])"
| "mon_step MCallStart c = CallStart c"
| "mon_step MCallEnd c = CallEnd c"
| "mon_step (MCallTerminate t) c = CallTerminate t c"
| "mon_step MCallTerminationFailure c = (c, [CallsTerminationFailures (labelsShort Map.empty c)])"
| "mon_step (MPacketSend p) c = (c, [PacketsRTP (labels_full [''op'' \<mapsto> ''send'', ''payload'' \<mapsto> p] c)])"
| "mon_step (MPacketRecv p) c = (c, [PacketsRTP (labels_full [''op'' \<mapsto> ''recv'', ''payload'' \<mapsto> p] c)])"

section \<open>Transfers and health of the node\<close>

definition TransferStarted :: "call_dir \<Rightarrow> metric list" where
  "TransferStarted d = [TransfersTotal (dir_string d), TransfersActiveInc (dir_string d)]"

definition TransferSucceeded :: "call_dir \<Rightarrow> metric list" where
  "TransferSucceeded d = [TransfersSucceeded (dir_string d), TransfersActiveDec (dir_string d)]"

definition TransferFailed :: "call_dir \<Rightarrow> string \<Rightarrow> bool \<Rightarrow> metric list" where
  "TransferFailed d reason changeActive =
     TransfersFailed (dir_string d) reason
     # (if changeActive then [TransfersActiveDec (dir_string d)] else [])"

definition SDPSize :: "nat \<Rightarrow> bool \<Rightarrow> metric list" where
  "SDPSize sz isOffer = [SdpSize (if isOffer then ''offer'' else ''answer'') sz]"

datatype health_status = HealthOK | HealthNotStarted | HealthStopped | HealthUnderLoad | HealthDisabled

record node_monitor =
  nm_started :: bool
  nm_shutdown :: bool
  nm_idle :: real
  nm_cpus :: real
  nm_max :: real

definition Health :: "node_monitor \<Rightarrow> health_status" where
  "Health m =
     (if \<not> nm_started m then HealthNotStarted
      else if nm_shutdown m then HealthStopped
      else if nm_idle m < nm_cpus m * (1 - nm_max m) then HealthUnderLoad
      else HealthOK)"

section \<open>Facts\<close>

definition is_active_inc :: "metric \<Rightarrow> bool" where
  "is_active_inc m = (case m of CallsActiveInc l \<Rightarrow> True | _ \<Rightarrow> False)"

definition is_active_dec :: "metric \<Rightarrow> bool" where
  "is_active_dec m = (case m of CallsActiveDec l \<Rightarrow> True | _ \<Rightarrow> False)"

lemmas mon_ops = CallStart_def CallEnd_def CallTerminate_def InviteErrorShort_def is_active_inc_def
  is_active_dec_def

interpretation call_terminate: close_once CallTerminate cm_terminated
  by unfold_locales (simp_all add: CallTerminate_def)

lemma mon_step_gauge:
  "count_by is_active_inc (snd (mon_step op c)) + (if cm_started c then 1 else 0)
    = count_by is_active_dec (snd (mon_step op c)) + (if cm_started (fst (mon_step op c)) then 1 else 0)"
  by (cases op) (simp_all add: mon_ops)

lemma mon_run_gauge:
  "count_by is_active_inc (snd (run mon_step ops c)) + (if cm_started c then 1 else 0)
    = count_by is_active_dec (snd (run mon_step ops c))
      + (if cm_started (fst (run mon_step ops c)) then 1 else 0)"
proof (induction ops arbitrary: c)
  case Nil
  show ?case by simp
next
  case (Cons op ops)
  from Cons.IH [of "fst (mon_step op c)"] mon_step_gauge [of op c] show ?case
    by (simp add: Let_def)
qed

section \<open>Properties\<close>

text \<open>
  C33. The active-calls gauge of one call is never negative and never above one: over any sequence of
  monitor operations on a new call, the increments exceed the decrements by one while the call is
  started, and equal them otherwise.
\<close>
theorem calls_active_gauge:
  "count_by is_active_inc (snd (run mon_step ops (NewCall d from to)))
    = count_by is_active_dec (snd (run mon_step ops (NewCall d from to)))
      + (if cm_started (fst (run mon_step ops (NewCall d from to))) then 1 else 0)"
  using mon_run_gauge [of ops "NewCall d from to"] by (simp add: NewCall_def)

text \<open>
  A call is counted as terminated once, with the class of the first termination, however often it
  is terminated.
\<close>
theorem terminated_once:
  "run CallTerminate (t # ts) (NewCall d from to) = CallTerminate t (NewCall d from to)
   \<and> count_by (\<lambda>m. case m of CallsTerminated l \<Rightarrow> l ''reason'' = Some (t_reason t) | _ \<Rightarrow> False)
       (snd (run CallTerminate (t # ts) (NewCall d from to))) = 1"
  unfolding call_terminate.close_run_first
  by (simp add: CallTerminate_def NewCall_def labels_full_def)

end
