(* ===== verification/Transfer_Service.thy ===== *)
theory Transfer_Service
  imports Call_Monitor "HOL-Library.AList"
begin

text \<open>
  \<open>pkg/sip/service.go\<close>: the tables of live calls, the transfer of a call on request, the active calls
  and the affinity of the node.

  A transfer request that finds one pending for its call waits for that one. The pending transfers are
  a step relation: requests, the goroutine that runs a transfer, and the waiting requests interleave.
  An object of \<open>pendingTransfers\<close> is known by its index, so that a request can wait for an object that
  has left the table. Floats are real numbers.
\<close>

section \<open>Tables of live calls\<close>

text \<open>
  The client's \<open>activeCalls\<close> and the server's \<open>byLocalTag\<close>: the list is the order in which Go iterates.
  Of a call: its id (\<open>None\<close> for a call without a dialog), and of its provider whether it is internal
  and whether it prevents transfers.
\<close>

record call_ref =
  cr_id :: "string option"
  cr_provider :: "(bool \<times> bool) option"

type_synonym call_table = "(string \<times> call_ref) list"

record call_tables =
  ct_out :: call_table
  ct_in :: call_table

definition getActiveCall :: "call_tables \<Rightarrow> string \<Rightarrow> call_ref option" where
  "getActiveCall t = map_of (ct_out t)"

definition byLocalTag :: "call_tables \<Rightarrow> string \<Rightarrow> call_ref option" where
  "byLocalTag t = map_of (ct_in t)"

definition add_outbound :: "string \<Rightarrow> call_ref \<Rightarrow> call_tables \<Rightarrow> call_tables" where
  "add_outbound tag c t = t\<lparr>ct_out := AList.update tag c (ct_out t)\<rparr>"

definition drop_outbound :: "string \<Rightarrow> call_tables \<Rightarrow> call_tables" where
  "drop_outbound tag t = t\<lparr>ct_out := AList.delete tag (ct_out t)\<rparr>"

definition add_inbound :: "string \<Rightarrow> call_ref \<Rightarrow> call_tables \<Rightarrow> call_tables" where
  "add_inbound tag c t = t\<lparr>ct_in := AList.update tag c (ct_in t)\<rparr>"

definition drop_inbound :: "string \<Rightarrow> call_tables \<Rightarrow> call_tables" where
  "drop_inbound tag t = t\<lparr>ct_in := AList.delete tag (ct_in t)\<rparr>"

interpretation outbound_calls: registry getActiveCall add_outbound drop_outbound
  by unfold_locales
    (simp_all add: getActiveCall_def add_outbound_def drop_outbound_def update_conv' delete_conv')

interpretation inbound_calls: registry byLocalTag add_inbound drop_inbound
  by unfold_locales
    (simp_all add: byLocalTag_def add_inbound_def drop_inbound_def update_conv' delete_conv')

section \<open>Active calls and affinity\<close>

fun sample_values :: "int \<Rightarrow> 'v list \<Rightarrow> ('v \<Rightarrow> string) \<Rightarrow> string list" where
  "sample_values limit [] sample = []"
| "sample_values limit (v # vs) sample =
     (if sample v \<noteq> [] then [sample v] else [])
     @ (if limit - 1 \<le> 0 then [] else sample_values (limit - 1) vs sample)"

definition sampleMap :: "int \<Rightarrow> ('k \<times> 'v) list \<Rightarrow> ('v \<Rightarrow> string) \<Rightarrow> string list \<times> nat" where
  "sampleMap limit m sample = (sample_values limit (map snd m) sample, length m)"

record active_calls =
  ac_inbound :: nat
  ac_outbound :: nat
  ac_samples :: "string list"

definition call_sample :: "call_ref \<Rightarrow> string" where
  "call_sample c = (case cr_id c of None \<Rightarrow> ''<nil>'' | Some i \<Rightarrow> i)"

definition ActiveCalls :: "call_tables \<Rightarrow> active_calls" where
  "ActiveCalls t =
     (let (out_ids, outs) = sampleMap 5 (ct_out t) call_sample;
          (in_ids, ins) = sampleMap 5 (ct_in t) call_sample
      in \<lparr>ac_inbound = ins, ac_outbound = outs, ac_samples = out_ids @ in_ids\<rparr>)"

definition ActiveCalls_Total :: "active_calls \<Rightarrow> nat" where
  "ActiveCalls_Total st = ac_outbound st + ac_inbound st"

definition CreateSIPParticipantAffinity :: "string list \<Rightarrow> int \<Rightarrow> string \<Rightarrow> call_tables \<Rightarrow> real" where
  "CreateSIPParticipantAffinity trunk_ids max_calls trunk t =
     (if trunk_ids \<noteq> [] \<and> trunk \<notin> set trunk_ids then 0
      else (let active = real (ActiveCalls_Total (ActiveCalls t)); limit = real_of_int max_calls in
            if limit > 0 then (if active \<ge> limit then 0 else 1 - active / limit)
            else 1 / (1 + active)))"

section \<open>Errors of a transfer\<close>

text \<open>What \<open>errors.As\<close> and \<open>errors.Is\<close> find in an error; \<open>None\<close> is a nil error.\<close>

record failure =
  fl_status :: "sip_status option"
  fl_psrpc :: "psrpc_code option"
  fl_canceled :: bool
  fl_deadline :: bool

definition psrpc_failure :: "psrpc_code \<Rightarrow> failure" where
  "psrpc_failure c = \<lparr>fl_status = None, fl_psrpc = Some c, fl_canceled = False, fl_deadline = False\<rparr>"

definition psrpc_reason :: "psrpc_code \<Rightarrow> string" where
  "psrpc_reason c = (case c of
       PsNotFound \<Rightarrow> ''not_found''
     | PsCanceled \<Rightarrow> ''canceled''
     | PsDeadlineExceeded \<Rightarrow> ''timeout''
     | PsInvalidArgument \<Rightarrow> ''invalid_argument''
     | PsInternal \<Rightarrow> ''internal_error''
     | _ \<Rightarrow> ''psrpc_error'')"

text \<open>\<open>short_name\<close> is the protobuf name of a SIP status code without its prefix.\<close>

definition extractTransferErrorReason :: "(int \<Rightarrow> string) \<Rightarrow> failure option \<Rightarrow> string" where
  "extractTransferErrorReason short_name e = (case e of
       None \<Rightarrow> ''unknown''
     | Some f \<Rightarrow>
         (case fl_status f of
            Some st \<Rightarrow> to_lower (short_name (st_code st))
          | None \<Rightarrow>
              (case fl_psrpc f of
                 Some c \<Rightarrow> psrpc_reason c
               | None \<Rightarrow> if fl_canceled f then ''canceled''
                         else if fl_deadline f then ''timeout'' else ''other'')))"

definition validateCallProvider :: "call_ref \<Rightarrow> failure option" where
  "validateCallProvider c = (case cr_provider c of
       Some (True, True) \<Rightarrow> Some (psrpc_failure PsUnimplemented)
     | _ \<Rightarrow> None)"

definition checkInternalProviderRequest :: "call_tables \<Rightarrow> string \<Rightarrow> failure option" where
  "checkInternalProviderRequest t call = (case getActiveCall t call of
       Some c \<Rightarrow> validateCallProvider c
     | None \<Rightarrow> (case byLocalTag t call of
           Some c \<Rightarrow> validateCallProvider c
         | None \<Rightarrow> Some (psrpc_failure PsNotFound)))"

section \<open>Running a transfer\<close>

text \<open>\<open>xfer\<close> is \<open>transferCall\<close> of the call: its direction, the call, its error.\<close>

definition count_transfer ::
  "(int \<Rightarrow> string) \<Rightarrow> call_dir \<Rightarrow> failure option \<Rightarrow> metric list \<times> failure option" where
  "count_transfer short_name d e =
     (TransferStarted d @ (case e of
          None \<Rightarrow> TransferSucceeded d
        | Some f \<Rightarrow> TransferFailed d (extractTransferErrorReason short_name e) True), e)"

definition processParticipantTransfer ::
  "(int \<Rightarrow> string) \<Rightarrow> (call_dir \<Rightarrow> call_ref \<Rightarrow> failure option) \<Rightarrow> string \<Rightarrow> call_tables
    \<Rightarrow> metric list \<times> failure option" where
  "processParticipantTransfer short_name xfer call t = (case getActiveCall t call of
       Some c \<Rightarrow> count_transfer short_name Outbound (xfer Outbound c)
     | None \<Rightarrow> (case byLocalTag t call of
           Some c \<Rightarrow> count_transfer short_name Inbound (xfer Inbound c)
         | None \<Rightarrow> (TransferFailed Inbound ''unknown_call'' False, Some (psrpc_failure PsNotFound))))"

section \<open>Pending transfers\<close>

text \<open>
  \<open>pt_buffer\<close> and \<open>pt_closed\<close> are the channel \<open>Done\<close>, of capacity 1. The goroutine of an object runs
  the transfer, sends its result, closes the channel, and deletes the table entry of its call.
\<close>

datatype worker_phase = Transferring | Reported | ChannelClosed | Removed

record pending_transfer =
  pt_call :: string
  pt_to :: string
  pt_buffer :: "failure option list"
  pt_closed :: bool
  pt_phase :: worker_phase

record transfer_table =
  tt_pending :: "string \<rightharpoonup> nat"
  tt_objs :: "pending_transfer list"
  tt_waiting :: "nat \<rightharpoonup> nat"

definition no_transfers :: transfer_table where
  "no_transfers = \<lparr>tt_pending = Map.empty, tt_objs = [], tt_waiting = Map.empty\<rparr>"

definition getOrCreatePendingTransfer ::
  "string \<Rightarrow> string \<Rightarrow> transfer_table \<Rightarrow> transfer_table \<times> nat \<times> bool" where
  "getOrCreatePendingTransfer call to t = (case tt_pending t call of
       Some i \<Rightarrow> (t, i, False)
     | None \<Rightarrow>
         (let i = length (tt_objs t) in
          (t\<lparr>tt_pending := (tt_pending t)(call \<mapsto> i),
             tt_objs := tt_objs t @ [\<lparr>pt_call = call, pt_to = to, pt_buffer = [], pt_closed = False,
                                      pt_phase = Transferring\<rparr>]\<rparr>, i, True)))"

definition update_obj :: "nat \<Rightarrow> (pending_transfer \<Rightarrow> pending_transfer) \<Rightarrow> transfer_table \<Rightarrow> transfer_table" where
  "update_obj i f t = t\<lparr>tt_objs := (tt_objs t)[i := f (tt_objs t ! i)]\<rparr>"

text \<open>
  \<open>transferSIPParticipant\<close> up to the wait: the answer, if it returns at once. \<open>check\<close> is the result of
  \<open>checkInternalProviderRequest\<close>, \<open>r\<close> the request.
\<close>

definition transfer_request ::
  "failure option \<Rightarrow> nat \<Rightarrow> string \<Rightarrow> string \<Rightarrow> transfer_table \<Rightarrow> transfer_table \<times> failure option" where
  "transfer_request check r call to t = (case check of
       Some e \<Rightarrow> (t, Some e)
     | None \<Rightarrow>
         (let (t1, i, isNew) = getOrCreatePendingTransfer call to t in
          if \<not> isNew \<and> pt_to (tt_objs t1 ! i) \<noteq> to then (t1, Some (psrpc_failure PsInvalidArgument))
          else (t1\<lparr>tt_waiting := (tt_waiting t1)(r \<mapsto> i)\<rparr>, None)))"

datatype transfer_event =
    Request nat string string
  | Report nat "failure option"
  | CloseDone nat
  | Delete nat
  | Answer nat nat "failure option"
  | CancelWait nat

inductive transfer_step :: "transfer_table \<Rightarrow> transfer_event \<Rightarrow> transfer_table \<Rightarrow> bool" where
  request: "tt_waiting t r = None
    \<Longrightarrow> transfer_step t (Request r call to) (fst (transfer_request check r call to t))"
| report: "i < length (tt_objs t) \<Longrightarrow> pt_phase (tt_objs t ! i) = Transferring
    \<Longrightarrow> transfer_step t (Report i e)
          (update_obj i (\<lambda>p. p\<lparr>pt_buffer := (if pt_buffer p = [] then [e] else pt_buffer p),
                               pt_phase := Reported\<rparr>) t)"
| close_done: "i < length (tt_objs t) \<Longrightarrow> pt_phase (tt_objs t ! i) = Reported
    \<Longrightarrow> transfer_step t (CloseDone i) (update_obj i (\<lambda>p. p\<lparr>pt_closed := True, pt_phase := ChannelClosed\<rparr>) t)"
| delete: "i < length (tt_objs t) \<Longrightarrow> pt_phase (tt_objs t ! i) = ChannelClosed
    \<Longrightarrow> transfer_step t (Delete i)
          ((update_obj i (\<lambda>p. p\<lparr>pt_phase := Removed\<rparr>) t)
             \<lparr>tt_pending := (tt_pending t)(pt_call (tt_objs t ! i) := None)\<rparr>)"
| receive: "tt_waiting t r = Some i \<Longrightarrow> i < length (tt_objs t) \<Longrightarrow> pt_buffer (tt_objs t ! i) = e # es
    \<Longrightarrow> transfer_step t (Answer r i e)
          ((update_obj i (\<lambda>p. p\<lparr>pt_buffer := es\<rparr>) t)\<lparr>tt_waiting := (tt_waiting t)(r := None)\<rparr>)"
| receive_closed: "tt_waiting t r = Some i \<Longrightarrow> i < length (tt_objs t) \<Longrightarrow> pt_buffer (tt_objs t ! i) = []
    \<Longrightarrow> pt_closed (tt_objs t ! i)
    \<Longrightarrow> transfer_step t (Answer r i None) (t\<lparr>tt_waiting := (tt_waiting t)(r := None)\<rparr>)"
| cancel_wait: "tt_waiting t r = Some i
    \<Longrightarrow> transfer_step t (CancelWait r) (t\<lparr>tt_waiting := (tt_waiting t)(r := None)\<rparr>)"

inductive transfer_run :: "transfer_event list \<Rightarrow> transfer_table \<Rightarrow> bool" where
  start: "transfer_run [] no_transfers"
| more: "transfer_run tr t \<Longrightarrow> transfer_step t ev t' \<Longrightarrow> transfer_run (tr @ [ev]) t'"

inductive_cases transfer_stepE: "transfer_step t ev t'"

section \<open>Invariants of the pending transfers\<close>

definition in_flight :: "transfer_table \<Rightarrow> nat \<Rightarrow> bool" where
  "in_flight t i = (i < length (tt_objs t) \<and> pt_phase (tt_objs t ! i) \<noteq> Removed)"

text \<open>The table holds exactly the objects whose goroutine has not deleted its entry.\<close>

definition table_inv :: "transfer_table \<Rightarrow> bool" where
  "table_inv t = ((\<forall>call i. tt_pending t call = Some i \<longleftrightarrow> in_flight t i \<and> pt_call (tt_objs t ! i) = call)
     \<and> (\<forall>r i. tt_waiting t r = Some i \<longrightarrow> i < length (tt_objs t)))"

lemma update_obj_simps [simp]:
  "tt_pending (update_obj i f t) = tt_pending t" "tt_waiting (update_obj i f t) = tt_waiting t"
  "length (tt_objs (update_obj i f t)) = length (tt_objs t)"
  "i < length (tt_objs t) \<Longrightarrow>
    tt_objs (update_obj i f t) ! j = (if j = i then f (tt_objs t ! i) else tt_objs t ! j)"
  by (simp_all add: update_obj_def nth_list_update)

lemma table_invD:
  "table_inv t \<Longrightarrow> tt_pending t call = Some i \<Longrightarrow> in_flight t i \<and> pt_call (tt_objs t ! i) = call"
  "table_inv t \<Longrightarrow> in_flight t i \<Longrightarrow> tt_pending t (pt_call (tt_objs t ! i)) = Some i"
  "table_inv t \<Longrightarrow> tt_waiting t r = Some i \<Longrightarrow> i < length (tt_objs t)"
  unfolding table_inv_def by blast+

lemma in_flight_update_obj:
  assumes "i < length (tt_objs t)"
    and "pt_phase (f (tt_objs t ! i)) \<noteq> Removed \<longleftrightarrow> pt_phase (tt_objs t ! i) \<noteq> Removed"
    and "pt_call (f (tt_objs t ! i)) = pt_call (tt_objs t ! i)"
  shows "in_flight (update_obj i f t) j \<longleftrightarrow> in_flight t j"
    "pt_call (tt_objs (update_obj i f t) ! j) = pt_call (tt_objs t ! j)"
  using assms by (auto simp: in_flight_def)

lemma table_inv_update_obj:
  assumes "table_inv t" "i < length (tt_objs t)"
    and "pt_phase (f (tt_objs t ! i)) \<noteq> Removed \<longleftrightarrow> pt_phase (tt_objs t ! i) \<noteq> Removed"
    and "pt_call (f (tt_objs t ! i)) = pt_call (tt_objs t ! i)"
  shows "table_inv (update_obj i f t)"
  using assms(1) unfolding table_inv_def in_flight_update_obj [OF assms(2), of f, OF assms(3,4)] by simp

lemma table_inv_waiting:
  "table_inv t \<Longrightarrow> table_inv (t\<lparr>tt_waiting := (tt_waiting t)(r := None)\<rparr>)"
  unfolding table_inv_def in_flight_def by simp

lemma table_inv_getOrCreate:
  assumes "table_inv t" "getOrCreatePendingTransfer call to t = (t1, i, isNew)"
  shows "table_inv t1 \<and> i < length (tt_objs t1)"
proof (cases "tt_pending t call")
  case (Some j)
  with assms table_invD(1) [OF assms(1) Some] show ?thesis
    by (auto simp: getOrCreatePendingTransfer_def in_flight_def)
next
  case None
  have free: "pt_call (tt_objs t ! j) \<noteq> call" if "j < length (tt_objs t)" "pt_phase (tt_objs t ! j) \<noteq> Removed" for j
    using table_invD(2) [OF assms(1), of j] that None by (auto simp: in_flight_def)
  from None assms show ?thesis
    unfolding table_inv_def getOrCreatePendingTransfer_def Let_def
    using free by (auto simp: in_flight_def nth_append less_Suc_eq split: if_splits dest!: free)
qed

lemma table_inv_request:
  assumes "table_inv t"
  shows "table_inv (fst (transfer_request check r call to t))"
proof (cases check)
  case None
  obtain t1 i isNew where g: "getOrCreatePendingTransfer call to t = (t1, i, isNew)" by (metis surj_pair)
  with table_inv_getOrCreate [OF assms g] None show ?thesis
    by (auto simp: transfer_request_def table_inv_def in_flight_def)
qed (simp add: transfer_request_def assms)

lemma table_inv_delete:
  assumes "table_inv t" "i < length (tt_objs t)" "pt_phase (tt_objs t ! i) = ChannelClosed"
  shows "table_inv ((update_obj i (\<lambda>p. p\<lparr>pt_phase := Removed\<rparr>) t)
      \<lparr>tt_pending := (tt_pending t)(pt_call (tt_objs t ! i) := None)\<rparr>)"
proof -
  have own: "tt_pending t (pt_call (tt_objs t ! i)) = Some i"
    using assms by (intro table_invD(2)) (simp_all add: in_flight_def)
  have other: "pt_call (tt_objs t ! j) \<noteq> pt_call (tt_objs t ! i)"
    if "j < length (tt_objs t)" "pt_phase (tt_objs t ! j) \<noteq> Removed" "j \<noteq> i" for j
    using table_invD(2) [OF assms(1), of j] that own by (auto simp: in_flight_def)
  show ?thesis
    using assms own unfolding table_inv_def in_flight_def by (auto dest: other)
qed

lemma table_inv_step: "transfer_step t ev t' \<Longrightarrow> table_inv t \<Longrightarrow> table_inv t'"
proof (induction rule: transfer_step.induct)
  case (receive t r i e es)
  then have "table_inv (update_obj i (\<lambda>p. p\<lparr>pt_buffer := es\<rparr>) t)"
    by (intro table_inv_update_obj) simp_all
  from table_inv_waiting [OF this, of r] show ?case by simp
qed (auto intro!: table_inv_update_obj table_inv_waiting table_inv_delete table_inv_request)

lemma table_inv_run: "transfer_run tr t \<Longrightarrow> table_inv t"
  by (induction rule: transfer_run.induct)
    (auto simp: no_transfers_def table_inv_def in_flight_def dest: table_inv_step)

section \<open>What the waiting requests are told\<close>

fun tells_error :: "nat \<Rightarrow> transfer_event \<Rightarrow> bool" where
  "tells_error i (Answer r j (Some e)) = (j = i)"
| "tells_error i ev = False"

definition told_obj :: "transfer_event list \<Rightarrow> nat \<Rightarrow> pending_transfer \<Rightarrow> bool" where
  "told_obj tr i p =
     ((pt_phase p = Transferring \<longrightarrow> pt_buffer p = [] \<and> count_by (tells_error i) tr = 0)
      \<and> (if pt_buffer p = [] then count_by (tells_error i) tr \<le> 1
         else count_by (tells_error i) tr = 0 \<and> (\<exists>e. pt_buffer p = [e] \<and> Report i e \<in> set tr)))"

definition told_inv :: "transfer_event list \<Rightarrow> transfer_table \<Rightarrow> bool" where
  "told_inv tr t =
     ((\<forall>i \<ge> length (tt_objs t). count_by (tells_error i) tr = 0)
      \<and> (\<forall>i < length (tt_objs t). told_obj tr i (tt_objs t ! i)))"

definition genuine :: "transfer_event list \<Rightarrow> bool" where
  "genuine tr = (\<forall>r i e. Answer r i (Some e) \<in> set tr \<longrightarrow> Report i (Some e) \<in> set tr)"

lemma tells_error_silent [simp]:
  "\<not> tells_error i (Request r c d)" "\<not> tells_error i (Report j e)" "\<not> tells_error i (CloseDone j)"
  "\<not> tells_error i (Delete j)" "\<not> tells_error i (CancelWait r)" "\<not> tells_error i (Answer r j None)"
  by simp_all

lemma told_invD:
  "told_inv tr t \<Longrightarrow> i < length (tt_objs t) \<Longrightarrow> told_obj tr i (tt_objs t ! i)"
  "told_inv tr t \<Longrightarrow> length (tt_objs t) \<le> i \<Longrightarrow> count_by (tells_error i) tr = 0"
  by (simp_all add: told_inv_def)

lemma told_obj_silent:
  "told_obj tr i p \<Longrightarrow> \<not> tells_error i ev \<Longrightarrow> pt_buffer q = pt_buffer p
    \<Longrightarrow> (pt_phase q = Transferring \<longrightarrow> pt_phase p = Transferring) \<Longrightarrow> told_obj (tr @ [ev]) i q"
  by (auto simp: told_obj_def split: if_splits)

lemma told_obj_report:
  "told_obj tr i p \<Longrightarrow> pt_phase p = Transferring
    \<Longrightarrow> told_obj (tr @ [Report i e]) i (p\<lparr>pt_buffer := [e], pt_phase := Reported\<rparr>)"
  by (simp add: told_obj_def)

lemma told_obj_receive:
  "told_obj tr i p \<Longrightarrow> pt_buffer p = e # es \<Longrightarrow> told_obj (tr @ [Answer r i e]) i (p\<lparr>pt_buffer := es\<rparr>)"
  by (cases e) (auto simp: told_obj_def)

lemma told_obj_buffer:
  "told_obj tr i p \<Longrightarrow> pt_phase p = Transferring \<Longrightarrow> pt_buffer p = []"
  "told_obj tr i p \<Longrightarrow> pt_buffer p = e # es \<Longrightarrow> Report i e \<in> set tr"
  by (auto simp: told_obj_def)

text \<open>An event that touches one object.\<close>

lemma told_inv_update:
  assumes "told_inv tr t" "i < length (tt_objs t)" "\<And>j. j \<noteq> i \<Longrightarrow> \<not> tells_error j ev"
    and "told_obj (tr @ [ev]) i (f (tt_objs t ! i))"
    and "tt_objs t' = tt_objs (update_obj i f t)"
  shows "told_inv (tr @ [ev]) t'"
  unfolding told_inv_def
proof (intro conjI allI impI)
  fix j
  assume "length (tt_objs t') \<le> j"
  with assms(2,3,5) told_invD(2) [OF assms(1), of j] show "count_by (tells_error j) (tr @ [ev]) = 0"
    by (cases "j = i") simp_all
next
  fix j
  assume "j < length (tt_objs t')"
  with assms(2,5) have j: "j < length (tt_objs t)" by simp
  show "told_obj (tr @ [ev]) j (tt_objs t' ! j)"
  proof (cases "j = i")
    case True
    with assms show ?thesis by simp
  next
    case False
    with told_obj_silent [OF told_invD(1) [OF assms(1) j]] assms(2,3,5) show ?thesis by simp
  qed
qed

lemma told_inv_same:
  assumes "told_inv tr t" "\<And>i. \<not> tells_error i ev" "tt_objs t' = tt_objs t"
  shows "told_inv (tr @ [ev]) t'"
  using assms told_obj_silent [OF told_invD(1) [OF assms(1)]] by (simp add: told_inv_def)

lemma told_inv_request:
  assumes "told_inv tr t"
  shows "told_inv (tr @ [Request r call to]) (fst (transfer_request check r call to t))"
proof (cases "check = None \<and> tt_pending t call = None")
  case True
  with assms told_obj_silent [OF told_invD(1) [OF assms]] show ?thesis
    by (auto simp: told_inv_def transfer_request_def getOrCreatePendingTransfer_def Let_def nth_append
        less_Suc_eq told_obj_def)
next
  case False
  then have "tt_objs (fst (transfer_request check r call to t)) = tt_objs t"
    by (auto simp: transfer_request_def getOrCreatePendingTransfer_def split: option.splits)
  then show ?thesis by (intro told_inv_same [OF assms]) simp_all
qed

lemma told_inv_step: "transfer_step t ev t' \<Longrightarrow> told_inv tr t \<Longrightarrow> told_inv (tr @ [ev]) t'"
proof (induction rule: transfer_step.induct)
  case (request t r call to check)
  then show ?case by (intro told_inv_request)
next
  case (report i t e)
  note obj = told_invD(1) [OF report.prems report.hyps(1)]
  from told_obj_report [OF obj report.hyps(2), of e] told_obj_buffer(1) [OF obj report.hyps(2)]
  show ?case by (intro told_inv_update [OF report.prems report.hyps(1) _ _ refl]) simp_all
next
  case (close_done i t)
  from told_obj_silent [OF told_invD(1) [OF close_done.prems close_done.hyps(1)]]
  show ?case by (intro told_inv_update [OF close_done.prems close_done.hyps(1) _ _ refl]) simp_all
next
  case (delete i t)
  from told_obj_silent [OF told_invD(1) [OF delete.prems delete.hyps(1)]]
  show ?case
    by (intro told_inv_update [OF delete.prems delete.hyps(1), where f = "\<lambda>p. p\<lparr>pt_phase := Removed\<rparr>"])
      simp_all
next
  case (receive t r i e es)
  from told_obj_receive [OF told_invD(1) [OF receive.prems receive.hyps(2)] receive.hyps(3)]
  have "told_obj (tr @ [Answer r i e]) i ((\<lambda>p. p\<lparr>pt_buffer := es\<rparr>) (tt_objs t ! i))" by simp
  moreover have "\<not> tells_error j (Answer r i e)" if "j \<noteq> i" for j using that by (cases e) simp_all
  ultimately show ?case by (intro told_inv_update [OF receive.prems receive.hyps(2)]) simp_all
qed (auto intro!: told_inv_same)

lemma genuine_step: "transfer_step t ev t' \<Longrightarrow> told_inv tr t \<Longrightarrow> genuine tr \<Longrightarrow> genuine (tr @ [ev])"
proof (induction rule: transfer_step.induct)
  case (receive t r i e es)
  from told_obj_buffer(2) [OF told_invD(1) [OF receive.prems(1) receive.hyps(2)] receive.hyps(3)]
    receive.prems(2)
  show ?case by (auto simp: genuine_def)
qed (auto simp: genuine_def)

lemma told_run: "transfer_run tr t \<Longrightarrow> told_inv tr t \<and> genuine tr"
proof (induction rule: transfer_run.induct)
  case start
  show ?case by (simp add: told_inv_def genuine_def no_transfers_def)
next
  case (more tr t ev t')
  with told_inv_step genuine_step show ?case by blast
qed

lemma error_told_once:
  assumes "transfer_run tr t"
  shows "count_by (tells_error i) tr \<le> 1"
  using told_run [OF assms] by (cases "i < length (tt_objs t)") (auto simp: told_inv_def told_obj_def split: if_splits)

text \<open>
  A run of two requests for one transfer that fails. The first gets the error, the second reads the
  closed channel and is told that the transfer succeeded.
\<close>

definition transfer_failed :: failure where
  "transfer_failed = psrpc_failure PsUnavailable"

definition two_requests :: "transfer_event list" where
  "two_requests =
     [Request 1 ''call'' ''sip:a@x'', Request 2 ''call'' ''sip:a@x'', Report 0 (Some transfer_failed),
      CloseDone 0, Answer 1 0 (Some transfer_failed), Answer 2 0 None]"

lemma transfer_run_request:
  "transfer_run tr t \<Longrightarrow> tt_waiting t r = None
    \<Longrightarrow> transfer_run (tr @ [Request r call to]) (fst (transfer_request None r call to t))"
  by (blast intro: transfer_run.more transfer_step.request)

lemma transfer_run_report:
  "transfer_run tr t \<Longrightarrow> i < length (tt_objs t) \<Longrightarrow> pt_phase (tt_objs t ! i) = Transferring
    \<Longrightarrow> transfer_run (tr @ [Report i e])
          (update_obj i (\<lambda>p. p\<lparr>pt_buffer := (if pt_buffer p = [] then [e] else pt_buffer p),
                               pt_phase := Reported\<rparr>) t)"
  by (blast intro: transfer_run.more transfer_step.report)

lemma two_waiting:
  "fst (transfer_request None 2 ''call'' ''sip:a@x''
      (fst (transfer_request None 1 ''call'' ''sip:a@x'' no_transfers)))
    = \<lparr>tt_pending = [''call'' \<mapsto> 0],
       tt_objs = [\<lparr>pt_call = ''call'', pt_to = ''sip:a@x'', pt_buffer = [], pt_closed = False,
                   pt_phase = Transferring\<rparr>],
       tt_waiting = [1 \<mapsto> 0, 2 \<mapsto> 0]\<rparr>"
  by (simp add: transfer_request_def getOrCreatePendingTransfer_def no_transfers_def)

lemma run_two_waiting:
  "transfer_run [Request 1 ''call'' ''sip:a@x'', Request 2 ''call'' ''sip:a@x'']
     (fst (transfer_request None 2 ''call'' ''sip:a@x''
        (fst (transfer_request None 1 ''call'' ''sip:a@x'' no_transfers))))"
  using transfer_run_request [OF transfer_run_request [OF transfer_run.start, of 1 "''call''" "''sip:a@x''"],
      of 2 "''call''" "''sip:a@x''"]
  by (simp add: transfer_request_def getOrCreatePendingTransfer_def no_transfers_def)

lemma failed_transfer_told_success: "\<exists>t. transfer_run two_requests t"
proof -
  define w where "w = fst (transfer_request None 2 ''call'' ''sip:a@x''
      (fst (transfer_request None 1 ''call'' ''sip:a@x'' no_transfers)))"
  define t3 where "t3 = update_obj 0 (\<lambda>p. p\<lparr>pt_buffer := (if pt_buffer p = [] then [Some transfer_failed]
      else pt_buffer p), pt_phase := Reported\<rparr>) w"
  define t4 where "t4 = update_obj 0 (\<lambda>p. p\<lparr>pt_closed := True, pt_phase := ChannelClosed\<rparr>) t3"
  define t5 where "t5 = (update_obj 0 (\<lambda>p. p\<lparr>pt_buffer := []\<rparr>) t4)\<lparr>tt_waiting := (tt_waiting t4)(1 := None)\<rparr>"
  note objs = w_def [unfolded two_waiting]
  have s3: "transfer_run (take 3 two_requests) t3"
    unfolding t3_def using transfer_run_report [OF run_two_waiting, folded w_def, of 0 "Some transfer_failed"]
    by (simp add: two_requests_def objs)
  moreover have "transfer_step t3 (CloseDone 0) t4"
    unfolding t4_def by (rule transfer_step.close_done) (simp_all add: t3_def objs)
  ultimately have s4: "transfer_run (take 4 two_requests) t4"
    using transfer_run.more by (fastforce simp: two_requests_def)
  moreover have "transfer_step t4 (Answer 1 0 (Some transfer_failed)) t5"
    unfolding t5_def by (rule transfer_step.receive) (simp_all add: t4_def t3_def objs)
  ultimately have s5: "transfer_run (take 5 two_requests) t5"
    using transfer_run.more by (fastforce simp: two_requests_def)
  moreover have "transfer_step t5 (Answer 2 0 None) (t5\<lparr>tt_waiting := (tt_waiting t5)(2 := None)\<rparr>)"
    by (rule transfer_step.receive_closed) (simp_all add: t5_def t4_def t3_def objs)
  ultimately have "transfer_run two_requests (t5\<lparr>tt_waiting := (tt_waiting t5)(2 := None)\<rparr>)"
    using transfer_run.more by (fastforce simp: two_requests_def)
  then show ?thesis by blast
qed

section \<open>Counting transfers\<close>

lemmas transfer_metrics = TransferStarted_def TransferSucceeded_def TransferFailed_def

definition moves_gauge :: "int \<Rightarrow> call_dir \<Rightarrow> metric \<Rightarrow> int" where
  "moves_gauge n d m = (case m of
       TransfersActiveInc x \<Rightarrow> if x = dir_string d then n + 1 else n
     | TransfersActiveDec x \<Rightarrow> if x = dir_string d then n - 1 else n
     | _ \<Rightarrow> n)"

definition transfer_gauge :: "call_dir \<Rightarrow> metric list \<Rightarrow> int" where
  "transfer_gauge d ms = foldl (\<lambda>n m. moves_gauge n d m) 0 ms"

definition is_total :: "metric \<Rightarrow> bool" where
  "is_total m = (case m of TransfersTotal x \<Rightarrow> True | _ \<Rightarrow> False)"

definition is_outcome :: "metric \<Rightarrow> bool" where
  "is_outcome m = (case m of TransfersSucceeded x \<Rightarrow> True | TransfersFailed x y \<Rightarrow> True | _ \<Rightarrow> False)"

lemma transfer_gauge_range:
  "take n (fst (processParticipantTransfer short_name xfer call t)) = ms
    \<Longrightarrow> 0 \<le> transfer_gauge d ms \<and> transfer_gauge d ms \<le> 1"
  by (cases n rule: nat.exhaust; cases "n - 1" rule: nat.exhaust; cases "n - 2" rule: nat.exhaust;
      cases "n - 3" rule: nat.exhaust)
    (auto simp: processParticipantTransfer_def count_transfer_def transfer_metrics transfer_gauge_def
      moves_gauge_def split: option.splits)

section \<open>Affinity\<close>

definition trunk_refused :: "string list \<Rightarrow> string \<Rightarrow> bool" where
  "trunk_refused trunk_ids trunk = (trunk_ids \<noteq> [] \<and> trunk \<notin> set trunk_ids)"

definition node_full :: "int \<Rightarrow> call_tables \<Rightarrow> bool" where
  "node_full max_calls t = (0 < max_calls \<and> max_calls \<le> int (length (ct_out t) + length (ct_in t)))"

lemma ActiveCalls_counts [simp]:
  "ActiveCalls_Total (ActiveCalls t) = length (ct_out t) + length (ct_in t)"
  by (simp add: ActiveCalls_def ActiveCalls_Total_def sampleMap_def)

lemma sample_values_bound: "1 \<le> limit \<Longrightarrow> int (length (sample_values limit vs sample)) \<le> limit"
  by (induction limit vs sample rule: sample_values.induct) auto

lemma length_update_ge: "length al \<le> length (AList.update k v al)"
  by (induction al) auto

definition affinity_for :: "int \<Rightarrow> nat \<Rightarrow> real" where
  "affinity_for max_calls n =
     (if 0 < max_calls then (if max_calls \<le> int n then 0 else 1 - real n / real_of_int max_calls)
      else 1 / (1 + real n))"

lemma affinity_for:
  "CreateSIPParticipantAffinity ids m trunk t =
     (if trunk_refused ids trunk then 0 else affinity_for m (length (ct_out t) + length (ct_in t)))"
proof -
  have "(real_of_int m \<le> real n) = (m \<le> int n)" for n by linarith
  then show ?thesis
    by (simp add: CreateSIPParticipantAffinity_def affinity_for_def trunk_refused_def Let_def)
qed

lemma affinity_for_range:
  "0 \<le> affinity_for m n \<and> affinity_for m n \<le> 1 \<and> (affinity_for m n = 0 \<longleftrightarrow> 0 < m \<and> m \<le> int n)"
proof -
  have "real n / real_of_int m < 1" if "0 < m" "\<not> m \<le> int n"
  proof -
    have "real n < real_of_int m" using that by linarith
    with that show ?thesis by simp
  qed
  then show ?thesis by (auto simp: affinity_for_def add_pos_nonneg)
qed

lemma affinity_for_antimono: "n \<le> k \<Longrightarrow> affinity_for m k \<le> affinity_for m n"
proof -
  assume nk: "n \<le> k"
  show ?thesis
  proof (cases "0 < m")
    case True
    with nk affinity_for_range [of m n] show ?thesis
      by (auto simp: affinity_for_def divide_right_mono)
  next
    case False
    with nk show ?thesis by (simp add: affinity_for_def frac_le)
  qed
qed

section \<open>Properties\<close>

text \<open>
  C14. Transfers of a call are single-flight: however requests, the goroutines and the waits interleave,
  a call has at most one transfer whose goroutine has not removed it, and the table holds that one.
\<close>
theorem transfer_single_flight:
  assumes "transfer_run tr t" "in_flight t i" "in_flight t j"
    and "pt_call (tt_objs t ! i) = pt_call (tt_objs t ! j)"
  shows "i = j \<and> tt_pending t (pt_call (tt_objs t ! i)) = Some i"
proof -
  note held = table_invD(2) [OF table_inv_run [OF assms(1)]]
  from held [OF assms(2)] held [OF assms(3)] show ?thesis unfolding assms(4) by (metis option.inject)
qed

theorem transfer_single_flight_witness:
  "\<exists>t. transfer_run [Request 1 ''call'' ''sip:a@x'', Request 2 ''call'' ''sip:a@x''] t
     \<and> in_flight t 0 \<and> tt_pending t (pt_call (tt_objs t ! 0)) = Some 0"
proof -
  define t where "t = fst (transfer_request None 2 ''call'' ''sip:a@x''
      (fst (transfer_request None 1 ''call'' ''sip:a@x'' no_transfers)))"
  have run: "transfer_run [Request 1 ''call'' ''sip:a@x'', Request 2 ''call'' ''sip:a@x''] t"
    unfolding t_def by (rule run_two_waiting)
  have flight: "in_flight t 0" unfolding t_def two_waiting by (simp add: in_flight_def)
  from transfer_single_flight [OF run flight flight refl] run flight show ?thesis by blast
qed

text \<open>
  An error told to a request is the one its transfer reported, and of all the requests that wait
  for one transfer exactly one is told it.
\<close>
theorem transfer_errors_genuine:
  assumes "transfer_run tr t" "Answer r i (Some e) \<in> set tr"
  shows "Report i (Some e) \<in> set tr \<and> count_by (tells_error i) tr = 1"
proof
  show "Report i (Some e) \<in> set tr" using told_run [OF assms(1)] assms(2) by (auto simp: genuine_def)
  have "tells_error i (Answer r i (Some e))" by simp
  with assms(2) have "count_by (tells_error i) tr \<noteq> 0" unfolding count_by_zero_iff by blast
  with error_told_once [OF assms(1), of i] show "count_by (tells_error i) tr = 1" by linarith
qed

theorem transfer_errors_genuine_witness:
  "Report 0 (Some transfer_failed) \<in> set two_requests \<and> count_by (tells_error 0) two_requests = 1"
proof -
  obtain t where "transfer_run two_requests t" using failed_transfer_told_success by blast
  then show ?thesis
    by (rule transfer_errors_genuine [where r = 1]) (simp add: two_requests_def)
qed

text \<open>
  The gauge of active transfers of a direction is back at its value after every transfer, is never
  below it and never more than one above it on the way; the transfer is counted as started exactly when
  its call is known, and it has exactly one outcome.
\<close>
theorem transfer_metrics_balanced:
  "let ms = fst (processParticipantTransfer short_name xfer call t) in
   transfer_gauge d ms = 0
   \<and> 0 \<le> transfer_gauge d (take n ms) \<and> transfer_gauge d (take n ms) \<le> 1
   \<and> count_by is_total ms = (if call \<in> dom (getActiveCall t) \<union> dom (byLocalTag t) then 1 else 0)
   \<and> count_by is_outcome ms = 1"
proof -
  let ?ms = "fst (processParticipantTransfer short_name xfer call t)"
  have "transfer_gauge d ?ms = 0" "count_by is_outcome ?ms = 1"
    "count_by is_total ?ms = (if call \<in> dom (getActiveCall t) \<union> dom (byLocalTag t) then 1 else 0)"
    by (auto simp: processParticipantTransfer_def count_transfer_def transfer_metrics transfer_gauge_def
        moves_gauge_def is_total_def is_outcome_def split: option.splits)
  with transfer_gauge_range [of n short_name xfer call t _ d, OF refl] show ?thesis by (simp add: Let_def)
qed

text \<open>
  The affinity of the node lies in [0, 1]; it is 0 exactly when the trunk is not one of the node's
  or the node is full; and one more inbound call never raises it.
\<close>
theorem affinity_sound:
  "let a = CreateSIPParticipantAffinity ids m trunk t in
   0 \<le> a \<and> a \<le> 1 \<and> (a = 0) = (trunk_refused ids trunk \<or> node_full m t)
   \<and> CreateSIPParticipantAffinity ids m trunk (add_inbound tag c t) \<le> a"
proof -
  have "length (ct_in t) \<le> length (ct_in (add_inbound tag c t))"
    by (simp add: add_inbound_def length_update_ge)
  moreover have "ct_out (add_inbound tag c t) = ct_out t" by (simp add: add_inbound_def)
  ultimately show ?thesis
    using affinity_for_range [of m "length (ct_out t) + length (ct_in t)"]
    by (auto simp: affinity_for Let_def node_full_def intro!: affinity_for_antimono)
qed

end
