(* ===== verification/Inbound_Server.thy ===== *)
theory Inbound_Server
  imports Inbound_Dialog Call_State Transfer_Service
begin

text \<open>
  The server side of \<open>pkg/sip/inbound.go\<close> and \<open>pkg/sip/server.go\<close>: how an INVITE is received, matched
  with existing calls, authorised and challenged, and how in-dialog requests find their call; with the
  answers of the control plane (\<open>pkg/service/psrpc.go\<close>).

  Digest authentication belongs to a library: parsing of credentials and the digest are parameters.
  The caches of the server may forget: dropping an entry is an operation. Objects that timers refer to
  (invites in progress) are known by their index. A call state is known by its number.
\<close>

section \<open>State\<close>

record challenge =
  ch_realm :: string
  ch_nonce :: string

record in_progress =
  ip_call_id :: string
  ip_challenge :: challenge
  ip_resolved :: bool

record auth_timer =
  at_obj :: nat
  at_state :: nat
  at_challenged :: nanos

record invite_count =
  cc_cseq :: u32
  cc_cseq_auth :: u32
  cc_invites :: u32
  cc_invites_auth :: u32

text \<open>Of an existing inbound call: the CSeq of its INVITE and the SDP we sent.\<close>

record sip_server =
  sv_objs :: "in_progress list"
  sv_in_progress :: "nat list"
  sv_timers :: "auth_timer list"
  sv_infos :: "string \<rightharpoonup> invite_count"
  sv_provisional :: "string \<times> string \<rightharpoonup> string"
  sv_rejected :: "string \<times> string \<rightharpoonup> int \<times> string"
  sv_calls :: "string \<rightharpoonup> u32 \<times> string"
  sv_states :: nat

definition NewServer :: sip_server where
  "NewServer = \<lparr>sv_objs = [], sv_in_progress = [], sv_timers = [], sv_infos = Map.empty,
     sv_provisional = Map.empty, sv_rejected = Map.empty, sv_calls = Map.empty, sv_states = 0\<rparr>"

record digest_creds =
  dc_user :: string
  dc_uri :: string
  dc_response :: string

text \<open>
  \<open>sv_digest\<close> takes the challenge, the method, the URI, the user and the password; \<open>None\<close> is the
  library's error. \<open>sv_dialog\<close> is the environment of the dialogs, whose \<open>de_cache_rejects\<close> tells
  whether rejections are cached.
\<close>

record server_env =
  sv_hide :: bool
  sv_parse_creds :: "string \<Rightarrow> digest_creds option"
  sv_digest :: "challenge \<Rightarrow> string \<Rightarrow> string \<Rightarrow> string \<Rightarrow> string \<Rightarrow> string option"
  sv_dialog :: dialog_env

datatype auth_result =
    AuthNotFound | AuthDrop | AuthPassword | AuthAccept | AuthQuotaExceeded | AuthNoTrunkFound

record inbound_auth =
  au_user :: string
  au_pass :: string
  au_realm :: string

record auth_info =
  ai_result :: auth_result
  ai_trunk :: string
  ai_auth :: inbound_auth

datatype server_effect =
    TxReply int string
  | TxChallenge string challenge
  | TxEnd
  | Dialog dlg_effect
  | Mon metric
  | FlushState nat
  | FinishState nat "err option"
  | ChallengeExpired nat nanos
  | RecordReinvite string u32
  | SetLocalSDP string string
  | ApplyReinviteVideo string
  | HandleInvite nat sip_inbound string

section \<open>Answers of the control plane\<close>

datatype auth_error_code = QuotaExceeded | NoTrunkFound | OtherCode

record auth_response =
  ar_error :: auth_error_code
  ar_drop :: bool
  ar_user :: string
  ar_pass :: string
  ar_realm :: string
  ar_trunk :: string

definition no_auth :: inbound_auth where
  "no_auth = \<lparr>au_user = [], au_pass = [], au_realm = []\<rparr>"

definition GetAuthCredentials :: "err + auth_response \<Rightarrow> err + auth_info" where
  "GetAuthCredentials answer = (case answer of
       Inl e \<Rightarrow> Inl e
     | Inr r \<Rightarrow> Inr
         (if ar_error r = QuotaExceeded
          then \<lparr>ai_result = AuthQuotaExceeded, ai_trunk = [], ai_auth = no_auth\<rparr>
          else if ar_error r = NoTrunkFound
          then \<lparr>ai_result = AuthNoTrunkFound, ai_trunk = [], ai_auth = no_auth\<rparr>
          else if ar_drop r then \<lparr>ai_result = AuthDrop, ai_trunk = [], ai_auth = no_auth\<rparr>
          else if ar_user r \<noteq> [] \<and> ar_pass r \<noteq> []
          then \<lparr>ai_result = AuthPassword, ai_trunk = ar_trunk r,
                ai_auth = \<lparr>au_user = ar_user r, au_pass = ar_pass r, au_realm = ar_realm r\<rparr>\<rparr>
          else \<lparr>ai_result = AuthAccept, ai_trunk = ar_trunk r, ai_auth = no_auth\<rparr>))"

section \<open>Counting INVITEs\<close>

definition inviteHasAuth :: "header list \<Rightarrow> bool" where
  "inviteHasAuth hs =
     (GetHeader hs ''Proxy-Authorization'' \<noteq> None \<or> GetHeader hs ''Authorization'' \<noteq> None)"

definition countInvite :: "sip_request \<Rightarrow> invite_count \<Rightarrow> invite_count" where
  "countInvite req c = (case rq_cseq req of
       None \<Rightarrow> c
     | Some n \<Rightarrow>
         if inviteHasAuth (rq_headers req)
         then (let c1 = (if cc_cseq_auth c = 0 then c\<lparr>cc_cseq_auth := n\<rparr> else c) in
               if n > cc_cseq_auth c1 then c1 else c1\<lparr>cc_invites_auth := cc_invites_auth c1 + 1\<rparr>)
         else (let c1 = (if cc_cseq c = 0 then c\<lparr>cc_cseq := n\<rparr> else c) in
               if n > cc_cseq c1 then c1 else c1\<lparr>cc_invites := cc_invites c1 + 1\<rparr>))"

definition fresh_count :: invite_count where
  "fresh_count = \<lparr>cc_cseq = 0, cc_cseq_auth = 0, cc_invites = 0, cc_invites_auth = 0\<rparr>"

definition getCallInfo :: "string \<Rightarrow> sip_server \<Rightarrow> sip_server \<times> invite_count" where
  "getCallInfo tag s = (case sv_infos s tag of
       Some c \<Rightarrow> (s, c)
     | None \<Rightarrow> (s\<lparr>sv_infos := (sv_infos s)(tag \<mapsto> fresh_count)\<rparr>, fresh_count))"

definition count_invite :: "string \<Rightarrow> sip_request \<Rightarrow> sip_server \<Rightarrow> sip_server" where
  "count_invite tag req s =
     (let (s1, c) = getCallInfo tag s in s1\<lparr>sv_infos := (sv_infos s1)(tag \<mapsto> countInvite req c)\<rparr>)"

section \<open>Invites in progress\<close>

definition digestLimit :: nat where
  "digestLimit = 500"

definition call_id_of :: "sip_server \<Rightarrow> nat \<Rightarrow> string" where
  "call_id_of s i = ip_call_id (sv_objs s ! i)"

definition getInvite :: "string \<Rightarrow> sip_server \<Rightarrow> sip_server \<times> nat" where
  "getInvite sipCallID s = (case find (\<lambda>i. call_id_of s i = sipCallID) (sv_in_progress s) of
       Some i \<Rightarrow> (s, i)
     | None \<Rightarrow>
         (let i = length (sv_objs s);
              kept = (if length (sv_in_progress s) \<ge> digestLimit then tl (sv_in_progress s)
                      else sv_in_progress s)
          in (s\<lparr>sv_in_progress := kept @ [i],
                sv_objs := sv_objs s @ [\<lparr>ip_call_id = sipCallID,
                  ip_challenge = \<lparr>ch_realm = [], ch_nonce = []\<rparr>, ip_resolved = False\<rparr>]\<rparr>, i)))"

definition update_invite :: "nat \<Rightarrow> (in_progress \<Rightarrow> in_progress) \<Rightarrow> sip_server \<Rightarrow> sip_server" where
  "update_invite i f s = s\<lparr>sv_objs := (sv_objs s)[i := f (sv_objs s ! i)]\<rparr>"

text \<open>\<open>scheduleAuthChallengeTimeout\<close>, and its timer when it fires.\<close>

definition scheduleAuthChallengeTimeout :: "nat \<Rightarrow> nat \<Rightarrow> nanos \<Rightarrow> sip_server \<Rightarrow> sip_server" where
  "scheduleAuthChallengeTimeout i st now s =
     (let s1 = update_invite i (\<lambda>p. p\<lparr>ip_resolved := False\<rparr>) s in
      s1\<lparr>sv_timers := sv_timers s1 @ [\<lparr>at_obj = i, at_state = st, at_challenged = now\<rparr>]\<rparr>)"

definition auth_timer_fires :: "nat \<Rightarrow> sip_server \<Rightarrow> sip_server \<times> server_effect list" where
  "auth_timer_fires k s =
     (if k < length (sv_timers s) then
        (let t = sv_timers s ! k;
             s1 = s\<lparr>sv_timers := take k (sv_timers s) @ drop (Suc k) (sv_timers s)\<rparr>
         in if ip_resolved (sv_objs s ! at_obj t) then (s1, [])
            else (update_invite (at_obj t) (\<lambda>p. p\<lparr>ip_resolved := True\<rparr>) s1,
                  [ChallengeExpired (at_state t) (at_challenged t)]))
      else (s, []))"

section \<open>Digest authentication of an INVITE\<close>

definition generateNonce :: "nanos \<Rightarrow> string \<Rightarrow> string" where
  "generateNonce now sipCallID = itoa (now div 1000) @ ''-'' @ sipCallID"

definition sip_call_id :: "sip_request \<Rightarrow> string" where
  "sip_call_id req = (case rq_call_id req of None \<Rightarrow> [] | Some h \<Rightarrow> h)"

definition user_agent :: string where
  "user_agent = ''LiveKit''"

text \<open>The check of the credentials against the challenge of the invite in progress: \<open>None\<close> accepts.\<close>

definition check_credentials ::
  "server_env \<Rightarrow> inbound_auth \<Rightarrow> challenge \<Rightarrow> string \<Rightarrow> (int \<times> string) option" where
  "check_credentials env auth ch value = (case sv_parse_creds env value of
       None \<Rightarrow> Some (401, ''Bad credentials'')
     | Some cred \<Rightarrow>
         if dc_user cred \<noteq> au_user auth then Some (401, ''Unauthorized'')
         else if ch_realm ch = [] then Some (401, ''Bad credentials'')
         else (case sv_digest env ch ''INVITE'' (dc_uri cred) (dc_user cred) (au_pass auth) of
                 None \<Rightarrow> Some (401, ''Bad credentials'')
               | Some response \<Rightarrow>
                   if dc_response cred \<noteq> response then Some (401, ''Unauthorized'') else None))"

text \<open>The result: whether the INVITE is accepted, and whether a challenge was sent.\<close>

definition handleInviteAuth ::
  "server_env \<Rightarrow> nanos \<Rightarrow> inbound_auth \<Rightarrow> sip_request \<Rightarrow> sip_server
    \<Rightarrow> sip_server \<times> server_effect list \<times> bool \<times> bool" where
  "handleInviteAuth env now auth req s =
     (if au_user auth = [] \<or> au_pass auth = [] then (s, [], True, False)
      else (let es = (if sv_hide env then [TxReply 100 ''Processing''] else []);
                cid = sip_call_id req;
                (s1, i) = getInvite cid s
            in case GetHeader (rq_headers req) ''Proxy-Authorization'' of
                 None \<Rightarrow>
                   (let ch = \<lparr>ch_realm = (if au_realm auth = [] then user_agent else au_realm auth),
                              ch_nonce = generateNonce now cid\<rparr>
                    in (update_invite i (\<lambda>p. p\<lparr>ip_challenge := ch\<rparr>) s1, es @ [TxChallenge cid ch], False, True))
               | Some h \<Rightarrow>
                   (case check_credentials env auth (ip_challenge (sv_objs s1 ! i)) (h_value h) of
                      Some (code, reason) \<Rightarrow> (s1, es @ [TxReply code reason], False, False)
                    | None \<Rightarrow> (s1, es, True, False))))"

section \<open>Processing an INVITE\<close>

text \<open>
  What \<open>processInvite\<close> is given: the request, its source (\<open>None\<close> if it does not parse), the clock, a
  fresh call id, the contact address of a transport, the active outbound call of a tag (CSeq and SDP of
  its INVITE), what \<open>prepareReinviteOffer\<close> returns for it, the answer of the control plane, and what
  \<open>handleInvite\<close> of the new call returns.
\<close>

record outbound_view =
  ov_cseq :: u32
  ov_sdp :: string
  ov_prepared :: "string + string"

record invite_args =
  ia_req :: invite_req
  ia_src :: "string option"
  ia_now :: nanos
  ia_fresh :: string
  ia_contact :: "transport \<Rightarrow> uri"
  ia_out :: "string \<Rightarrow> outbound_view option"
  ia_auth :: "err + auth_info"
  ia_call :: "err option"

type_synonym server_result = "sip_server \<times> server_effect list \<times> err option"

fun absorb_reject :: "dlg_effect \<Rightarrow> sip_server \<Rightarrow> sip_server" where
  "absorb_reject (CacheReject k status reason) s =
     s\<lparr>sv_rejected := (sv_rejected s)(k \<mapsto> (status, reason))\<rparr>"
| "absorb_reject e s = s"

text \<open>A rejection of the dialog with the state it leaves in the server.\<close>

definition reject_dialog ::
  "server_env \<Rightarrow> int \<Rightarrow> string \<Rightarrow> sip_inbound \<Rightarrow> sip_server \<Rightarrow> sip_server \<times> server_effect list" where
  "reject_dialog env status reason c s =
     (let es = snd (RespondAndDrop (sv_dialog env) status reason c)
      in (fold absorb_reject es s, map Dialog es))"

definition cached_tag :: "invite_req \<Rightarrow> sip_server \<Rightarrow> string option" where
  "cached_tag ivt s = (case (rq_call_id ivt, rq_from ivt) of
       (Some cid, Some (u, Some ps)) \<Rightarrow> sv_provisional s (cid, param ps ''tag'')
     | _ \<Rightarrow> None)"

definition perr :: "psrpc_code \<Rightarrow> string \<Rightarrow> err" where
  "perr c m = PsErr c m None"

text \<open>
  The verdict of the control plane, for a call with state \<open>st\<close>. The last component tells whether the
  deferred update of the state still happens: not after a challenge, which the timer or the next INVITE
  concludes.
\<close>

definition accept_call ::
  "invite_args \<Rightarrow> nat \<Rightarrow> sip_inbound \<Rightarrow> string \<Rightarrow> sip_server \<Rightarrow> server_result \<times> bool" where
  "accept_call a st c trunk s =
     ((s\<lparr>sv_calls := (sv_calls s)(si_id c \<mapsto> (si_invite_cseq c, si_last_sdp c))\<rparr>,
       [HandleInvite st c trunk], ia_call a), True)"

definition authorize ::
  "server_env \<Rightarrow> invite_args \<Rightarrow> nat \<Rightarrow> call_monitor \<Rightarrow> sip_inbound \<Rightarrow> auth_info \<Rightarrow> sip_server
    \<Rightarrow> server_result \<times> bool" where
  "authorize env a st m c info s =
     (let req = sip_request.truncate (ia_req a);
          rejected = (\<lambda>why status reason e.
            (let (s1, es) = reject_dialog env status reason c s
             in ((s1, map Mon (InviteErrorShort (ClientError why) m) @ es, Some e), True)))
      in case ai_result info of
           AuthDrop \<Rightarrow>
             ((s, map Mon (InviteErrorShort (ClientError ''flood'') m)
                 @ map Dialog (snd (drop_dlg c)),
               Some (perr PsPermissionDenied ''call was not authorized by trunk configuration'')), True)
         | AuthNotFound \<Rightarrow> rejected ''no-rule'' 404 ''Does not match any SIP Trunks''
             (perr PsNotFound ''no trunk configuration for call'')
         | AuthQuotaExceeded \<Rightarrow> rejected ''quota-exceeded'' 503 ''Service temporarily unavailable''
             (perr PsResourceExhausted ''quota limit exceeded'')
         | AuthNoTrunkFound \<Rightarrow> rejected ''no-trunk'' 404 ''No trunk found''
             (perr PsNotFound ''no trunk found for call'')
         | AuthPassword \<Rightarrow>
             (let es0 = (if sv_hide env then map Dialog (snd (Processing (sv_dialog env) c)) else []);
                  (s1, i) = getInvite (sip_call_id req) s;
                  s2 = update_invite i (\<lambda>p. p\<lparr>ip_resolved := True\<rparr>) s1;
                  s3 = count_invite (si_id c) req s2;
                  (s4, es1, ok, challenged) = handleInviteAuth env (ia_now a) (ai_auth info) req s3
              in if ok then
                   (case accept_call a st c (ai_trunk info) s4 of
                      ((s5, es2, e), f) \<Rightarrow> ((s5, es0 @ es1 @ es2, e), f))
                 else
                   (let s5 = s4\<lparr>sv_provisional := (sv_provisional s4)((si_call_id c, si_tag c) \<mapsto> si_id c)\<rparr>;
                        s6 = (if challenged then scheduleAuthChallengeTimeout i st (ia_now a) s5 else s5)
                    in ((s6, es0 @ es1 @ map Mon (InviteErrorShort (ClientError ''unauthorized'') m),
                         Some (perr PsPermissionDenied ''invalid credentials were provided'')),
                        \<not> challenged)))
         | AuthAccept \<Rightarrow> accept_call a st c (ai_trunk info) (count_invite (si_id c) req s))"

text \<open>The part after the re-INVITEs: a new call, with its monitor and its state.\<close>

definition new_invite :: "server_env \<Rightarrow> invite_args \<Rightarrow> sip_inbound \<Rightarrow> sip_server \<Rightarrow> server_result" where
  "new_invite env a c s =
     (let m = NewCall Inbound (su_host (to_uri (si_from c))) (su_host (to_uri (si_to c)));
          es0 = map Mon (snd (mon_step MInviteReq m))
                @ (if sv_hide env then [] else map Dialog (snd (Processing (sv_dialog env) c)))
      in case ia_auth a of
           Inl e \<Rightarrow>
             (let (s1, es) = reject_dialog env 503 ''Try again later'' c s
              in (s1, es0 @ map Mon (InviteErrorShort (ServerError ''auth-error'') m) @ es,
                  Some (perr PsPermissionDenied ''rejecting inbound, auth check failed'')))
         | Inr info \<Rightarrow>
             (let st = sv_states s;
                  ((s1, es, e), finish) = authorize env a st m c info (s\<lparr>sv_states := Suc st\<rparr>)
              in (s1, es0 @ [FlushState st] @ es @ (if finish then [FinishState st e] else []), e)))"

text \<open>A re-INVITE of an outbound call: the SDP it is answered with, if it is one.\<close>

definition outbound_reinvite ::
  "server_env \<Rightarrow> invite_args \<Rightarrow> sip_inbound \<Rightarrow> server_effect list option" where
  "outbound_reinvite env a c = (case ia_out a (si_id c) of
       None \<Rightarrow> None
     | Some v \<Rightarrow>
         if ov_cseq v < si_invite_cseq c \<and> ov_sdp v \<noteq> []
         then (let (sdp, es) = (case ov_prepared v of
                     Inl e \<Rightarrow> (ov_sdp v, [])
                   | Inr updated \<Rightarrow>
                       if updated \<noteq> [] then (updated, [SetLocalSDP (si_id c) updated, ApplyReinviteVideo (si_id c)])
                       else (ov_sdp v, []))
               in Some (es @ [RecordReinvite (si_id c) (si_invite_cseq c)]
                        @ map Dialog (snd (AcceptAsKeepAlive (sv_dialog env) sdp c))))
         else None)"

text \<open>What becomes of a valid INVITE: a replayed rejection, a re-INVITE, or a new call.\<close>

definition process_dialog :: "server_env \<Rightarrow> invite_args \<Rightarrow> sip_inbound \<Rightarrow> sip_server \<Rightarrow> server_result" where
  "process_dialog env a c s =
     (case (if de_cache_rejects (sv_dialog env) then sv_rejected s (si_call_id c, si_tag c) else None) of
        Some (status, reason) \<Rightarrow> (case reject_dialog env status reason c s of (s1, es) \<Rightarrow> (s1, es, None))
      | None \<Rightarrow>
          (case sv_calls s (si_id c) of
             Some (cseq, sdp) \<Rightarrow>
               if cseq < si_invite_cseq c
               then (s, map Dialog (snd (AcceptAsKeepAlive (sv_dialog env) sdp c)), None)
               else (case outbound_reinvite env a c of
                       Some es \<Rightarrow> (s, es, None) | None \<Rightarrow> new_invite env a c s)
           | None \<Rightarrow>
               (case outbound_reinvite env a c of
                  Some es \<Rightarrow> (s, es, None) | None \<Rightarrow> new_invite env a c s)))"

definition processInvite :: "server_env \<Rightarrow> invite_args \<Rightarrow> sip_server \<Rightarrow> server_result" where
  "processInvite env a s = (case ia_src a of
       None \<Rightarrow> (s, [Mon InviteReqRaw, TxEnd], Some (perr PsMalformedRequest ''cannot parse source IP''))
     | Some src \<Rightarrow>
         (case newInbound (ia_req a) src (ia_contact a) (cached_tag (ia_req a) s) (ia_fresh a) of
            Inl e \<Rightarrow>
              (s, Mon InviteReqRaw # (if sv_hide env then [] else [TxReply 400 ''Bad request'']) @ [TxEnd],
               Some (perr PsInvalidArgument ''invite validation failed''))
          | Inr c \<Rightarrow> (case process_dialog env a c s of (s1, es, e) \<Rightarrow> (s1, Mon InviteReqRaw # es, e))))"

text \<open>What the deferred function does to the call information.\<close>

definition finish_info :: "err option \<Rightarrow> nanos \<Rightarrow> call_info \<Rightarrow> call_info" where
  "finish_info e now info =
     (case (if ci_error info = [] then e else None) of
        Some x \<Rightarrow> info\<lparr>ci_status := SCS_ERROR, ci_error := err_msg x, ci_ended := now\<rparr>
      | None \<Rightarrow> info\<lparr>ci_status := SCS_DISCONNECTED, ci_ended := now\<rparr>)"

definition challenge_expired_info :: "nanos \<Rightarrow> call_info \<Rightarrow> call_info" where
  "challenge_expired_info challenged info =
     info\<lparr>ci_status := SCS_ERROR,
          ci_error := ''auth challenge issued, no authenticated retry received'', ci_ended := challenged\<rparr>"

section \<open>Requests within a dialog\<close>

datatype routed = BadRequest | ToInbound string | ToOutbound string | NoSuchCall

text \<open>The server looks first; what it does not know is offered to the client.\<close>

definition route_request :: "call_tables \<Rightarrow> to_header option \<Rightarrow> routed" where
  "route_request t to = (case GetLocalTagUAS to of
       Inl e \<Rightarrow> BadRequest
     | Inr tag \<Rightarrow>
         (case byLocalTag t tag of
            Some c \<Rightarrow> ToInbound tag
          | None \<Rightarrow> (case getActiveCall t tag of Some c \<Rightarrow> ToOutbound tag | None \<Rightarrow> NoSuchCall)))"

text \<open>The reply on the transaction of a BYE, if the call itself does not answer it.\<close>

definition onBye :: "call_tables \<Rightarrow> to_header option \<Rightarrow> routed \<times> (int \<times> string) option" where
  "onBye t to = (let r = route_request t to in
     (r, case r of BadRequest \<Rightarrow> Some (400, []) | NoSuchCall \<Rightarrow> Some (481, ''Call does not exist'')
         | _ \<Rightarrow> None))"

text \<open>A NOTIFY is always answered: by its call with the code for the handler's error.\<close>

definition onNotify ::
  "call_tables \<Rightarrow> (routed \<Rightarrow> err option) \<Rightarrow> to_header option \<Rightarrow> routed \<times> int \<times> string" where
  "onNotify t handle to = (let r = route_request t to in
     (r, case r of BadRequest \<Rightarrow> (400, []) | NoSuchCall \<Rightarrow> (481, ''Call does not exist'')
         | _ \<Rightarrow> sipCodeAndMessageFromError (handle r)))"

text \<open>An ACK is not answered: it is for an inbound call or ignored.\<close>

definition onAck :: "call_tables \<Rightarrow> to_header option \<Rightarrow> string option" where
  "onAck t to = (case GetLocalTagUAS to of
       Inl e \<Rightarrow> None
     | Inr tag \<Rightarrow> (case byLocalTag t tag of Some c \<Rightarrow> Some tag | None \<Rightarrow> None))"

definition onOptions :: "int \<times> string" where
  "onOptions = (200, ''OK'')"

definition OnNoRoute :: "int \<times> string" where
  "OnNoRoute = (405, ''Method Not Allowed'')"

section \<open>Operations of the server\<close>

datatype server_op =
    Invite invite_args
  | TimerFires nat
  | CallEnds string
  | CallAnswers string string
  | ForgetCount string
  | ForgetProvisional "string \<times> string"
  | ForgetRejected "string \<times> string"

fun server_step :: "server_env \<Rightarrow> server_op \<Rightarrow> sip_server \<Rightarrow> sip_server \<times> server_effect list" where
  "server_step env (Invite a) s = (case processInvite env a s of (s1, es, e) \<Rightarrow> (s1, es))"
| "server_step env (TimerFires k) s = auth_timer_fires k s"
| "server_step env (CallEnds tag) s = (s\<lparr>sv_calls := (sv_calls s)(tag := None)\<rparr>, [])"
| "server_step env (CallAnswers tag sdp) s =
     (s\<lparr>sv_calls := (case sv_calls s tag of
          None \<Rightarrow> sv_calls s | Some (n, old) \<Rightarrow> (sv_calls s)(tag \<mapsto> (n, sdp)))\<rparr>, [])"
| "server_step env (ForgetCount tag) s = (s\<lparr>sv_infos := (sv_infos s)(tag := None)\<rparr>, [])"
| "server_step env (ForgetProvisional k) s = (s\<lparr>sv_provisional := (sv_provisional s)(k := None)\<rparr>, [])"
| "server_step env (ForgetRejected k) s = (s\<lparr>sv_rejected := (sv_rejected s)(k := None)\<rparr>, [])"

section \<open>The table of invites in progress\<close>

text \<open>
  The contract of the table: a bounded first-in first-out store of challenges by Call-ID.
\<close>

type_synonym challenge_store = "(string \<times> challenge) list"

definition no_challenge :: challenge where
  "no_challenge = \<lparr>ch_realm = [], ch_nonce = []\<rparr>"

definition store_get :: "string \<Rightarrow> challenge_store \<Rightarrow> challenge_store" where
  "store_get k st =
     (if k \<in> fst ` set st then st
      else (if length st \<ge> digestLimit then tl st else st) @ [(k, no_challenge)])"

definition store_view :: "sip_server \<Rightarrow> challenge_store" where
  "store_view s = map (\<lambda>i. (call_id_of s i, ip_challenge (sv_objs s ! i))) (sv_in_progress s)"

definition server_inv :: "sip_server \<Rightarrow> bool" where
  "server_inv s = (length (sv_in_progress s) \<le> digestLimit
     \<and> list_all (\<lambda>i. i < length (sv_objs s)) (sv_in_progress s)
     \<and> distinct (map (call_id_of s) (sv_in_progress s))
     \<and> (\<forall>k v. sv_rejected s k = Some v \<longrightarrow> 300 \<le> fst v))"

lemma set_tl_subset: "set (tl xs) \<subseteq> set xs"
  by (cases xs) auto

lemma update_invite_simps [simp]:
  "sv_in_progress (update_invite i f s) = sv_in_progress s"
  "length (sv_objs (update_invite i f s)) = length (sv_objs s)"
  "sv_rejected (update_invite i f s) = sv_rejected s" "sv_timers (update_invite i f s) = sv_timers s"
  "i < length (sv_objs s) \<Longrightarrow> sv_objs (update_invite i f s) ! j = (if j = i then f (sv_objs s ! i) else sv_objs s ! j)"
  by (simp_all add: update_invite_def nth_list_update)

lemma call_id_update [simp]:
  "i < length (sv_objs s) \<Longrightarrow> (\<And>p. ip_call_id (f p) = ip_call_id p)
    \<Longrightarrow> call_id_of (update_invite i f s) j = call_id_of s j"
  by (simp add: call_id_of_def)

lemma server_inv_update:
  assumes "server_inv s" "i < length (sv_objs s)" "\<And>p. ip_call_id (f p) = ip_call_id p"
  shows "server_inv (update_invite i f s)"
proof -
  have "call_id_of (update_invite i f s) = call_id_of s" using assms(2,3) by (simp add: fun_eq_iff)
  with assms(1) show ?thesis by (simp add: server_inv_def)
qed

text \<open>Operations that leave the table of invites alone keep the invariant.\<close>

lemma server_inv_same:
  "server_inv s \<Longrightarrow> sv_in_progress s' = sv_in_progress s \<Longrightarrow> sv_objs s' = sv_objs s
    \<Longrightarrow> (\<And>k v. sv_rejected s' k = Some v \<Longrightarrow> 300 \<le> fst v) \<Longrightarrow> server_inv s'"
  by (auto simp: server_inv_def call_id_of_def [abs_def])

lemma server_inv_rejected: "server_inv s \<Longrightarrow> sv_rejected s k = Some v \<Longrightarrow> 300 \<le> fst v"
  unfolding server_inv_def by blast

lemma getInvite_cases:
  assumes "server_inv s" "getInvite k s = (s1, i)"
  obtains
    (found) "s1 = s" "i \<in> set (sv_in_progress s)" "call_id_of s i = k"
  | (added) "i = length (sv_objs s)" "k \<notin> call_id_of s ` set (sv_in_progress s)"
      "s1 = s\<lparr>sv_in_progress := (if length (sv_in_progress s) \<ge> digestLimit then tl (sv_in_progress s)
                                else sv_in_progress s) @ [i],
             sv_objs := sv_objs s @ [\<lparr>ip_call_id = k, ip_challenge = no_challenge, ip_resolved = False\<rparr>]\<rparr>"
proof (cases "find (\<lambda>i. call_id_of s i = k) (sv_in_progress s)")
  case None
  with assms(2) that(2) show ?thesis
    by (auto simp: getInvite_def find_None_iff no_challenge_def Let_def)
next
  case (Some j)
  with assms(2) that(1) show ?thesis
    by (auto simp: getInvite_def find_Some_iff in_set_conv_nth)
qed

lemma call_id_old:
  "server_inv s \<Longrightarrow> i \<in> set (sv_in_progress s) \<Longrightarrow> sv_objs s' = sv_objs s @ xs \<Longrightarrow> call_id_of s' i = call_id_of s i"
  by (auto simp: call_id_of_def server_inv_def list_all_iff nth_append)

lemma getInvite_inv:
  assumes "server_inv s" "getInvite k s = (s1, i)"
  shows "server_inv s1 \<and> i \<in> set (sv_in_progress s1) \<and> call_id_of s1 i = k \<and> i < length (sv_objs s1)"
  using assms
proof (cases rule: getInvite_cases)
  case found
  with assms(1) show ?thesis by (auto simp: server_inv_def list_all_iff)
next
  case added
  define kept where "kept = (if length (sv_in_progress s) \<ge> digestLimit then tl (sv_in_progress s)
      else sv_in_progress s)"
  have sub: "set kept \<subseteq> set (sv_in_progress s)"
    using set_tl_subset [of "sv_in_progress s"] by (simp add: kept_def)
  have s1: "sv_in_progress s1 = kept @ [i]" "sv_rejected s1 = sv_rejected s"
    "length (sv_objs s1) = Suc (length (sv_objs s))" "i = length (sv_objs s)"
    using added by (simp_all add: kept_def)
  have objs: "sv_objs s1 = sv_objs s @ [\<lparr>ip_call_id = k, ip_challenge = no_challenge, ip_resolved = False\<rparr>]"
    using added(3) by simp
  have old: "map (call_id_of s1) kept = map (call_id_of s) kept"
    unfolding map_eq_conv using call_id_old [OF assms(1) _ objs] sub by blast
  have new: "call_id_of s1 i = k" using added by (simp add: call_id_of_def)
  have "distinct (map (call_id_of s) kept)"
    using assms(1) by (auto simp: server_inv_def kept_def map_tl distinct_tl)
  moreover have "k \<notin> set (map (call_id_of s) kept)" using added(2) sub by auto
  ultimately have "distinct (map (call_id_of s1) kept @ [k])" unfolding old by simp
  then have "distinct (map (call_id_of s1) (kept @ [i]))" by (simp only: map_append list.map new)
  moreover have "length (kept @ [i]) \<le> digestLimit"
    using assms(1) by (auto simp: server_inv_def kept_def digestLimit_def)
  moreover have "list_all (\<lambda>j. j < length (sv_objs s1)) (kept @ [i])"
    using assms(1) sub s1(3,4) by (force simp: server_inv_def list_all_iff)
  ultimately show ?thesis using assms(1) new s1 by (simp add: server_inv_def)
qed

lemma store_view_keys: "fst ` set (store_view s) = call_id_of s ` set (sv_in_progress s)"
  by (force simp: store_view_def)

lemma getInvite_view:
  assumes "server_inv s" "getInvite k s = (s1, i)"
  shows "store_view s1 = store_get k (store_view s)"
  using assms
proof (cases rule: getInvite_cases)
  case found
  then show ?thesis by (auto simp: store_get_def store_view_keys)
next
  case added
  define kept where "kept = (if length (sv_in_progress s) \<ge> digestLimit then tl (sv_in_progress s)
      else sv_in_progress s)"
  let ?g = "\<lambda>s i. (call_id_of s i, ip_challenge (sv_objs s ! i))"
  have "set kept \<subseteq> set (sv_in_progress s)"
    using set_tl_subset [of "sv_in_progress s"] by (simp add: kept_def)
  then have "map (?g s1) kept = map (?g s) kept"
    using assms(1) added(3) by (auto simp: server_inv_def list_all_iff call_id_of_def nth_append)
  moreover have "sv_in_progress s1 = kept @ [i]" "?g s1 i = (k, no_challenge)"
    using added by (simp_all add: kept_def call_id_of_def)
  moreover have "map (?g s) kept = (if length (store_view s) \<ge> digestLimit then tl (store_view s) else store_view s)"
    by (simp add: kept_def store_view_def map_tl)
  ultimately have "store_view s1 = (if length (store_view s) \<ge> digestLimit then tl (store_view s)
      else store_view s) @ [(k, no_challenge)]"
    unfolding store_view_def [of s1] by simp
  moreover have "k \<notin> fst ` set (store_view s)" using added(2) by (simp add: store_view_keys)
  ultimately show ?thesis by (simp add: store_get_def)
qed

text \<open>Storing a challenge at an entry is an update of the store.\<close>

lemma update_distinct:
  "distinct (map f is) \<Longrightarrow> i \<in> set is
    \<Longrightarrow> map (\<lambda>j. (f j, if j = i then v else g j)) is = AList.update (f i) v (map (\<lambda>j. (f j, g j)) is)"
  by (induction "is") auto

lemma store_view_update:
  assumes "server_inv s" "i \<in> set (sv_in_progress s)" "call_id_of s i = k" "i < length (sv_objs s)"
  shows "store_view (update_invite i (\<lambda>p. p\<lparr>ip_challenge := ch\<rparr>) s) = AList.update k ch (store_view s)"
proof -
  have "call_id_of (update_invite i (\<lambda>p. p\<lparr>ip_challenge := ch\<rparr>) s) j = call_id_of s j" for j
    using assms(4) by simp
  moreover have "ip_challenge (sv_objs (update_invite i (\<lambda>p. p\<lparr>ip_challenge := ch\<rparr>) s) ! j)
      = (if j = i then ch else ip_challenge (sv_objs s ! j))" for j
    using assms(4) by simp
  ultimately show ?thesis
    using update_distinct [of "call_id_of s" "sv_in_progress s" i ch] assms(1-3)
    by (simp add: store_view_def server_inv_def)
qed

text \<open>
  The flag that stops a pending timer belongs to the Call-ID, not to the challenge: when a second
  challenge follows the first, the first timer still concludes the superseded call, and the second,
  finding the flag taken, never concludes its own.
\<close>

lemma superseded_challenge_concluded:
  fixes st1 st2 :: nat and t1 t2 :: nanos
  assumes "i < length (sv_objs s)" "sv_timers s = []"
  defines "s1 \<equiv> scheduleAuthChallengeTimeout i st1 t1 s"
  defines "s2 \<equiv> scheduleAuthChallengeTimeout i st2 t2 (update_invite i (\<lambda>p. p\<lparr>ip_resolved := True\<rparr>) s1)"
  shows "snd (run auth_timer_fires [0, 0] s2) = [ChallengeExpired st1 t1]"
  using assms(1,2)
  by (simp add: s1_def s2_def scheduleAuthChallengeTimeout_def auth_timer_fires_def Let_def update_invite_def)

section \<open>What each step keeps\<close>

lemma count_invite_simps [simp]:
  "sv_objs (count_invite tag r s) = sv_objs s" "sv_in_progress (count_invite tag r s) = sv_in_progress s"
  "sv_rejected (count_invite tag r s) = sv_rejected s" "sv_timers (count_invite tag r s) = sv_timers s"
  by (simp_all add: count_invite_def getCallInfo_def split: option.split)

lemma absorb_reject_simps [simp]:
  "sv_objs (absorb_reject e s) = sv_objs s" "sv_in_progress (absorb_reject e s) = sv_in_progress s"
  by (cases e; simp)+

lemma fold_absorb_simps [simp]:
  "sv_objs (fold absorb_reject es s) = sv_objs s"
  "sv_in_progress (fold absorb_reject es s) = sv_in_progress s"
  by (induction es arbitrary: s) simp_all

definition rejects_final :: "dlg_effect \<Rightarrow> bool" where
  "rejects_final e = (case e of CacheReject k status reason \<Rightarrow> 300 \<le> status | _ \<Rightarrow> True)"

lemma fold_absorb_rejected:
  "list_all rejects_final es \<Longrightarrow> (\<And>k v. sv_rejected s k = Some v \<Longrightarrow> 300 \<le> fst v)
    \<Longrightarrow> sv_rejected (fold absorb_reject es s) k = Some v \<Longrightarrow> 300 \<le> fst v"
proof (induction es arbitrary: s k v)
  case Nil
  from Nil.prems(2) [of k v] Nil.prems(3) show ?case by simp
next
  case (Cons e es)
  have "300 \<le> fst v" if "sv_rejected (absorb_reject e s) k = Some v" for k v
    using that Cons.prems(1) Cons.prems(2) [of k v]
    by (cases e) (auto simp: rejects_final_def split: if_splits)
  with Cons.IH [of "absorb_reject e s" k v] Cons.prems show ?case by simp
qed

lemma RespondAndDrop_final: "list_all rejects_final (snd (RespondAndDrop env status reason c))"
  by (simp add: RespondAndDrop_def Let_def drop_dlg_def respond_def respondWithData_def rejects_final_def)

lemma reject_dialog_inv: "server_inv s \<Longrightarrow> server_inv (fst (reject_dialog env status reason c s))"
  unfolding reject_dialog_def Let_def fst_conv
  by (rule server_inv_same [of s])
    (simp_all, metis fold_absorb_rejected RespondAndDrop_final server_inv_rejected)

lemma schedule_inv:
  assumes "server_inv s" "i < length (sv_objs s)"
  shows "server_inv (scheduleAuthChallengeTimeout i st now s)"
proof -
  have "server_inv (update_invite i (\<lambda>p. p\<lparr>ip_resolved := False\<rparr>) s)"
    using assms by (rule server_inv_update) simp
  then show ?thesis
    by (rule server_inv_same)
      (simp_all add: scheduleAuthChallengeTimeout_def Let_def server_inv_rejected [OF assms(1)])
qed

lemma handleInviteAuth_inv:
  assumes "server_inv s" "handleInviteAuth env now auth req s = (s1, es, ok, ch)"
  shows "server_inv s1"
proof (cases "au_user auth = [] \<or> au_pass auth = []")
  case False
  obtain s0 i where g: "getInvite (sip_call_id req) s = (s0, i)" by (metis surj_pair)
  note inv = getInvite_inv [OF assms(1) g]
  then have "server_inv (update_invite i (\<lambda>p. p\<lparr>ip_challenge := c\<rparr>) s0)" for c
    by (intro server_inv_update) simp_all
  with inv g False assms(2) show ?thesis
    by (auto simp: handleInviteAuth_def Let_def split: option.splits)
qed (use assms in \<open>simp add: handleInviteAuth_def\<close>)

lemma handleInviteAuth_objs:
  "handleInviteAuth env now auth req s = (s1, es, ok, ch) \<Longrightarrow> length (sv_objs s) \<le> length (sv_objs s1)"
  by (auto simp: handleInviteAuth_def getInvite_def Let_def split: option.splits if_splits)

lemma accept_call_inv:
  "server_inv s \<Longrightarrow> server_inv (fst (fst (accept_call a st c trunk s)))"
  by (rule server_inv_same [of s]) (simp_all add: accept_call_def server_inv_rejected)

lemma authorize_inv:
  assumes "server_inv s"
  shows "server_inv (fst (fst (authorize env a st m c info s)))"
proof (cases "ai_result info = AuthPassword")
  case True
  obtain s1 i where g: "getInvite (sip_call_id (sip_request.truncate (ia_req a))) s = (s1, i)"
    by (metis surj_pair)
  define s3 where "s3 = count_invite (si_id c) (sip_request.truncate (ia_req a))
      (update_invite i (\<lambda>p. p\<lparr>ip_resolved := True\<rparr>) s1)"
  obtain s4 es ok ch where h:
    "handleInviteAuth env (ia_now a) (ai_auth info) (sip_request.truncate (ia_req a)) s3 = (s4, es, ok, ch)"
    by (metis surj_pair)
  note i = getInvite_inv [OF assms g]
  have "server_inv (update_invite i (\<lambda>p. p\<lparr>ip_resolved := True\<rparr>) s1)"
    using i by (intro server_inv_update) simp_all
  then have "server_inv s3"
    unfolding s3_def by (rule server_inv_same) (use i server_inv_rejected in auto)
  then have s4: "server_inv s4" using h by (rule handleInviteAuth_inv)
  then have s5: "server_inv (s4\<lparr>sv_provisional := p\<rparr>)" for p
    by (rule server_inv_same) (simp_all add: server_inv_rejected [OF s4])
  moreover have "i < length (sv_objs s4)"
    using i handleInviteAuth_objs [OF h] by (simp add: s3_def)
  ultimately have "server_inv (scheduleAuthChallengeTimeout i st now (s4\<lparr>sv_provisional := p\<rparr>))" for p now
    by (intro schedule_inv) simp_all
  with True g h s4 s5 accept_call_inv [OF s4] show ?thesis
    by (auto simp: authorize_def Let_def s3_def split_def)
next
  case False
  have "server_inv (count_invite tag r s)" for tag r
    by (rule server_inv_same [OF assms]) (simp_all add: server_inv_rejected [OF assms])
  with False assms reject_dialog_inv [OF assms] accept_call_inv show ?thesis
    by (cases "ai_result info") (auto simp: authorize_def Let_def split_def)
qed

lemma new_invite_inv: "server_inv s \<Longrightarrow> server_inv (fst (new_invite env a c s))"
proof -
  assume inv: "server_inv s"
  have "server_inv (s\<lparr>sv_states := n\<rparr>)" for n
    by (rule server_inv_same [OF inv]) (simp_all add: server_inv_rejected [OF inv])
  with authorize_inv reject_dialog_inv [OF inv] show ?thesis
    by (auto simp: new_invite_def Let_def split_def split: sum.split)
qed

lemma process_dialog_inv: "server_inv s \<Longrightarrow> server_inv (fst (process_dialog env a c s))"
  using new_invite_inv reject_dialog_inv
  by (auto simp: process_dialog_def split_def split: option.split)

lemma processInvite_inv: "server_inv s \<Longrightarrow> server_inv (fst (processInvite env a s))"
  using process_dialog_inv by (auto simp: processInvite_def split_def split: option.split sum.split)

lemma auth_timer_inv: "server_inv s \<Longrightarrow> server_inv (fst (auth_timer_fires k s))"
proof -
  assume inv: "server_inv s"
  have timers: "server_inv (s\<lparr>sv_timers := ts\<rparr>)" for ts
    by (rule server_inv_same [OF inv]) (simp_all add: server_inv_rejected [OF inv])
  have "server_inv (update_invite i (\<lambda>p. p\<lparr>ip_resolved := True\<rparr>) (s\<lparr>sv_timers := ts\<rparr>))" for i ts
  proof (cases "i < length (sv_objs s)")
    case True
    then show ?thesis by (intro server_inv_update timers) simp_all
  next
    case False
    then show ?thesis using timers [of ts] by (simp add: update_invite_def list_update_beyond)
  qed
  with timers inv show ?thesis by (simp add: auth_timer_fires_def Let_def)
qed

lemma server_step_inv: "server_inv s \<Longrightarrow> server_inv (fst (server_step env op s))"
proof (cases op)
  case (Invite a)
  assume "server_inv s"
  then show ?thesis using Invite processInvite_inv [of s env a] by (simp add: split_def)
next
  case (TimerFires k)
  assume "server_inv s"
  then show ?thesis using TimerFires auth_timer_inv by simp
next
  case (ForgetRejected k)
  assume inv: "server_inv s"
  show ?thesis
    unfolding ForgetRejected by (rule server_inv_same [OF inv])
      (auto simp: server_inv_rejected [OF inv] split: if_splits)
qed (auto intro!: server_inv_same [of s] dest: server_inv_rejected)

interpretation server: stepper "server_step env" "\<lambda>_. True" server_inv
  for env
  by unfold_locales (rule server_step_inv)

lemma NewServer_inv: "server_inv NewServer"
  by (simp add: server_inv_def NewServer_def)

lemma server_reachable: "server_inv (fst (run (server_step env) ops NewServer))"
  using server.run_inv [of ops NewServer env] NewServer_inv by (simp add: list_all_iff)

section \<open>Challenges in the trace\<close>

definition challenges_of :: "sip_server \<Rightarrow> (string \<times> challenge) set" where
  "challenges_of s = set (map (\<lambda>p. (ip_call_id p, ip_challenge p)) (sv_objs s))"

text \<open>A challenge held after a step was held before or is sent by it.\<close>

definition sends_new :: "sip_server \<Rightarrow> sip_server \<Rightarrow> server_effect list \<Rightarrow> bool" where
  "sends_new s s' es = (\<forall>(k, ch) \<in> challenges_of s'. ch_realm ch \<noteq> []
     \<longrightarrow> (k, ch) \<in> challenges_of s \<or> TxChallenge k ch \<in> set es)"

definition issued :: "server_effect list \<Rightarrow> sip_server \<Rightarrow> bool" where
  "issued tr s = (\<forall>(k, ch) \<in> challenges_of s. ch_realm ch \<noteq> [] \<longrightarrow> TxChallenge k ch \<in> set tr)"

lemma sends_new_same: "challenges_of s' = challenges_of s \<Longrightarrow> sends_new s s' es"
  by (auto simp: sends_new_def)

lemma sends_new_objs: "sv_objs s' = sv_objs s \<Longrightarrow> sends_new s s' es"
  by (simp add: sends_new_same challenges_of_def)

lemma sends_new_trans:
  "sends_new s s1 es1 \<Longrightarrow> sends_new s1 s2 es2 \<Longrightarrow> set es1 \<union> set es2 \<subseteq> set es \<Longrightarrow> sends_new s s2 es"
  unfolding sends_new_def by fast

lemma sends_new_mono:
  "sends_new s s' es \<Longrightarrow> challenges_of s0 = challenges_of s \<Longrightarrow> set es \<subseteq> set es' \<Longrightarrow> sends_new s0 s' es'"
  by (auto simp: sends_new_def)

lemma challenges_resolved:
  assumes "\<And>p. ip_call_id (f p) = ip_call_id p" "\<And>p. ip_challenge (f p) = ip_challenge p"
  shows "challenges_of (update_invite i f s) = challenges_of s"
proof -
  let ?g = "\<lambda>p. (ip_call_id p, ip_challenge p)"
  have "map ?g ((sv_objs s)[i := f (sv_objs s ! i)]) = map ?g (sv_objs s)"
    using assms by (cases "i < length (sv_objs s)") (simp_all add: map_update list_update_same_conv list_update_beyond)
  then show ?thesis by (simp only: challenges_of_def update_invite_def) simp
qed

lemma sends_new_getInvite: "getInvite k s = (s1, i) \<Longrightarrow> sends_new s s1 es"
  by (auto simp: getInvite_def Let_def sends_new_def challenges_of_def split: option.splits)

lemma sends_new_challenge:
  assumes "i < length (sv_objs s)" "call_id_of s i = k" "TxChallenge k ch \<in> set es"
  shows "sends_new s (update_invite i (\<lambda>p. p\<lparr>ip_challenge := ch\<rparr>) s) es"
  using assms
proof -
  have "p = (sv_objs s ! i)\<lparr>ip_challenge := ch\<rparr> \<or> p \<in> set (sv_objs s)"
    if "p \<in> set (sv_objs (update_invite i (\<lambda>p. p\<lparr>ip_challenge := ch\<rparr>) s))" for p
    using that set_update_subset_insert by (fastforce simp: update_invite_def)
  with assms show ?thesis
    by (fastforce simp: sends_new_def challenges_of_def call_id_of_def)
qed

lemma sends_new_handleInviteAuth:
  assumes "server_inv s" "handleInviteAuth env now auth req s = (s1, es, ok, ch)"
  shows "sends_new s s1 es"
proof -
  obtain s0 i where g: "getInvite (sip_call_id req) s = (s0, i)" by (metis surj_pair)
  have "sends_new s (update_invite i (\<lambda>p. p\<lparr>ip_challenge := c\<rparr>) s0) es'"
    if "TxChallenge (sip_call_id req) c \<in> set es'" for c es'
  proof (rule sends_new_trans [OF sends_new_getInvite [OF g, of "[]"]])
    show "sends_new s0 (update_invite i (\<lambda>p. p\<lparr>ip_challenge := c\<rparr>) s0) es'"
      using getInvite_inv [OF assms(1) g] that by (intro sends_new_challenge) auto
  qed simp
  with sends_new_getInvite [OF g] assms(2) g show ?thesis
    by (auto simp: handleInviteAuth_def Let_def sends_new_objs split: if_splits option.splits)
qed

lemma sends_new_authorize:
  assumes "server_inv s"
  shows "sends_new s (fst (fst (authorize env a st m c info s))) (fst (snd (fst (authorize env a st m c info s))))"
proof (cases "ai_result info = AuthPassword")
  case True
  let ?req = "sip_request.truncate (ia_req a)"
  obtain s1 i where g: "getInvite (sip_call_id ?req) s = (s1, i)" by (metis surj_pair)
  define s3 where "s3 = count_invite (si_id c) ?req (update_invite i (\<lambda>p. p\<lparr>ip_resolved := True\<rparr>) s1)"
  obtain s4 es ok ch where h: "handleInviteAuth env (ia_now a) (ai_auth info) ?req s3 = (s4, es, ok, ch)"
    by (metis surj_pair)
  have inv3: "server_inv s3"
  proof -
    from getInvite_inv [OF assms g] have "server_inv (update_invite i (\<lambda>p. p\<lparr>ip_resolved := True\<rparr>) s1)"
      by (intro server_inv_update) simp_all
    then show ?thesis unfolding s3_def
      by (rule server_inv_same) (use getInvite_inv [OF assms g] server_inv_rejected in auto)
  qed
  have "challenges_of s3 = challenges_of (update_invite i (\<lambda>p. p\<lparr>ip_resolved := True\<rparr>) s1)"
    by (simp add: s3_def challenges_of_def)
  then have s3: "challenges_of s3 = challenges_of s1" by (simp add: challenges_resolved)
  have s34: "sends_new s s4 es"
    using sends_new_getInvite [OF g, of es] sends_new_handleInviteAuth [OF inv3 h]
    by (auto simp: sends_new_def s3)
  have last: "sends_new s s5 es'" if "challenges_of s5 = challenges_of s4" "set es \<subseteq> set es'" for s5 es'
    using s34 that by (auto simp: sends_new_def)
  have "challenges_of (s4\<lparr>sv_provisional := p\<rparr>) = challenges_of s4" for p by (simp add: challenges_of_def)
  moreover have "challenges_of (s4\<lparr>sv_calls := p\<rparr>) = challenges_of s4" for p by (simp add: challenges_of_def)
  moreover have "challenges_of (scheduleAuthChallengeTimeout i st now (s4\<lparr>sv_provisional := p\<rparr>)) = challenges_of s4"
    for p now
    unfolding scheduleAuthChallengeTimeout_def Let_def
    using challenges_resolved [of "\<lambda>p. p\<lparr>ip_resolved := False\<rparr>" i "s4\<lparr>sv_provisional := p\<rparr>"]
    by (simp add: challenges_of_def)
  ultimately show ?thesis
    using True g h unfolding authorize_def Let_def accept_call_def
    by (auto simp: s3_def [symmetric] split_def intro!: last)
next
  case False
  then show ?thesis
    by (cases "ai_result info")
      (auto simp: authorize_def Let_def split_def reject_dialog_def accept_call_def intro!: sends_new_objs)
qed

lemma sends_new_new_invite:
  assumes "server_inv s"
  shows "sends_new s (fst (new_invite env a c s)) (fst (snd (new_invite env a c s)))"
proof (cases "ia_auth a")
  case (Inl e)
  then show ?thesis by (auto simp: new_invite_def Let_def split_def reject_dialog_def intro!: sends_new_objs)
next
  case (Inr info)
  let ?s = "s\<lparr>sv_states := Suc (sv_states s)\<rparr>"
  let ?m = "NewCall Inbound (su_host (to_uri (si_from c))) (su_host (to_uri (si_to c)))"
  obtain s1 es e finish where au: "authorize env a (sv_states s) ?m c info ?s = ((s1, es, e), finish)"
    by (metis surj_pair)
  have "server_inv ?s" by (rule server_inv_same [OF assms]) (simp_all add: server_inv_rejected [OF assms])
  from sends_new_authorize [OF this, of env a "sv_states s" ?m c info] au
  have "sends_new ?s s1 es" by simp
  then have sends: "sends_new s s1 es'" if "set es \<subseteq> set es'" for es'
    by (rule sends_new_mono) (use that in \<open>simp_all add: challenges_of_def\<close>)
  from Inr au show ?thesis by (auto simp: new_invite_def Let_def intro!: sends)
qed

lemma sends_new_process_dialog:
  "server_inv s
    \<Longrightarrow> sends_new s (fst (process_dialog env a c s)) (fst (snd (process_dialog env a c s)))"
  using sends_new_new_invite [of s env a c]
  by (simp add: process_dialog_def split_def reject_dialog_def Let_def sends_new_objs split: option.split)

lemma sends_new_processInvite:
  assumes "server_inv s"
  shows "sends_new s (fst (processInvite env a s)) (fst (snd (processInvite env a s)))"
proof -
  have "sends_new s (fst (process_dialog env a c s)) (e # fst (snd (process_dialog env a c s)))" for c e
    using sends_new_process_dialog [OF assms, of env a c] by (rule sends_new_mono) auto
  then show ?thesis
    by (simp add: processInvite_def split_def sends_new_objs split: option.split sum.split)
qed

lemma issued_step: "server_inv s \<Longrightarrow> issued tr s \<Longrightarrow> issued (tr @ snd (server_step env op s)) (fst (server_step env op s))"
proof -
  assume inv: "server_inv s" and tr: "issued tr s"
  have "sends_new s (fst (server_step env op s)) (snd (server_step env op s))"
  proof (cases op)
    case (Invite a)
    with sends_new_processInvite [OF inv] show ?thesis by (simp add: split_def)
  next
    case (TimerFires k)
    have "challenges_of (update_invite i (\<lambda>p. p\<lparr>ip_resolved := True\<rparr>) (s\<lparr>sv_timers := ts\<rparr>)) = challenges_of s"
      for i ts
      using challenges_resolved [of "\<lambda>p. p\<lparr>ip_resolved := True\<rparr>" i "s\<lparr>sv_timers := ts\<rparr>"]
      by (simp add: challenges_of_def)
    with TimerFires show ?thesis
      by (auto simp: auth_timer_fires_def Let_def sends_new_objs intro!: sends_new_same)
  qed (auto intro!: sends_new_objs)
  with tr show ?thesis by (fastforce simp: issued_def sends_new_def)
qed

interpretation challenges: traced "server_step env" "\<lambda>tr s. server_inv s \<and> issued tr s"
  for env
  by unfold_locales (auto intro: server_step_inv issued_step)

lemma challenges_issued:
  "issued (snd (run (server_step env) ops NewServer)) (fst (run (server_step env) ops NewServer))"
  using challenges.run_rel_start [of NewServer env ops] NewServer_inv
  by (simp add: issued_def challenges_of_def NewServer_def)

section \<open>Who becomes a call\<close>

lemma no_call_simps [simp]:
  "HandleInvite st c trunk \<notin> set (map Dialog ds)" "HandleInvite st c trunk \<notin> set (map Mon ms)"
  "HandleInvite st c trunk \<notin> Mon ` M" "HandleInvite st c trunk \<notin> Dialog ` D"
  by auto

lemma outbound_reinvite_no_call:
  "outbound_reinvite env a c = Some es \<Longrightarrow> HandleInvite st d trunk \<notin> set es"
  by (auto simp: outbound_reinvite_def Let_def split: option.splits sum.splits if_splits prod.splits)

lemma reject_dialog_no_call:
  "HandleInvite st d trunk \<notin> set (snd (reject_dialog env status reason c s))"
  by (auto simp: reject_dialog_def Let_def)

lemma handleInviteAuth_no_call:
  "handleInviteAuth env now auth req s = (s1, es, ok, ch) \<Longrightarrow> HandleInvite st d trunk \<notin> set es"
  by (auto simp: handleInviteAuth_def Let_def split: if_splits option.splits prod.splits)

lemma authorize_call:
  assumes "HandleInvite st d trunk \<in> set (fst (snd (fst (authorize env a n m c info s))))"
    and "ai_result info = AuthPassword"
  shows "\<exists>s1 i s4 es ch. getInvite (sip_call_id (sip_request.truncate (ia_req a))) s = (s1, i)
     \<and> handleInviteAuth env (ia_now a) (ai_auth info) (sip_request.truncate (ia_req a))
         (count_invite (si_id c) (sip_request.truncate (ia_req a))
            (update_invite i (\<lambda>p. p\<lparr>ip_resolved := True\<rparr>) s1)) = (s4, es, True, ch)"
proof -
  let ?req = "sip_request.truncate (ia_req a)"
  obtain s1 i where g: "getInvite (sip_call_id ?req) s = (s1, i)" by (metis surj_pair)
  obtain s4 es ok ch where h: "handleInviteAuth env (ia_now a) (ai_auth info) ?req
      (count_invite (si_id c) ?req (update_invite i (\<lambda>p. p\<lparr>ip_resolved := True\<rparr>) s1)) = (s4, es, ok, ch)"
    by (metis surj_pair)
  have "ok"
    using assms g h handleInviteAuth_no_call [OF h, of st d trunk]
    by (auto simp: authorize_def Let_def split: if_splits)
  then have "ok = True" by simp
  from g h [unfolded this] show ?thesis by (intro exI conjI)
qed

text \<open>An accepted INVITE has credentials that fit the challenge its Call-ID holds.\<close>

lemma handleInviteAuth_ok:
  assumes "handleInviteAuth env now auth req s = (s1, es, True, ch)" "au_user auth \<noteq> []" "au_pass auth \<noteq> []"
  shows "\<exists>s0 i h. getInvite (sip_call_id req) s = (s0, i)
     \<and> GetHeader (rq_headers req) ''Proxy-Authorization'' = Some h
     \<and> check_credentials env auth (ip_challenge (sv_objs s0 ! i)) (h_value h) = None"
  using assms by (auto simp: handleInviteAuth_def Let_def split: option.splits prod.splits)

lemma check_credentials_ok:
  "check_credentials env auth ch v = None
    \<Longrightarrow> \<exists>cred. sv_parse_creds env v = Some cred \<and> dc_user cred = au_user auth \<and> ch_realm ch \<noteq> []
      \<and> sv_digest env ch ''INVITE'' (dc_uri cred) (dc_user cred) (au_pass auth) = Some (dc_response cred)"
  by (auto simp: check_credentials_def split: option.splits if_splits)

lemma process_call:
  assumes "HandleInvite st d trunk \<in> set (fst (snd (processInvite env a s)))"
  shows "\<exists>c info m. ia_auth a = Inr info
     \<and> HandleInvite st d trunk \<in> set (fst (snd (fst (authorize env a (sv_states s) m c info
         (s\<lparr>sv_states := Suc (sv_states s)\<rparr>)))))"
proof -
  have new: "HandleInvite st d trunk \<in> set (fst (snd (new_invite env a c s))) \<Longrightarrow> ?thesis" for c
    using reject_dialog_no_call [of st d trunk env 503 "''Try again later''" c s]
    by (auto simp: new_invite_def Let_def split_def split: sum.splits if_splits)
  show ?thesis
    using assms outbound_reinvite_no_call [of env a _ _ st d trunk] reject_dialog_no_call [of st d trunk env]
    by (auto simp: processInvite_def process_dialog_def split_def split: option.splits sum.splits if_splits
        dest!: new)
qed

text \<open>The challenge that is checked was in the table before the INVITE.\<close>

lemma getInvite_held:
  assumes "getInvite k s = (s1, i)" "server_inv s" "ch_realm (ip_challenge (sv_objs s1 ! i)) \<noteq> []"
  shows "(k, ip_challenge (sv_objs s1 ! i)) \<in> challenges_of s"
  using assms(2,1)
proof (cases rule: getInvite_cases)
  case found
  with assms(2) show ?thesis
    by (auto simp: challenges_of_def call_id_of_def server_inv_def list_all_iff)
next
  case added
  with assms(3) show ?thesis by (simp add: no_challenge_def)
qed

lemma getInvite_again:
  assumes "server_inv s" "getInvite k s = (s1, i)" "s2 = count_invite tag r (update_invite i f s1)"
    and "\<And>p. ip_call_id (f p) = ip_call_id p"
  shows "getInvite k s2 = (s2, i)"
proof -
  note i = getInvite_inv [OF assms(1,2)]
  have ids: "call_id_of s2 j = call_id_of s1 j" for j
    using i assms(3,4) by (simp add: call_id_of_def)
  have prog: "sv_in_progress s2 = sv_in_progress s1" by (simp add: assms(3))
  have "find (\<lambda>j. call_id_of s1 j = k) (sv_in_progress s1) = Some i"
  proof -
    have uniq: "j = i" if "j \<in> set (sv_in_progress s1)" "call_id_of s1 j = k" for j
      using i that by (auto simp: server_inv_def distinct_map inj_on_def)
    obtain j where "find (\<lambda>j. call_id_of s1 j = k) (sv_in_progress s1) = Some j"
      using i by (cases "find (\<lambda>j. call_id_of s1 j = k) (sv_in_progress s1)") (auto simp: find_None_iff)
    with uniq [of j] show ?thesis by (auto simp: find_Some_iff in_set_conv_nth)
  qed
  then show ?thesis by (simp add: getInvite_def ids prog)
qed

section \<open>How often an INVITE is answered\<close>

definition answers :: "server_effect \<Rightarrow> bool" where
  "answers e = (case e of
       TxReply code reason \<Rightarrow> 200 \<le> code
     | TxChallenge k ch \<Rightarrow> True
     | Dialog d \<Rightarrow> is_final d
     | HandleInvite st c trunk \<Rightarrow> True
     | _ \<Rightarrow> False)"

lemma answers_simps [simp]:
  "answers (TxReply code reason) = (200 \<le> code)" "answers (TxChallenge k ch)" "\<not> answers TxEnd"
  "\<not> answers (Mon m)" "\<not> answers (FlushState n)" "\<not> answers (FinishState n e)"
  "\<not> answers (RecordReinvite k w)" "\<not> answers (SetLocalSDP k x)" "\<not> answers (ApplyReinviteVideo k)"
  "answers (HandleInvite st c trunk)" "answers (Dialog e') = is_final e'"
  "answers \<circ> Dialog = is_final" "count_by (answers \<circ> Mon) ms = 0"
  by (simp_all add: answers_def comp_def count_by_def)

lemma reject_dialog_answers:
  "si_tx c \<Longrightarrow> 300 \<le> status \<Longrightarrow> count_by answers (snd (reject_dialog env status reason c s)) = 1"
  by (simp add: reject_dialog_def Let_def RespondAndDrop_def drop_dlg_def respond_def respondWithData_def
      is_final_def)

lemma Processing_answers: "count_by is_final (snd (Processing env c)) = 0"
  by (simp add: Processing_def respond_def respondWithData_def is_final_def)

lemma KeepAlive_answers: "si_tx c \<Longrightarrow> count_by is_final (snd (AcceptAsKeepAlive env sdp c)) = 1"
  by (simp add: AcceptAsKeepAlive_def respondWithData_def is_final_def)

lemma outbound_reinvite_answers:
  "outbound_reinvite env a c = Some es \<Longrightarrow> si_tx c \<Longrightarrow> count_by answers es = 1"
  by (auto simp: outbound_reinvite_def Let_def KeepAlive_answers split: option.splits sum.splits if_splits prod.splits)

lemma check_credentials_code: "check_credentials env auth ch v = Some (code, reason) \<Longrightarrow> code = 401"
  by (auto simp: check_credentials_def split: option.splits if_splits)

lemma handleInviteAuth_answers:
  "handleInviteAuth env now auth req s = (s1, es, ok, ch) \<Longrightarrow> count_by answers es = (if ok then 0 else 1)"
  by (auto simp: handleInviteAuth_def Let_def dest: check_credentials_code
      split: if_splits option.splits prod.splits)

lemma authorize_answers:
  assumes "si_tx c"
  shows "count_by answers (fst (snd (fst (authorize env a n m c info s))))
    = (if ai_result info = AuthDrop then 0 else 1)"
proof (cases "ai_result info = AuthPassword")
  case True
  let ?req = "sip_request.truncate (ia_req a)"
  obtain s1 i where g: "getInvite (sip_call_id ?req) s = (s1, i)" by (metis surj_pair)
  obtain s4 es ok ch where h: "handleInviteAuth env (ia_now a) (ai_auth info) ?req
      (count_invite (si_id c) ?req (update_invite i (\<lambda>p. p\<lparr>ip_resolved := True\<rparr>) s1)) = (s4, es, ok, ch)"
    by (metis surj_pair)
  from True g h handleInviteAuth_answers [OF h] show ?thesis
    by (simp add: authorize_def Let_def accept_call_def Processing_answers)
next
  case False
  then show ?thesis using assms
    by (cases "ai_result info")
      (simp_all add: authorize_def Let_def split_def reject_dialog_answers accept_call_def drop_dlg_def is_final_def)
qed

lemma new_invite_answers:
  "si_tx c \<Longrightarrow> count_by answers (fst (snd (new_invite env a c s)))
    = (if (case ia_auth a of Inl e \<Rightarrow> False | Inr info \<Rightarrow> ai_result info = AuthDrop) then 0 else 1)"
  by (cases "ia_auth a")
    (simp_all add: new_invite_def Let_def split_def Processing_answers reject_dialog_answers authorize_answers)

lemma newInbound_tx: "newInbound ivt src co cached fresh = Inr c \<Longrightarrow> si_tx c"
  by (auto simp: newInbound_def Let_def split: option.splits if_splits)

definition dropped_by_rule :: "invite_args \<Rightarrow> bool" where
  "dropped_by_rule a = (case ia_auth a of Inl e \<Rightarrow> False | Inr info \<Rightarrow> ai_result info = AuthDrop)"

lemma process_dialog_answers:
  assumes "server_inv s" "si_tx c"
  shows "count_by answers (fst (snd (process_dialog env a c s))) \<le> 1
    \<and> (if dropped_by_rule a then True else count_by answers (fst (snd (process_dialog env a c s))) = 1)"
proof -
  have "count_by answers (snd (reject_dialog env status reason c s)) = 1"
    if "sv_rejected s k = Some (status, reason)" for k status reason
    using server_inv_rejected [OF assms(1) that] assms(2) by (intro reject_dialog_answers) simp_all
  then show ?thesis
    using assms(2) new_invite_answers [OF assms(2), of env a s] outbound_reinvite_answers [of env a c]
      KeepAlive_answers [OF assms(2)]
    by (simp add: process_dialog_def split_def dropped_by_rule_def split: option.split)
qed

lemma authenticated_step:
  assumes s: "server_inv s" "issued tr s"
    and "HandleInvite st d trunk \<in> set (fst (snd (processInvite env a s)))"
    and "ia_auth a = Inr info" "ai_result info = AuthPassword"
    and "au_user (ai_auth info) \<noteq> []" "au_pass (ai_auth info) \<noteq> []"
  shows "\<exists>h cred ch. GetHeader (rq_headers (ia_req a)) ''Proxy-Authorization'' = Some h
     \<and> sv_parse_creds env (h_value h) = Some cred \<and> dc_user cred = au_user (ai_auth info)
     \<and> TxChallenge (sip_call_id (sip_request.truncate (ia_req a))) ch \<in> set tr
     \<and> sv_digest env ch ''INVITE'' (dc_uri cred) (dc_user cred) (au_pass (ai_auth info))
         = Some (dc_response cred)"
proof -
  let ?req = "sip_request.truncate (ia_req a)" and ?s0 = "s\<lparr>sv_states := Suc (sv_states s)\<rparr>"
  have inv: "server_inv ?s0"
    by (rule server_inv_same [OF s(1)]) (simp_all add: server_inv_rejected [OF s(1)])
  obtain c m where au: "HandleInvite st d trunk \<in> set (fst (snd (fst (authorize env a (sv_states s) m c info ?s0))))"
    using process_call [OF assms(3)] unfolding assms(4) by (metis sum.inject(2))
  obtain s1 i s4 es ch where g: "getInvite (sip_call_id ?req) ?s0 = (s1, i)"
    and h: "handleInviteAuth env (ia_now a) (ai_auth info) ?req
        (count_invite (si_id c) ?req (update_invite i (\<lambda>p. p\<lparr>ip_resolved := True\<rparr>) s1)) = (s4, es, True, ch)"
    using authorize_call [OF au assms(5)] by blast
  let ?s3 = "count_invite (si_id c) ?req (update_invite i (\<lambda>p. p\<lparr>ip_resolved := True\<rparr>) s1)"
  let ?ch = "ip_challenge (sv_objs s1 ! i)"
  have again: "getInvite (sip_call_id ?req) ?s3 = (?s3, i)"
    by (rule getInvite_again [OF inv g refl]) simp
  have held: "ip_challenge (sv_objs ?s3 ! i) = ?ch" using getInvite_inv [OF inv g] by simp
  obtain hd where hd: "GetHeader (rq_headers ?req) ''Proxy-Authorization'' = Some hd"
    and ok: "check_credentials env (ai_auth info) ?ch (h_value hd) = None"
    using handleInviteAuth_ok [OF h assms(6,7)] again held by auto
  obtain cred where cred: "sv_parse_creds env (h_value hd) = Some cred" "dc_user cred = au_user (ai_auth info)"
    "ch_realm ?ch \<noteq> []"
    "sv_digest env ?ch ''INVITE'' (dc_uri cred) (dc_user cred) (au_pass (ai_auth info)) = Some (dc_response cred)"
    using check_credentials_ok [OF ok] by blast
  have "(sip_call_id ?req, ?ch) \<in> challenges_of s"
    using getInvite_held [OF g inv cred(3)] by (simp add: challenges_of_def)
  with cred(3) s(2) have "TxChallenge (sip_call_id ?req) ?ch \<in> set tr" by (auto simp: issued_def)
  with hd cred(1,2,4) show ?thesis by (auto simp: sip_request.truncate_def)
qed

section \<open>A sample run\<close>

definition sample_dialog_env :: dialog_env where
  "sample_dialog_env = \<lparr>de_wait_ack = False, de_record_route = False, de_cache_rejects = True,
     de_signaling_ip = NoAddr, de_sip_port = 5060, de_new_bye = sample_bye,
     de_new_response = (\<lambda>i st r b. sample_response st)\<rparr>"

definition sample_server_env :: server_env where
  "sample_server_env = \<lparr>sv_hide = False,
     sv_parse_creds = (\<lambda>v. Some \<lparr>dc_user = ''alice'', dc_uri = ''sip:bob'', dc_response = v\<rparr>),
     sv_digest = (\<lambda>ch m u n p. Some (ch_nonce ch)), sv_dialog = sample_dialog_env\<rparr>"

definition sample_auth :: auth_info where
  "sample_auth = \<lparr>ai_result = AuthPassword, ai_trunk = ''ST_1'',
     ai_auth = \<lparr>au_user = ''alice'', au_pass = ''secret'', au_realm = []\<rparr>\<rparr>"

definition sample_args :: "header list \<Rightarrow> invite_args" where
  "sample_args hs = \<lparr>ia_req = sample_invite\<lparr>rq_headers := hs\<rparr>, ia_src = Some ''10.0.0.9:5060'', ia_now = 0,
     ia_fresh = ''SCL_1'', ia_contact = (\<lambda>tr. \<lparr>u_user = [], u_host = ''sip.example.com'',
       u_addr = \<lparr>ap_addr = NoAddr, ap_port = 0\<rparr>, u_transport = tr\<rparr>), ia_out = (\<lambda>tag. None),
     ia_auth = Inr sample_auth, ia_call = None\<rparr>"

definition sample_credentials :: "header list" where
  "sample_credentials = [\<lparr>h_name = ''Proxy-Authorization'', h_value = ''0-call-1''\<rparr>]"

lemma sample_new:
  obtains c where "newInbound (ia_req (sample_args hs)) ''10.0.0.9:5060'' (ia_contact (sample_args hs)) cached ''SCL_1'' = Inr c"
    "si_call_id c = ''call-1''" "si_tag c = ''a1''"
  by (simp add: sample_args_def newInbound_def sample_invite_def param_def Let_def sample_uri_def)

lemma sample_args_simps [simp]:
  "ia_src (sample_args hs) = Some ''10.0.0.9:5060''" "ia_fresh (sample_args hs) = ''SCL_1''"
  "ia_now (sample_args hs) = 0" "ia_out (sample_args hs) tag = None"
  "ia_auth (sample_args hs) = Inr sample_auth" "ia_call (sample_args hs) = None"
  "sip_call_id (sip_request.truncate (ia_req (sample_args hs))) = ''call-1''"
  "rq_headers (sip_request.truncate (ia_req (sample_args hs))) = hs"
  "rq_headers (ia_req (sample_args hs)) = hs"
  by (simp_all add: sample_args_def sample_invite_def sip_call_id_def sip_request.truncate_def)

lemma sample_nonce [simp]: "generateNonce 0 ''call-1'' = ''0-call-1''"
  by code_simp

lemmas sample_evaluation = processInvite_def process_dialog_def outbound_reinvite_def new_invite_def
  authorize_def sample_auth_def handleInviteAuth_def sample_server_env_def sample_dialog_env_def
  getInvite_def update_invite_def scheduleAuthChallengeTimeout_def user_agent_def

lemma sample_header [simp]:
  "GetHeader sample_credentials ''Proxy-Authorization''
    = Some \<lparr>h_name = ''Proxy-Authorization'', h_value = ''0-call-1''\<rparr>"
  by (simp add: sample_credentials_def)

lemma sample_first:
  assumes "sv_objs s = []" "sv_in_progress s = []" "sv_rejected s = Map.empty" "sv_calls s = Map.empty"
  defines "s1 \<equiv> fst (server_step sample_server_env (Invite (sample_args [])) s)"
  shows "sv_objs s1 = [\<lparr>ip_call_id = ''call-1'', ip_challenge = \<lparr>ch_realm = ''LiveKit'', ch_nonce = ''0-call-1''\<rparr>,
      ip_resolved = False\<rparr>]"
    and "sv_in_progress s1 = [0]" "sv_rejected s1 = Map.empty" "sv_calls s1 = Map.empty"
proof -
  obtain c where c: "newInbound (ia_req (sample_args [])) ''10.0.0.9:5060'' (ia_contact (sample_args []))
      (cached_tag (ia_req (sample_args [])) s) ''SCL_1'' = Inr c"
    by (rule sample_new)
  show "sv_objs s1 = [\<lparr>ip_call_id = ''call-1'', ip_challenge = \<lparr>ch_realm = ''LiveKit'', ch_nonce = ''0-call-1''\<rparr>,
      ip_resolved = False\<rparr>]" "sv_in_progress s1 = [0]" "sv_rejected s1 = Map.empty" "sv_calls s1 = Map.empty"
    by (simp_all add: s1_def sample_evaluation c assms Let_def count_invite_def getCallInfo_def
        digestLimit_def call_id_of_def split: option.split)
qed

lemma sample_accepted:
  assumes "sv_objs s = [\<lparr>ip_call_id = ''call-1'', ip_challenge = \<lparr>ch_realm = ''LiveKit'', ch_nonce = ''0-call-1''\<rparr>,
      ip_resolved = False\<rparr>]" "sv_in_progress s = [0]" "sv_rejected s = Map.empty" "sv_calls s = Map.empty"
  shows "\<exists>st c. HandleInvite st c ''ST_1''
     \<in> set (snd (server_step sample_server_env (Invite (sample_args sample_credentials)) s))"
proof -
  obtain c where c: "newInbound (ia_req (sample_args sample_credentials)) ''10.0.0.9:5060''
      (ia_contact (sample_args sample_credentials))
      (cached_tag (ia_req (sample_args sample_credentials)) s) ''SCL_1'' = Inr c"
    by (rule sample_new)
  show ?thesis
    by (simp add: sample_evaluation c assms Let_def split_def accept_call_def call_id_of_def
        check_credentials_def)
qed

section \<open>Properties\<close>

text \<open>
  C1. Under a trunk with a password no INVITE becomes a call without an authenticated challenge: in any
  run of a new server, a request that is handed on as a call carries credentials for the trunk's user,
  whose response is the digest, under the trunk's password, of a challenge this server sent earlier for
  the same Call-ID.
\<close>
theorem invite_authenticated:
  assumes "HandleInvite st d trunk \<in> set (snd (server_step env (Invite a) (fst (run (server_step env) ops NewServer))))"
    and "ia_auth a = Inr info" "ai_result info = AuthPassword"
    and "au_user (ai_auth info) \<noteq> []" "au_pass (ai_auth info) \<noteq> []"
  shows "\<exists>h cred ch. GetHeader (rq_headers (ia_req a)) ''Proxy-Authorization'' = Some h
     \<and> sv_parse_creds env (h_value h) = Some cred \<and> dc_user cred = au_user (ai_auth info)
     \<and> TxChallenge (sip_call_id (sip_request.truncate (ia_req a))) ch
         \<in> set (snd (run (server_step env) ops NewServer))
     \<and> sv_digest env ch ''INVITE'' (dc_uri cred) (dc_user cred) (au_pass (ai_auth info))
         = Some (dc_response cred)"
  using assms(1) authenticated_step [OF server_reachable challenges_issued _ assms(2-5)]
  by (simp add: split_def)

theorem invite_authenticated_witness:
  "\<exists>h cred ch. GetHeader sample_credentials ''Proxy-Authorization'' = Some h
     \<and> sv_parse_creds sample_server_env (h_value h) = Some cred \<and> dc_user cred = ''alice''
     \<and> TxChallenge ''call-1'' ch
         \<in> set (snd (run (server_step sample_server_env) [Invite (sample_args [])] NewServer))
     \<and> sv_digest sample_server_env ch ''INVITE'' (dc_uri cred) (dc_user cred) ''secret'' = Some (dc_response cred)"
proof -
  have start: "sv_objs NewServer = []" "sv_in_progress NewServer = []" "sv_rejected NewServer = Map.empty"
    "sv_calls NewServer = Map.empty"
    by (simp_all add: NewServer_def)
  have "fst (run (server_step sample_server_env) [Invite (sample_args [])] NewServer)
      = fst (server_step sample_server_env (Invite (sample_args [])) NewServer)"
    by (simp add: Let_def del: server_step.simps)
  with sample_accepted [OF sample_first [OF start]] obtain st c where
    "HandleInvite st c ''ST_1'' \<in> set (snd (server_step sample_server_env (Invite (sample_args sample_credentials))
       (fst (run (server_step sample_server_env) [Invite (sample_args [])] NewServer))))"
    by metis
  then have "\<exists>h cred ch. GetHeader (rq_headers (ia_req (sample_args sample_credentials))) ''Proxy-Authorization'' = Some h
     \<and> sv_parse_creds sample_server_env (h_value h) = Some cred \<and> dc_user cred = au_user (ai_auth sample_auth)
     \<and> TxChallenge (sip_call_id (sip_request.truncate (ia_req (sample_args sample_credentials)))) ch
         \<in> set (snd (run (server_step sample_server_env) [Invite (sample_args [])] NewServer))
     \<and> sv_digest sample_server_env ch ''INVITE'' (dc_uri cred) (dc_user cred) (au_pass (ai_auth sample_auth))
         = Some (dc_response cred)"
    by (rule invite_authenticated) (simp_all add: sample_auth_def)
  then show ?thesis by (simp add: sample_auth_def del: run.simps)
qed

text \<open>
  C22. An INVITE is answered at most once by the server: over any run, each INVITE gets at most one final
  response, challenge or hand-over to a call; and exactly one unless its source cannot be parsed, the
  service hides its port, or a rule drops it silently.
\<close>
theorem invite_answered_once:
  "let n = count_by answers (snd (server_step env (Invite a) (fst (run (server_step env) ops NewServer)))) in
   n \<le> 1 \<and> (if sv_hide env \<or> dropped_by_rule a \<or> ia_src a = None then True else n = 1)"
proof (cases "ia_src a")
  case None
  then show ?thesis by (simp add: processInvite_def)
next
  case (Some src)
  let ?s = "fst (run (server_step env) ops NewServer)"
  show ?thesis
  proof (cases "newInbound (ia_req a) src (ia_contact a) (cached_tag (ia_req a) ?s) (ia_fresh a)")
    case (Inl e)
    with Some show ?thesis by (simp add: processInvite_def)
  next
    case (Inr c)
    from process_dialog_answers [OF server_reachable [of env ops] newInbound_tx [OF Inr], of env a] Some Inr
    show ?thesis by (simp add: processInvite_def split_def)
  qed
qed

text \<open>
  C28. The table of invites in progress implements a bounded first-in first-out store of challenges by
  Call-ID: in every reachable state, looking a Call-ID up is the store's lookup, the entry found is the
  one of that Call-ID, storing a challenge there updates the store at that key, and the store never
  holds more than 500 entries nor two for one Call-ID.
\<close>
theorem invites_implement_store:
  "let s = fst (run (server_step env) ops NewServer); (s1, i) = getInvite k s in
   store_view s1 = store_get k (store_view s)
   \<and> i \<in> set (sv_in_progress s1) \<and> call_id_of s1 i = k
   \<and> store_view (update_invite i (\<lambda>p. p\<lparr>ip_challenge := ch\<rparr>) s1) = AList.update k ch (store_view s1)
   \<and> length (store_view s1) \<le> 500 \<and> distinct (map fst (store_view s1))"
proof -
  let ?s = "fst (run (server_step env) ops NewServer)"
  obtain s1 i where g: "getInvite k ?s = (s1, i)" by (metis surj_pair)
  note inv = getInvite_inv [OF server_reachable g]
  have "store_view (update_invite i (\<lambda>p. p\<lparr>ip_challenge := ch\<rparr>) s1) = AList.update k ch (store_view s1)"
    using inv by (intro store_view_update) simp_all
  with getInvite_view [OF server_reachable g] inv show ?thesis
    by (simp add: g store_view_def server_inv_def digestLimit_def comp_def)
qed

text \<open>
  A BYE finds its call by the tag of its To header, the server's calls before the client's: with
  both tables changing, it reaches an inbound call exactly while that call is registered, then the
  outbound call of that tag, and otherwise is answered with 481; without a tag it is answered with 400.
\<close>
theorem bye_routed:
  "onBye (add_inbound tag c t) (Some \<lparr>to_uri = u, to_params = p(''tag'' \<mapsto> tag)\<rparr>) = (ToInbound tag, None)
   \<and> onBye (add_outbound tag c (drop_inbound tag t)) (Some \<lparr>to_uri = u, to_params = p(''tag'' \<mapsto> tag)\<rparr>)
       = (ToOutbound tag, None)
   \<and> onBye (drop_outbound tag (drop_inbound tag t)) (Some \<lparr>to_uri = u, to_params = p(''tag'' \<mapsto> tag)\<rparr>)
       = (NoSuchCall, Some (481, ''Call does not exist''))
   \<and> onBye t (Some \<lparr>to_uri = u, to_params = p(''tag'' := None)\<rparr>) = (BadRequest, Some (400, []))
   \<and> onBye t None = (BadRequest, Some (400, []))"
proof -
  have "byLocalTag (add_outbound tag c t) = byLocalTag t" "byLocalTag (drop_outbound tag t) = byLocalTag t" for t
    by (simp_all add: byLocalTag_def add_outbound_def drop_outbound_def)
  then show ?thesis
    by (simp add: onBye_def route_request_def GetLocalTagUAS_def getTagFrom_def Let_def)
qed

end
