(* ===== verification/Video_Sdp.thy ===== *)
theory Video_Sdp
  imports Media_Port
begin

text \<open>
  \<open>pkg/sip/video_sdp.go\<close>: the H.264 video line that is read from a remote session description and added
  to ours. A session description keeps the connection lines and the media lines with their attributes;
  what these functions do not look at is \<open>ss_rest\<close>. Parsing and printing of whole descriptions belong
  to the SDP library, \<open>netip.ParseAddr\<close> is the parameter \<open>parse_addr\<close>.
\<close>

section \<open>Session descriptions\<close>

record sdp_attr =
  sa_key :: string
  sa_value :: string

text \<open>A connection line may lack its address.\<close>

type_synonym connection = "string option option"

record sdp_media =
  sm_media :: string
  sm_port :: int
  sm_protos :: "string list"
  sm_formats :: "string list"
  sm_conn :: connection
  sm_attrs :: "sdp_attr list"

record sdp_session =
  ss_conn :: connection
  ss_media :: "sdp_media list"
  ss_rest :: string

text \<open>\<open>videoMediaConf\<close>, with what a media port uses of it (\<open>video_conf\<close>).\<close>

record video_media = video_conf +
  vm_local_profile :: string
  vm_extra :: string

definition attr :: "string \<Rightarrow> string \<Rightarrow> sdp_attr" where
  "attr k v = \<lparr>sa_key = k, sa_value = v\<rparr>"

section \<open>Writing the video line\<close>

definition defaultH264PayloadType :: int where
  "defaultH264PayloadType = 96"

definition defaultH264ProfileLevelID :: string where
  "defaultH264ProfileLevelID = ''42e01f''"

definition defaultH264PacketizationMode :: int where
  "defaultH264PacketizationMode = 1"

definition VideoClockRate :: nat where
  "VideoClockRate = 90000"

definition h264SDPName :: string where
  "h264SDPName = ''H264''"

text \<open>Go's division truncates; the divisor is not zero.\<close>

definition macroblocks :: "int \<Rightarrow> int" where
  "macroblocks n = (case go_div (n + 15) 16 of None \<Rightarrow> 0 | Some q \<Rightarrow> q)"

definition h264ProfileLevelIDForResolution :: "int \<Rightarrow> int \<Rightarrow> string" where
  "h264ProfileLevelIDForResolution width height =
     (let mbs = macroblocks width * macroblocks height in
      if mbs \<le> 3600 then ''42e01f'' else if mbs \<le> 8192 then ''42e028'' else ''42e032'')"

definition rtpmap_value :: "string \<Rightarrow> string" where
  "rtpmap_value pt = pt @ '' '' @ h264SDPName @ ''/'' @ itoa (int VideoClockRate)"

definition video_line :: "string \<Rightarrow> string \<Rightarrow> int \<Rightarrow> sdp_media" where
  "video_line pt fmtp port =
     \<lparr>sm_media = ''video'', sm_port = port, sm_protos = [''RTP'', ''AVP''], sm_formats = [pt],
      sm_conn = None,
      sm_attrs = [attr ''rtpmap'' (rtpmap_value pt), attr ''fmtp'' fmtp,
                  attr ''rtcp-fb'' (pt @ '' nack pli''), attr ''sendrecv'' []]\<rparr>"

definition append_media :: "sdp_media \<Rightarrow> sdp_session \<Rightarrow> sdp_session" where
  "append_media md s = s\<lparr>ss_media := ss_media s @ [md]\<rparr>"

definition addVideoOffer :: "int \<Rightarrow> sdp_session \<Rightarrow> sdp_session" where
  "addVideoOffer port s =
     (let pt = itoa defaultH264PayloadType in
      append_media (video_line pt
        (pt @ '' profile-level-id='' @ defaultH264ProfileLevelID @ '';packetization-mode=''
         @ itoa defaultH264PacketizationMode @ '';level-asymmetry-allowed=1'') port) s)"

definition answer_profile :: "video_media \<Rightarrow> string" where
  "answer_profile v =
     (if vm_local_profile v \<noteq> [] then vm_local_profile v
      else if vc_profile v \<noteq> [] then vc_profile v else defaultH264ProfileLevelID)"

definition answer_mode :: "video_media \<Rightarrow> int" where
  "answer_mode v = (if vc_mode v = 0 then defaultH264PacketizationMode else vc_mode v)"

definition answer_fmtp :: "video_media \<Rightarrow> string" where
  "answer_fmtp v =
     itoa (uint (vc_type v)) @ '' profile-level-id='' @ answer_profile v @ '';packetization-mode=''
     @ itoa (answer_mode v) @ (if vm_extra v \<noteq> [] then '';'' @ vm_extra v else [])"

definition addVideoAnswer :: "int \<Rightarrow> video_media \<Rightarrow> sdp_session \<Rightarrow> sdp_session" where
  "addVideoAnswer port v s =
     append_media (video_line (itoa (uint (vc_type v))) (answer_fmtp v) port) s"

definition is_video :: "sdp_media \<Rightarrow> bool" where
  "is_video md = equal_fold (sm_media md) ''video''"

definition setVideoAnswerOnLocalSDP ::
  "(string \<Rightarrow> 'e + sdp_session) \<Rightarrow> (sdp_session \<Rightarrow> 'e + string) \<Rightarrow> string \<Rightarrow> int \<Rightarrow> video_media \<Rightarrow> 'e + string" where
  "setVideoAnswerOnLocalSDP unmarshal marshal localSDP port v = (case unmarshal localSDP of
       Inl e \<Rightarrow> Inl e
     | Inr s \<Rightarrow>
         marshal (addVideoAnswer port v (s\<lparr>ss_media := filter (\<lambda>md. \<not> is_video md) (ss_media s)\<rparr>)))"

definition rejectVideo :: "sdp_media \<Rightarrow> sdp_session \<Rightarrow> sdp_session" where
  "rejectVideo offered s =
     append_media \<lparr>sm_media = ''video'', sm_port = 0, sm_protos = sm_protos offered,
                   sm_formats = sm_formats offered, sm_conn = None, sm_attrs = []\<rparr> s"

section \<open>Reading the video line\<close>

definition findVideoMedia :: "sdp_session \<Rightarrow> sdp_media option" where
  "findVideoMedia s = find is_video (ss_media s)"

definition h264CapacityParams :: "string list" where
  "h264CapacityParams =
     [''max-br'', ''max-mbps'', ''max-fs'', ''max-dpb'', ''max-smbps'', ''max-cpb'', ''max-fps'']"

record h264_candidate =
  ca_pt :: int
  ca_profile :: string
  ca_mode :: int
  ca_explicit :: bool
  ca_extra :: string

text \<open>The first pass: the payload type of an \<open>rtpmap\<close> attribute that names H264.\<close>

definition rtpmap_pt :: "sdp_attr \<Rightarrow> int option" where
  "rtpmap_pt a =
     (if sa_key a \<noteq> ''rtpmap'' then None
      else (case split_n CHR '' '' 2 (sa_value a) of
         [pt, name0] \<Rightarrow>
           (let name = (case index_of CHR ''/'' name0 of Some i \<Rightarrow> take i name0 | None \<Rightarrow> name0) in
            if \<not> equal_fold name h264SDPName then None
            else (case atoi (trim_space pt) of (v, ok) \<Rightarrow> if ok then Some v else None))
       | _ \<Rightarrow> None))"

definition new_candidate :: "int \<Rightarrow> h264_candidate" where
  "new_candidate v = \<lparr>ca_pt = v, ca_profile = [], ca_mode = defaultH264PacketizationMode,
     ca_explicit = False, ca_extra = []\<rparr>"

definition h264_candidates :: "sdp_media \<Rightarrow> h264_candidate list" where
  "h264_candidates md = map new_candidate (List.map_filter rtpmap_pt (sm_attrs md))"

definition pt_index :: "h264_candidate list \<Rightarrow> string \<rightharpoonup> nat" where
  "pt_index cs = fold (\<lambda>(i, c) m. m(itoa (ca_pt c) \<mapsto> i)) (List.enumerate 0 cs) Map.empty"

text \<open>The second pass: one parameter of an \<open>fmtp\<close> attribute, then the attribute.\<close>

definition fmtp_param :: "string \<Rightarrow> h264_candidate \<times> string list \<Rightarrow> h264_candidate \<times> string list" where
  "fmtp_param kv0 acc = (case cut CHR ''='' (trim_space kv0) of
       (k0, v0, found) \<Rightarrow>
         if \<not> found then acc
         else (let k = to_lower (trim_space k0); v = trim_space v0; (c, extra) = acc in
               if k = ''profile-level-id'' then (c\<lparr>ca_profile := v\<rparr>, extra)
               else if k = ''packetization-mode'' then
                 (case atoi v of (m, ok) \<Rightarrow>
                    if ok then (c\<lparr>ca_mode := m, ca_explicit := True\<rparr>, extra) else acc)
               else if k \<in> set h264CapacityParams then (c, extra @ [k @ ''='' @ v])
               else acc))"

definition fmtp_attr ::
  "(string \<rightharpoonup> nat) \<Rightarrow> sdp_attr \<Rightarrow> h264_candidate list \<Rightarrow> h264_candidate list" where
  "fmtp_attr idx a cs =
     (if sa_key a \<noteq> ''fmtp'' then cs
      else (case split_n CHR '' '' 2 (sa_value a) of
         [pt, ps] \<Rightarrow>
           (case idx (trim_space pt) of
              None \<Rightarrow> cs
            | Some i \<Rightarrow>
                (case fold fmtp_param (split_on CHR '';'' ps) (cs ! i, []) of
                   (c, extra) \<Rightarrow> cs[i := c\<lparr>ca_extra := join '';'' extra\<rparr>]))
       | _ \<Rightarrow> cs))"

definition explicit_mode1 :: "h264_candidate \<Rightarrow> bool" where
  "explicit_mode1 c = (ca_explicit c \<and> ca_mode c = 1)"

definition better :: "h264_candidate \<Rightarrow> h264_candidate \<Rightarrow> h264_candidate" where
  "better c selected = (if explicit_mode1 c \<and> \<not> explicit_mode1 selected then c else selected)"

definition selectH264 :: "sdp_media \<Rightarrow> h264_candidate option" where
  "selectH264 md =
     (let cs = h264_candidates md in
      if cs = [] then None
      else (let cs' = fold (fmtp_attr (pt_index cs)) (sm_attrs md) cs
            in Some (fold better (tl cs') (hd cs'))))"

definition videoRemoteAddr ::
  "(string \<Rightarrow> addr option) \<Rightarrow> sdp_session \<Rightarrow> sdp_media \<Rightarrow> string + addr_port" where
  "videoRemoteAddr parse_addr s md =
     (case (case sm_conn md of None \<Rightarrow> ss_conn s | Some c \<Rightarrow> Some c) of
        Some (Some text) \<Rightarrow>
          (case parse_addr (trim_space text) of
             None \<Rightarrow> Inl ''invalid video address''
           | Some a \<Rightarrow> Inr \<lparr>ap_addr = a, ap_port = word_of_int (sm_port md)\<rparr>)
      | _ \<Rightarrow> Inl ''no connection information for video'')"

definition parseVideoSession :: "(string \<Rightarrow> addr option) \<Rightarrow> sdp_session \<Rightarrow> video_media option" where
  "parseVideoSession parse_addr s = (case findVideoMedia s of
       None \<Rightarrow> None
     | Some md \<Rightarrow>
         if sm_port md = 0 then None
         else (case selectH264 md of
            None \<Rightarrow> None
          | Some c \<Rightarrow>
              (case videoRemoteAddr parse_addr s md of
                 Inl e \<Rightarrow> None
               | Inr a \<Rightarrow>
                   Some \<lparr>vc_remote = a, vc_type = word_of_int (ca_pt c), vc_profile = ca_profile c,
                         vc_mode = ca_mode c, vc_clock = VideoClockRate, vm_local_profile = [],
                         vm_extra = ca_extra c\<rparr>)))"

definition parseVideoOffer ::
  "(string \<Rightarrow> 'e + sdp_session) \<Rightarrow> (string \<Rightarrow> addr option) \<Rightarrow> string \<Rightarrow> video_media option" where
  "parseVideoOffer unmarshal parse_addr data = (case unmarshal data of
       Inl e \<Rightarrow> None
     | Inr s \<Rightarrow> parseVideoSession parse_addr s)"

section \<open>Values and their spaces\<close>

definition trimmed :: "string \<Rightarrow> bool" where
  "trimmed s = (s = [] \<or> \<not> is_space (hd s) \<and> \<not> is_space (last s))"

lemma trim_space_trimmed: "trimmed s \<Longrightarrow> trim_space s = s"
proof (cases "s = []")
  case False
  assume "trimmed s"
  with False have "trim_left s = s" "trim_left (rev s) = rev s"
    by (simp_all add: trimmed_def trim_left_id hd_rev)
  then show ?thesis by (simp add: trim_space_def)
qed simp

lemma trim_left_hd: "trim_left s = [] \<or> \<not> is_space (hd (trim_left s))"
  unfolding trim_left_def by (induction s) auto

lemma trimmed_trim_space [simp]: "trimmed (trim_space s)"
proof -
  let ?a = "trim_left s"
  have hd: "?a = [] \<or> \<not> is_space (hd ?a)" by (rule trim_left_hd)
  have pre: "\<exists>ys. ?a = rev (trim_left (rev ?a)) @ ys"
    using takeWhile_dropWhile_id [of is_space "rev ?a"] unfolding trim_left_def
    by (metis rev_append rev_rev_ident)
  then obtain ys where ys: "?a = rev (trim_left (rev ?a)) @ ys" by blast
  show ?thesis
  proof (cases "trim_left (rev ?a) = []")
    case True
    then show ?thesis by (simp add: trimmed_def trim_space_def)
  next
    case False
    then have "hd (rev (trim_left (rev ?a))) = hd ?a" by (metis hd_append rev_is_Nil_conv ys)
    moreover have "?a \<noteq> []" using False by (auto simp: trim_left_def [of "[]"])
    ultimately show ?thesis
      using hd False trim_left_hd [of "rev ?a"] by (simp add: trimmed_def trim_space_def last_rev)
  qed
qed

lemma set_trim_space: "set (trim_space s) \<subseteq> set s"
  by (auto simp: trim_space_def trim_left_def dest!: set_dropWhileD)

definition value_ok :: "string \<Rightarrow> bool" where
  "value_ok v = (trimmed v \<and> CHR '';'' \<notin> set v)"

definition key_ok :: "string \<Rightarrow> bool" where
  "key_ok k = (k \<noteq> [] \<and> list_all (\<lambda>c. \<not> is_space c \<and> c \<noteq> CHR '';'' \<and> c \<noteq> CHR ''='') k \<and> to_lower k = k)"

lemma key_oks [simp]:
  "key_ok ''profile-level-id''" "key_ok ''packetization-mode''" "k \<in> set h264CapacityParams \<Longrightarrow> key_ok k"
  by (auto simp: key_ok_def is_space_def h264CapacityParams_def to_lower_def lower_char_def upper_A_Z_def)

text \<open>A printed parameter is one field of the attribute, and its value is read back.\<close>

definition param_text :: "string \<Rightarrow> string \<Rightarrow> string" where
  "param_text k v = k @ ''='' @ v"

lemma param_text_trimmed:
  assumes "key_ok k" and "value_ok v"
  shows "trimmed (param_text k v)" and "CHR '';'' \<notin> set (param_text k v)" and "param_text k v \<noteq> []"
  using assms by (auto simp: trimmed_def param_text_def key_ok_def value_ok_def list_all_iff is_space_def
      hd_append last_append)

lemma param_text_cut:
  "key_ok k \<Longrightarrow> value_ok v \<Longrightarrow> cut CHR ''='' (trim_space (param_text k v)) = (k, v, True)"
  using cut_append [of "CHR ''=''" k v] param_text_trimmed(1)
  by (auto simp: trim_space_trimmed param_text_def key_ok_def list_all_iff)

lemma fmtp_param_read:
  assumes "key_ok k" and "value_ok v"
  shows "fmtp_param (param_text k v) (c, extra) =
    (if k = ''profile-level-id'' then (c\<lparr>ca_profile := v\<rparr>, extra)
     else if k = ''packetization-mode'' then
       (if snd (atoi v) then (c\<lparr>ca_mode := fst (atoi v), ca_explicit := True\<rparr>, extra) else (c, extra))
     else if k \<in> set h264CapacityParams then (c, extra @ [param_text k v]) else (c, extra))"
proof -
  have "trim_space k = k" "to_lower k = k"
    using assms(1) trim_space_id [of k] by (auto simp: key_ok_def list_all_iff)
  moreover have "trim_space v = v" using assms(2) by (simp add: value_ok_def trim_space_trimmed)
  ultimately show ?thesis
    unfolding fmtp_param_def param_text_cut [OF assms] by (simp add: Let_def param_text_def split: prod.splits)
qed

section \<open>What is read is well-formed\<close>

definition capacity_text :: "string \<Rightarrow> bool" where
  "capacity_text p = (\<exists>k v. p = param_text k v \<and> k \<in> set h264CapacityParams \<and> value_ok v)"

definition extra_ok :: "string \<Rightarrow> bool" where
  "extra_ok e = (\<exists>ps. e = join '';'' ps \<and> list_all capacity_text ps)"

definition candidate_ok :: "h264_candidate \<Rightarrow> bool" where
  "candidate_ok c = (value_ok (ca_profile c) \<and> int_min \<le> ca_mode c \<and> ca_mode c \<le> int_max \<and> extra_ok (ca_extra c))"

lemma extra_ok_Nil: "extra_ok []"
  unfolding extra_ok_def by (rule exI [of _ "[]"]) simp

lemma set_cut: "cut c s = (a, b, f) \<Longrightarrow> set a \<subseteq> set s \<and> set b \<subseteq> set s"
  by (auto simp: cut_def split: if_splits dest!: set_takeWhileD set_dropWhileD list.set_sel(2) [rotated])

lemma fmtp_param_ok:
  assumes "CHR '';'' \<notin> set kv" and "candidate_ok c" and "list_all capacity_text extra"
    and "fmtp_param kv (c, extra) = (c', extra')"
  shows "candidate_ok c' \<and> list_all capacity_text extra'"
proof -
  obtain k0 v0 f where k: "cut CHR ''='' (trim_space kv) = (k0, v0, f)" by (metis surj_pair)
  have "set v0 \<subseteq> set kv" using set_cut [OF k] set_trim_space by fast
  then have v: "value_ok (trim_space v0)"
    using assms(1) set_trim_space [of v0] by (auto simp: value_ok_def)
  then have p: "to_lower (trim_space k0) \<in> set h264CapacityParams
      \<Longrightarrow> capacity_text (to_lower (trim_space k0) @ CHR ''='' # trim_space v0)"
    unfolding capacity_text_def param_text_def by auto
  show ?thesis
    using assms(2-4) v p atoi_range [of "trim_space v0"]
    by (auto simp: fmtp_param_def k Let_def candidate_ok_def split: if_splits prod.splits)
qed

lemma fmtp_params_ok:
  assumes "list_all (\<lambda>kv. CHR '';'' \<notin> set kv) kvs" and "candidate_ok c" and "list_all capacity_text extra"
    and "fold fmtp_param kvs (c, extra) = (c', extra')"
  shows "candidate_ok c' \<and> list_all capacity_text extra'"
  using assms
proof (induction kvs arbitrary: c extra)
  case Nil
  then show ?case by simp
next
  case (Cons kv kvs)
  obtain c1 e1 where s: "fmtp_param kv (c, extra) = (c1, e1)" by (metis surj_pair)
  from fmtp_param_ok [OF _ Cons.prems(2,3) s] Cons.prems Cons.IH [of c1 e1] s show ?case by simp
qed

lemma fmtp_attr_ok:
  assumes "list_all candidate_ok cs" and "\<forall>pt i. idx pt = Some i \<longrightarrow> i < length cs"
  shows "list_all candidate_ok (fmtp_attr idx a cs)" and "length (fmtp_attr idx a cs) = length cs"
proof -
  have "list_all candidate_ok (cs[i := c\<lparr>ca_extra := join '';'' extra\<rparr>])"
    if "idx pt = Some i" "fold fmtp_param (split_on CHR '';'' ps) (cs ! i, []) = (c, extra)" for pt i ps c extra
  proof -
    have "list_all (\<lambda>kv. CHR '';'' \<notin> set kv) (split_on CHR '';'' ps)"
      by (auto simp: list_all_iff dest: split_on_no_sep)
    then have "candidate_ok c \<and> list_all capacity_text extra"
      using that assms by (intro fmtp_params_ok [OF _ _ _ that(2)]) (auto simp: list_all_iff)
    then have "candidate_ok (c\<lparr>ca_extra := join '';'' extra\<rparr>)"
      by (auto simp: candidate_ok_def extra_ok_def)
    with assms(1) show ?thesis by (auto simp: list_all_iff dest!: set_update_subset_insert [THEN subsetD])
  qed
  with assms(1) show "list_all candidate_ok (fmtp_attr idx a cs)"
    by (auto simp: fmtp_attr_def split: list.splits option.splits prod.splits)
  show "length (fmtp_attr idx a cs) = length cs"
    by (auto simp: fmtp_attr_def split: list.splits option.splits prod.splits)
qed

lemma fmtp_attrs_ok:
  assumes "\<forall>pt i. idx pt = Some i \<longrightarrow> i < n"
  shows "list_all candidate_ok cs \<Longrightarrow> length cs = n
    \<Longrightarrow> list_all candidate_ok (fold (fmtp_attr idx) as cs) \<and> length (fold (fmtp_attr idx) as cs) = n"
proof (induction as arbitrary: cs)
  case Nil
  then show ?case by simp
next
  case (Cons a as)
  have "list_all candidate_ok (fmtp_attr idx a cs)" "length (fmtp_attr idx a cs) = n"
    using fmtp_attr_ok [of cs idx a] assms Cons.prems by simp_all
  then show ?case using Cons.IH by simp
qed

lemma fold_index_range:
  "fold (\<lambda>(i, c) m. m(itoa (ca_pt c) \<mapsto> i)) (List.enumerate n cs) m pt = Some i
    \<Longrightarrow> m pt = Some i \<or> n \<le> i \<and> i < n + length cs"
proof (induction cs arbitrary: n m)
  case Nil
  then show ?case by simp
next
  case (Cons c cs)
  then have "fold (\<lambda>(i, c) m. m(itoa (ca_pt c) \<mapsto> i)) (List.enumerate (Suc n) cs)
      (m(itoa (ca_pt c) \<mapsto> n)) pt = Some i"
    by (simp only: enumerate_simps fold_simps prod.case)
  from Cons.IH [OF this] show ?case by (auto split: if_splits)
qed

lemma pt_index_range: "pt_index cs pt = Some i \<Longrightarrow> i < length cs"
  using fold_index_range [of 0 cs Map.empty pt i] by (simp add: pt_index_def)

lemma fold_better: "list_all P (c # cs) \<Longrightarrow> P (fold better cs c)"
  by (induction cs arbitrary: c) (auto simp: better_def)

lemma selectH264_ok: "selectH264 md = Some c \<Longrightarrow> candidate_ok c"
proof -
  assume sel: "selectH264 md = Some c"
  let ?cs = "h264_candidates md"
  let ?cs' = "fold (fmtp_attr (pt_index ?cs)) (sm_attrs md) ?cs"
  have ne: "?cs \<noteq> []" using sel by (auto simp: selectH264_def Let_def)
  have new: "list_all candidate_ok ?cs"
    by (auto simp: h264_candidates_def new_candidate_def candidate_ok_def list_all_iff value_ok_def
        trimmed_def extra_ok_Nil defaultH264PacketizationMode_def int_min_def int_max_def)
  have "list_all candidate_ok ?cs' \<and> length ?cs' = length ?cs"
    by (rule fmtp_attrs_ok) (use new in \<open>auto dest: pt_index_range\<close>)
  with ne have "list_all candidate_ok (hd ?cs' # tl ?cs')" by (cases ?cs') auto
  from fold_better [OF this] sel ne show ?thesis by (auto simp: selectH264_def Let_def)
qed

section \<open>Reading our own answer\<close>

definition answer_params :: "video_media \<Rightarrow> string list \<Rightarrow> string list" where
  "answer_params v ps =
     param_text ''profile-level-id'' (answer_profile v)
     # param_text ''packetization-mode'' (itoa (answer_mode v)) # ps"

lemma itoa_ok: "value_ok (itoa m)"
proof -
  have "c \<in> set (itoa m) \<Longrightarrow> c \<noteq> CHR '';'' \<and> \<not> is_space c" for c
    using itoa_no_space [of c m] nat_digits_is_digit [of c]
    by (auto simp: itoa_def is_digit_def split: if_splits)
  then show ?thesis by (cases "itoa m") (auto simp: value_ok_def trimmed_def)
qed

lemma answer_fmtp_text:
  assumes "vm_extra v = join '';'' ps" and "list_all capacity_text ps"
  shows "answer_fmtp v = itoa (uint (vc_type v)) @ '' '' @ join '';'' (answer_params v ps)"
proof (cases ps)
  case Nil
  with assms(1) show ?thesis by (simp add: answer_fmtp_def answer_params_def param_text_def)
next
  case (Cons p qs)
  with assms(2) have "p \<noteq> []"
    using param_text_trimmed(3) key_oks(3) by (auto simp: capacity_text_def)
  then have "vm_extra v \<noteq> []" using assms(1) Cons by (cases qs) auto
  with assms(1) Cons show ?thesis
    by (simp add: answer_fmtp_def answer_params_def param_text_def join_Cons [of "p # qs"])
qed

lemma capacity_params_read:
  "list_all capacity_text ps \<Longrightarrow> fold fmtp_param ps (c, extra) = (c, extra @ ps)"
proof (induction ps arbitrary: extra)
  case Nil
  then show ?case by simp
next
  case (Cons p ps)
  then obtain k v where p: "p = param_text k v" "k \<in> set h264CapacityParams" "value_ok v"
    by (auto simp: capacity_text_def)
  have "fmtp_param p (c, extra) = (c, extra @ [p])"
    using p fmtp_param_read [of k v c extra] by (auto simp: h264CapacityParams_def)
  with Cons show ?case by simp
qed

lemma answer_params_read:
  assumes "value_ok (answer_profile v)" and "int_min \<le> answer_mode v" and "answer_mode v \<le> int_max"
    and "list_all capacity_text ps"
  shows "fold fmtp_param (split_on CHR '';'' (join '';'' (answer_params v ps))) (c, [])
    = (c\<lparr>ca_profile := answer_profile v, ca_mode := answer_mode v, ca_explicit := True\<rparr>, ps)"
proof -
  have "\<forall>p \<in> set ps. CHR '';'' \<notin> set p"
    using assms(4) param_text_trimmed(2) key_oks(3) by (auto simp: list_all_iff capacity_text_def)
  then have "\<forall>p \<in> set (answer_params v ps). CHR '';'' \<notin> set p"
    using assms(1) itoa_ok param_text_trimmed(2) by (auto simp: answer_params_def)
  then have "split_on CHR '';'' (join '';'' (answer_params v ps)) = answer_params v ps"
    by (intro split_join) (simp_all add: answer_params_def)
  moreover have "fmtp_param (param_text ''profile-level-id'' (answer_profile v)) (c, [])
      = (c\<lparr>ca_profile := answer_profile v\<rparr>, [])"
    using fmtp_param_read assms(1) by simp
  moreover have "fmtp_param (param_text ''packetization-mode'' (itoa (answer_mode v))) (c', [])
      = (c'\<lparr>ca_mode := answer_mode v, ca_explicit := True\<rparr>, [])" for c'
    using fmtp_param_read [of "''packetization-mode''"] itoa_ok assms(2,3) by (simp add: atoi_itoa)
  ultimately show ?thesis
    using capacity_params_read [OF assms(4)] by (simp add: answer_params_def)
qed

lemma itoa_split: "split_n CHR '' '' 2 (itoa n @ '' '' @ s) = [itoa n, s]"
  using split_n_two [of "CHR '' ''" "itoa n" s] itoa_no_space [of "CHR '' ''" n]
  by (auto simp: is_space_def)

lemma trim_itoa [simp]: "trim_space (itoa n) = itoa n"
  using itoa_ok [of n] by (simp add: value_ok_def trim_space_trimmed)

lemma rtpmap_read:
  assumes "int_min \<le> n" and "n \<le> int_max"
  shows "rtpmap_pt (attr ''rtpmap'' (rtpmap_value (itoa n))) = Some n"
proof -
  have "rtpmap_value (itoa n) = itoa n @ '' '' @ ''H264'' @ CHR ''/'' # itoa 90000"
    by (simp add: rtpmap_value_def h264SDPName_def VideoClockRate_def)
  moreover have "index_of CHR ''/'' (''H264'' @ CHR ''/'' # itoa 90000) = Some (length ''H264'')"
    by (rule index_of_append) simp
  ultimately show ?thesis
    using assms itoa_split [of n]
    by (simp add: rtpmap_pt_def attr_def h264SDPName_def atoi_itoa)
qed

lemma u8_int_range: "int_min \<le> uint (w :: u8) \<and> uint w \<le> int_max"
  using uint_lt2p [of w] by (auto simp: int_min_def int_max_def intro: order_trans [of _ 0])

lemma video_line_selected:
  assumes "value_ok (answer_profile v)" and "int_min \<le> answer_mode v" and "answer_mode v \<le> int_max"
    and "extra_ok (vm_extra v)"
  shows "selectH264 (video_line (itoa (uint (vc_type v))) (answer_fmtp v) port)
    = Some \<lparr>ca_pt = uint (vc_type v), ca_profile = answer_profile v, ca_mode = answer_mode v,
            ca_explicit = True, ca_extra = vm_extra v\<rparr>"
proof -
  let ?n = "uint (vc_type v)"
  obtain ps where ps: "vm_extra v = join '';'' ps" "list_all capacity_text ps"
    using assms(4) by (auto simp: extra_ok_def)
  have cands: "h264_candidates (video_line (itoa ?n) (answer_fmtp v) port) = [new_candidate ?n]"
    using rtpmap_read [of ?n] u8_int_range [of "vc_type v"]
    by (simp add: h264_candidates_def video_line_def List.map_filter_def attr_def rtpmap_pt_def)
  have "fmtp_attr (pt_index [new_candidate ?n]) (attr ''fmtp'' (answer_fmtp v)) [new_candidate ?n]
      = [\<lparr>ca_pt = ?n, ca_profile = answer_profile v, ca_mode = answer_mode v,
          ca_explicit = True, ca_extra = vm_extra v\<rparr>]"
    unfolding answer_fmtp_text [OF ps] fmtp_attr_def attr_def
    using answer_params_read [OF assms(1-3) ps(2)] ps(1)
    by (simp add: itoa_split [simplified] pt_index_def new_candidate_def)
  moreover have "fmtp_attr idx (attr k x) cs = cs" if "k \<noteq> ''fmtp''" for idx k x cs
    using that by (simp add: fmtp_attr_def attr_def)
  ultimately show ?thesis
    unfolding selectH264_def cands Let_def by (simp add: video_line_def)
qed

lemma parse_ok: "parseVideoSession pa s = Some v \<Longrightarrow> value_ok (vc_profile v) \<and> extra_ok (vm_extra v)
    \<and> int_min \<le> vc_mode v \<and> vc_mode v \<le> int_max \<and> vm_local_profile v = []"
  using selectH264_ok
  by (auto simp: parseVideoSession_def candidate_ok_def split: option.splits if_splits sum.splits)

lemma profile_values: "value_ok (h264ProfileLevelIDForResolution w h)"
    "value_ok defaultH264ProfileLevelID" "h264ProfileLevelIDForResolution w h \<noteq> []"
  by (auto simp: h264ProfileLevelIDForResolution_def defaultH264ProfileLevelID_def Let_def value_ok_def
      trimmed_def is_space_def)

lemma find_snoc_none: "find P xs = None \<Longrightarrow> P x \<Longrightarrow> find P (xs @ [x]) = Some x"
  by (induction xs) auto

lemma parse_own_answer:
  assumes "value_ok (answer_profile v)" and "int_min \<le> answer_mode v" and "answer_mode v \<le> int_max"
    and "extra_ok (vm_extra v)" and "findVideoMedia s = None" and "port \<noteq> 0"
    and "ss_conn s = Some (Some conn)" and "pa (trim_space conn) = Some a"
  shows "parseVideoSession pa (addVideoAnswer port v s)
    = Some \<lparr>vc_remote = \<lparr>ap_addr = a, ap_port = word_of_int port\<rparr>, vc_type = vc_type v,
            vc_profile = answer_profile v, vc_mode = answer_mode v, vc_clock = VideoClockRate,
            vm_local_profile = [], vm_extra = vm_extra v\<rparr>"
proof -
  let ?md = "video_line (itoa (uint (vc_type v))) (answer_fmtp v) port"
  have "is_video ?md" by (simp add: is_video_def video_line_def)
  then have "findVideoMedia (addVideoAnswer port v s) = Some ?md"
    using assms(5) by (simp add: findVideoMedia_def addVideoAnswer_def append_media_def find_snoc_none)
  moreover have "videoRemoteAddr pa (addVideoAnswer port v s) ?md
      = Inr \<lparr>ap_addr = a, ap_port = word_of_int port\<rparr>"
    using assms(7,8) by (simp add: videoRemoteAddr_def addVideoAnswer_def append_media_def video_line_def)
  moreover have "sm_port ?md = port" by (simp add: video_line_def)
  ultimately show ?thesis
    using video_line_selected [OF assms(1-4)] assms(6) by (simp add: parseVideoSession_def)
qed

section \<open>Properties\<close>

text \<open>
  C23. The video answer says what was negotiated: whatever H.264 offer was parsed, a peer that reads our
  answer with the same rules finds the payload type of the offer, its packetization mode (1 where it was 0 or
  absent), its capacity parameters, and our address and port. The profile it finds is the one for the
  resolution of our encoder where that was set; an answer without it, as to a re-INVITE, has the profile of
  the offer, or the default if the offer has none.
\<close>
theorem video_answer_roundtrip:
  assumes "parseVideoSession pa offer = Some v" and "findVideoMedia s = None" and "port \<noteq> 0"
    and "ss_conn s = Some (Some conn)" and "pa (trim_space conn) = Some a"
    and "own = (case resolution of None \<Rightarrow> [] | Some (w, h) \<Rightarrow> h264ProfileLevelIDForResolution w h)"
  shows "parseVideoSession pa (addVideoAnswer port (v\<lparr>vm_local_profile := own\<rparr>) s)
    = Some (v\<lparr>vc_remote := \<lparr>ap_addr = a, ap_port = word_of_int port\<rparr>,
              vc_profile := (case resolution of
                 Some (w, h) \<Rightarrow> h264ProfileLevelIDForResolution w h
               | None \<Rightarrow> if vc_profile v = [] then ''42e01f'' else vc_profile v),
              vc_mode := (if vc_mode v = 0 then 1 else vc_mode v)\<rparr>)"
proof -
  let ?v = "v\<lparr>vm_local_profile := own\<rparr>"
  have profile: "answer_profile ?v = (case resolution of
      Some (w, h) \<Rightarrow> h264ProfileLevelIDForResolution w h
    | None \<Rightarrow> if vc_profile v = [] then ''42e01f'' else vc_profile v)"
    using assms(6) by (auto simp: answer_profile_def profile_values defaultH264ProfileLevelID_def split: option.split)
  have "value_ok (answer_profile ?v)"
    using parse_ok [OF assms(1)] profile_values unfolding profile defaultH264ProfileLevelID_def
    by (simp split: option.split)
  moreover have "answer_mode ?v = (if vc_mode v = 0 then 1 else vc_mode v)"
    by (simp add: answer_mode_def defaultH264PacketizationMode_def)
  moreover have "vc_clock v = VideoClockRate"
    using assms(1) by (auto simp: parseVideoSession_def split: option.splits if_splits sum.splits)
  ultimately show ?thesis
    using parse_own_answer [of ?v s port conn pa a] parse_ok [OF assms(1)] assms(2-5) unfolding profile
    by (simp add: int_min_def int_max_def)
qed

definition sample_offer :: sdp_session where
  "sample_offer =
     \<lparr>ss_conn = Some (Some ''198.51.100.7''),
      ss_media = [\<lparr>sm_media = ''audio'', sm_port = 4000, sm_protos = [], sm_formats = [], sm_conn = None,
                   sm_attrs = []\<rparr>,
                  \<lparr>sm_media = ''video'', sm_port = 4002, sm_protos = [], sm_formats = [''97'', ''126''],
                   sm_conn = None,
                   sm_attrs = [attr ''rtpmap'' ''97 H264/90000'', attr ''fmtp'' ''97 packetization-mode=0'',
                     attr ''rtpmap'' ''126 H264/90000'',
                     attr ''fmtp'' ''126 profile-level-id=428014;max-fs=8160;packetization-mode=1'']\<rparr>],
      ss_rest = []\<rparr>"

definition sample_answer :: sdp_session where
  "sample_answer = \<lparr>ss_conn = Some (Some ''203.0.113.9''), ss_media = [], ss_rest = []\<rparr>"

definition sample_addr :: "string \<Rightarrow> addr option" where
  "sample_addr t = (if t = ''203.0.113.9'' then Some (IPv4 0xCB007109) else Some (IPv4 0xC6336407))"

lemma sample_read:
  "rtpmap_pt (attr ''rtpmap'' ''97 H264/90000'') = Some 97"
  "rtpmap_pt (attr ''rtpmap'' ''126 H264/90000'') = Some 126"
  "split_n CHR '' '' 2 ''97 packetization-mode=0'' = [''97'', ''packetization-mode=0'']"
  "split_n CHR '' '' 2 ''126 profile-level-id=428014;max-fs=8160;packetization-mode=1''
    = [''126'', ''profile-level-id=428014;max-fs=8160;packetization-mode=1'']"
  "split_on CHR '';'' ''profile-level-id=428014;max-fs=8160;packetization-mode=1''
    = [''profile-level-id=428014'', ''max-fs=8160'', ''packetization-mode=1'']"
  "split_on CHR '';'' ''packetization-mode=0'' = [''packetization-mode=0'']"
  "atoi ''0'' = (0, True)" "atoi ''1'' = (1, True)"
  "itoa 97 = ''97''" "itoa 126 = ''126''" "trim_space ''97'' = ''97''" "trim_space ''126'' = ''126''"
  by code_simp+

lemma sample_params:
  "fmtp_param ''profile-level-id=428014'' (c, x) = (c\<lparr>ca_profile := ''428014''\<rparr>, x)"
  "fmtp_param ''max-fs=8160'' (c, x) = (c, x @ [''max-fs=8160''])"
  "fmtp_param ''packetization-mode=1'' (c, x) = (c\<lparr>ca_mode := 1, ca_explicit := True\<rparr>, x)"
  "fmtp_param ''packetization-mode=0'' (c, x) = (c\<lparr>ca_mode := 0, ca_explicit := True\<rparr>, x)"
  using fmtp_param_read [of "''profile-level-id''" "''428014''" c x]
    fmtp_param_read [of "''max-fs''" "''8160''" c x]
    fmtp_param_read [of "''packetization-mode''" "''1''" c x]
    fmtp_param_read [of "''packetization-mode''" "''0''" c x]
  by (simp_all add: param_text_def value_ok_def trimmed_def is_space_def h264CapacityParams_def sample_read)

lemma sample_video: "findVideoMedia sample_offer = Some (ss_media sample_offer ! 1)"
  by code_simp

lemma sample_parsed:
  "parseVideoSession sample_addr sample_offer
    = Some \<lparr>vc_remote = \<lparr>ap_addr = IPv4 0xC6336407, ap_port = 4002\<rparr>, vc_type = 126,
            vc_profile = ''428014'', vc_mode = 1, vc_clock = 90000, vm_local_profile = [],
            vm_extra = ''max-fs=8160''\<rparr>"
proof -
  have "rtpmap_pt (attr ''fmtp'' x) = None" for x by (simp add: rtpmap_pt_def attr_def)
  then have "h264_candidates (ss_media sample_offer ! 1) = [new_candidate 97, new_candidate 126]"
    by (simp add: h264_candidates_def sample_offer_def List.map_filter_def sample_read)
  moreover have "fmtp_attr idx (attr ''rtpmap'' x) cs = cs" for idx x cs
    by (simp add: fmtp_attr_def attr_def)
  moreover have "fmtp_attr idx (attr ''fmtp'' x) cs = (case split_n CHR '' '' 2 x of
         [pt, ps] \<Rightarrow>
           (case idx (trim_space pt) of
              None \<Rightarrow> cs
            | Some i \<Rightarrow>
                (case fold fmtp_param (split_on CHR '';'' ps) (cs ! i, []) of
                   (c, extra) \<Rightarrow> cs[i := c\<lparr>ca_extra := join '';'' extra\<rparr>]))
       | _ \<Rightarrow> cs)" for idx x cs
    by (simp add: fmtp_attr_def attr_def)
  ultimately have "selectH264 (ss_media sample_offer ! 1)
      = Some \<lparr>ca_pt = 126, ca_profile = ''428014'', ca_mode = 1, ca_explicit = True, ca_extra = ''max-fs=8160''\<rparr>"
    unfolding selectH264_def Let_def
    by (simp add: sample_offer_def pt_index_def new_candidate_def sample_read sample_params better_def explicit_mode1_def)
  moreover have "videoRemoteAddr sample_addr sample_offer (ss_media sample_offer ! 1)
      = Inr \<lparr>ap_addr = IPv4 0xC6336407, ap_port = 4002\<rparr>"
  proof -
    have "trim_space ''198.51.100.7'' = ''198.51.100.7''" by code_simp
    then show ?thesis by (simp add: videoRemoteAddr_def sample_offer_def sample_addr_def)
  qed
  moreover have "sm_port (ss_media sample_offer ! 1) = 4002" by (simp add: sample_offer_def)
  ultimately show ?thesis by (simp add: parseVideoSession_def sample_video VideoClockRate_def)
qed

theorem video_answer_roundtrip_witness:
  "parseVideoSession sample_addr
     (addVideoAnswer 5002
        (\<lparr>vc_remote = \<lparr>ap_addr = IPv4 0xC6336407, ap_port = 4002\<rparr>, vc_type = 126,
          vc_profile = ''428014'', vc_mode = 1, vc_clock = 90000, vm_local_profile = [],
          vm_extra = ''max-fs=8160''\<rparr>\<lparr>vm_local_profile := h264ProfileLevelIDForResolution 1920 1080\<rparr>)
        sample_answer)
    = Some \<lparr>vc_remote = \<lparr>ap_addr = IPv4 0xCB007109, ap_port = 5002\<rparr>, vc_type = 126,
            vc_profile = ''42e028'', vc_mode = 1, vc_clock = 90000, vm_local_profile = [],
            vm_extra = ''max-fs=8160''\<rparr>"
proof -
  have "h264ProfileLevelIDForResolution 1920 1080 = ''42e028''" by code_simp
  moreover have "findVideoMedia sample_answer = None" by code_simp
  moreover have "ss_conn sample_answer = Some (Some ''203.0.113.9'')" by (simp add: sample_answer_def)
  moreover have "sample_addr (trim_space ''203.0.113.9'') = Some (IPv4 0xCB007109)" by code_simp
  ultimately show ?thesis
    using video_answer_roundtrip [OF sample_parsed, of sample_answer 5002 "''203.0.113.9''" "IPv4 0xCB007109"
        _ "Some (1920, 1080)"]
    by simp
qed

end
