(* ===== verification/Sdp_Offers.thy ===== *)
theory Sdp_Offers
  imports Video_Sdp Service_Config Termination_Class
begin

text \<open>
  What the service does to SDP texts before and after the SDP library: the crypto lines of an offer
  (\<open>pkg/sip/inbound.go\<close>) and the offer and answer steps of \<open>pkg/sip/media_port.go\<close>. Parsing, answering
  and printing belong to the library; they are parameters, and the library's own parsed offers and
  answers are opaque texts.
\<close>

section \<open>Crypto lines\<close>

abbreviation LF :: char where "LF \<equiv> CHR 0x0A"
abbreviation CR :: char where "CR \<equiv> CHR 0x0D"

text \<open>The replacement of a line, if it is a crypto line with session parameters.\<close>

definition crypto_line :: "string \<Rightarrow> string option" where
  "crypto_line line =
     (let raw = trim_suffix line [CR] in
      if \<not> has_prefix raw ''a=crypto:'' then None
      else (let parts = Go_Strings.fields raw in
            if length parts \<le> 3 then None
            else Some (join '' '' (take 3 parts) @ (if has_suffix line [CR] then [CR] else []))))"

definition sanitizeSDPCryptoSessionParams :: "string \<Rightarrow> string \<times> nat" where
  "sanitizeSDPCryptoSessionParams offer =
     (let rs = map (\<lambda>l. (l, crypto_line l)) (split_on LF offer);
          sanitized = length (filter (\<lambda>r. snd r \<noteq> None) rs)
      in if sanitized = 0 then (offer, 0)
         else (join [LF] (map (\<lambda>(l, r). case r of None \<Rightarrow> l | Some l' \<Rightarrow> l') rs), sanitized))"

section \<open>Offers and answers\<close>

text \<open>
  The library's functions, for one port and our address: an offer made for the codecs, an offer parsed and answered, an
  answer parsed and applied to the offer it answers, and the printing of a description. The errors of
  the library may be one of the two that the service distinguishes.
\<close>

type_synonym codec_set = "codec_base \<times> string list"

record sdp_lib =
  sl_new_offer :: "codec_set \<Rightarrow> encryption \<Rightarrow> err + (string \<times> sdp_session)"
  sl_parse_offer :: "codec_set \<Rightarrow> string \<Rightarrow> sdp_cause \<times> string + string"
  sl_answer :: "string \<Rightarrow> encryption \<Rightarrow> sdp_cause \<times> string + (sdp_session \<times> media_answer)"
  sl_parse_answer :: "codec_set \<Rightarrow> string \<Rightarrow> sdp_cause \<times> string + string"
  sl_apply :: "string \<Rightarrow> string \<Rightarrow> encryption \<Rightarrow> sdp_cause \<times> string + (sdp_session \<times> media_answer)"
  sl_unmarshal :: "string \<Rightarrow> err + sdp_session"
  sl_marshal :: "sdp_session \<Rightarrow> err + string"

text \<open>An error of the media setup: an \<open>SDPError\<close> with its cause, or any other.\<close>

datatype media_error = SDPError sdp_cause string | PlainError err

definition NewOffer :: "sdp_lib \<Rightarrow> codec_set \<Rightarrow> encryption \<Rightarrow> err + (string \<times> sdp_session)" where
  "NewOffer lib codecs enc = sl_new_offer lib codecs enc"

definition SetAnswer ::
  "sdp_lib \<Rightarrow> codec_set \<Rightarrow> string \<Rightarrow> string \<Rightarrow> encryption \<Rightarrow> media_error + (media_answer \<times> string)" where
  "SetAnswer lib codecs offer data enc = (case sl_parse_answer lib codecs data of
       Inl (c, m) \<Rightarrow> Inl (SDPError c m)
     | Inr answer \<Rightarrow>
         (case sl_apply lib answer offer enc of
            Inl (c, m) \<Rightarrow> Inl (SDPError c m)
          | Inr (local, mc) \<Rightarrow>
              (case sl_marshal lib local of
                 Inl e \<Rightarrow> Inl (PlainError e)
               | Inr bytes \<Rightarrow> Inr (mc, bytes))))"

definition SetOffer ::
  "sdp_lib \<Rightarrow> codec_set \<Rightarrow> string \<Rightarrow> encryption \<Rightarrow> media_error + (sdp_session \<times> media_answer)" where
  "SetOffer lib codecs data enc = (case sl_parse_offer lib codecs data of
       Inl (c, m) \<Rightarrow> Inl (SDPError c m)
     | Inr offer \<Rightarrow>
         (case sl_answer lib offer enc of
            Inl (c, m) \<Rightarrow> Inl (SDPError c m)
          | Inr (answer, mc) \<Rightarrow> Inr (answer, mc)))"

section \<open>Facts\<close>

definition crypto_clean :: "string \<Rightarrow> bool" where
  "crypto_clean line =
     (let raw = trim_suffix line [CR] in has_prefix raw ''a=crypto:'' \<longrightarrow> length (Go_Strings.fields raw) \<le> 3)"

definition sanitize_line :: "string \<Rightarrow> string" where
  "sanitize_line l = (case crypto_line l of None \<Rightarrow> l | Some l' \<Rightarrow> l')"

lemma crypto_line_None: "crypto_line l = None \<longleftrightarrow> crypto_clean l"
  by (auto simp: crypto_line_def crypto_clean_def Let_def)

definition word_of_text :: "string \<Rightarrow> bool" where
  "word_of_text w = (w \<noteq> [] \<and> list_all (\<lambda>c. \<not> is_space c) w)"

lemma fields_words: "list_all word_of_text (Go_Strings.fields s)"
  by (auto simp: list_all_iff word_of_text_def dest: fields_no_space fields_nonempty)

lemma fields_three:
  assumes "list_all word_of_text [a, b, c]"
  shows "Go_Strings.fields (join '' '' [a, b, c]) = [a, b, c]"
proof -
  have sp: "is_space CHR '' ''" by (simp add: is_space_def)
  have w: "fields_acc v (x @ CHR '' '' # s) = (v @ x) # fields_acc [] s"
    if "word_of_text x" for v x s
    using that sp by (simp add: word_of_text_def fields_acc_word list_all_iff)
  have l: "fields_acc [] c = [c]"
    using assms fields_acc_word [of c "[]" "[]"] by (auto simp: word_of_text_def list_all_iff)
  from assms show ?thesis by (simp add: Go_Strings.fields_def w l)
qed

lemma word_last: "word_of_text w \<Longrightarrow> \<not> has_suffix (x @ w) [CR]"
  by (cases w rule: rev_cases) (auto simp: word_of_text_def has_suffix_def has_prefix_def is_space_def)

lemma three_words_clean:
  assumes "list_all word_of_text [a, b, c]"
  shows "crypto_clean (join '' '' [a, b, c] @ (if cr then [CR] else []))"
    and "LF \<notin> set (join '' '' [a, b, c] @ (if cr then [CR] else []))"
proof -
  let ?j = "join '' '' [a, b, c]"
  have "\<not> has_suffix ?j [CR]"
    using word_last [of c "a @ '' '' @ b @ '' ''"] assms by simp
  then have raw: "trim_suffix (?j @ (if cr then [CR] else [])) [CR] = ?j"
    using trim_suffix_append [of ?j "[CR]"] by (cases cr) (simp_all add: trim_suffix_def)
  show "crypto_clean (?j @ (if cr then [CR] else []))"
    unfolding crypto_clean_def Let_def raw fields_three [OF assms] by simp
  have "\<not> is_space LF \<Longrightarrow> False" by (simp add: is_space_def)
  with assms show "LF \<notin> set (?j @ (if cr then [CR] else []))"
    by (auto simp: word_of_text_def list_all_iff)
qed

lemma take_three: "\<not> length xs \<le> 3 \<Longrightarrow> \<exists>a b c r. xs = a # b # c # r"
  by (cases xs; cases "tl xs"; cases "tl (tl xs)") auto

lemma sanitize_line_clean:
  assumes "LF \<notin> set l"
  shows "crypto_clean (sanitize_line l)" and "LF \<notin> set (sanitize_line l)"
proof -
  have "crypto_clean (sanitize_line l) \<and> LF \<notin> set (sanitize_line l)"
  proof (cases "crypto_clean l")
    case True
    with assms show ?thesis by (simp add: sanitize_line_def crypto_line_None [THEN iffD2])
  next
    case False
    then have "\<not> length (Go_Strings.fields (trim_suffix l [CR])) \<le> 3"
      by (auto simp: crypto_clean_def Let_def)
    then obtain a b c r where f: "Go_Strings.fields (trim_suffix l [CR]) = a # b # c # r"
      using take_three by metis
    have w: "list_all word_of_text [a, b, c]"
      using fields_words [of "trim_suffix l [CR]"] unfolding f by simp
    have "sanitize_line l = join '' '' [a, b, c] @ (if has_suffix l [CR] then [CR] else [])"
      using False by (auto simp: sanitize_line_def crypto_line_def crypto_clean_def Let_def f)
    with three_words_clean [OF w, of "has_suffix l [CR]"] show ?thesis by simp
  qed
  then show "crypto_clean (sanitize_line l)" "LF \<notin> set (sanitize_line l)" by simp_all
qed

lemma count_crypto_lines:
  "length (filter (\<lambda>r. snd r \<noteq> None) (map (\<lambda>l. (l, crypto_line l)) ls))
    = count_by (\<lambda>l. \<not> crypto_clean l) ls"
  by (induction ls) (simp_all add: crypto_line_None [symmetric])

lemma replace_crypto_lines:
  "map (\<lambda>(l, r). case r of None \<Rightarrow> l | Some l' \<Rightarrow> l') (map (\<lambda>l. (l, crypto_line l)) ls)
    = map sanitize_line ls"
  by (induction ls) (simp_all add: sanitize_line_def)

lemma sanitize_line_id: "crypto_clean l \<Longrightarrow> sanitize_line l = l"
  by (simp add: sanitize_line_def crypto_line_None [THEN iffD2])

lemma sanitize_eq:
  "sanitizeSDPCryptoSessionParams d
    = (join [LF] (map sanitize_line (split_on LF d)), count_by (\<lambda>l. \<not> crypto_clean l) (split_on LF d))"
proof (cases "count_by (\<lambda>l. \<not> crypto_clean l) (split_on LF d) = 0")
  case True
  then have "map sanitize_line (split_on LF d) = split_on LF d"
    by (intro map_idI) (auto simp: count_by_zero_iff sanitize_line_id)
  with True show ?thesis
    unfolding sanitizeSDPCryptoSessionParams_def Let_def count_crypto_lines by simp
next
  case False
  then show ?thesis
    unfolding sanitizeSDPCryptoSessionParams_def Let_def count_crypto_lines replace_crypto_lines
    by simp
qed

lemma sanitize_lines:
  "split_on LF (fst (sanitizeSDPCryptoSessionParams d)) = map sanitize_line (split_on LF d)"
proof -
  have "\<forall>l \<in> set (map sanitize_line (split_on LF d)). LF \<notin> set l"
    using sanitize_line_clean(2) split_on_no_sep by fastforce
  then show ?thesis unfolding sanitize_eq fst_conv by (intro split_join) simp_all
qed

definition clean :: "string \<Rightarrow> string" where
  "clean d = fst (sanitizeSDPCryptoSessionParams d)"

section \<open>Property\<close>

text \<open>
  C29. The crypto lines of an offer are brought into the form the parser takes, and nothing else is
  touched: the sanitised offer has the same lines one for one, a line is changed only if it is a crypto
  line with more than three fields, afterwards no such line is left, and sanitising again changes
  nothing.
\<close>
theorem offer_sanitised:
  "split_on LF (clean d)
           = map (\<lambda>l. if crypto_clean l then l
               else join '' '' (take 3 (Go_Strings.fields (trim_suffix l [CR])))
                    @ (if has_suffix l [CR] then [CR] else [])) (split_on LF d)
         \<and> list_all crypto_clean (split_on LF (clean d))
         \<and> snd (sanitizeSDPCryptoSessionParams d) = count_by (\<lambda>l. \<not> crypto_clean l) (split_on LF d)
         \<and> sanitizeSDPCryptoSessionParams (clean d) = (clean d, 0)"
proof -
  let ?cut = "\<lambda>l. join '' '' (take 3 (Go_Strings.fields (trim_suffix l [CR])))
                  @ (if has_suffix l [CR] then [CR] else [])"
  have eq: "sanitize_line l = (if crypto_clean l then l else ?cut l)" for l
    by (simp add: sanitize_line_def crypto_line_def crypto_clean_def Let_def)
  have clean: "list_all crypto_clean (split_on LF (clean d))"
    unfolding clean_def sanitize_lines list_all_iff
    using sanitize_line_clean(1) split_on_no_sep by fastforce
  have "map sanitize_line (split_on LF (clean d)) = split_on LF (clean d)"
    using clean by (intro map_idI) (simp add: list_all_iff sanitize_line_id)
  moreover have "count_by (\<lambda>l. \<not> crypto_clean l) (split_on LF (clean d)) = 0"
    using clean by (simp add: count_by_zero_iff list_all_iff)
  ultimately have again: "sanitizeSDPCryptoSessionParams (clean d) = (clean d, 0)"
    by (simp add: sanitize_eq)
  have lines: "split_on LF (clean d)
      = map (\<lambda>l. if crypto_clean l then l else ?cut l) (split_on LF d)"
    unfolding clean_def sanitize_lines by (rule map_cong [OF refl eq])
  from again clean lines show ?thesis by (simp add: sanitize_eq)
qed

end
