(* ===== verification/Inbound_Call.thy ===== *)
theory Inbound_Call
  imports Inbound_Server Sdp_Offers
begin

text \<open>
  \<open>inboundCall\<close> of \<open>pkg/sip/inbound.go\<close>: the operations of one inbound call. A call owns the dialog, the
  media port, the monitor and the reported state of the earlier theories and changes them through their
  operations; what it does to the room, the tables of the server and the control plane are effects.

  Where the code blocks, the operation is given the event it wakes up with. The next theory composes
  the operations as \<open>handleInvite\<close> does. The room is known by its name and id once it is joined; its
  attributes are kept in the dialog, which maps them to headers. Logs, statistics, and the watchdog that
  counts a \<open>close\<close> of more than five minutes are left out.
\<close>

section \<open>State\<close>

datatype dispatch_result =
    DispatchAccept | DispatchRequestPin | DispatchNoRuleReject | DispatchNoRuleDrop
  | DispatchServiceUnavailable | DispatchOther nat

record call_dispatch =
  cd_result :: dispatch_result
  cd_room :: string
  cd_identity :: string
  cd_name :: string
  cd_attrs :: "str_map option"
  cd_project :: string
  cd_trunk :: string
  cd_rule :: string
  cd_headers :: "str_map option"
  cd_hdr_to_attr :: str_entries
  cd_include :: header_options
  cd_attr_to_hdr :: str_entries
  cd_ringing :: nanos
  cd_max_duration :: nanos
  cd_media :: media_request

record inbound_call =
  ic_cc :: sip_inbound
  ic_mon :: call_monitor
  ic_state :: call_state
  ic_lk_call_id :: string
  ic_sip_call_id :: string
  ic_extra_attrs :: str_map
  ic_ctx_done :: bool
  ic_close_reason :: "reason_header option"
  ic_media :: "(media_port \<times> timeout_state) option"
  ic_dtmf :: string
  ic_room :: "(string \<times> string) option"
  ic_forward_dtmf :: bool
  ic_done :: bool
  ic_started :: bool
  ic_times :: signaling_timestamps
  ic_jitter :: bool
  ic_project :: string
  ic_video :: bool

datatype prompt = EnterPin | WrongPin | RoomJoin

datatype call_effect =
    OnDialog dlg_effect | OnMetric metric | OnReport state_effect | OnPort port_effect
  | AddTag string | DropTag string
  | AskDispatch string bool | Play prompt
  | RegisterTransfer string | DeregisterTransfer string
  | RoomConnect string "str_map" | RoomStatus string | RoomSubscribe | RoomTrack | RoomVideoTrack
  | RoomKeyFrame | RoomSendDtmf char | RoomOutput bool | RoomDtmfOutput | RoomVideoOutput | RoomClose
  | PortOut bool | WriterClosed | PlayDialTone
  | SessionEnd string string string string
  | CancelCall | ScheduleClose nanos

text \<open>
  Configuration and libraries. \<open>ce_rpc\<close> tells whether a report of the state succeeds, \<open>ce_bye_answer\<close>
  is the final response a BYE gets, \<open>ce_video_size\<close> the size of the composited video,
  \<open>ce_codec_name\<close> the SDP name of the negotiated codec, \<open>ce_status_attr\<close> the LiveKit attribute of the
  call status.
\<close>

record call_env =
  ce_dialog :: dialog_env
  ce_names :: attr_names
  ce_header_to_attr :: str_entries
  ce_status_attr :: string
  ce_codecs :: codec_names
  ce_sdp :: sdp_lib
  ce_parse_addr :: "string \<Rightarrow> addr option"
  ce_timeout_initial :: nanos
  ce_timeout :: nanos
  ce_default_initial :: nanos
  ce_default_general :: nanos
  ce_opts :: media_opts
  ce_symmetric :: bool
  ce_dtmf_audio :: bool
  ce_processor :: bool
  ce_video :: bool
  ce_video_size :: "int \<times> int"
  ce_codec_name :: "media_answer \<Rightarrow> string"
  ce_handler :: bool
  ce_rpc :: "call_info \<Rightarrow> bool"
  ce_bye_answer :: "int option"

type_synonym call_result = "inbound_call \<times> call_effect list"

definition remote_view :: "sip_inbound \<Rightarrow> signaling_view" where
  "remote_view cc =
     \<lparr>sv_headers = (case si_invite cc of None \<Rightarrow> [] | Some ivt \<Rightarrow> rq_headers ivt),
      sv_tag = si_tag cc, sv_call_id = si_call_id cc\<rparr>"

text \<open>
  \<open>newInboundCall\<close>, and \<open>SetCall\<close>, which gives the dialog access to the call. \<open>jitter\<close> is the outcome
  of the draw for the jitter buffer.
\<close>

definition newInboundCall ::
  "call_env \<Rightarrow> bool \<Rightarrow> string \<Rightarrow> string \<Rightarrow> call_monitor \<Rightarrow> sip_inbound \<Rightarrow> call_state \<Rightarrow> signaling_timestamps
    \<Rightarrow> call_result" where
  "newInboundCall env jitter lk_id sip_id mon cc state ts =
     (\<lparr>ic_cc = cc, ic_mon = mon, ic_state = state, ic_lk_call_id = lk_id, ic_sip_call_id = sip_id,
       ic_extra_attrs = HeadersToAttrs (ce_names env) (ce_header_to_attr env) None [] SIP_NO_HEADERS
                          (Some (remote_view cc)) [],
       ic_ctx_done = False, ic_close_reason = None, ic_media = None, ic_dtmf = [], ic_room = None,
       ic_forward_dtmf = False, ic_done = False, ic_started = False, ic_times = ts,
       ic_jitter = jitter, ic_project = [], ic_video = False\<rparr>,
      [AddTag (si_id cc)])"

text \<open>An operation of the dialog, of the monitor or of the state, within the call.\<close>

definition on_dialog :: "(sip_inbound \<Rightarrow> sip_inbound \<times> dlg_effect list) \<Rightarrow> inbound_call \<Rightarrow> call_result" where
  "on_dialog f c = (case f (ic_cc c) of (cc, es) \<Rightarrow> (c\<lparr>ic_cc := cc\<rparr>, map OnDialog es))"

definition on_monitor :: "(call_monitor \<Rightarrow> call_monitor \<times> metric list) \<Rightarrow> inbound_call \<Rightarrow> call_result" where
  "on_monitor f c = (case f (ic_mon c) of (m, es) \<Rightarrow> (c\<lparr>ic_mon := m\<rparr>, map OnMetric es))"

definition on_report :: "(call_state \<Rightarrow> call_state \<times> state_effect list) \<Rightarrow> inbound_call \<Rightarrow> call_result" where
  "on_report f c = (case f (ic_state c) of (s, es) \<Rightarrow> (c\<lparr>ic_state := s\<rparr>, map OnReport es))"

definition report_update :: "call_env \<Rightarrow> (call_info \<Rightarrow> call_info) \<Rightarrow> inbound_call \<Rightarrow> call_result" where
  "report_update env upd c =
     on_report (Update upd (ce_rpc env (upd (cs_info (ic_state c))))) c"

section \<open>Closing the call\<close>

definition setStatus :: "call_status \<Rightarrow> inbound_call \<Rightarrow> call_effect list" where
  "setStatus v c =
     (if Attribute v = [] then []
      else (case ic_room c of None \<Rightarrow> [] | Some r \<Rightarrow> [RoomStatus (Attribute v)]))"

definition closeMedia :: "inbound_call \<Rightarrow> call_result" where
  "closeMedia c = (case ic_media c of
       None \<Rightarrow> (c, [RoomClose])
     | Some (p, t) \<Rightarrow>
         (case Port_Close () p of (p', es) \<Rightarrow> (c\<lparr>ic_media := Some (p', t)\<rparr>, RoomClose # map OnPort es)))"

text \<open>\<open>close\<close>: the compare-and-swap of \<open>done\<close> lets the first caller through.\<close>

definition close_call :: "call_env \<Rightarrow> call_status \<times> termination_class \<Rightarrow> inbound_call \<Rightarrow> call_result" where
  "close_call env a c = (case a of (status, t) \<Rightarrow>
     if ic_done c then (c, [])
     else
       andThen (andThen (andThen (andThen
         (c\<lparr>ic_done := True\<rparr>, setStatus status c)
         (on_monitor (CallTerminate t)))
         (on_dialog (CloseWithStatus (ce_dialog env) (fst (SIPStatus status)) (snd (SIPStatus status))
                       (ce_bye_answer env))))
         closeMedia)
         (\<lambda>c. (c\<lparr>ic_ctx_done := True\<rparr>,
            [DropTag (si_id (ic_cc c)), DeregisterTransfer (si_id (ic_cc c))]
            @ (if ce_handler env
               then [SessionEnd (ic_project c) (ic_lk_call_id c) (ic_sip_call_id c) (t_reason t)] else [])
            @ [CancelCall])))"

definition media_timeout_err :: err where
  "media_timeout_err = PsErr PsDeadlineExceeded ''media-timeout'' None"

definition defer_report :: "(call_info \<Rightarrow> call_info) \<Rightarrow> inbound_call \<Rightarrow> inbound_call" where
  "defer_report upd c = c\<lparr>ic_state := fst (DeferUpdate upd (ic_state c))\<rparr>"

definition closeWithTimeout :: "call_env \<Rightarrow> bool \<Rightarrow> inbound_call \<Rightarrow> call_result" where
  "closeWithTimeout env isError c =
     (if isError then close_call env (callDropped, ServerError ''media-timeout'') c
      else close_call env (callHangupMedia, ServerError ''media-timeout'')
             (defer_report (\<lambda>i. if ci_error i = [] then i\<lparr>ci_error := err_msg media_timeout_err\<rparr> else i) c))"

definition closeWithNoACK :: "call_env \<Rightarrow> inbound_call \<Rightarrow> call_result" where
  "closeWithNoACK env c = close_call env (callNoACK, ServerError ''no-ack'') c"

definition closeWithReason ::
  "call_env \<Rightarrow> call_status \<Rightarrow> termination_class \<Rightarrow> reason_header \<Rightarrow> inbound_call \<Rightarrow> call_result" where
  "closeWithReason env status t reason c =
     close_call env
       (status,
        if rs_type reason \<noteq> [] \<and> \<not> IsNormal reason
        then t\<lparr>t_reason := ''bye-'' @ to_lower (rs_type reason) @ ''-'' @ itoa (rs_cause reason)\<rparr> else t)
       (defer_report (\<lambda>i0. let i = i0\<lparr>ci_disconnect := DR_CLIENT_INITIATED\<rparr> in
            if ci_error i = [] \<and> \<not> IsNormal reason then i\<lparr>ci_error := ReasonHeader_String reason\<rparr> else i) c)"

definition stored_reason :: "inbound_call \<Rightarrow> reason_header" where
  "stored_reason c = (case ic_close_reason c of None \<Rightarrow> zero_reason | Some r \<Rightarrow> r)"

definition closeWithCancelled :: "call_env \<Rightarrow> inbound_call \<Rightarrow> call_result" where
  "closeWithCancelled env c = closeWithReason env CallCancelled (Success ''cancelled'') (stored_reason c) c"

definition closeWithHangup :: "call_env \<Rightarrow> inbound_call \<Rightarrow> call_result" where
  "closeWithHangup env c = closeWithReason env CallHangup (Success ''hangup'') (stored_reason c) c"

definition Call_Close :: "inbound_call \<Rightarrow> call_result" where
  "Call_Close c = (c\<lparr>ic_ctx_done := True\<rparr>, [CancelCall])"

definition Bye :: "reason_header \<Rightarrow> inbound_call \<Rightarrow> call_result" where
  "Bye reason c = Call_Close (c\<lparr>ic_close_reason := Some reason\<rparr>)"

definition Shutdown :: "call_env \<Rightarrow> inbound_call \<Rightarrow> call_result" where
  "Shutdown env c = close_call env (callDropped, ServerError ''shutdown'') c"

definition errNoACK :: string where
  "errNoACK = ''no ACK received for 200 OK''"

text \<open>\<open>mediaTimeout\<close>, with the error it returns.\<close>

definition mediaTimeout :: "call_env \<Rightarrow> inbound_call \<Rightarrow> call_result \<times> err option" where
  "mediaTimeout env c =
     (if \<not> si_acked (ic_cc c) then (closeWithNoACK env c, Some (perr PsDeadlineExceeded errNoACK))
      else (closeWithTimeout env False c, None))"

section \<open>Waiting\<close>

text \<open>
  What ends a wait: the caller cancels, the context of the call is done, the room is closed, the media
  times out, the timer of the wait fires, or what is waited for happens.
\<close>

datatype wait_end = CallerCancelled | ContextDone | RoomGone | MediaSilent | TimerFired | Arrived

definition room_closed_err :: err where
  "room_closed_err = perr PsCanceled ''room closed''"

text \<open>The result tells whether the call goes on, and the error it stops with otherwise.\<close>

type_synonym wait_result = "call_result \<times> bool \<times> err option"

definition waitMedia :: "call_env \<Rightarrow> wait_end \<Rightarrow> inbound_call \<Rightarrow> wait_result" where
  "waitMedia env e c = (case e of
       CallerCancelled \<Rightarrow> (closeWithCancelled env c, False, None)
     | ContextDone \<Rightarrow> (closeWithHangup env c, False, None)
     | RoomGone \<Rightarrow> (closeWithHangup env c, False, Some room_closed_err)
     | MediaSilent \<Rightarrow> (case mediaTimeout env c of (r, err) \<Rightarrow> (r, False, err))
     | TimerFired \<Rightarrow> ((c, []), True, None)
     | Arrived \<Rightarrow> ((c, []), True, None))"

definition waitSubscribe :: "call_env \<Rightarrow> wait_end \<Rightarrow> inbound_call \<Rightarrow> wait_result" where
  "waitSubscribe env e c = (case e of
       CallerCancelled \<Rightarrow> (closeWithCancelled env c, False, None)
     | ContextDone \<Rightarrow> (closeWithHangup env c, False, None)
     | RoomGone \<Rightarrow> (closeWithHangup env c, False, Some room_closed_err)
     | MediaSilent \<Rightarrow> (case mediaTimeout env c of (r, err) \<Rightarrow> (r, False, err))
     | TimerFired \<Rightarrow> (close_call env (callDropped, ServerError ''cannot-subscribe'') c, False,
                     Some (perr PsDeadlineExceeded ''room subscription timed out''))
     | Arrived \<Rightarrow> ((c, []), True, None))"

section \<open>The pin prompt\<close>

definition pinLimit :: nat where
  "pinLimit = 16"

datatype pin_event = PinCancelled | PinContextDone | PinMediaTimeout | PinToneClosed | PinTone char

datatype pin_verdict = MorePin string | PinOk call_dispatch | PinFailed "err option"

text \<open>Go's \<open>string(b)\<close> of a byte is its UTF-8 encoding as a code point.\<close>

definition rune_string :: "char \<Rightarrow> string" where
  "rune_string b = (let n = (of_char b :: nat) in
     if n < 128 then [b] else [char_of (192 + n div 64), char_of (128 + n mod 64)])"

definition note_dispatch :: "call_dispatch \<Rightarrow> inbound_call \<Rightarrow> inbound_call" where
  "note_dispatch d c = (if cd_project d \<noteq> [] then c\<lparr>ic_project := cd_project d\<rparr> else c)"

text \<open>The end of the pin: \<open>ask\<close> is the control plane's answer for a pin and the no-pin flag.\<close>

definition check_pin ::
  "call_env \<Rightarrow> (string \<Rightarrow> bool \<Rightarrow> call_dispatch) \<Rightarrow> string \<Rightarrow> inbound_call \<Rightarrow> call_result \<times> pin_verdict" where
  "check_pin env ask pin c =
     (let noPin = (pin = []); d = ask pin noPin; c1 = note_dispatch d c; asked = [AskDispatch pin noPin] in
      if cd_result d = DispatchServiceUnavailable
      then (andThen (c1, asked) (close_call env (callDropped, ServerError ''dispatch-error'')),
            PinFailed (Some (perr PsUnavailable ''dispatch rule evaluation unavailable'')))
      else if cd_result d \<noteq> DispatchAccept \<or> cd_room d = []
      then (andThen (c1, asked @ [Play WrongPin]) (close_call env (callDropped, ClientError ''wrong-pin'')),
            PinFailed (Some (perr PsPermissionDenied ''wrong pin'')))
      else ((c1, asked @ [Play RoomJoin]), PinOk d))"

definition pin_step ::
  "call_env \<Rightarrow> (string \<Rightarrow> bool \<Rightarrow> call_dispatch) \<Rightarrow> pin_event \<Rightarrow> string \<Rightarrow> inbound_call
    \<Rightarrow> call_result \<times> pin_verdict" where
  "pin_step env ask e pin c = (case e of
       PinCancelled \<Rightarrow> (closeWithCancelled env c, PinFailed None)
     | PinContextDone \<Rightarrow> (closeWithHangup env c, PinFailed None)
     | PinMediaTimeout \<Rightarrow> (case mediaTimeout env c of (r, err) \<Rightarrow> (r, PinFailed err))
     | PinToneClosed \<Rightarrow> (Call_Close c, PinFailed (Some (perr PsCanceled ''failed reading DTMF event'')))
     | PinTone b \<Rightarrow>
         if b = CHR 0x00 then ((c, []), MorePin pin)
         else if b = CHR 0x23 then check_pin env ask pin c
         else (let pin' = pin @ rune_string b in
               if length pin' > pinLimit
               then (andThen (c, [Play WrongPin]) (close_call env (callDropped, ClientError ''wrong-pin'')),
                     PinFailed (Some (perr PsPermissionDenied ''wrong pin'')))
               else ((c, []), MorePin pin')))"

fun pin_loop ::
  "call_env \<Rightarrow> (string \<Rightarrow> bool \<Rightarrow> call_dispatch) \<Rightarrow> pin_event list \<Rightarrow> string \<Rightarrow> inbound_call
    \<Rightarrow> call_result \<times> pin_verdict" where
  "pin_loop env ask [] pin c = ((c, []), MorePin pin)"
| "pin_loop env ask (e # es) pin c = (case pin_step env ask e pin c of
       ((c1, out), MorePin pin') \<Rightarrow>
         (case pin_loop env ask es pin' c1 of ((c2, out'), v) \<Rightarrow> ((c2, out @ out'), v))
     | r \<Rightarrow> r)"

definition pinPrompt ::
  "call_env \<Rightarrow> (string \<Rightarrow> bool \<Rightarrow> call_dispatch) \<Rightarrow> pin_event list \<Rightarrow> inbound_call
    \<Rightarrow> call_result \<times> pin_verdict" where
  "pinPrompt env ask es c =
     (case pin_loop env ask es [] c of ((c1, out), v) \<Rightarrow> ((c1, Play EnterPin # out), v))"

text \<open>\<open>handleDTMF\<close>: tones go to the room once it is joined, before that to a buffer of ten.\<close>

definition handleDTMF :: "char \<Rightarrow> inbound_call \<Rightarrow> call_result" where
  "handleDTMF digit c =
     (if ic_forward_dtmf c then (c, [RoomSendDtmf digit])
      else if length (ic_dtmf c) < 10 then (c\<lparr>ic_dtmf := ic_dtmf c @ [digit]\<rparr>, []) else (c, []))"

section \<open>Media\<close>

text \<open>
  The outcomes of the media setup that are not ours: the clock, the sockets that are found, whether
  sessions, streams and the compositor can be opened, our video port, and whether the feature flags of
  the dispatch ask for logs of the signal.
\<close>

record media_probe =
  pb_now :: nanos
  pb_audio :: bool
  pb_video :: bool
  pb_session :: bool
  pb_write :: bool
  pb_video_write :: bool
  pb_compositor :: bool
  pb_video_port :: int
  pb_log_signal :: bool

definition on_port :: "(media_port \<Rightarrow> media_port \<times> port_effect list) \<Rightarrow> inbound_call \<Rightarrow> call_result" where
  "on_port f c = (case ic_media c of
       None \<Rightarrow> (c, [])
     | Some (p, t) \<Rightarrow> (case f p of (p', es) \<Rightarrow> (c\<lparr>ic_media := Some (p', t)\<rparr>, map OnPort es)))"

definition on_timeout :: "(timeout_state \<Rightarrow> timeout_state) \<Rightarrow> inbound_call \<Rightarrow> inbound_call" where
  "on_timeout f c = c\<lparr>ic_media := map_option (\<lambda>(p, t). (p, f t)) (ic_media c)\<rparr>"

text \<open>
  \<open>setupVideo\<close>: the answer with its video line, and whether video is on. Its error is only logged.
\<close>

definition setupVideo ::
  "call_env \<Rightarrow> media_probe \<Rightarrow> string \<Rightarrow> sdp_session \<Rightarrow> inbound_call \<Rightarrow> call_result \<times> sdp_session" where
  "setupVideo env pb offer answer c = (case sl_unmarshal (ce_sdp env) offer of
       Inl e \<Rightarrow> ((c, []), answer)
     | Inr s \<Rightarrow>
         (case findVideoMedia s of
            None \<Rightarrow> ((c, []), answer)
          | Some offered \<Rightarrow>
              if sm_port offered = 0 then ((c, []), answer)
              else (case parseVideoSession (ce_parse_addr env) s of
                 None \<Rightarrow> ((c, []), rejectVideo offered answer)
               | Some v \<Rightarrow>
                   (case ic_media c of
                      None \<Rightarrow> ((c, []), answer)
                    | Some (p, t) \<Rightarrow>
                        (case SetVideoConfig (pb_video_write pb) (pb_now pb) (Some (video_conf.truncate v)) p of
                           (p', es, Some e) \<Rightarrow>
                             ((c\<lparr>ic_media := Some (p', t)\<rparr>, map OnPort es), rejectVideo offered answer)
                         | (p', es, None) \<Rightarrow>
                             (let c1 = c\<lparr>ic_media := Some (p', t)\<rparr>;
                                  v1 = v\<lparr>vm_local_profile := h264ProfileLevelIDForResolution
                                           (fst (ce_video_size env)) (snd (ce_video_size env))\<rparr> in
                              if \<not> pb_compositor pb
                              then ((c1, map OnPort es), rejectVideo offered answer)
                              else ((c1\<lparr>ic_video := True\<rparr>, map OnPort es @ [RoomVideoOutput]),
                                    addVideoAnswer (pb_video_port pb) v1 answer)))))))"

text \<open>
  \<open>runMediaConn\<close>: a new port, the answer to the offer, the configuration, the room's output. The error
  of \<open>NewMediaPort\<close> is \<open>no_port\<close>.
\<close>

definition no_port :: err where
  "no_port = OtherErr ''no free port''"

definition apply_config ::
  "call_env \<Rightarrow> media_probe \<Rightarrow> media_answer \<Rightarrow> string \<Rightarrow> inbound_call \<Rightarrow> call_result \<times> (media_error + string)" where
  "apply_config env pb mc answer c = (case ic_media c of
       None \<Rightarrow> ((c, []), Inl (PlainError no_port))
     | Some (p, t) \<Rightarrow>
         (case Port_SetConfig (pb_session pb) (pb_write pb) (pb_now pb) mc p of
            (p1, es, Some e) \<Rightarrow> ((c\<lparr>ic_media := Some (p1, t)\<rparr>, map OnPort es), Inl (PlainError (OtherErr e)))
          | (p1, es, None) \<Rightarrow>
              (let p2 = p1\<lparr>mp_conf := Some (mc\<lparr>an_processor := ce_processor env\<rparr>)\<rparr>;
                   p3 = (if an_dtmf mc \<noteq> 0 then HandleDTMF True p2 else p2);
                   c1 = defer_report (\<lambda>i. i\<lparr>ci_audio_codec := ce_codec_name env mc\<rparr>)
                          (c\<lparr>ic_media := Some (p3, t)\<rparr>)
               in ((c1, map OnPort es @ RoomOutput True # (if an_dtmf mc \<noteq> 0 then [RoomDtmfOutput] else [])),
                   Inr answer))))"

definition new_port :: "call_env \<Rightarrow> media_conf \<Rightarrow> media_probe \<Rightarrow> inbound_call \<Rightarrow> call_result \<times> bool" where
  "new_port env mconf pb c =
     (case NewMediaPortWith (pb_audio pb) (pb_video pb) (ce_video env) (ce_symmetric env)
             (ce_default_initial env) (ce_default_general env) (ce_timeout_initial env) (me_timeout mconf)
             ((ce_opts env)\<lparr>op_jitter := ic_jitter c, op_log_signal := pb_log_signal pb\<rparr>) of
        (None, es) \<Rightarrow> ((c, map OnPort es), False)
      | (Some (p, t), es) \<Rightarrow>
          ((c\<lparr>ic_media := Some (p\<lparr>mp_opts := (mp_opts p)\<lparr>op_dtmf_audio := ce_dtmf_audio env\<rparr>\<rparr>,
                              disableTimeout t)\<rparr>,
            map OnPort es @ [PortOut False]), True))"

definition negotiate ::
  "call_env \<Rightarrow> media_conf \<Rightarrow> media_probe \<Rightarrow> string \<Rightarrow> inbound_call \<Rightarrow> call_result \<times> (media_error + string)" where
  "negotiate env mconf pb offer c =
     (case SetOffer (ce_sdp env) (me_base mconf, me_enabled mconf) offer (me_encryption mconf) of
        Inl e \<Rightarrow> ((c, []), Inl e)
      | Inr (answer0, mc) \<Rightarrow>
          (case (if ce_video env \<and> VideoEnabled (map_option fst (ic_media c))
                 then setupVideo env pb offer answer0 c else ((c, []), answer0)) of
             ((c1, es1), answer) \<Rightarrow>
               (case sl_marshal (ce_sdp env) answer of
                  Inl e \<Rightarrow> ((c1, es1), Inl (PlainError e))
                | Inr bytes \<Rightarrow>
                    (case apply_config env pb mc bytes c1 of
                       ((c2, es2), r) \<Rightarrow>
                         ((c2, es1 @ map OnMetric (SDPSize (length bytes) False) @ es2), r)))))"

definition runMediaConn ::
  "call_env \<Rightarrow> media_conf \<Rightarrow> media_probe \<Rightarrow> string \<Rightarrow> inbound_call \<Rightarrow> call_result \<times> (media_error + string)" where
  "runMediaConn env mconf pb offer c =
     (let sz = map OnMetric (SDPSize (length offer) True) in
      case new_port env mconf pb c of
        ((c1, es1), False) \<Rightarrow> ((c1, sz @ es1), Inl (PlainError no_port))
      | ((c1, es1), True) \<Rightarrow>
          (case negotiate env mconf pb (fst (sanitizeSDPCryptoSessionParams offer)) c1 of
             ((c2, es2), r) \<Rightarrow> ((c2, sz @ es1 @ es2), r)))"

text \<open>The rejection for an error of the media setup: the code, and how the call is closed.\<close>

definition media_failure :: "media_error \<Rightarrow> int \<times> call_status \<times> termination_class" where
  "media_failure e = (case e of
       SDPError NoCommonMedia m \<Rightarrow> (400, callMediaFailed, ClientError ''no-common-codec'')
     | SDPError NoCommonCrypto m \<Rightarrow> (400, callMediaFailed, ClientError ''no-common-crypto'')
     | SDPError OtherSDP m \<Rightarrow> (400, callMediaFailed, ClientError ''sdp-error'')
     | PlainError x \<Rightarrow> (500, callDropped, ServerError ''media-failed''))"

definition reject_call ::
  "call_env \<Rightarrow> int \<Rightarrow> string \<Rightarrow> call_status \<times> termination_class \<Rightarrow> inbound_call \<Rightarrow> call_result" where
  "reject_call env code reason st c =
     andThen (on_dialog (RespondAndDrop (ce_dialog env) code reason) c) (close_call env st)"

definition runMedia ::
  "call_env \<Rightarrow> media_conf \<Rightarrow> media_probe \<Rightarrow> string \<Rightarrow> inbound_call \<Rightarrow> call_result \<times> (media_error + string)" where
  "runMedia env mconf pb offer c = (case runMediaConn env mconf pb offer c of
       (r, Inr answer) \<Rightarrow> (r, Inr answer)
     | (r, Inl e) \<Rightarrow>
         (case media_failure e of (code, st) \<Rightarrow> (andThen r (reject_call env code [] st), Inl e)))"

section \<open>Accepting, joining, and the end of the call\<close>

definition inviteOkAckLateTimeout :: nanos where
  "inviteOkAckLateTimeout = inviteOkRetryIntervalMax"

definition accept_err :: "accept_error \<Rightarrow> err" where
  "accept_err e = (case e of
       AlreadyRejected \<Rightarrow> OtherErr ''call already rejected''
     | RespondFailed \<Rightarrow> OtherErr ''transaction error''
     | ErrNoACK \<Rightarrow> OtherErr errNoACK)"

definition accept_headers :: "call_dispatch \<Rightarrow> inbound_call \<Rightarrow> str_map" where
  "accept_headers d c =
     (case (case (ic_room c, si_room_attrs (ic_cc c)) of
              (Some r, Some attrs) \<Rightarrow> AttrsToHeaders attrs (cd_attr_to_hdr d) (cd_headers d)
            | _ \<Rightarrow> cd_headers d) of
        None \<Rightarrow> Map.empty | Some h \<Rightarrow> h)"

text \<open>
  \<open>acceptCall\<close> up to its wait for media: the error it stops with, if any. An ACK is still awaited
  afterwards unless \<open>Accept\<close> waited for it.
\<close>

definition media_on :: "call_env \<Rightarrow> nanos \<Rightarrow> nanos \<Rightarrow> inbound_call \<Rightarrow> call_result" where
  "media_on env now media_timeout c =
     (let c1 = on_timeout (enableTimeout (ce_default_initial env) (ce_default_general env) now
                 (ce_timeout_initial env) media_timeout) c in
      if ic_video c
      then (c1\<lparr>ic_media := map_option (\<lambda>(p, t). (EnableVideoOut True p, t)) (ic_media c1)\<rparr>,
            [PortOut True, RoomKeyFrame])
      else (c1, [PortOut True]))"

definition acceptCall ::
  "call_env \<Rightarrow> (nat \<Rightarrow> ack_event) \<Rightarrow> nanos \<Rightarrow> nanos \<Rightarrow> call_dispatch \<Rightarrow> string \<Rightarrow> inbound_call
    \<Rightarrow> call_result \<times> err option" where
  "acceptCall env ev now media_timeout d answer c =
     (let c0 = c\<lparr>ic_cc := (ic_cc c)\<lparr>si_attrs_to_hdr := cd_attr_to_hdr d\<rparr>\<rparr> in
      case Accept (ce_dialog env) ev answer (accept_headers d c) (ic_cc c0) of
        (cc, es, e) \<Rightarrow>
          (let c1 = c0\<lparr>ic_cc := cc, ic_times := (ic_times c0)\<lparr>st_accept := Some now\<rparr>\<rparr>;
               r = (c1, map OnDialog es) in
           case e of
             Some ErrNoACK \<Rightarrow> (andThen r (closeWithNoACK env), Some (accept_err ErrNoACK))
           | Some x \<Rightarrow>
               (andThen r (close_call env (callAcceptFailed, ServerError ''accept-failed'')), Some (accept_err x))
           | None \<Rightarrow> (andThen r (media_on env now media_timeout), None)))"

text \<open>
  What joining gives: whether the context is done by then, whether the transfer topic is registered,
  the room joined (its id, name, and our attributes there), and the signaling RPC registered.
\<close>

record join_probe =
  jp_expired :: bool
  jp_register :: "err option"
  jp_connect :: "err + (string \<times> string \<times> str_map)"
  jp_rpc :: "err option"

definition ctx_err :: err where
  "ctx_err = OtherErr ''context done''"

definition createLiveKitParticipant ::
  "call_env \<Rightarrow> join_probe \<Rightarrow> call_dispatch \<Rightarrow> call_status \<Rightarrow> inbound_call \<Rightarrow> call_result \<times> err option" where
  "createLiveKitParticipant env jp d status c0 =
     (let attrs = ((case cd_attrs d of None \<Rightarrow> Map.empty | Some m \<Rightarrow> m) ++ ic_extra_attrs c0)
                    (ce_status_attr env \<mapsto> Attribute status);
          c = c0\<lparr>ic_forward_dtmf := True\<rparr>;
          reg = [RegisterTransfer (si_id (ic_cc c))] in
      if ic_ctx_done c \<or> jp_expired jp then ((c, []), Some ctx_err)
      else (case jp_register jp of
        Some e \<Rightarrow> ((c, reg), Some e)
      | None \<Rightarrow>
          (case jp_connect jp of
             Inl e \<Rightarrow> ((c, reg @ [RoomConnect (cd_room d) attrs]), Some e)
           | Inr (sid, name, joined) \<Rightarrow>
               ((c\<lparr>ic_room := Some (sid, name), ic_cc := (ic_cc c)\<lparr>si_room_attrs := Some joined\<rparr>\<rparr>,
                 reg @ [RoomConnect (cd_room d) attrs]), jp_rpc jp))))"

text \<open>\<open>errors.Wrap\<close> keeps what \<open>errors.As\<close> finds.\<close>

definition wrap :: "string \<Rightarrow> err \<Rightarrow> err" where
  "wrap m e = (case e of
       PsErr c x st \<Rightarrow> PsErr c (m @ '': '' @ x) st
     | OtherErr x \<Rightarrow> OtherErr (m @ '': '' @ x))"

definition joinRoom ::
  "call_env \<Rightarrow> join_probe \<Rightarrow> call_dispatch \<Rightarrow> call_status \<Rightarrow> inbound_call \<Rightarrow> call_result \<times> err option" where
  "joinRoom env jp d status c = (case createLiveKitParticipant env jp d status c of
       (r, None) \<Rightarrow> (r, None)
     | (r, Some e) \<Rightarrow>
         (andThen r (close_call env (callDropped, ServerError ''participant-failed'')),
          Some (wrap ''cannot create LiveKit participant'' e)))"

text \<open>
  \<open>publishTrack\<close>: \<open>track\<close> and \<open>video_track\<close> tell whether the room gives us the tracks; a video track
  that is not given is only logged.
\<close>

definition publishVideoTrack :: "bool \<Rightarrow> call_effect list" where
  "publishVideoTrack ok = (if ok then [RoomVideoTrack] else [])"

definition publishTrack ::
  "err option \<Rightarrow> bool \<Rightarrow> (string \<Rightarrow> string) \<Rightarrow> inbound_call \<Rightarrow> call_result \<times> err option" where
  "publishTrack track video_track processor c = (case track of
       Some e \<Rightarrow> ((c, [RoomClose]), Some e)
     | None \<Rightarrow>
         (let (c1, es) = on_port (\<lambda>p. case WriteAudioTo processor ''room'' p of
                                         None \<Rightarrow> (p, []) | Some r \<Rightarrow> r) c
          in ((c1, RoomTrack # es @ (if ic_video c then publishVideoTrack video_track else [])), None)))"

text \<open>\<open>requestVideoKeyframe\<close>: SIP INFO and RTCP PLI, whichever arrives first.\<close>

definition requestVideoKeyframe :: "inbound_call \<Rightarrow> call_result" where
  "requestVideoKeyframe c =
     andThen (on_dialog sendInfoPictureFastUpdate c) (on_port (\<lambda>p. (p, RequestVideoPLI p)))"

text \<open>
  One round of \<open>waitForCallEnd\<close>. The two flags are the channels that are armed: the arrival of the ACK
  and the timer that warns when it is late. \<open>None\<close> goes on waiting.
\<close>

datatype end_event =
    StatsTick | StateTick | CtxEnds | RoomEnds disconnect_reason | MediaEnds | AckComes | AckLate nanos

definition call_end_step ::
  "call_env \<Rightarrow> nanos \<Rightarrow> end_event \<Rightarrow> bool \<times> bool \<Rightarrow> inbound_call
    \<Rightarrow> call_result \<times> (bool \<times> bool) \<times> err option option" where
  "call_end_step env media_timeout e armed c = (case e of
       StatsTick \<Rightarrow> ((c, []), armed, None)
     | StateTick \<Rightarrow> (on_report (ForceFlush (ce_rpc env (cs_info (ic_state c)))) c, armed, None)
     | CtxEnds \<Rightarrow> (closeWithHangup env c, armed, Some None)
     | RoomEnds reason \<Rightarrow>
         (close_call env (callDropped, terminationFromRoomDisconnect reason)
            (defer_report (\<lambda>i. i\<lparr>ci_disconnect := DR_CLIENT_INITIATED\<rparr>) c), armed, Some None)
     | MediaEnds \<Rightarrow> (case mediaTimeout env c of (r, err) \<Rightarrow> (r, armed, Some err))
     | AckComes \<Rightarrow> (if fst armed then ((c, []), (False, False), None) else ((c, []), armed, None))
     | AckLate now \<Rightarrow>
         (if snd armed
          then ((on_timeout (enableTimeout (ce_default_initial env) (ce_default_general env) now
                   (min inviteOkAckLateTimeout (ce_timeout_initial env)) media_timeout) c, []),
                (fst armed, False), None)
          else ((c, []), armed, None)))"

text \<open>
  \<open>transferCall\<close>: the transfer is reported before and after, and a successful one schedules the end of
  the call. The dial tone mutes the room; its writer comes back if the transfer fails.
\<close>

definition transferCall ::
  "string \<Rightarrow> nanos \<Rightarrow> nanos \<Rightarrow> string \<Rightarrow> str_map option \<Rightarrow> bool \<Rightarrow> err + (int \<times> string) \<Rightarrow> refer_wait \<Rightarrow> bool
    \<Rightarrow> inbound_call \<Rightarrow> call_result \<times> err option" where
  "transferCall tid now finished transferTo headers dialtone answer w closed_meanwhile c =
     (let (c1, es1) = on_report (StartTransfer tid now transferTo) c;
          tone = (dialtone \<and> ic_started c \<and> \<not> ic_done c);
          (cc, sent) = transfer_send transferTo headers (ic_cc c1);
          e = snd (TransferCall transferTo headers answer w (ic_cc c1));
          c2 = c1\<lparr>ic_cc := cc\<rparr>;
          done_now = (ic_done c \<or> closed_meanwhile);
          tone_es = (if \<not> tone then []
                     else if e \<noteq> None \<and> \<not> done_now then [RoomOutput True] else [WriterClosed]);
          (c3, es3) = on_report (EndTransfer tid finished e) c2
      in ((c3, es1 @ (if tone then [RoomOutput False, PlayDialTone] else []) @ map OnDialog sent
               @ (if e = None then [ScheduleClose referByeTimeout] else []) @ tone_es @ es3), e))"

end
