(* ===== verification/Inbound_Flow.thy ===== *)
theory Inbound_Flow
  imports Inbound_Call
begin

text \<open>
  \<open>handleInvite\<close> of \<open>pkg/sip/inbound.go\<close> as a state machine. The goroutine of \<open>handleInvite\<close> is a
  sequence of steps between its blocking points, its program counter is the phase; the other goroutines
  (requests of the remote side, DTMF, transfers, the shutdown of the server) take steps of their own in
  between. The properties hold for every interleaving.

  When \<open>handleInvite\<close> returns, its deferred \<open>close\<close> and \<open>CallEnd\<close> run, then the deferred update of the
  state in \<open>processInvite\<close>.
\<close>

section \<open>Phases\<close>

datatype phase =
    AtStart
  | AtDispatch
  | AtMedia call_dispatch media_conf bool
  | AtAccept call_dispatch media_conf bool string
  | AtWaitMedia call_dispatch media_conf bool string
  | AtPin media_conf string string
  | AtJoin call_dispatch media_conf bool string
  | AtPublish call_dispatch media_conf bool string
  | AtSubscribe call_dispatch media_conf string
  | InCall "bool \<times> bool" nanos
  | Returned "err option"
  | Crashed

record inbound_flow =
  fl_call :: inbound_call
  fl_phase :: phase

datatype outcome = Goto phase | Return "err option"

type_synonym step_result = "call_result \<times> outcome"

text \<open>What runs when \<open>handleInvite\<close> returns \<open>e\<close> at \<open>now\<close>.\<close>

definition on_return :: "call_env \<Rightarrow> nanos \<Rightarrow> err option \<Rightarrow> inbound_call \<Rightarrow> call_result" where
  "on_return env now e c =
     andThen (andThen (close_call env (callDropped, ServerError ''other'') c) (on_monitor CallEnd))
       (report_update env (finish_info e now))"

definition settle :: "call_env \<Rightarrow> nanos \<Rightarrow> step_result \<Rightarrow> inbound_flow \<times> call_effect list" where
  "settle env now r = (case r of
       ((c, es), Goto ph) \<Rightarrow> (\<lparr>fl_call = c, fl_phase = ph\<rparr>, es)
     | ((c, es), Return e) \<Rightarrow>
         (case andThen (c, es) (on_return env now e) of
            (c', es') \<Rightarrow> (\<lparr>fl_call = c', fl_phase = Returned e\<rparr>, es')))"

section \<open>The steps of \<open>handleInvite\<close>\<close>

text \<open>Up to the request for a dispatch. Ringing on a dropped transaction panics.\<close>

definition begin_call :: "call_env \<Rightarrow> string option \<Rightarrow> nanos \<Rightarrow> inbound_call \<Rightarrow> step_result" where
  "begin_call env sip_id now c =
     (let r = andThen (andThen (andThen (c, [])
                (on_monitor (mon_step MInviteAccept)))
                (on_monitor CallStart))
                (\<lambda>c. (c\<lparr>ic_sip_call_id := (case sip_id of None \<Rightarrow> ic_sip_call_id c | Some i \<Rightarrow> i)\<rparr>, []))
      in if si_tx (ic_cc c)
         then (andThen (andThen r (on_dialog (StartRinging (ce_dialog env))))
                 (\<lambda>c. (c\<lparr>ic_times := (ic_times c)\<lparr>st_ringing := Some now\<rparr>\<rparr>, [AskDispatch [] False])),
               Goto AtDispatch)
         else (andThen r (on_dialog (StartRinging (ce_dialog env))), Goto Crashed))"

definition dispatch_info :: "call_dispatch \<Rightarrow> attr_names \<Rightarrow> string \<Rightarrow> call_info \<Rightarrow> call_info" where
  "dispatch_info d an sip_id i =
     i\<lparr>ci_trunk_id := cd_trunk d, ci_rule_id := cd_rule d, ci_room_name := cd_room d,
       ci_identity := cd_identity d,
       ci_attrs := (if sip_id = [] then cd_attrs d
                    else Some ((case cd_attrs d of None \<Rightarrow> Map.empty | Some m \<Rightarrow> m)(an_call_id_full an \<mapsto> sip_id)))\<rparr>"

text \<open>The rejection of a dispatch result, with the error that is returned: \<open>None\<close> goes on.\<close>

definition dispatch_verdict ::
  "dispatch_result \<Rightarrow> ((int \<times> string) option \<times> (call_status \<times> termination_class) \<times> err) option" where
  "dispatch_verdict r = (case r of
       DispatchAccept \<Rightarrow> None
     | DispatchRequestPin \<Rightarrow> None
     | DispatchNoRuleDrop \<Rightarrow> Some (None, (callFlood, ClientError ''flood''),
         perr PsPermissionDenied ''call was not authorized by trunk configuration'')
     | DispatchNoRuleReject \<Rightarrow> Some (Some (404, ''Does not match Trunks or Dispatch Rules''),
         (callDropped, ClientError ''no-dispatch''), perr PsNotFound ''no trunk configuration for call'')
     | DispatchServiceUnavailable \<Rightarrow> Some (Some (503, ''Try again later''),
         (callDropped, ServerError ''dispatch-error''),
         perr PsUnavailable ''dispatch rule evaluation unavailable'')
     | DispatchOther n \<Rightarrow> Some (Some (501, []), (callDropped, ServerError ''unexpected-result''),
         perr PsUnimplemented (''unexpected dispatch result: '' @ itoa (int n))))"

definition dispatched :: "call_env \<Rightarrow> call_dispatch \<Rightarrow> inbound_call \<Rightarrow> step_result" where
  "dispatched env d c =
     (let m = cd_media d in
      case newMediaConfig (ce_codecs env) (mr_encryption m) (mr_only_listed m) (mr_codecs m) (mr_timeout m)
             (ce_timeout env) of
        Inl e \<Rightarrow>
          (reject_call env 500 [] (callDropped, ServerError ''media-config-error'') c, Return (Some (perr PsInternal e)))
      | Inr mconf \<Rightarrow>
          (let r = report_update env (dispatch_info d (ce_names env) (ic_sip_call_id c)) (note_dispatch d c) in
           case dispatch_verdict (cd_result d) of
             None \<Rightarrow> (r, Goto (AtMedia d mconf (cd_result d = DispatchRequestPin)))
           | Some (Some (code, reason), st, e) \<Rightarrow> (andThen r (reject_call env code reason st), Return (Some e))
           | Some (None, st, e) \<Rightarrow>
               (andThen (andThen r (on_dialog drop_dlg)) (close_call env st), Return (Some e))))"

definition media_err :: "media_error \<Rightarrow> err" where
  "media_err e = (case e of SDPError c m \<Rightarrow> OtherErr m | PlainError x \<Rightarrow> x)"

definition media_step ::
  "call_env \<Rightarrow> call_dispatch \<Rightarrow> media_conf \<Rightarrow> bool \<Rightarrow> media_probe \<Rightarrow> string \<Rightarrow> inbound_call \<Rightarrow> step_result" where
  "media_step env d mconf pin pb offer c = (case runMedia env mconf pb offer c of
       (r, Inl e) \<Rightarrow> (r, Return (Some (media_err e)))
     | (r, Inr answer) \<Rightarrow> (r, Goto (if pin then AtAccept d mconf pin answer else AtJoin d mconf pin answer)))"

definition accept_step ::
  "call_env \<Rightarrow> call_dispatch \<Rightarrow> media_conf \<Rightarrow> bool \<Rightarrow> string \<Rightarrow> (nat \<Rightarrow> ack_event) \<Rightarrow> nanos \<Rightarrow> inbound_call
    \<Rightarrow> step_result" where
  "accept_step env d mconf pin answer ev now c =
     (case acceptCall env ev now (me_timeout mconf) d answer c of
        (r, Some e) \<Rightarrow> (r, Return (Some e))
      | (r, None) \<Rightarrow> (r, Goto (AtWaitMedia d mconf pin answer)))"

definition active_info :: "nanos \<Rightarrow> inbound_call \<Rightarrow> call_info \<Rightarrow> call_info" where
  "active_info now c i0 =
     (let i = i0\<lparr>ci_started := now, ci_status := SCS_ACTIVE\<rparr> in
      case ic_room c of
        None \<Rightarrow> i
      | Some (sid, name) \<Rightarrow> i\<lparr>ci_room_id := sid, ci_room_name := name, ci_attrs := si_room_attrs (ic_cc c)\<rparr>)"

definition activate :: "call_env \<Rightarrow> media_conf \<Rightarrow> nanos \<Rightarrow> inbound_call \<Rightarrow> step_result" where
  "activate env mconf now c =
     (andThen (report_update env (active_info now c) c) (\<lambda>c. (c\<lparr>ic_started := True\<rparr>, [])),
      Goto (InCall (\<not> de_wait_ack (ce_dialog env), \<not> de_wait_ack (ce_dialog env)) (me_timeout mconf)))"

text \<open>After the wait for media, \<open>acceptCall\<close> sets the status of the call.\<close>

definition wait_media_step ::
  "call_env \<Rightarrow> call_dispatch \<Rightarrow> media_conf \<Rightarrow> bool \<Rightarrow> string \<Rightarrow> wait_end \<Rightarrow> nanos \<Rightarrow> inbound_call \<Rightarrow> step_result" where
  "wait_media_step env d mconf pin answer e now c = (case waitMedia env e c of
       (r, False, err) \<Rightarrow> (r, Return err)
     | (r, True, err) \<Rightarrow>
         (let r' = andThen r (\<lambda>c. (c, setStatus CallActive c)) in
          if pin then (andThen r' (\<lambda>c. (c, [Play EnterPin])), Goto (AtPin mconf answer []))
          else (case activate env mconf now (fst r') of ((c2, es2), out) \<Rightarrow> ((c2, snd r' @ es2), out))))"

definition pin_prompt_step ::
  "call_env \<Rightarrow> (string \<Rightarrow> bool \<Rightarrow> call_dispatch) \<Rightarrow> media_conf \<Rightarrow> string \<Rightarrow> string \<Rightarrow> pin_event \<Rightarrow> inbound_call
    \<Rightarrow> step_result" where
  "pin_prompt_step env ask mconf answer pin e c = (case pin_step env ask e pin c of
       (r, MorePin pin') \<Rightarrow> (r, Goto (AtPin mconf answer pin'))
     | (r, PinFailed err) \<Rightarrow> (r, Return err)
     | (r, PinOk d) \<Rightarrow> (r, Goto (AtJoin d mconf True answer)))"

definition complete_dispatch :: "call_env \<Rightarrow> inbound_call \<Rightarrow> call_dispatch \<Rightarrow> call_dispatch" where
  "complete_dispatch env c d =
     d\<lparr>cd_attrs := Some (HeadersToAttrs (ce_names env) (ce_header_to_attr env) (cd_attrs d) (cd_hdr_to_attr d)
                           (cd_include d) (Some (remote_view (ic_cc c))) []),
       cd_max_duration := (if cd_max_duration d \<le> 0 \<or> cd_max_duration d > maxCallDuration
                           then maxCallDuration else cd_max_duration d),
       cd_ringing := (if cd_ringing d \<le> 0 then defaultRingingTimeout else cd_ringing d)\<rparr>"

definition join_step ::
  "call_env \<Rightarrow> call_dispatch \<Rightarrow> media_conf \<Rightarrow> bool \<Rightarrow> string \<Rightarrow> join_probe \<Rightarrow> inbound_call \<Rightarrow> step_result" where
  "join_step env d0 mconf pin answer jp c =
     (let d = complete_dispatch env c d0 in
      case joinRoom env jp d (if pin then CallActive else CallRinging) c of
        (r, Some e) \<Rightarrow> (r, Return (Some (wrap ''failed joining room'' e)))
      | (r, None) \<Rightarrow> (r, Goto (AtPublish d mconf pin answer)))"

definition publish_step ::
  "call_env \<Rightarrow> call_dispatch \<Rightarrow> media_conf \<Rightarrow> bool \<Rightarrow> string \<Rightarrow> err option \<Rightarrow> bool \<Rightarrow> (string \<Rightarrow> string) \<Rightarrow> nanos
    \<Rightarrow> inbound_call \<Rightarrow> step_result" where
  "publish_step env d mconf pin answer track video_track processor now c =
     (case publishTrack track video_track processor c of
        (r, Some e) \<Rightarrow>
          (andThen r (close_call env (callDropped, ServerError ''publish-failed'')),
           Return (Some (wrap ''publishing track to room failed'' e)))
      | (r, None) \<Rightarrow>
          (let r' = andThen r (\<lambda>c. (c, [RoomSubscribe])) in
           if pin then (case activate env mconf now (fst r') of ((c2, es2), out) \<Rightarrow> ((c2, snd r' @ es2), out))
           else (r', Goto (AtSubscribe d mconf answer))))"

definition subscribe_step ::
  "call_env \<Rightarrow> call_dispatch \<Rightarrow> media_conf \<Rightarrow> string \<Rightarrow> wait_end \<Rightarrow> inbound_call \<Rightarrow> step_result" where
  "subscribe_step env d mconf answer e c = (case waitSubscribe env e c of
       (r, False, err) \<Rightarrow> (r, Return err)
     | (r, True, err) \<Rightarrow> (r, Goto (AtAccept d mconf False answer)))"

definition in_call_step ::
  "call_env \<Rightarrow> bool \<times> bool \<Rightarrow> nanos \<Rightarrow> end_event \<Rightarrow> inbound_call \<Rightarrow> step_result" where
  "in_call_step env armed media_timeout e c = (case call_end_step env media_timeout e armed c of
       (r, armed', None) \<Rightarrow> (r, Goto (InCall armed' media_timeout))
     | (r, armed', Some err) \<Rightarrow> (r, Return err))"

section \<open>The machine\<close>

text \<open>
  Steps of \<open>handleInvite\<close> with what they wake up with, and steps of the other goroutines. A step that
  does not fit the phase, or whose event cannot happen, does nothing.
\<close>

datatype flow_op =
    Begin "string option" nanos
  | Dispatched call_dispatch nanos
  | MediaDone media_probe string nanos
  | AcceptDone "nat \<Rightarrow> ack_event" nanos
  | MediaWaited wait_end nanos
  | PinWakes pin_event "string \<Rightarrow> bool \<Rightarrow> call_dispatch" nanos
  | JoinDone join_probe nanos
  | PublishDone "err option" bool "string \<Rightarrow> string" nanos
  | SubscribeWaited wait_end nanos
  | CallEvent end_event nanos
  | GotBye reason_header
  | GotAckRequest
  | RingTick
  | GotCancel
  | GotTone char
  | KeyframeWanted
  | CloseTimer
  | TransferBegins string nanos string
  | ReferSent string "str_map option"
  | TransferEnds string nanos "err option"
  | RoomAttributes str_map
  | ServerStops

definition can_wake :: "wait_end \<Rightarrow> inbound_call \<Rightarrow> bool" where
  "can_wake e c = (case e of
       CallerCancelled \<Rightarrow> si_cancelled (ic_cc c)
     | ContextDone \<Rightarrow> ic_ctx_done c \<or> ic_room c \<noteq> None
     | _ \<Rightarrow> True)"

definition can_pin :: "pin_event \<Rightarrow> inbound_call \<Rightarrow> bool" where
  "can_pin e c = (case e of
       PinCancelled \<Rightarrow> si_cancelled (ic_cc c)
     | PinContextDone \<Rightarrow> ic_ctx_done c
     | PinTone b \<Rightarrow> ic_dtmf c \<noteq> [] \<and> hd (ic_dtmf c) = b
     | _ \<Rightarrow> True)"

text \<open>A tone is taken from the buffer.\<close>

definition take_tone :: "pin_event \<Rightarrow> inbound_call \<Rightarrow> inbound_call" where
  "take_tone e c = (case e of PinTone b \<Rightarrow> c\<lparr>ic_dtmf := tl (ic_dtmf c)\<rparr> | _ \<Rightarrow> c)"

definition handler_step :: "call_env \<Rightarrow> flow_op \<Rightarrow> inbound_flow \<Rightarrow> inbound_flow \<times> call_effect list" where
  "handler_step env op f = (let c = fl_call f in
     case (fl_phase f, op) of
       (AtStart, Begin sip_id now) \<Rightarrow> settle env now (begin_call env sip_id now c)
     | (AtDispatch, Dispatched d now) \<Rightarrow> settle env now (dispatched env d c)
     | (AtMedia d mconf pin, MediaDone pb offer now) \<Rightarrow> settle env now (media_step env d mconf pin pb offer c)
     | (AtAccept d mconf pin answer, AcceptDone ev now) \<Rightarrow>
         settle env now (accept_step env d mconf pin answer ev now c)
     | (AtWaitMedia d mconf pin answer, MediaWaited e now) \<Rightarrow>
         if can_wake e c then settle env now (wait_media_step env d mconf pin answer e now c) else (f, [])
     | (AtPin mconf answer pin, PinWakes e ask now) \<Rightarrow>
         if can_pin e c then settle env now (pin_prompt_step env ask mconf answer pin e (take_tone e c))
         else (f, [])
     | (AtJoin d mconf pin answer, JoinDone jp now) \<Rightarrow>
         settle env now (join_step env d mconf pin answer jp c)
     | (AtPublish d mconf pin answer, PublishDone track vt processor now) \<Rightarrow>
         settle env now (publish_step env d mconf pin answer track vt processor now c)
     | (AtSubscribe d mconf answer, SubscribeWaited e now) \<Rightarrow>
         if can_wake e c then settle env now (subscribe_step env d mconf answer e c) else (f, [])
     | (InCall armed mt, CallEvent e now) \<Rightarrow> settle env now (in_call_step env armed mt e c)
     | _ \<Rightarrow> (f, []))"

definition other_step :: "call_env \<Rightarrow> flow_op \<Rightarrow> inbound_call \<Rightarrow> call_result" where
  "other_step env op c = (case op of
       GotBye reason \<Rightarrow> andThen (on_dialog AcceptBye c) (Bye reason)
     | GotAckRequest \<Rightarrow> on_dialog AcceptAck c
     | RingTick \<Rightarrow> on_dialog (ring_tick (ce_dialog env)) c
     | GotCancel \<Rightarrow> on_dialog ring_cancel c
     | GotTone b \<Rightarrow> handleDTMF b c
     | KeyframeWanted \<Rightarrow> requestVideoKeyframe c
     | CloseTimer \<Rightarrow> Call_Close c
     | TransferBegins tid now to \<Rightarrow> on_report (StartTransfer tid now to) c
     | ReferSent to h \<Rightarrow> on_dialog (transfer_send to h) c
     | TransferEnds tid now e \<Rightarrow> on_report (EndTransfer tid now e) c
     | RoomAttributes m \<Rightarrow>
         (if ic_room c = None then (c, []) else (c\<lparr>ic_cc := (ic_cc c)\<lparr>si_room_attrs := Some m\<rparr>\<rparr>, []))
     | ServerStops \<Rightarrow> Shutdown env c
     | _ \<Rightarrow> (c, []))"

definition of_handler :: "flow_op \<Rightarrow> bool" where
  "of_handler op = (case op of
       Begin i n \<Rightarrow> True | Dispatched d n \<Rightarrow> True | MediaDone pb x n \<Rightarrow> True | AcceptDone ev n \<Rightarrow> True
     | MediaWaited e n \<Rightarrow> True | PinWakes e a n \<Rightarrow> True | JoinDone jp n \<Rightarrow> True
     | PublishDone t v p n \<Rightarrow> True | SubscribeWaited e n \<Rightarrow> True | CallEvent e n \<Rightarrow> True | _ \<Rightarrow> False)"

definition flow_step :: "call_env \<Rightarrow> flow_op \<Rightarrow> inbound_flow \<Rightarrow> inbound_flow \<times> call_effect list" where
  "flow_step env op f =
     (if of_handler op then handler_step env op f
      else (case other_step env op (fl_call f) of (c, es) \<Rightarrow> (f\<lparr>fl_call := c\<rparr>, es)))"

section \<open>What every step keeps\<close>

text \<open>
  The books of a call. A step that starts with the invariant keeps it and pays for what it emits: the end
  of the session and the termination metric are emitted when \<open>done\<close> is set, the hang-up uses up the open
  dialog, and the active-calls gauge follows the flag of the monitor. \<open>K\<close> tells whether the server has a
  handler to tell about the end, and whether the step may answer the INVITE with 200.
\<close>

definition over :: "sip_inbound \<Rightarrow> bool" where
  "over cc = (\<not> si_tx cc \<and> si_ok cc = None)"

definition call_inv :: "inbound_call \<Rightarrow> bool" where
  "call_inv c = (dlg_inv (ic_cc c) \<and> (ic_done c \<longrightarrow> over (ic_cc c)) \<and> cm_terminated (ic_mon c) = ic_done c)"

definition is_session_end :: "call_effect \<Rightarrow> bool" where
  "is_session_end e = (case e of SessionEnd p l s r \<Rightarrow> True | _ \<Rightarrow> False)"

definition is_drop_tag :: "call_effect \<Rightarrow> bool" where
  "is_drop_tag e = (case e of DropTag x \<Rightarrow> True | _ \<Rightarrow> False)"

definition is_terminated_metric :: "call_effect \<Rightarrow> bool" where
  "is_terminated_metric e = (case e of OnMetric (CallsTerminated l) \<Rightarrow> True | _ \<Rightarrow> False)"

definition hangs_up :: "call_effect \<Rightarrow> bool" where
  "hangs_up e = (case e of OnDialog d \<Rightarrow> is_hangup d | _ \<Rightarrow> False)"

definition gauge_up :: "call_effect \<Rightarrow> bool" where
  "gauge_up e = (case e of OnMetric m \<Rightarrow> is_active_inc m | _ \<Rightarrow> False)"

definition gauge_down :: "call_effect \<Rightarrow> bool" where
  "gauge_down e = (case e of OnMetric m \<Rightarrow> is_active_dec m | _ \<Rightarrow> False)"

definition is_ok :: "dlg_effect \<Rightarrow> bool" where
  "is_ok d = (case d of TxRespond r n \<Rightarrow> rp_status r = 200 | _ \<Rightarrow> False)"

definition is_ok_answer :: "call_effect \<Rightarrow> bool" where
  "is_ok_answer e = (case e of OnDialog d \<Rightarrow> is_ok d | _ \<Rightarrow> False)"

lemmas observed = is_ok_answer_def is_session_end_def is_drop_tag_def is_terminated_metric_def hangs_up_def
  gauge_up_def gauge_down_def

definition books :: "bool \<times> bool \<Rightarrow> inbound_call \<Rightarrow> call_result \<Rightarrow> bool" where
  "books K c r = (let c' = fst r; es = snd r in
     call_inv c'
     \<and> (ic_done c \<longrightarrow> ic_done c')
     \<and> count_by is_drop_tag es + of_bool (ic_done c) = of_bool (ic_done c')
     \<and> count_by is_session_end es = (if fst K then count_by is_drop_tag es else 0)
     \<and> (\<not> snd K \<longrightarrow> count_by is_ok_answer es = 0)
     \<and> count_by is_terminated_metric es + of_bool (ic_done c) = of_bool (ic_done c')
     \<and> count_by hangs_up es + open_hangups (ic_cc c') \<le> open_hangups (ic_cc c)
     \<and> count_by gauge_up es + of_bool (cm_started (ic_mon c))
        = count_by gauge_down es + (of_bool (cm_started (ic_mon c')) :: nat))"

definition sound :: "bool \<times> bool \<Rightarrow> inbound_call \<Rightarrow> call_result \<Rightarrow> bool" where
  "sound K c r = (call_inv c \<longrightarrow> books K c r)"

named_theorems sound_steps \<open>steps that keep the books of a call\<close>

lemma sound_andThen [sound_steps]:
  assumes "sound K c r" and "\<And>c'. sound K c' (f c')"
  shows "sound K c (andThen r f)"
proof -
  have "call_inv c \<Longrightarrow> books K c r \<and> books K (fst r) (f (fst r))"
    using assms by (auto simp: sound_def books_def Let_def)
  then show ?thesis
    unfolding sound_def books_def andThen_pair by (auto simp: Let_def)
qed

definition quiet :: "call_effect \<Rightarrow> bool" where
  "quiet e = (\<not> is_ok_answer e \<and> \<not> is_session_end e \<and> \<not> is_drop_tag e \<and> \<not> is_terminated_metric e \<and> \<not> hangs_up e
     \<and> \<not> gauge_up e \<and> \<not> gauge_down e)"

definition same_books :: "inbound_call \<Rightarrow> inbound_call \<Rightarrow> bool" where
  "same_books c c' = (ic_mon c' = ic_mon c \<and> ic_done c' = ic_done c \<and> si_tx (ic_cc c') = si_tx (ic_cc c)
     \<and> si_ok (ic_cc c') = si_ok (ic_cc c) \<and> si_invite (ic_cc c') = si_invite (ic_cc c))"

lemma quiet_counts:
  assumes "list_all quiet es"
  shows "count_by is_drop_tag es = 0" "count_by is_session_end es = 0" "count_by is_terminated_metric es = 0"
    "count_by hangs_up es = 0" "count_by gauge_up es = 0" "count_by gauge_down es = 0"
    "count_by is_ok_answer es = 0"
  using assms by (auto simp: count_by_zero_iff list_all_iff quiet_def)

lemma sound_quiet: "same_books c c' \<Longrightarrow> list_all quiet es \<Longrightarrow> sound K c (c', es)"
  by (simp add: sound_def books_def quiet_counts same_books_def call_inv_def dlg_inv_def over_def
      open_hangups_def)

lemma sound_same_books: "same_books c c' \<Longrightarrow> sound K c' r \<Longrightarrow> sound K c r"
  by (auto simp: sound_def books_def same_books_def call_inv_def dlg_inv_def over_def open_hangups_def Let_def)

lemma quiet_effects [simp]:
  "quiet (OnPort p)" "quiet (OnReport x)" "quiet (AskDispatch s b)" "quiet (Play pr)" "quiet (AddTag s)"
  "quiet (RegisterTransfer s)" "quiet (DeregisterTransfer s)" "quiet (RoomConnect s m)" "quiet (RoomStatus s)"
  "quiet RoomSubscribe" "quiet RoomTrack" "quiet RoomVideoTrack" "quiet RoomKeyFrame" "quiet (RoomSendDtmf ch)"
  "quiet (RoomOutput b)" "quiet RoomDtmfOutput" "quiet RoomVideoOutput" "quiet RoomClose" "quiet (PortOut b)"
  "quiet WriterClosed" "quiet PlayDialTone" "quiet CancelCall" "quiet (ScheduleClose n)"
  by (simp_all add: quiet_def observed)

lemma same_books_updates [simp]:
  "same_books c c" "same_books c (c\<lparr>ic_ctx_done := b\<rparr>)" "same_books c (c\<lparr>ic_close_reason := r\<rparr>)"
  "same_books c (c\<lparr>ic_media := m\<rparr>)" "same_books c (c\<lparr>ic_dtmf := d\<rparr>)" "same_books c (c\<lparr>ic_room := ro\<rparr>)"
  "same_books c (c\<lparr>ic_state := st\<rparr>)" "same_books c (c\<lparr>ic_started := b\<rparr>)" "same_books c (c\<lparr>ic_project := s\<rparr>)"
  "same_books c (c\<lparr>ic_video := b\<rparr>)" "same_books c (c\<lparr>ic_times := ts\<rparr>)" "same_books c (c\<lparr>ic_sip_call_id := s\<rparr>)"
  "same_books c (c\<lparr>ic_forward_dtmf := b\<rparr>)" "same_books c (c\<lparr>ic_cc := (ic_cc c)\<lparr>si_room_attrs := a\<rparr>\<rparr>)"
  "same_books c (c\<lparr>ic_cc := (ic_cc c)\<lparr>si_attrs_to_hdr := h\<rparr>\<rparr>)"
  by (simp_all add: same_books_def)

lemma same_books_trans: "same_books a b \<Longrightarrow> same_books b c \<Longrightarrow> same_books a c"
  by (simp add: same_books_def)

section \<open>The operations keep the books\<close>

lemma count_by_none [simp]: "count_by (\<lambda>x. False) es = 0"
  by (induction es) simp_all

lemma observe_OnDialog [simp]:
  "is_session_end \<circ> OnDialog = (\<lambda>d. False)" "is_drop_tag \<circ> OnDialog = (\<lambda>d. False)"
  "is_terminated_metric \<circ> OnDialog = (\<lambda>d. False)" "gauge_up \<circ> OnDialog = (\<lambda>d. False)"
  "gauge_down \<circ> OnDialog = (\<lambda>d. False)" "hangs_up \<circ> OnDialog = is_hangup"
  "is_ok_answer \<circ> OnDialog = is_ok"
  by (simp_all add: fun_eq_iff observed)

lemma observe_OnMetric [simp]:
  "is_session_end \<circ> OnMetric = (\<lambda>d. False)" "is_drop_tag \<circ> OnMetric = (\<lambda>d. False)"
  "hangs_up \<circ> OnMetric = (\<lambda>d. False)" "is_ok_answer \<circ> OnMetric = (\<lambda>d. False)" "gauge_up \<circ> OnMetric = is_active_inc"
  "gauge_down \<circ> OnMetric = is_active_dec"
  by (simp_all add: fun_eq_iff observed)

lemma quiet_maps [simp]: "list_all quiet (map OnPort ps)" "list_all quiet (map OnReport rs)"
  by (simp_all add: list_all_iff)

lemma over_step: "over cc \<Longrightarrow> dlg_inv cc \<Longrightarrow> over (fst (dlg_step env op cc))"
proof (cases op)
  case (OpAccept ev sdp h)
  assume "over cc"
  with OpAccept show ?thesis by (simp add: over_def Accept_def)
qed (auto simp: over_def dlg_ops split_def Let_def split: option.splits sum.splits)

definition is_accept :: "dlg_op \<Rightarrow> bool" where
  "is_accept op = (case op of OpAccept ev sdp h \<Rightarrow> True | _ \<Rightarrow> False)"

lemma only_accept_answers:
  "dlg_use op \<Longrightarrow> \<not> is_accept op \<Longrightarrow> count_by is_ok (snd (dlg_step env op cc)) = 0"
  by (cases op) (auto simp: is_accept_def is_ok_def dlg_ops split_def Let_def split: option.splits sum.splits)

lemma sound_dialog:
  assumes "dlg_use op" and "snd K \<or> \<not> is_accept op"
  shows "sound K c (on_dialog (dlg_step env op) c)"
proof -
  have "call_inv c \<Longrightarrow> dlg_inv (fst (dlg_step env op (ic_cc c)))"
    by (simp add: call_inv_def dlg_step_inv)
  with over_step [of "ic_cc c" env op] dlg_hangup_pays [of "ic_cc c" env op] assms(2)
    only_accept_answers [OF assms(1), of env "ic_cc c"] show ?thesis
    by (auto simp: sound_def books_def call_inv_def on_dialog_def split_def)
qed

lemma sound_dialogs [sound_steps]:
  "sound K c (on_dialog drop_dlg c)" "sound K c (on_dialog (StartRinging env) c)" "sound K c (on_dialog AcceptBye c)"
  "sound K c (on_dialog AcceptAck c)" "sound K c (on_dialog (ring_tick env) c)" "sound K c (on_dialog ring_cancel c)"
  "sound K c (on_dialog sendInfoPictureFastUpdate c)" "sound K c (on_dialog (transfer_send to h) c)"
  "300 \<le> st \<Longrightarrow> sound K c (on_dialog (RespondAndDrop env st reason) c)"
  using sound_dialog [of OpDrop K c undefined] sound_dialog [of OpStartRinging K c env] sound_dialog [of OpAcceptBye K c undefined]
    sound_dialog [of OpAcceptAck K c undefined] sound_dialog [of OpRingTick K c env] sound_dialog [of OpRingCancel K c undefined]
    sound_dialog [of OpInfo K c undefined] sound_dialog [of "OpTransfer to h" K c undefined]
    sound_dialog [of "OpRespondAndDrop st reason" K c env]
  by (simp_all add: on_dialog_def is_accept_def)

lemma sound_report [sound_steps]: "sound K c (on_report f c)"
  by (simp add: on_report_def split_def sound_quiet)

lemma sound_update [sound_steps]: "sound K c (report_update env upd c)"
  by (simp add: report_update_def sound_report)

lemma sound_monitor:
  assumes "op = MInviteAccept \<or> op = MCallStart \<or> op = MCallEnd"
  shows "sound K c (on_monitor (mon_step op) c)"
  using assms by (auto simp: sound_def books_def call_inv_def on_monitor_def mon_ops observed)

lemma sound_monitors [sound_steps]:
  "sound K c (on_monitor (mon_step MInviteAccept) c)" "sound K c (on_monitor CallStart c)" "sound K c (on_monitor CallEnd c)"
  using sound_monitor [of MInviteAccept K c] sound_monitor [of MCallStart K c] sound_monitor [of MCallEnd K c]
  by (simp_all add: on_monitor_def)

lemma sound_port [sound_steps]: "sound K c (on_port f c)"
  by (simp add: on_port_def split_def sound_quiet split: option.split prod.split)

lemma closed_dialog:
  assumes "dlg_inv cc" and "300 \<le> code"
  shows "over (fst (CloseWithStatus env code text ans cc))"
  using assms
  by (auto simp: over_def CloseWithStatus_def sendBye_def sendStatus_def drop_dlg_def dlg_inv_def
      take_cseq_def Let_def split: option.splits)

lemma SIPStatus_rejects: "300 \<le> fst (SIPStatus status)"
  by (cases status) (simp_all add: SIPStatus_def)

lemma CallTerminate_books:
  assumes "\<not> cm_terminated m" and "CallTerminate x m = (m', ms)"
  shows "cm_terminated m'" "cm_started m' = cm_started m" "count_by (is_terminated_metric \<circ> OnMetric) ms = 1"
    "count_by is_active_inc ms = 0" "count_by is_active_dec ms = 0"
  using assms by (auto simp: CallTerminate_def is_active_inc_def is_active_dec_def is_terminated_metric_def)

lemma setStatus_quiet [simp]: "list_all quiet (setStatus v c)"
  by (simp add: setStatus_def split: option.split)

lemma closeMedia_books: "same_books c (fst (closeMedia c))" "list_all quiet (snd (closeMedia c))"
  by (simp_all add: closeMedia_def split_def split: option.split)

text \<open>What \<open>close\<close> does to an open call, with the intermediate states named.\<close>

lemma close_call_open:
  assumes "\<not> ic_done c" and mon: "CallTerminate t (ic_mon c) = (m, ms)"
    and dlg: "CloseWithStatus (ce_dialog env) (fst (SIPStatus status)) (snd (SIPStatus status))
                (ce_bye_answer env) (ic_cc c) = (cc, ds)"
    and med: "closeMedia (c\<lparr>ic_done := True, ic_mon := m, ic_cc := cc\<rparr>) = (c2, es)"
  shows "close_call env (status, t) c
    = (c2\<lparr>ic_ctx_done := True\<rparr>,
       setStatus status c @ map OnMetric ms @ map OnDialog ds @ es
       @ [DropTag (si_id (ic_cc c2)), DeregisterTransfer (si_id (ic_cc c2))]
       @ (if ce_handler env
          then [SessionEnd (ic_project c2) (ic_lk_call_id c2) (ic_sip_call_id c2) (t_reason t)] else [])
       @ [CancelCall])"
  using assms by (simp add: close_call_def andThen_pair on_monitor_def on_dialog_def)

lemma drop_tag_counts [simp]:
  "is_drop_tag (DropTag s)" "\<not> is_session_end (DropTag s)" "\<not> is_terminated_metric (DropTag s)"
  "\<not> hangs_up (DropTag s)" "\<not> gauge_up (DropTag s)" "\<not> gauge_down (DropTag s)"
  "\<not> is_ok_answer (DropTag s)" "\<not> is_ok_answer (SessionEnd p l s r)"
  "\<not> is_drop_tag (SessionEnd p l s r)" "is_session_end (SessionEnd p l s r)"
  "\<not> is_terminated_metric (SessionEnd p l s r)" "\<not> hangs_up (SessionEnd p l s r)"
  "\<not> gauge_up (SessionEnd p l s r)" "\<not> gauge_down (SessionEnd p l s r)"
  by (simp_all add: observed)

lemma quiet_nots [simp]:
  "quiet e \<Longrightarrow> \<not> is_session_end e" "quiet e \<Longrightarrow> \<not> is_drop_tag e" "quiet e \<Longrightarrow> \<not> is_terminated_metric e"
  "quiet e \<Longrightarrow> \<not> is_ok_answer e" "quiet e \<Longrightarrow> \<not> hangs_up e" "quiet e \<Longrightarrow> \<not> gauge_up e" "quiet e \<Longrightarrow> \<not> gauge_down e"
  by (simp_all add: quiet_def)

lemma sound_close [sound_steps]: "sound (ce_handler env, A) c (close_call env a c)"
proof (cases "ic_done c")
  case True
  then show ?thesis by (cases a) (simp add: close_call_def sound_quiet)
next
  case live: False
  obtain status t where a: "a = (status, t)" by (metis surj_pair)
  let ?code = "fst (SIPStatus status)" and ?text = "snd (SIPStatus status)"
  obtain m ms where m: "CallTerminate t (ic_mon c) = (m, ms)" by (metis surj_pair)
  obtain cc ds where d: "CloseWithStatus (ce_dialog env) ?code ?text (ce_bye_answer env) (ic_cc c) = (cc, ds)"
    by (metis surj_pair)
  obtain c2 es where c2: "closeMedia (c\<lparr>ic_done := True, ic_mon := m, ic_cc := cc\<rparr>) = (c2, es)" by (metis surj_pair)
  have same: "same_books (c\<lparr>ic_done := True, ic_mon := m, ic_cc := cc\<rparr>) c2" "list_all quiet es"
    using closeMedia_books c2 by (metis fst_conv, metis snd_conv)
  show ?thesis
    unfolding sound_def
  proof
    assume inv: "call_inv c"
    then have pays: "count_by is_hangup ds + open_hangups cc \<le> open_hangups (ic_cc c)"
      using dlg_hangup_pays [of "ic_cc c" "ce_dialog env" "OpClose ?code ?text (ce_bye_answer env)"]
        SIPStatus_rejects [of status] d by (simp add: call_inv_def)
    have silent: "count_by is_ok ds = 0"
      using only_accept_answers [of "OpClose ?code ?text (ce_bye_answer env)" "ce_dialog env" "ic_cc c"]
        SIPStatus_rejects [of status] d by (simp add: is_accept_def)
    have "dlg_inv cc"
      using inv dlg_step_inv [of "ic_cc c" "ce_dialog env" "OpClose ?code ?text (ce_bye_answer env)"] d
      by (simp add: call_inv_def)
    moreover have "over cc"
      using inv closed_dialog [of "ic_cc c" ?code] SIPStatus_rejects [of status] d
      by (metis call_inv_def fst_conv)
    moreover have "\<not> cm_terminated (ic_mon c)" using inv live by (simp add: call_inv_def)
    note CallTerminate_books [OF this m]
    ultimately show "books (ce_handler env, A) c (close_call env a c)"
      using pays silent same live unfolding a close_call_open [OF live m d c2]
      by (simp add: books_def call_inv_def quiet_counts same_books_def dlg_inv_def over_def open_hangups_def)
  qed
qed

lemma same_defer [simp]: "same_books c (defer_report upd c)"
  by (simp add: defer_report_def)

lemma sound_closes [sound_steps]:
  "sound (ce_handler env, A) c (closeWithTimeout env b c)" "sound (ce_handler env, A) c (closeWithNoACK env c)" "sound (ce_handler env, A) c (closeWithReason env st t r c)"
  "sound (ce_handler env, A) c (closeWithCancelled env c)" "sound (ce_handler env, A) c (closeWithHangup env c)" "sound (ce_handler env, A) c (Shutdown env c)"
  "sound (ce_handler env, A) c (Call_Close c)" "sound (ce_handler env, A) c (Bye reason c)"
  by (auto simp: closeWithTimeout_def closeWithNoACK_def closeWithReason_def closeWithCancelled_def
      closeWithHangup_def Shutdown_def Call_Close_def Bye_def
      same_books_def intro: sound_close sound_same_books [OF same_defer sound_close] sound_quiet)

lemma sound_mediaTimeout [sound_steps]: "sound (ce_handler env, A) c (fst (mediaTimeout env c))"
  by (simp add: mediaTimeout_def sound_closes)

lemma sound_nothing [sound_steps]: "sound K c (c, [])"
  by (simp add: sound_quiet)

lemma sound_waits [sound_steps]: "sound (ce_handler env, A) c (fst (waitMedia env e c))" "sound (ce_handler env, A) c (fst (waitSubscribe env e c))"
  by (cases e; simp add: waitMedia_def waitSubscribe_def split_def sound_steps)+

lemma sound_reject [sound_steps]: "300 \<le> code \<Longrightarrow> sound (ce_handler env, A) c (reject_call env code reason st c)"
  by (simp add: reject_call_def sound_steps)

lemma same_note [simp]: "same_books c (note_dispatch d c)"
  by (simp add: note_dispatch_def)

lemma sound_check_pin: "sound (ce_handler env, A) c (fst (check_pin env ask pin c))"
  by (auto simp: check_pin_def Let_def intro!: sound_andThen sound_close sound_quiet)

lemma sound_pin_step [sound_steps]: "sound (ce_handler env, A) c (fst (pin_step env ask e pin c))"
  by (cases e) (auto simp: pin_step_def Let_def split_def sound_check_pin intro!: sound_steps sound_quiet)

lemma quiet_sdp [simp]: "list_all quiet (map OnMetric (SDPSize n b))"
  by (simp add: SDPSize_def quiet_def observed is_active_inc_def is_active_dec_def)

lemma setupVideo_frame:
  "setupVideo env pb offer answer c = ((c', es), a) \<Longrightarrow> same_books c c' \<and> list_all quiet es"
  by (auto simp: setupVideo_def Let_def split: sum.splits option.splits prod.splits if_splits)
    (auto simp: same_books_def)

lemma apply_config_frame:
  "apply_config env pb mc answer c = ((c', es), r) \<Longrightarrow> same_books c c' \<and> list_all quiet es"
  by (auto simp: apply_config_def Let_def defer_report_def split: option.splits prod.splits if_splits)
    (auto simp: same_books_def)

lemma negotiate_frame:
  assumes "negotiate env mconf pb offer c = ((c', es), r)"
  shows "same_books c c' \<and> list_all quiet es"
proof -
  let ?video = "\<lambda>a. if ce_video env \<and> VideoEnabled (map_option fst (ic_media c))
                    then setupVideo env pb offer a c else ((c, []), a)"
  have video: "same_books c c1 \<and> list_all quiet es1" if "?video a = ((c1, es1), b)" for a c1 es1 b
    using that setupVideo_frame [of env pb offer a c c1 es1 b] by (auto split: if_splits)
  from assms show ?thesis
    by (auto simp: negotiate_def split: sum.splits prod.splits dest!: video apply_config_frame)
      (auto simp: same_books_def)
qed

lemma new_port_frame: "new_port env mconf pb c = ((c', es), ok) \<Longrightarrow> same_books c c' \<and> list_all quiet es"
  by (auto simp: new_port_def split: prod.splits option.splits)

lemma runMediaConn_frame:
  assumes "runMediaConn env mconf pb offer c = ((c', es), r)"
  shows "same_books c c' \<and> list_all quiet es"
proof -
  obtain c1 es1 ok where n: "new_port env mconf pb c = ((c1, es1), ok)" by (metis surj_pair)
  obtain c2 es2 r2 where g: "negotiate env mconf pb (fst (sanitizeSDPCryptoSessionParams offer)) c1 = ((c2, es2), r2)"
    by (metis surj_pair)
  from assms new_port_frame [OF n] negotiate_frame [OF g] show ?thesis
    by (cases ok) (auto simp: runMediaConn_def Let_def n g intro: same_books_trans)
qed

lemma media_failure_code: "300 \<le> fst (media_failure e)"
  by (auto simp: media_failure_def split: media_error.split sdp_cause.split)

lemma sound_runMedia [sound_steps]: "sound (ce_handler env, A) c (fst (runMedia env mconf pb offer c))"
proof -
  obtain c1 es r where m: "runMediaConn env mconf pb offer c = ((c1, es), r)" by (metis surj_pair)
  have s: "sound (ce_handler env, A) c (c1, es)" using runMediaConn_frame [OF m] by (simp add: sound_quiet)
  then show ?thesis
    by (cases r) (auto simp: runMedia_def m split_def media_failure_code intro!: sound_andThen sound_reject)
qed

lemma sound_media_on: "sound (ce_handler env, A) c (media_on env now mt c)"
  by (auto simp: media_on_def Let_def on_timeout_def same_books_def intro!: sound_quiet)

lemma sound_acceptCall [sound_steps]:
  "sound (ce_handler env, True) c (fst (acceptCall env ev now mt d answer c))"
proof -
  let ?c0 = "c\<lparr>ic_cc := (ic_cc c)\<lparr>si_attrs_to_hdr := cd_attr_to_hdr d\<rparr>\<rparr>"
  let ?h = "accept_headers d c"
  obtain cc es e where a: "Accept (ce_dialog env) ev answer ?h (ic_cc ?c0) = (cc, es, e)" by (metis surj_pair)
  have "sound (ce_handler env, True) ?c0 (on_dialog (dlg_step (ce_dialog env) (OpAccept ev answer ?h)) ?c0)"
    by (rule sound_dialog) simp_all
  then have "sound (ce_handler env, True) ?c0 (?c0\<lparr>ic_cc := cc\<rparr>, map OnDialog es)" by (simp add: on_dialog_def a [simplified])
  then have "sound (ce_handler env, True) ?c0 (?c0\<lparr>ic_cc := cc, ic_times := (ic_times ?c0)\<lparr>st_accept := Some now\<rparr>\<rparr>, map OnDialog es)"
    by (simp add: sound_def books_def call_inv_def)
  then have s: "sound (ce_handler env, True) c (c\<lparr>ic_cc := cc, ic_times := (ic_times c)\<lparr>st_accept := Some now\<rparr>\<rparr>, map OnDialog es)"
    using sound_same_books [of c ?c0 "(ce_handler env, True)"] by simp
  then show ?thesis
    using a by (auto simp: acceptCall_def Let_def split: option.split accept_error.split
        intro!: sound_andThen sound_closes sound_close sound_media_on)
qed

lemma createLiveKitParticipant_frame:
  "createLiveKitParticipant env jp d st c = ((c', es), e) \<Longrightarrow> same_books c c' \<and> list_all quiet es"
  by (auto simp: createLiveKitParticipant_def Let_def split: if_splits option.splits sum.splits)
    (auto simp: same_books_def)

lemma sound_joinRoom [sound_steps]: "sound (ce_handler env, A) c (fst (joinRoom env jp d st c))"
proof -
  obtain c1 es e where m: "createLiveKitParticipant env jp d st c = ((c1, es), e)" by (metis surj_pair)
  have "sound (ce_handler env, A) c (c1, es)" using createLiveKitParticipant_frame [OF m] by (simp add: sound_quiet)
  then show ?thesis by (cases e) (auto simp: joinRoom_def m intro!: sound_andThen sound_close)
qed

lemma sound_publishTrack [sound_steps]: "sound (ce_handler env, A) c (fst (publishTrack tr v pr c))"
  by (auto simp: publishTrack_def publishVideoTrack_def on_port_def split_def Let_def
      split: option.split intro!: sound_quiet)

lemma sound_end_step [sound_steps]: "sound (ce_handler env, A) c (fst (call_end_step env mt e armed c))"
  by (cases e) (auto simp: call_end_step_def split_def on_timeout_def
      intro!: sound_steps sound_quiet sound_same_books [OF same_defer sound_close])

section \<open>The books of the machine\<close>

lemma sound_on_return [sound_steps]: "sound (ce_handler env, A) c (on_return env now e c)"
  by (simp add: on_return_def sound_steps)

lemma sound_activate [sound_steps]: "sound (ce_handler env, A) c (fst (activate env mconf now c))"
  by (auto simp: activate_def intro!: sound_andThen sound_update sound_quiet)

text \<open>A result extended by a second operation.\<close>

lemma sound_extend:
  assumes "sound K c r" and "\<And>c'. sound K c' (fst (f c'))" and "f (fst r) = ((c2, es2), out)"
  shows "sound K c (c2, snd r @ es2)"
  using sound_andThen [of K c r "\<lambda>c. fst (f c)"] assms by (simp add: andThen_pair)

lemma sound_begin: "sound (ce_handler env, A) c (fst (begin_call env i now c))"
  by (auto simp: begin_call_def Let_def intro!: sound_andThen sound_steps sound_quiet)

lemma sound_dispatched: "sound (ce_handler env, A) c (fst (dispatched env d c))"
proof -
  have r: "sound (ce_handler env, A) c (report_update env u (note_dispatch d c))" for u
    using sound_same_books [OF same_note sound_update] by blast
  have code: "dispatch_verdict x = Some (Some (code, reason), st, e) \<Longrightarrow> 300 \<le> code" for x code reason st e
    by (auto simp: dispatch_verdict_def split: dispatch_result.splits)
  show ?thesis
    by (auto simp: dispatched_def Let_def split_def split: sum.split option.split
        intro!: sound_andThen r sound_steps dest: code)
qed

lemma sound_wait_media: "sound (ce_handler env, A) c (fst (wait_media_step env d mconf pin answer e now c))"
proof -
  obtain r ok err where w: "waitMedia env e c = (r, ok, err)" by (metis surj_pair)
  have s: "sound (ce_handler env, A) c r" using sound_waits(1) [of env A c e] w by simp
  have s': "sound (ce_handler env, A) c (andThen r (\<lambda>c. (c, setStatus CallActive c)))"
    by (intro sound_andThen s sound_quiet) simp_all
  obtain c2 es2 out where act: "activate env mconf now (fst (andThen r (\<lambda>c. (c, setStatus CallActive c)))) = ((c2, es2), out)"
    by (metis surj_pair)
  show ?thesis
    using s sound_andThen [OF s', of "\<lambda>c. (c, [Play EnterPin])"] sound_extend [OF s' sound_activate act]
    by (cases ok; cases pin) (simp_all add: wait_media_step_def w act Let_def sound_quiet)
qed

lemma sound_publish: "sound (ce_handler env, A) c (fst (publish_step env d mconf pin answer tr vt pr now c))"
proof -
  obtain r e where w: "publishTrack tr vt pr c = (r, e)" by (metis surj_pair)
  have s: "sound (ce_handler env, A) c r" using sound_publishTrack [of env A c tr vt pr] w by simp
  have s': "sound (ce_handler env, A) c (andThen r (\<lambda>c. (c, [RoomSubscribe])))"
    by (intro sound_andThen s sound_quiet) simp_all
  obtain c2 es2 out where act: "activate env mconf now (fst (andThen r (\<lambda>c. (c, [RoomSubscribe])))) = ((c2, es2), out)"
    by (metis surj_pair)
  show ?thesis
    using s' sound_andThen [OF s sound_close] sound_extend [OF s' sound_activate act]
    by (cases e; cases pin) (simp_all add: publish_step_def w act Let_def)
qed

lemma sound_simple_steps:
  "sound (ce_handler env, A) c (fst (media_step env d mconf pin pb offer c))"
  "sound (ce_handler env, A) c (fst (pin_prompt_step env ask mconf answer typed pe c))"
  "sound (ce_handler env, A) c (fst (join_step env d mconf pin answer jp c))"
  "sound (ce_handler env, A) c (fst (subscribe_step env d mconf answer e c))"
  "sound (ce_handler env, A) c (fst (in_call_step env armed mt ee c))"
  "sound (ce_handler env, True) c (fst (accept_step env d mconf pin answer ev now c))"
  using sound_runMedia [of env A c mconf pb offer] sound_pin_step [of env A c ask pe typed]
    sound_joinRoom [of env A c jp "complete_dispatch env c d" "if pin then CallActive else CallRinging"]
    sound_waits(2) [of env A c e] sound_end_step [of env A c mt ee armed]
    sound_acceptCall [of env c ev now "me_timeout mconf" d answer]
  by (auto simp: media_step_def pin_prompt_step_def join_step_def subscribe_step_def in_call_step_def
      accept_step_def Let_def split: prod.splits sum.splits option.splits bool.splits pin_verdict.splits)

lemma sound_settle:
  assumes "sound (ce_handler env, A) c (fst r)"
  shows "sound (ce_handler env, A) c (fl_call (fst (settle env now r)), snd (settle env now r))"
proof -
  obtain c1 es out where r: "r = ((c1, es), out)" by (metis surj_pair)
  show ?thesis
  proof (cases out)
    case (Goto ph)
    with assms r show ?thesis by (simp add: settle_def)
  next
    case (Return e)
    with assms r sound_andThen [OF assms sound_on_return] show ?thesis
      by (simp add: settle_def split_def)
  qed
qed

lemma sound_take_tone: "sound (ce_handler env, A) (take_tone e c) r \<Longrightarrow> sound (ce_handler env, A) c r"
  by (rule sound_same_books [of c "take_tone e c"]) (simp add: take_tone_def split: pin_event.split)

lemma sound_handler:
  "sound (ce_handler env, True) (fl_call f) (fl_call (fst (handler_step env op f)), snd (handler_step env op f))"
  by (cases op; cases "fl_phase f")
    (auto simp: handler_step_def Let_def
      intro!: sound_settle sound_begin sound_dispatched sound_wait_media sound_publish sound_simple_steps
        sound_nothing intro: sound_take_tone)

lemma sound_other: "sound (ce_handler env, A) c (other_step env op c)"
  by (cases op) (auto simp: other_step_def requestVideoKeyframe_def handleDTMF_def
      intro!: sound_andThen sound_steps sound_quiet)

lemma flow_books:
  "sound (ce_handler env, True) (fl_call f) (fl_call (fst (flow_step env op f)), snd (flow_step env op f))"
  using sound_handler [of env f op] sound_other [of env True "fl_call f" op]
  by (simp add: flow_step_def split_def)

section \<open>What holds when \<open>handleInvite\<close> has returned\<close>

text \<open>The reported state of a call that is over.\<close>

definition concluded :: "call_info \<Rightarrow> bool" where
  "concluded i = (ci_status i = SCS_ERROR \<and> ci_error i \<noteq> [] \<or> ci_status i = SCS_DISCONNECTED)"

definition finished :: "inbound_call \<Rightarrow> bool" where
  "finished c = (ic_done c \<and> over (ic_cc c) \<and> \<not> cm_started (ic_mon c)
     \<and> ci_status (cs_info (ic_state c)) \<in> {SCS_ERROR, SCS_DISCONNECTED})"

definition flow_inv :: "inbound_flow \<Rightarrow> bool" where
  "flow_inv f = (call_inv (fl_call f) \<and> (case fl_phase f of Returned e \<Rightarrow> finished (fl_call f) | _ \<Rightarrow> True))"

lemma close_call_frame:
  shows "ic_state (fst (close_call env a c)) = ic_state c" "ic_done (fst (close_call env a c))"
    "cm_started (ic_mon (fst (close_call env a c))) = cm_started (ic_mon c)"
    "ic_done c \<Longrightarrow> close_call env a c = (c, [])"
  by (simp_all add: close_call_def andThen_pair on_monitor_def on_dialog_def closeMedia_def CallTerminate_def
      split_def split: option.split)

lemma Update_info: "cs_info (fst (Update u ok s)) = u (cs_info s)"
  by (simp add: Update_def flush_state_def)

lemma finish_info_status: "ci_status (finish_info e now i) \<in> {SCS_ERROR, SCS_DISCONNECTED}"
  by (simp add: finish_info_def split: option.split)

lemma on_return_finished:
  assumes "call_inv c"
  shows "finished (fst (on_return env now e c))"
proof -
  let ?c1 = "fst (close_call env (callDropped, ServerError ''other'') c)"
  have "call_inv ?c1"
    using sound_close [of env True c "(callDropped, ServerError ''other'')"] assms by (simp add: sound_def books_def Let_def)
  then show ?thesis
    using finish_info_status [of e now "cs_info (ic_state ?c1)"] close_call_frame(2)
    by (simp add: finished_def on_return_def andThen_pair on_monitor_def report_update_def on_report_def split_def
        Update_info call_inv_def CallEnd_def)
qed

definition forward :: "outcome \<Rightarrow> bool" where
  "forward out = (case out of Goto ph \<Rightarrow> (case ph of Returned e \<Rightarrow> False | _ \<Rightarrow> True) | Return e \<Rightarrow> True)"

lemma settle_inv:
  assumes "call_inv c" and "sound K c (fst r)" and "forward (snd r)"
  shows "flow_inv (fst (settle env now r))"
proof -
  obtain c1 es out where r: "r = ((c1, es), out)" by (metis surj_pair)
  have c1: "call_inv c1" using assms r by (simp add: sound_def books_def Let_def)
  show ?thesis
  proof (cases out)
    case (Goto ph)
    with r c1 assms(3) show ?thesis by (cases ph) (simp_all add: settle_def flow_inv_def forward_def)
  next
    case (Return e)
    have "call_inv (fst (on_return env now e c1))"
      using sound_on_return [of env True c1 now e] c1 by (simp add: sound_def books_def Let_def)
    with Return r on_return_finished [OF c1] show ?thesis
      by (simp add: settle_def flow_inv_def andThen_pair split_def)
  qed
qed

text \<open>Steps of the other goroutines leave what is reported of the call alone, once it is closed.\<close>

lemma other_frame:
  shows "cs_info (ic_state (fst (other_step env op c))) = cs_info (ic_state c)"
    "cm_started (ic_mon (fst (other_step env op c))) = cm_started (ic_mon c)"
  by (cases op; auto simp: other_step_def andThen_pair on_dialog_def Call_Close_def Bye_def handleDTMF_def
      requestVideoKeyframe_def on_port_def on_report_def StartTransfer_def EndTransfer_def Shutdown_def
      close_call_frame Let_def split_def split: option.split)+

lemma other_finished:
  assumes "call_inv c" and "finished c"
  shows "finished (fst (other_step env op c))"
proof -
  have "call_inv (fst (other_step env op c)) \<and> ic_done (fst (other_step env op c))"
    using sound_other [of env True c op] assms by (simp add: sound_def books_def Let_def finished_def)
  then show ?thesis
    using assms(2) other_frame [of env op c] by (simp add: finished_def call_inv_def)
qed

lemma forward_steps:
  "forward (snd (begin_call env i now c))" "forward (snd (dispatched env d c))"
  "forward (snd (wait_media_step env d mconf pin answer e now c))"
  "forward (snd (publish_step env d mconf pin answer tr vt pr now c))"
  "forward (snd (media_step env d mconf pin pb offer c))"
  "forward (snd (pin_prompt_step env ask mconf answer typed pe c))"
  "forward (snd (join_step env d mconf pin answer jp c))"
  "forward (snd (subscribe_step env d mconf answer e c))"
  "forward (snd (in_call_step env armed mt ee c))"
  "forward (snd (accept_step env d mconf pin answer ev now c))"
  by (auto simp: forward_def begin_call_def dispatched_def wait_media_step_def publish_step_def media_step_def
      pin_prompt_step_def join_step_def subscribe_step_def in_call_step_def accept_step_def activate_def Let_def
      split: prod.split sum.split option.split bool.split pin_verdict.split)

lemma handler_inv:
  assumes "flow_inv f"
  shows "flow_inv (fst (handler_step env op f))"
proof -
  have inv: "call_inv (fl_call f)" "call_inv (take_tone e (fl_call f))" for e
    using assms
    by (auto simp: flow_inv_def take_tone_def call_inv_def split: pin_event.split)
  note s = settle_inv [where K = "(ce_handler env, True)" and env = env]
  show ?thesis
    by (cases op; cases "fl_phase f")
      (auto simp: handler_step_def Let_def assms
        intro!: s [OF inv(1) sound_begin forward_steps(1)] s [OF inv(1) sound_dispatched forward_steps(2)]
          s [OF inv(1) sound_wait_media forward_steps(3)] s [OF inv(1) sound_publish forward_steps(4)]
          s [OF inv(1) sound_simple_steps(1) forward_steps(5)] s [OF inv(2) sound_simple_steps(2) forward_steps(6)]
          s [OF inv(1) sound_simple_steps(3) forward_steps(7)] s [OF inv(1) sound_simple_steps(4) forward_steps(8)]
          s [OF inv(1) sound_simple_steps(5) forward_steps(9)] s [OF inv(1) sound_simple_steps(6) forward_steps(10)])
qed

lemma flow_step_inv:
  assumes "flow_inv f"
  shows "flow_inv (fst (flow_step env op f))"
proof (cases "of_handler op")
  case True
  with handler_inv [OF assms] show ?thesis by (simp add: flow_step_def)
next
  case False
  have "call_inv (fst (other_step env op (fl_call f)))"
    using sound_other [of env True "fl_call f" op] assms by (simp add: sound_def books_def Let_def flow_inv_def)
  with False assms other_finished [of "fl_call f" env op] show ?thesis
    by (auto simp: flow_step_def flow_inv_def split_def split: phase.split)
qed

interpretation flow: stepper "flow_step env" "\<lambda>_. True" flow_inv for env
  by unfold_locales (rule flow_step_inv)

text \<open>The books of a whole run.\<close>

lemma run_books:
  "sound (ce_handler env, True) (fl_call f) (fl_call (fst (run (flow_step env) ops f)), snd (run (flow_step env) ops f))"
proof (induction ops arbitrary: f)
  case Nil
  show ?case by (simp add: sound_nothing)
next
  case (Cons op ops)
  let ?r = "flow_step env op f"
  have "sound (ce_handler env, True) (fl_call f) (fl_call (fst ?r), snd ?r)" by (rule flow_books)
  with Cons.IH [of "fst ?r"] show ?case
    unfolding sound_def books_def by (auto simp: Let_def)
qed

definition has_returned :: "inbound_flow \<Rightarrow> bool" where
  "has_returned f = (case fl_phase f of Returned e \<Rightarrow> True | _ \<Rightarrow> False)"

definition new_flow ::
  "call_env \<Rightarrow> bool \<Rightarrow> string \<Rightarrow> string \<Rightarrow> string \<Rightarrow> string \<Rightarrow> sip_inbound \<Rightarrow> call_state \<Rightarrow> signaling_timestamps
    \<Rightarrow> inbound_flow" where
  "new_flow env jitter lk sip from to cc st ts =
     \<lparr>fl_call = fst (newInboundCall env jitter lk sip (NewCall Inbound from to) cc st ts), fl_phase = AtStart\<rparr>"

lemma new_flow_inv:
  "dlg_inv cc \<Longrightarrow> flow_inv (new_flow env jitter lk sip from to cc st ts)"
  by (simp add: flow_inv_def new_flow_def newInboundCall_def call_inv_def NewCall_def)

section \<open>The media port is released\<close>

definition released :: "inbound_call \<Rightarrow> bool" where
  "released c = (case ic_media c of None \<Rightarrow> True | Some (p, t) \<Rightarrow> mp_closed p)"

definition tidy :: "inbound_call \<Rightarrow> call_result \<Rightarrow> bool" where
  "tidy c r = ((ic_done c \<longrightarrow> released c) \<longrightarrow> (ic_done (fst r) \<longrightarrow> released (fst r)))"

named_theorems tidy_steps \<open>steps that leave no media port open when the call is closed\<close>

lemma tidy_andThen [tidy_steps]: "tidy c r \<Longrightarrow> (\<And>c'. tidy c' (f c')) \<Longrightarrow> tidy c (andThen r f)"
  by (simp add: tidy_def andThen_pair)

lemma tidy_same: "ic_done c' = ic_done c \<Longrightarrow> ic_media c' = ic_media c \<Longrightarrow> tidy c (c', es)"
  by (simp add: tidy_def released_def)

lemma tidy_other_state: "ic_done c0 = ic_done c \<Longrightarrow> ic_media c0 = ic_media c \<Longrightarrow> tidy c0 r \<Longrightarrow> tidy c r"
  by (simp add: tidy_def released_def)

lemma tidy_open: "\<not> ic_done c \<Longrightarrow> same_books c (fst r) \<Longrightarrow> tidy c r"
  by (simp add: tidy_def same_books_def)

lemma closeMedia_released: "released (fst (closeMedia c))"
  by (simp add: closeMedia_def released_def Port_Close_def split: option.split prod.split)

lemma tidy_close [tidy_steps]: "tidy c (close_call env a c)"
proof (cases "ic_done c")
  case True
  then show ?thesis by (cases a) (simp add: close_call_def tidy_def)
next
  case live: False
  obtain status t where a: "a = (status, t)" by (metis surj_pair)
  obtain m ms where m: "CallTerminate t (ic_mon c) = (m, ms)" by (metis surj_pair)
  obtain cc ds where d: "CloseWithStatus (ce_dialog env) (fst (SIPStatus status)) (snd (SIPStatus status))
      (ce_bye_answer env) (ic_cc c) = (cc, ds)" by (metis surj_pair)
  obtain c2 es where c2: "closeMedia (c\<lparr>ic_done := True, ic_mon := m, ic_cc := cc\<rparr>) = (c2, es)" by (metis surj_pair)
  have "released c2" using closeMedia_released c2 by (metis fst_conv)
  then have "released (c2\<lparr>ic_ctx_done := True\<rparr>)" by (simp add: released_def)
  then show ?thesis by (simp add: a close_call_open [OF live m d c2] tidy_def)
qed

lemma tidy_parts [tidy_steps]:
  "tidy c (on_dialog f c)" "tidy c (on_report g c)" "tidy c (on_monitor h c)" "tidy c (report_update env u c)"
  "tidy c (c, es)" "tidy c (Call_Close c)"
  by (auto simp: on_dialog_def on_report_def on_monitor_def report_update_def Call_Close_def split_def intro: tidy_same)

lemma tidy_closes [tidy_steps]:
  "tidy c (closeWithTimeout env b c)" "tidy c (closeWithNoACK env c)" "tidy c (closeWithCancelled env c)"
  "tidy c (closeWithHangup env c)" "tidy c (reject_call env code reason st c)" "tidy c (fst (mediaTimeout env c))"
proof -
  have d: "tidy c (close_call env a (defer_report u c))" for a u c
    by (rule tidy_other_state [of "defer_report u c"]) (simp_all add: defer_report_def tidy_close)
  show "tidy c (closeWithTimeout env b c)" "tidy c (closeWithNoACK env c)" "tidy c (closeWithCancelled env c)"
    "tidy c (closeWithHangup env c)" "tidy c (reject_call env code reason st c)" "tidy c (fst (mediaTimeout env c))"
    by (auto simp: closeWithTimeout_def closeWithNoACK_def closeWithCancelled_def closeWithHangup_def
        closeWithReason_def reject_call_def mediaTimeout_def d intro!: tidy_steps)
qed

lemma tidy_waits [tidy_steps]: "tidy c (fst (waitMedia env e c))" "tidy c (fst (waitSubscribe env e c))"
  by (cases e; simp add: waitMedia_def waitSubscribe_def split_def tidy_steps)+

lemma tidy_pin_step [tidy_steps]: "tidy c (fst (pin_step env ask e pin c))"
proof -
  have n: "tidy c (note_dispatch d c, es)" for c d es by (rule tidy_same) (simp_all add: note_dispatch_def)
  show ?thesis
    by (cases e) (auto simp: pin_step_def check_pin_def Let_def split_def intro!: tidy_steps n)
qed

lemma tidy_runMedia: "\<not> ic_done c \<Longrightarrow> tidy c (fst (runMedia env mconf pb offer c))"
proof -
  assume live: "\<not> ic_done c"
  obtain c1 es r where m: "runMediaConn env mconf pb offer c = ((c1, es), r)" by (metis surj_pair)
  have "tidy c (c1, es)" using runMediaConn_frame [OF m] live by (intro tidy_open) simp_all
  then show ?thesis
    by (cases r) (auto simp: runMedia_def m split_def intro!: tidy_andThen tidy_closes)
qed

lemma tidy_acceptCall [tidy_steps]: "\<not> ic_done c \<Longrightarrow> tidy c (fst (acceptCall env ev now mt d answer c))"
proof -
  assume live: "\<not> ic_done c"
  have m: "tidy c (media_on env now mt c)" for c
    by (auto simp: media_on_def Let_def on_timeout_def tidy_def released_def EnableVideoOut_def split: option.split)
  show ?thesis
    by (auto simp: acceptCall_def Let_def split_def split: option.split accept_error.split
        intro!: tidy_andThen tidy_closes tidy_close m tidy_same)
qed

lemma tidy_joinRoom [tidy_steps]: "\<not> ic_done c \<Longrightarrow> tidy c (fst (joinRoom env jp d st c))"
proof -
  assume live: "\<not> ic_done c"
  obtain c1 es e where m: "createLiveKitParticipant env jp d st c = ((c1, es), e)" by (metis surj_pair)
  have "tidy c (c1, es)" using createLiveKitParticipant_frame [OF m] live by (intro tidy_open) simp_all
  then show ?thesis by (cases e) (auto simp: joinRoom_def m intro!: tidy_andThen tidy_close)
qed

lemma publishTrack_frame: "publishTrack tr v pr c = ((c', es), e) \<Longrightarrow> same_books c c'"
  by (auto simp: publishTrack_def on_port_def split_def Let_def split: option.splits)

lemma tidy_end_step [tidy_steps]: "tidy c (fst (call_end_step env mt e armed c))"
proof -
  have d: "tidy c (close_call env a (defer_report u c))" for a u
    by (rule tidy_other_state [of "defer_report u c"]) (simp_all add: defer_report_def tidy_close)
  have t: "tidy c (on_timeout f c, [])" for f
    by (auto simp: on_timeout_def tidy_def released_def split: option.split)
  show ?thesis
    by (cases e) (auto simp: call_end_step_def split_def d t intro!: tidy_steps)
qed

text \<open>A step that goes on leaves the call open.\<close>

definition stays :: "inbound_call \<Rightarrow> step_result \<Rightarrow> bool" where
  "stays c r = (case snd r of Goto ph \<Rightarrow> ic_done (fst (fst r)) = ic_done c | Return e \<Rightarrow> True)"

lemma done_parts [simp]:
  "ic_done (fst (on_dialog f c)) = ic_done c" "ic_done (fst (on_report g c)) = ic_done c"
  "ic_done (fst (on_monitor h c)) = ic_done c" "ic_done (fst (report_update env u c)) = ic_done c"
  "ic_done (note_dispatch d c) = ic_done c" "ic_done (fst (media_on env now mt c)) = ic_done c"
  "ic_done (fst (fst (activate env mconf now c))) = ic_done c"
  by (simp_all add: on_dialog_def on_report_def on_monitor_def report_update_def note_dispatch_def
      media_on_def on_timeout_def activate_def andThen_pair Let_def split_def)

lemma waits_go:
  "waitMedia env e c = (r, True, err) \<Longrightarrow> r = (c, [])" "waitSubscribe env e c = (r, True, err) \<Longrightarrow> r = (c, [])"
  by (cases e; auto simp: waitMedia_def waitSubscribe_def split_def)+

lemma pin_step_go:
  "pin_step env ask e pin c = (r, MorePin pin') \<Longrightarrow> ic_done (fst r) = ic_done c"
  "pin_step env ask e pin c = (r, PinOk d) \<Longrightarrow> ic_done (fst r) = ic_done c"
  by (cases e; auto simp: pin_step_def check_pin_def Let_def split_def split: if_splits)+

lemma runMedia_go: "runMedia env mconf pb offer c = (r, Inr a) \<Longrightarrow> same_books c (fst r)"
proof -
  assume m: "runMedia env mconf pb offer c = (r, Inr a)"
  then have "runMediaConn env mconf pb offer c = ((fst r, snd r), Inr a)"
    by (auto simp: runMedia_def split: prod.splits sum.splits)
  then show ?thesis using runMediaConn_frame by metis
qed

lemma acceptCall_go: "acceptCall env ev now mt d answer c = (r, None) \<Longrightarrow> ic_done (fst r) = ic_done c"
  by (auto simp: acceptCall_def Let_def andThen_pair split: prod.splits option.splits accept_error.splits)

lemma joinRoom_go: "joinRoom env jp d st c = (r, None) \<Longrightarrow> same_books c (fst r)"
proof -
  assume j: "joinRoom env jp d st c = (r, None)"
  then have "createLiveKitParticipant env jp d st c = ((fst r, snd r), None)"
    by (auto simp: joinRoom_def split: prod.splits option.splits)
  then show ?thesis using createLiveKitParticipant_frame by metis
qed

lemma end_step_go: "call_end_step env mt e armed c = (r, armed', None) \<Longrightarrow> ic_done (fst r) = ic_done c"
  by (cases e) (auto simp: call_end_step_def split_def on_timeout_def split: if_splits)

lemma stays_steps:
  "stays c (begin_call env i now c)" "stays c (dispatched env d c)"
  "stays c (wait_media_step env d mconf pin answer e now c)"
  "stays c (publish_step env d mconf pin answer tr vt pr now c)"
  "stays c (media_step env d mconf pin pb offer c)"
  "stays c (pin_prompt_step env ask mconf answer typed pe c)"
  "stays c (join_step env d mconf pin answer jp c)"
  "stays c (subscribe_step env d mconf answer e c)"
  "stays c (in_call_step env armed mt ee c)"
  "stays c (accept_step env d mconf pin answer ev now c)"
proof -
  show "stays c (begin_call env i now c)" "stays c (dispatched env d c)"
    by (auto simp: stays_def begin_call_def dispatched_def Let_def andThen_pair split: sum.split option.split prod.split)
  show "stays c (wait_media_step env d mconf pin answer e now c)"
    by (auto simp: stays_def wait_media_step_def Let_def andThen_pair activate_def
        split: prod.split bool.split dest: waits_go)
  show "stays c (publish_step env d mconf pin answer tr vt pr now c)"
    by (auto simp: stays_def publish_step_def Let_def andThen_pair activate_def same_books_def
        split: prod.split option.split dest: publishTrack_frame)
  show "stays c (media_step env d mconf pin pb offer c)" "stays c (join_step env d mconf pin answer jp c)"
    by (auto simp: stays_def media_step_def join_step_def Let_def same_books_def
        split: prod.split sum.split option.split dest!: runMedia_go joinRoom_go)
  show "stays c (pin_prompt_step env ask mconf answer typed pe c)"
    by (auto simp: stays_def pin_prompt_step_def split: prod.split pin_verdict.split dest: pin_step_go)
  show "stays c (subscribe_step env d mconf answer e c)" "stays c (in_call_step env armed mt ee c)"
    "stays c (accept_step env d mconf pin answer ev now c)"
    by (auto simp: stays_def subscribe_step_def in_call_step_def accept_step_def
        split: prod.split bool.split option.split dest: waits_go end_step_go acceptCall_go)
qed

lemma tidy_extend: "tidy c r \<Longrightarrow> f (fst r) = ((c2, es2), out) \<Longrightarrow> (\<And>c'. tidy c' (fst (f c'))) \<Longrightarrow> tidy c (c2, es)"
  unfolding tidy_def by (metis fst_conv)

lemma tidy_activate: "tidy c (fst (activate env mconf now c))"
  by (auto simp: activate_def intro!: tidy_steps tidy_same)

lemma tidy_publishTrack: "\<not> ic_done c \<Longrightarrow> tidy c (fst (publishTrack tr v pr c))"
  using publishTrack_frame [of tr v pr c "fst (fst (publishTrack tr v pr c))" "snd (fst (publishTrack tr v pr c))"
      "snd (publishTrack tr v pr c)"]
  by (intro tidy_open) simp_all

lemma tidy_machine_steps:
  assumes "\<not> ic_done c"
  shows "tidy c (fst (begin_call env i now c))" "tidy c (fst (dispatched env d c))"
    "tidy c (fst (wait_media_step env d mconf pin answer e now c))"
    "tidy c (fst (publish_step env d mconf pin answer tr vt pr now c))"
    "tidy c (fst (media_step env d mconf pin pb offer c))"
    "tidy c (fst (pin_prompt_step env ask mconf answer typed pe c))"
    "tidy c (fst (join_step env d mconf pin answer jp c))"
    "tidy c (fst (subscribe_step env d mconf answer e c))"
    "tidy c (fst (in_call_step env armed mt ee c))"
    "tidy c (fst (accept_step env d mconf pin answer ev now c))"
proof -
  have same: "tidy c0 (c0\<lparr>ic_times := x\<rparr>, es)" "tidy c0 (c0\<lparr>ic_sip_call_id := y\<rparr>, es)"
    "tidy c0 (note_dispatch d0 c0, es)" for c0 x y es d0
    by (auto intro: tidy_same simp: note_dispatch_def)
  show "tidy c (fst (begin_call env i now c))"
    by (auto simp: begin_call_def Let_def intro!: tidy_steps same)
  have rep: "tidy c (report_update env u (note_dispatch d0 c))" for u d0
    by (rule tidy_other_state [of "note_dispatch d0 c"]) (simp_all add: note_dispatch_def tidy_parts)
  show "tidy c (fst (dispatched env d c))"
    by (auto simp: dispatched_def Let_def split_def split: sum.split option.split
        intro!: tidy_andThen tidy_closes tidy_close tidy_parts rep)
  show "tidy c (fst (wait_media_step env d mconf pin answer e now c))"
  proof -
    obtain r ok err where w: "waitMedia env e c = (r, ok, err)" by (metis surj_pair)
    have s: "tidy c r" using tidy_waits(1) [of c env e] w by simp
    have s': "tidy c (andThen r (\<lambda>c. (c, setStatus CallActive c)))" by (intro tidy_andThen s tidy_parts)
    obtain c2 es2 out where act: "activate env mconf now (fst (andThen r (\<lambda>c. (c, setStatus CallActive c)))) = ((c2, es2), out)"
      by (metis surj_pair)
    show ?thesis
      using s tidy_andThen [OF s', of "\<lambda>c. (c, [Play EnterPin])"] tidy_extend [OF s' act tidy_activate] tidy_parts(5)
      by (cases ok; cases pin) (simp_all add: wait_media_step_def w act Let_def)
  qed
  show "tidy c (fst (publish_step env d mconf pin answer tr vt pr now c))"
  proof -
    obtain r e where w: "publishTrack tr vt pr c = (r, e)" by (metis surj_pair)
    have s: "tidy c r" using tidy_publishTrack [OF assms, of tr vt pr] w by simp
    have s': "tidy c (andThen r (\<lambda>c. (c, [RoomSubscribe])))" by (intro tidy_andThen s tidy_parts)
    obtain c2 es2 out where act: "activate env mconf now (fst (andThen r (\<lambda>c. (c, [RoomSubscribe])))) = ((c2, es2), out)"
      by (metis surj_pair)
    show ?thesis
      using s' tidy_andThen [OF s tidy_close] tidy_extend [OF s' act tidy_activate]
      by (cases e; cases pin) (simp_all add: publish_step_def w act Let_def)
  qed
  show "tidy c (fst (media_step env d mconf pin pb offer c))"
    "tidy c (fst (pin_prompt_step env ask mconf answer typed pe c))"
    "tidy c (fst (join_step env d mconf pin answer jp c))"
    "tidy c (fst (subscribe_step env d mconf answer e c))"
    "tidy c (fst (in_call_step env armed mt ee c))"
    "tidy c (fst (accept_step env d mconf pin answer ev now c))"
    using tidy_runMedia [OF assms, of env mconf pb offer] tidy_pin_step [of c env ask pe typed]
      tidy_joinRoom [OF assms, of env jp "complete_dispatch env c d" "if pin then CallActive else CallRinging"]
      tidy_waits(2) [of c env e] tidy_end_step [of c env mt ee armed]
      tidy_acceptCall [OF assms, of env ev now "me_timeout mconf" d answer]
    by (auto simp: media_step_def pin_prompt_step_def join_step_def subscribe_step_def in_call_step_def
        accept_step_def Let_def split: prod.splits sum.splits option.splits bool.splits pin_verdict.splits)
qed

text \<open>
  Without a shutdown of the server, only \<open>handleInvite\<close> closes the call: as long as it runs, the call is
  open, and afterwards its media port is released.
\<close>

definition no_stop :: "flow_op \<Rightarrow> bool" where
  "no_stop op = (op \<noteq> ServerStops)"

definition port_inv :: "inbound_flow \<Rightarrow> bool" where
  "port_inv f = (case fl_phase f of
       Returned e \<Rightarrow> ic_done (fl_call f) \<and> released (fl_call f)
     | _ \<Rightarrow> \<not> ic_done (fl_call f))"

lemma settle_port:
  assumes "\<not> ic_done c" and "tidy c (fst r)" and "stays c r" and "forward (snd r)"
  shows "port_inv (fst (settle env now r))"
proof -
  obtain c1 es out where r: "r = ((c1, es), out)" by (metis surj_pair)
  show ?thesis
  proof (cases out)
    case (Goto ph)
    with assms r have "\<not> ic_done c1" by (simp add: stays_def)
    with Goto r assms(4) show ?thesis by (cases ph) (simp_all add: settle_def port_inv_def forward_def)
  next
    case (Return e)
    have "tidy c1 (on_return env now e c1)" by (auto simp: on_return_def intro!: tidy_steps)
    moreover have "ic_done (fst (on_return env now e c1))"
      by (simp add: on_return_def andThen_pair close_call_frame)
    moreover have "ic_done c1 \<longrightarrow> released c1" using assms r by (simp add: tidy_def)
    ultimately have "released (fst (on_return env now e c1))" by (simp add: tidy_def)
    with Return r \<open>ic_done (fst (on_return env now e c1))\<close> show ?thesis
      by (simp add: settle_def port_inv_def andThen_pair split_def)
  qed
qed

lemma released_other:
  assumes "no_stop op"
  shows "ic_done (fst (other_step env op c)) = ic_done c"
    and "released c \<Longrightarrow> released (fst (other_step env op c))"
  using assms
  by (cases op; auto simp: other_step_def no_stop_def andThen_pair on_dialog_def Call_Close_def Bye_def
      handleDTMF_def requestVideoKeyframe_def on_port_def on_report_def released_def split_def
      split: option.splits prod.splits)+

lemma port_step:
  assumes "no_stop op" and "port_inv f"
  shows "port_inv (fst (flow_step env op f))"
proof (cases "of_handler op")
  case False
  with released_other(1) [OF assms(1), of env "fl_call f"]
    released_other(2) [OF assms(1), of "fl_call f" env] assms(2) show ?thesis
    by (auto simp: flow_step_def port_inv_def split_def split: phase.splits)
next
  case True
  have tone: "\<not> ic_done (take_tone e (fl_call f))" if "\<not> ic_done (fl_call f)" for e
    using that by (auto simp: take_tone_def split: pin_event.split)
  note s = settle_port [where env = env]
  have "port_inv (fst (handler_step env op f))"
    using assms(2)
    by (cases op; cases "fl_phase f")
      (auto simp: handler_step_def Let_def port_inv_def [of f]
        intro!: s [OF _ tidy_machine_steps(1) stays_steps(1) forward_steps(1)]
          s [OF _ tidy_machine_steps(2) stays_steps(2) forward_steps(2)]
          s [OF _ tidy_machine_steps(3) stays_steps(3) forward_steps(3)]
          s [OF _ tidy_machine_steps(4) stays_steps(4) forward_steps(4)]
          s [OF _ tidy_machine_steps(5) stays_steps(5) forward_steps(5)]
          s [OF tone tidy_machine_steps(6) stays_steps(6) forward_steps(6)]
          s [OF _ tidy_machine_steps(7) stays_steps(7) forward_steps(7)]
          s [OF _ tidy_machine_steps(8) stays_steps(8) forward_steps(8)]
          s [OF _ tidy_machine_steps(9) stays_steps(9) forward_steps(9)]
          s [OF _ tidy_machine_steps(10) stays_steps(10) forward_steps(10)] tone)
  with True show ?thesis by (simp add: flow_step_def)
qed

interpretation ports: stepper "flow_step env" no_stop port_inv for env
  by unfold_locales (rule port_step)

section \<open>When the call is answered\<close>

definition answered :: "call_effect list \<Rightarrow> bool" where
  "answered es = list_ex is_ok_answer es"

definition pin_requested :: "flow_op list \<Rightarrow> bool" where
  "pin_requested ops = list_ex (\<lambda>op. case op of
     Dispatched d now \<Rightarrow> cd_result d = DispatchRequestPin | _ \<Rightarrow> False) ops"

definition dispatch_passed :: "flow_op list \<Rightarrow> bool" where
  "dispatch_passed ops = list_ex (\<lambda>op. case op of
     Dispatched d now \<Rightarrow> dispatch_verdict (cd_result d) = None | _ \<Rightarrow> False) ops"

definition subscribed :: "flow_op list \<Rightarrow> bool" where
  "subscribed ops = list_ex (\<lambda>op. case op of SubscribeWaited e now \<Rightarrow> e = Arrived | _ \<Rightarrow> False) ops"

definition track_published :: "call_effect list \<Rightarrow> bool" where
  "track_published es = (RoomTrack \<in> set es \<and> RoomSubscribe \<in> set es)"

definition may_answer :: "flow_op list \<Rightarrow> call_effect list \<Rightarrow> bool" where
  "may_answer ops es = (dispatch_passed ops \<and> (pin_requested ops \<or> track_published es \<and> subscribed ops))"

definition phase_ready :: "flow_op list \<Rightarrow> call_effect list \<Rightarrow> phase \<Rightarrow> bool" where
  "phase_ready ops es ph = (case ph of
       AtMedia d m pin \<Rightarrow> dispatch_passed ops \<and> (pin \<longrightarrow> pin_requested ops)
     | AtAccept d m pin a \<Rightarrow> may_answer ops es \<and> (pin \<longrightarrow> pin_requested ops)
     | AtWaitMedia d m pin a \<Rightarrow> may_answer ops es \<and> (pin \<longrightarrow> pin_requested ops)
     | AtPin m a typed \<Rightarrow> dispatch_passed ops \<and> pin_requested ops
     | AtJoin d m pin a \<Rightarrow> dispatch_passed ops \<and> (pin \<longrightarrow> pin_requested ops)
     | AtPublish d m pin a \<Rightarrow> dispatch_passed ops \<and> (pin \<longrightarrow> pin_requested ops)
     | AtSubscribe d m a \<Rightarrow> dispatch_passed ops \<and> track_published es
     | _ \<Rightarrow> True)"

definition answer_rel :: "flow_op list \<Rightarrow> call_effect list \<Rightarrow> inbound_flow \<Rightarrow> bool" where
  "answer_rel ops es f = ((answered es \<longrightarrow> may_answer ops es) \<and> phase_ready ops es (fl_phase f))"

lemma history_mono:
  "dispatch_passed ops \<Longrightarrow> dispatch_passed (ops @ ops')" "pin_requested ops \<Longrightarrow> pin_requested (ops @ ops')"
  "subscribed ops \<Longrightarrow> subscribed (ops @ ops')" "track_published es \<Longrightarrow> track_published (es @ es')"
  "may_answer ops es \<Longrightarrow> may_answer (ops @ ops') (es @ es')"
  by (auto simp: dispatch_passed_def pin_requested_def subscribed_def track_published_def may_answer_def)

lemma phase_ready_mono: "phase_ready ops es ph \<Longrightarrow> phase_ready (ops @ ops') (es @ es') ph"
  by (auto simp: phase_ready_def history_mono split: phase.splits)

lemma not_answered: "count_by is_ok_answer es = 0 \<longleftrightarrow> \<not> answered es"
  by (simp add: answered_def count_by_zero_iff list_ex_iff)

lemma settle_shape:
  "fl_phase (fst (settle env now r)) = (case snd r of Goto ph \<Rightarrow> ph | Return e \<Rightarrow> Returned e)"
  "\<exists>es'. snd (settle env now r) = snd (fst r) @ es'"
  by (auto simp: settle_def andThen_pair split_def split: prod.split outcome.split)

text \<open>Where each step goes.\<close>

lemma goes:
  "snd (begin_call env i now c) = Goto ph \<Longrightarrow> ph = AtDispatch \<or> ph = Crashed"
  "snd (dispatched env d c) = Goto ph \<Longrightarrow> \<exists>m. ph = AtMedia d m (cd_result d = DispatchRequestPin)
     \<and> dispatch_verdict (cd_result d) = None"
  "snd (media_step env d mconf pin pb offer c) = Goto ph
     \<Longrightarrow> \<exists>a. ph = (if pin then AtAccept d mconf pin a else AtJoin d mconf pin a)"
  "snd (accept_step env d mconf pin answer ev now c) = Goto ph \<Longrightarrow> ph = AtWaitMedia d mconf pin answer"
  "snd (wait_media_step env d mconf pin answer we now c) = Goto ph
     \<Longrightarrow> (pin \<longrightarrow> ph = AtPin mconf answer []) \<and> (\<not> pin \<longrightarrow> (\<exists>x y. ph = InCall x y))"
  "snd (pin_prompt_step env ask mconf answer typed pe c) = Goto ph
     \<Longrightarrow> (\<exists>p. ph = AtPin mconf answer p) \<or> (\<exists>d. ph = AtJoin d mconf True answer)"
  "snd (join_step env d mconf pin answer jp c) = Goto ph
     \<Longrightarrow> ph = AtPublish (complete_dispatch env c d) mconf pin answer"
  "snd (publish_step env d mconf pin answer tr vt pr now c) = Goto ph
     \<Longrightarrow> (pin \<longrightarrow> (\<exists>x y. ph = InCall x y)) \<and> (\<not> pin \<longrightarrow> ph = AtSubscribe d mconf answer)
       \<and> track_published (snd (fst (publish_step env d mconf pin answer tr vt pr now c)))"
  "snd (subscribe_step env d mconf answer we c) = Goto ph \<Longrightarrow> ph = AtAccept d mconf False answer \<and> we = Arrived"
  "snd (in_call_step env armed mt ee c) = Goto ph \<Longrightarrow> \<exists>x y. ph = InCall x y"
  by (auto simp: begin_call_def dispatched_def media_step_def accept_step_def wait_media_step_def activate_def
      pin_prompt_step_def join_step_def publish_step_def subscribe_step_def in_call_step_def Let_def andThen_pair
      publishTrack_def track_published_def waitSubscribe_def split_def
      split: if_splits prod.splits sum.splits option.splits bool.splits pin_verdict.splits wait_end.splits)

definition accepts :: "flow_op \<Rightarrow> bool" where
  "accepts op = (case op of AcceptDone ev now \<Rightarrow> True | _ \<Rightarrow> False)"

lemma handler_silent:
  assumes "\<not> accepts op"
  shows "sound (ce_handler env, False) (fl_call f) (fl_call (fst (handler_step env op f)), snd (handler_step env op f))"
  using assms
  by (cases op; cases "fl_phase f")
    (auto simp: handler_step_def Let_def accepts_def
      intro!: sound_settle sound_begin sound_dispatched sound_wait_media sound_publish sound_simple_steps
        sound_nothing intro: sound_take_tone)

lemma step_silent:
  assumes "\<not> accepts op" and "flow_inv f"
  shows "\<not> answered (snd (flow_step env op f))"
proof (cases "of_handler op")
  case True
  with handler_silent [OF assms(1), of env f] assms(2) show ?thesis
    by (simp add: sound_def books_def flow_inv_def flow_step_def not_answered Let_def)
next
  case False
  with sound_other [of env False "fl_call f" op] assms(2) show ?thesis
    by (simp add: sound_def books_def flow_inv_def flow_step_def not_answered Let_def split_def)
qed

lemma answered_append: "answered (es @ es') = (answered es \<or> answered es')"
  by (simp add: answered_def)

lemma settle_ready:
  assumes "\<And>ph. snd r = Goto ph \<Longrightarrow> phase_ready ops es ph"
  shows "phase_ready ops es (fl_phase (fst (settle env now r)))"
  using assms by (auto simp: settle_shape phase_ready_def split: outcome.split)

lemma settle_published:
  "track_published es \<or> track_published (snd (fst r)) \<Longrightarrow> track_published (es @ snd (settle env now r))"
  using settle_shape(2) [of env now r] by (auto simp: track_published_def)

lemma phase_ready_simps [simp]:
  "phase_ready ops es AtStart" "phase_ready ops es AtDispatch" "phase_ready ops es Crashed"
  "phase_ready ops es (InCall x y)" "phase_ready ops es (Returned e)"
  "phase_ready ops es (AtMedia d m pin) = (dispatch_passed ops \<and> (pin \<longrightarrow> pin_requested ops))"
  "phase_ready ops es (AtAccept d m pin a) = (may_answer ops es \<and> (pin \<longrightarrow> pin_requested ops))"
  "phase_ready ops es (AtWaitMedia d m pin a) = (may_answer ops es \<and> (pin \<longrightarrow> pin_requested ops))"
  "phase_ready ops es (AtPin m a typed) = (dispatch_passed ops \<and> pin_requested ops)"
  "phase_ready ops es (AtJoin d m pin a) = (dispatch_passed ops \<and> (pin \<longrightarrow> pin_requested ops))"
  "phase_ready ops es (AtPublish d m pin a) = (dispatch_passed ops \<and> (pin \<longrightarrow> pin_requested ops))"
  "phase_ready ops es (AtSubscribe d m a) = (dispatch_passed ops \<and> track_published es)"
  by (simp_all add: phase_ready_def)

lemma handler_ready:
  assumes "phase_ready ops es (fl_phase f)"
  shows "phase_ready (ops @ [op]) (es @ snd (handler_step env op f)) (fl_phase (fst (handler_step env op f)))"
proof -
  note keep = phase_ready_mono [OF assms, of "[op]" "[]", simplified]
  have more: "may_answer (ops @ [op]) (es @ es')" if "may_answer ops es" for es'
    using that by (rule history_mono)
  have last_passed: "dispatch_passed (ops @ [Dispatched d now])" if "dispatch_verdict (cd_result d) = None" for d now
    using that by (simp add: dispatch_passed_def)
  have last_pin: "pin_requested (ops @ [Dispatched d now])" if "cd_result d = DispatchRequestPin" for d now
    using that by (simp add: pin_requested_def)
  have last_sub: "subscribed (ops @ [SubscribeWaited Arrived now])" for now
    by (simp add: subscribed_def)
  show ?thesis
    using assms keep
    by (cases op; cases "fl_phase f")
      (auto simp: handler_step_def Let_def may_answer_def last_sub
        intro!: settle_ready settle_published dest!: goes
        intro: history_mono last_passed last_pin last_sub)
qed

lemma answer_step:
  assumes "flow_inv f" and "answer_rel ops es f"
  shows "answer_rel (ops @ [op]) (es @ snd (flow_step env op f)) (fst (flow_step env op f))"
proof -
  let ?r = "flow_step env op f"
  have ready: "phase_ready (ops @ [op]) (es @ snd ?r) (fl_phase (fst ?r))"
  proof (cases "of_handler op")
    case True
    with handler_ready [of ops es f op env] assms(2) show ?thesis by (simp add: flow_step_def answer_rel_def)
  next
    case False
    with assms(2) show ?thesis
      by (simp add: flow_step_def answer_rel_def split_def phase_ready_mono)
  qed
  have "may_answer (ops @ [op]) (es @ snd ?r)" if "answered (es @ snd ?r)"
  proof (cases "answered es")
    case True
    with assms(2) show ?thesis by (auto simp: answer_rel_def intro: history_mono)
  next
    case False
    with that have "answered (snd ?r)" by (simp add: answered_append)
    then have "accepts op" using step_silent [OF _ assms(1)] by blast
    then obtain ev now where op: "op = AcceptDone ev now" by (auto simp: accepts_def split: flow_op.splits)
    with \<open>answered (snd ?r)\<close> obtain d m pin a where "fl_phase f = AtAccept d m pin a"
      by (cases "fl_phase f") (auto simp: flow_step_def of_handler_def handler_step_def answered_def)
    with assms(2) show ?thesis by (auto simp: answer_rel_def intro: history_mono)
  qed
  with ready show ?thesis by (simp add: answer_rel_def)
qed

lemma run_answer_rel:
  assumes "flow_inv f" and "fl_phase f = AtStart"
  shows "answer_rel ops (snd (run (flow_step env) ops f)) (fst (run (flow_step env) ops f))"
proof -
  have "flow_inv (fst (run (flow_step env) ops f))
      \<and> answer_rel ops (snd (run (flow_step env) ops f)) (fst (run (flow_step env) ops f))"
  proof (rule run_history_induct [where Q = "\<lambda>ops es f. flow_inv f \<and> answer_rel ops es f"])
    show "flow_inv f \<and> answer_rel [] [] f"
      using assms by (simp add: answer_rel_def answered_def)
  qed (auto intro: flow_step_inv answer_step)
  then show ?thesis by blast
qed

section \<open>A sample call\<close>

definition sample_media :: media_answer where
  "sample_media = \<lparr>an_remote = \<lparr>ap_addr = IPv4 0x0A000009, ap_port = 4000\<rparr>, an_crypto = False,
     an_audio = 0, an_dtmf = 0, an_processor = False\<rparr>"

definition sample_sdp :: sdp_lib where
  "sample_sdp = \<lparr>sl_new_offer = (\<lambda>c e. Inl (OtherErr [])), sl_parse_offer = (\<lambda>c d. Inr d),
     sl_answer = (\<lambda>o' e. Inr (\<lparr>ss_conn = None, ss_media = [], ss_rest = []\<rparr>, sample_media)),
     sl_parse_answer = (\<lambda>c d. Inr d), sl_apply = (\<lambda>a o' e. Inl (OtherSDP, [])),
     sl_unmarshal = (\<lambda>d. Inl (OtherErr [])), sl_marshal = (\<lambda>s. Inr ''answer'')\<rparr>"

definition sample_call_env :: call_env where
  "sample_call_env = \<lparr>ce_dialog = sample_dialog_env,
     ce_names = \<lparr>an_header_prefix = ''h.'', an_call_tag = ''tag'', an_call_id_full = ''id''\<rparr>,
     ce_header_to_attr = [], ce_status_attr = ''status'',
     ce_codecs = \<lparr>co_alaw = ''PCMA'', co_ulaw = ''PCMU'', co_g722 = ''G722'', co_amrwb = ''AMR-WB''\<rparr>,
     ce_sdp = sample_sdp, ce_parse_addr = (\<lambda>t. None), ce_timeout_initial = 30 * second, ce_timeout = 15 * second,
     ce_default_initial = 30 * second, ce_default_general = 15 * second,
     ce_opts = \<lparr>op_ignore_local = False, op_ignore_preanswer = False, op_no_resample = True, op_jitter = False,
                op_log_signal = False, op_dtmf_audio = False\<rparr>,
     ce_symmetric = False, ce_dtmf_audio = False, ce_processor = False, ce_video = False,
     ce_video_size = (1280, 720), ce_codec_name = (\<lambda>a. ''PCMU''), ce_handler = True, ce_rpc = (\<lambda>i. True),
     ce_bye_answer = Some 200\<rparr>"

definition sample_dispatch :: "dispatch_result \<Rightarrow> call_dispatch" where
  "sample_dispatch r = \<lparr>cd_result = r, cd_room = ''room'', cd_identity = ''sip_bob'', cd_name = ''Bob'',
     cd_attrs = None, cd_project = [], cd_trunk = ''ST_1'', cd_rule = ''SDR_1'', cd_headers = None,
     cd_hdr_to_attr = [], cd_include = SIP_NO_HEADERS, cd_attr_to_hdr = [], cd_ringing = 0,
     cd_max_duration = 0,
     cd_media = \<lparr>mr_encryption = ENCRYPT_DISABLE, mr_only_listed = False, mr_codecs = [], mr_timeout = None\<rparr>\<rparr>"

definition sample_probe :: media_probe where
  "sample_probe = \<lparr>pb_now = 0, pb_audio = True, pb_video = True, pb_session = True, pb_write = True,
     pb_video_write = True, pb_compositor = True, pb_video_port = 5002, pb_log_signal = False\<rparr>"

definition sample_join :: join_probe where
  "sample_join = \<lparr>jp_expired = False, jp_register = None, jp_connect = Inr (''RM_1'', ''room'', Map.empty),
     jp_rpc = None\<rparr>"

definition sample_flow :: inbound_flow where
  "sample_flow = new_flow sample_call_env False ''SCL_1'' ''call-1'' ''from'' ''to'' sample_dialog
     (NewCallState True None) \<lparr>st_invite = None, st_trying = None, st_ringing = None, st_accept = None,
       st_api = None, st_ack = None\<rparr>"

definition sample_call_ops :: "flow_op list" where
  "sample_call_ops = [Begin (Some ''call-1'') 1, RingTick, Dispatched (sample_dispatch DispatchAccept) 2,
     MediaDone sample_probe ''offer'' 3, JoinDone sample_join 4, PublishDone None True id 5,
     SubscribeWaited Arrived 6, AcceptDone (\<lambda>n. GotAck) 7, GotAckRequest, MediaWaited Arrived 8,
     GotBye zero_reason, CallEvent CtxEnds 9]"

lemma sample_returns:
  "has_returned (fst (run (flow_step sample_call_env) sample_call_ops sample_flow))
   \<and> answered (snd (run (flow_step sample_call_env) sample_call_ops sample_flow))"
  by code_simp

text \<open>
  A shutdown while the call waits for its dispatch closes it before it has a media port; the port that
  is then opened is never closed, as the flag \<open>done\<close> stops the second \<open>close\<close>.
\<close>

definition stopped_ops :: "flow_op list" where
  "stopped_ops = [Begin (Some ''call-1'') 1, ServerStops, Dispatched (sample_dispatch DispatchAccept) 2,
     MediaDone sample_probe ''offer'' 3, JoinDone sample_join 4]"

lemma media_leaks_on_shutdown:
  "has_returned (fst (run (flow_step sample_call_env) stopped_ops sample_flow))
   \<and> \<not> released (fl_call (fst (run (flow_step sample_call_env) stopped_ops sample_flow)))"
  by code_simp

end
