(* ===== verification/Inbound_Outcome.thy ===== *)
theory Inbound_Outcome
  imports Inbound_Flow
begin

text \<open>
  What the state machine of \<open>handleInvite\<close> guarantees for every interleaving of the handler with the
  requests, timers and stops that reach the call from other goroutines.
\<close>

section \<open>Properties of a call\<close>

text \<open>
  C2. A call from a valid INVITE, in every interleaving: it is dropped from the table of calls, its
  metric counted and the end of its session reported at most once, all of them exactly when the call is
  marked done; it hangs up at most once; the gauge of active calls goes down once for every time it
  went up, as soon as the handler is through; and once \<open>handleInvite\<close> has returned, the call is done,
  its dialog over, and its reported state an error or a disconnect.
\<close>
theorem inbound_call_concluded:
  assumes "newInbound req host contact cached tag = Inr cc"
  shows "case run (flow_step env) ops (new_flow env jitter lk sip src dst cc st ts) of (f, es) \<Rightarrow>
     count_by is_drop_tag es = of_bool (ic_done (fl_call f))
     \<and> count_by is_terminated_metric es = of_bool (ic_done (fl_call f))
     \<and> count_by is_session_end es = (if ce_handler env then of_bool (ic_done (fl_call f)) else 0)
     \<and> count_by hangs_up es \<le> 1
     \<and> count_by gauge_up es = count_by gauge_down es + (of_bool (cm_started (ic_mon (fl_call f))) :: nat)
     \<and> (if has_returned f then finished (fl_call f) else True)"
proof -
  let ?f0 = "new_flow env jitter lk sip src dst cc st ts"
  have inv: "flow_inv ?f0" using newInbound_inv [OF assms] by (rule new_flow_inv)
  then have "flow_inv (fst (run (flow_step env) ops ?f0))" using flow.run_inv [of ops ?f0 env] by (simp add: list_all_iff)
  moreover have "\<not> ic_done (fl_call ?f0) \<and> \<not> cm_started (ic_mon (fl_call ?f0)) \<and> open_hangups (ic_cc (fl_call ?f0)) \<le> 1"
    by (simp add: new_flow_def newInboundCall_def NewCall_def open_hangups_def)
  ultimately show ?thesis
    using run_books [of env ?f0 ops] inv
    by (auto simp: sound_def books_def flow_inv_def has_returned_def split_def Let_def split: phase.splits)
qed

lemma inbound_call_concluded_witness:
  "count_by hangs_up (snd (run (flow_step sample_call_env) sample_call_ops sample_flow)) \<le> 1
   \<and> finished (fl_call (fst (run (flow_step sample_call_env) sample_call_ops sample_flow)))"
  using inbound_call_concluded [OF sample_dialog_new, of sample_call_env sample_call_ops False
      "''SCL_1''" "''call-1''" "''from''" "''to''"] sample_returns
  unfolding sample_flow_def by (simp add: split_def)

text \<open>
  C16. As long as the server is not stopped, a call is closed by its handler alone, and with it its media
  port: while \<open>handleInvite\<close> runs the call is open, and once it has returned, on whatever path, the call
  is done and any media port it opened is closed.
\<close>
theorem inbound_media_released:
  assumes "list_all no_stop ops"
  shows "let c = fl_call (fst (run (flow_step env) ops (new_flow env jitter lk sip src dst cc st ts)));
             r = has_returned (fst (run (flow_step env) ops (new_flow env jitter lk sip src dst cc st ts)))
         in ic_done c = r \<and> (if r then released c else True)"
proof -
  let ?f0 = "new_flow env jitter lk sip src dst cc st ts"
  have "port_inv ?f0" by (simp add: port_inv_def new_flow_def newInboundCall_def)
  then have "port_inv (fst (run (flow_step env) ops ?f0))" by (rule ports.run_inv [OF assms])
  then show ?thesis by (auto simp: port_inv_def has_returned_def Let_def split: phase.splits)
qed

lemma inbound_media_released_witness:
  "released (fl_call (fst (run (flow_step sample_call_env) sample_call_ops sample_flow)))"
  using inbound_media_released [of sample_call_ops sample_call_env False "''SCL_1''" "''call-1''"
      "''from''" "''to''"] sample_returns
  unfolding sample_flow_def by (simp add: Let_def sample_call_ops_def no_stop_def)

text \<open>
  C15. The INVITE is answered with 200 only on a call whose dispatch result was positive, and then either
  a pin was asked for, or the caller's track had been published to the room and a subscriber had
  arrived; this in every interleaving, also when the call is being closed or stopped meanwhile.
\<close>
theorem inbound_answer_waits:
  assumes "newInbound req host contact cached tag = Inr cc"
  shows "if answered (snd (run (flow_step env) ops (new_flow env jitter lk sip src dst cc st ts)))
         then may_answer ops (snd (run (flow_step env) ops (new_flow env jitter lk sip src dst cc st ts)))
         else True"
proof -
  let ?f0 = "new_flow env jitter lk sip src dst cc st ts"
  have "fl_phase ?f0 = AtStart" by (simp add: new_flow_def)
  with run_answer_rel [OF new_flow_inv [OF newInbound_inv [OF assms]]]
  show ?thesis by (simp add: answer_rel_def)
qed

lemma inbound_answer_waits_witness:
  "may_answer sample_call_ops (snd (run (flow_step sample_call_env) sample_call_ops sample_flow))"
  using inbound_answer_waits [OF sample_dialog_new, of sample_call_env sample_call_ops False
      "''SCL_1''" "''call-1''" "''from''" "''to''"] sample_returns
  unfolding sample_flow_def by simp

section \<open>The pin prompt\<close>

text \<open>The tones that extend the pin, and the events that end the prompt.\<close>

definition is_digit :: "pin_event \<Rightarrow> bool" where
  "is_digit e = (case e of PinTone b \<Rightarrow> b \<noteq> CHR 0x00 \<and> b \<noteq> CHR 0x23 | _ \<Rightarrow> False)"

definition ends_prompt :: "pin_event \<Rightarrow> bool" where
  "ends_prompt e = (case e of PinTone b \<Rightarrow> b = CHR 0x23 | _ \<Rightarrow> True)"

definition open_prompt :: "pin_verdict \<Rightarrow> bool" where
  "open_prompt v = (case v of MorePin p \<Rightarrow> True | _ \<Rightarrow> False)"

definition asks_well :: "call_effect \<Rightarrow> bool" where
  "asks_well e = (case e of AskDispatch pin noPin \<Rightarrow> length pin \<le> pinLimit \<and> noPin = (pin = []) | _ \<Rightarrow> True)"

definition asks :: "call_effect \<Rightarrow> bool" where
  "asks e = (case e of AskDispatch pin noPin \<Rightarrow> True | _ \<Rightarrow> False)"

definition typed :: "pin_event list \<Rightarrow> string" where
  "typed es = concat (map (\<lambda>e. case e of PinTone b \<Rightarrow> if is_digit e then rune_string b else [] | _ \<Rightarrow> []) es)"

definition prompt_stays :: "pin_event list \<Rightarrow> string \<Rightarrow> bool" where
  "prompt_stays es pin = (\<not> list_ex ends_prompt es \<and> length (pin @ typed es) \<le> pinLimit)"

lemma asks_simps [simp]:
  "\<not> asks (DropTag s)" "\<not> asks (DeregisterTransfer s)" "\<not> asks (SessionEnd p l i r)" "\<not> asks CancelCall"
  "\<not> asks (Play pr)" "asks (AskDispatch pin b)" "\<not> asks (ScheduleClose n)"
  "asks \<circ> OnDialog = (\<lambda>d. False)" "asks \<circ> OnMetric = (\<lambda>d. False)" "asks \<circ> OnPort = (\<lambda>d. False)"
  by (simp_all add: asks_def fun_eq_iff)

lemma asks_none [simp]:
  "count_by asks (setStatus v c) = 0" "count_by asks (snd (closeMedia c)) = 0"
  "count_by asks (snd (on_dialog f c)) = 0" "count_by asks (snd (on_monitor h c)) = 0"
  by (simp_all add: setStatus_def closeMedia_def on_dialog_def on_monitor_def asks_def split_def split: option.split)

lemma asks_close [simp]: "count_by asks (snd (close_call env a c)) = 0"
  by (simp add: close_call_def andThen_pair split_def)

lemma asks_closes [simp]:
  "count_by asks (snd (closeWithCancelled env c)) = 0" "count_by asks (snd (closeWithHangup env c)) = 0"
  "count_by asks (snd (fst (mediaTimeout env c))) = 0" "count_by asks (snd (Call_Close c)) = 0"
  by (simp_all add: closeWithCancelled_def closeWithHangup_def closeWithReason_def mediaTimeout_def
      closeWithTimeout_def closeWithNoACK_def Call_Close_def)

lemma asks_well_none: "count_by asks es = 0 \<Longrightarrow> list_all asks_well es"
  by (auto simp: count_by_zero_iff list_all_iff asks_def asks_well_def split: call_effect.splits)

lemma check_pin_asks:
  assumes "length pin \<le> pinLimit"
  shows "\<not> open_prompt (snd (check_pin env ask pin c))" "count_by asks (snd (fst (check_pin env ask pin c))) = 1"
    "list_all asks_well (snd (fst (check_pin env ask pin c)))"
  using assms by (simp_all add: check_pin_def Let_def andThen_pair open_prompt_def asks_well_none asks_well_def)

lemma pin_step_tone:
  "pin_step env ask (PinTone CHR 0x00) pin c = ((c, []), MorePin pin)"
  "pin_step env ask (PinTone CHR 0x23) pin c = check_pin env ask pin c"
  "b \<noteq> CHR 0x00 \<Longrightarrow> b \<noteq> CHR 0x23 \<Longrightarrow> pin_step env ask (PinTone b) pin c =
     (if length pin + length (rune_string b) > pinLimit
      then (andThen (c, [Play WrongPin]) (close_call env (callDropped, ClientError ''wrong-pin'')),
            PinFailed (Some (perr PsPermissionDenied ''wrong pin'')))
      else ((c, []), MorePin (pin @ rune_string b)))"
  by (simp_all add: pin_step_def Let_def)

lemma typed_one:
  "typed [PinTone CHR 0x00] = []" "typed [PinTone CHR 0x23] = []"
  "b \<noteq> CHR 0x00 \<Longrightarrow> b \<noteq> CHR 0x23 \<Longrightarrow> typed [PinTone b] = rune_string b"
  by (simp_all add: typed_def is_digit_def)

definition step_ok :: "pin_event \<Rightarrow> string \<Rightarrow> call_result \<times> pin_verdict \<Rightarrow> bool" where
  "step_ok e pin r = (open_prompt (snd r) = prompt_stays [e] pin
     \<and> (prompt_stays [e] pin \<longrightarrow> snd r = MorePin (pin @ typed [e]))
     \<and> count_by asks (snd (fst r)) \<le> (if prompt_stays [e] pin then 0 else 1)
     \<and> list_all asks_well (snd (fst r)))"

lemma step_ok_ended: "ends_prompt e \<Longrightarrow> \<not> open_prompt (snd r) \<Longrightarrow> count_by asks (snd (fst r)) = 0 \<Longrightarrow> step_ok e pin r"
  by (simp add: step_ok_def prompt_stays_def asks_well_none)

lemma pin_step_ok:
  assumes "length pin \<le> pinLimit"
  shows "step_ok e pin (pin_step env ask e pin c)"
proof (cases e)
  case (PinTone b)
  consider "b = CHR 0x00" | "b = CHR 0x23" | "b \<noteq> CHR 0x00" "b \<noteq> CHR 0x23" by blast
  then show ?thesis
  proof cases
    case 1
    with assms PinTone show ?thesis
      by (simp add: pin_step_tone step_ok_def typed_one prompt_stays_def ends_prompt_def open_prompt_def)
  next
    case 2
    with check_pin_asks [OF assms, of env ask c] PinTone show ?thesis
      by (simp add: pin_step_tone step_ok_def prompt_stays_def ends_prompt_def)
  next
    case 3
    with assms PinTone show ?thesis
      by (simp add: pin_step_tone step_ok_def typed_one prompt_stays_def ends_prompt_def open_prompt_def
          andThen_pair asks_well_none)
  qed
qed (auto simp: pin_step_def split_def ends_prompt_def open_prompt_def intro!: step_ok_ended)

lemma prompt_stays_Cons:
  "length pin \<le> pinLimit \<Longrightarrow> prompt_stays (e # es) pin = (prompt_stays [e] pin \<and> prompt_stays es (pin @ typed [e]))"
  by (auto simp: prompt_stays_def typed_def)

lemma pin_loop_spec:
  "length pin \<le> pinLimit \<Longrightarrow>
     open_prompt (snd (pin_loop env ask es pin c)) = prompt_stays es pin
     \<and> (prompt_stays es pin \<longrightarrow> snd (pin_loop env ask es pin c) = MorePin (pin @ typed es))
     \<and> count_by asks (snd (fst (pin_loop env ask es pin c))) \<le> (if prompt_stays es pin then 0 else 1)
     \<and> list_all asks_well (snd (fst (pin_loop env ask es pin c)))"
proof (induction es arbitrary: pin c)
  case Nil
  then show ?case by (simp add: open_prompt_def prompt_stays_def typed_def)
next
  case (Cons e es)
  obtain c1 out v where s: "pin_step env ask e pin c = ((c1, out), v)" by (metis surj_pair)
  have step: "step_ok e pin ((c1, out), v)" using pin_step_ok [OF Cons.prems, of e env ask c] by (simp add: s)
  show ?case
  proof (cases "prompt_stays [e] pin")
    case True
    then have "length (pin @ typed [e]) \<le> pinLimit" by (simp add: prompt_stays_def)
    note ih = Cons.IH [OF this, of c1]
    have v: "v = MorePin (pin @ typed [e])" using step True by (simp add: step_ok_def)
    have "typed (e # es) = typed [e] @ typed es" by (simp add: typed_def)
    with ih step True show ?thesis
      by (auto simp: s v split_def step_ok_def prompt_stays_Cons [OF Cons.prems, of e es])
  next
    case False
    with step have "pin_loop env ask (e # es) pin c = ((c1, out), v)"
      by (simp add: s step_ok_def open_prompt_def split: pin_verdict.splits)
    with False step show ?thesis by (simp add: step_ok_def prompt_stays_Cons [OF Cons.prems, of e es])
  qed
qed

text \<open>
  C25. The pin prompt: it goes on exactly as long as the events are key tones without the hash key, or the
  closing of none of its sources, and the typed pin has at most 16 bytes, and then it holds exactly the
  keys typed; so the seventeenth byte, or the first other event, ends it. The control plane is asked at
  most once, with a pin of at most 16 bytes, flagged as no pin exactly when it is empty.
\<close>
theorem pin_prompt_ends:
  "case pinPrompt env ask es c of (r, v) \<Rightarrow>
     open_prompt v = prompt_stays es []
     \<and> (if prompt_stays es [] then v = MorePin (typed es) else True)
     \<and> count_by asks (snd r) \<le> (if prompt_stays es [] then 0 else 1)
     \<and> list_all asks_well (snd r)"
  using pin_loop_spec [of "[]" env ask es c]
  by (auto simp: pinPrompt_def split_def asks_well_def)

end
