(* ===== verification/Outbound_Call.thy ===== *)
theory Outbound_Call
  imports Outbound_Dialog Call_State Call_Monitor Sdp_Offers
begin

text \<open>
  \<open>outboundCall\<close> of \<open>pkg/sip/outbound.go\<close> and the requests of \<open>pkg/sip/client.go\<close>: checking a request
  for a participant, creating the call, joining its room, the operations of the call and its end. The
  next theory composes them as \<open>Dial\<close> and \<open>WaitClose\<close> do.

  The call owns its dialog, media port, monitor and reported state and changes them through the
  operations of their theories. The room is \<open>None\<close> before it is joined, \<open>Some None\<close> once it is closed;
  its attributes are those the room service reports. Logs, statistics, tones and the watchdog of a close
  that takes more than five minutes are left out.
\<close>

section \<open>State, effects and environment\<close>

record out_conf =
  sc_address :: string
  sc_transport :: lk_transport
  sc_host :: string
  sc_from :: string
  sc_to :: string
  sc_user :: string
  sc_pass :: string
  sc_dtmf :: string
  sc_dialtone :: bool
  sc_headers :: str_entries
  sc_include :: header_options
  sc_hdr_to_attr :: str_entries
  sc_attr_to_hdr :: str_entries
  sc_ringing :: nanos
  sc_max_duration :: nanos
  sc_flags :: str_map
  sc_media :: media_conf
  sc_display :: "string option"

record room_view =
  rv_sid :: string
  rv_identity :: string
  rv_attrs :: str_map

record outbound_call =
  oc_cc :: sip_outbound
  oc_mon :: call_monitor
  oc_state :: call_state
  oc_media :: "(media_port \<times> timeout_state) option"
  oc_room :: "room_view option option"
  oc_room_in :: bool
  oc_started :: bool
  oc_stopped :: bool
  oc_closing :: bool
  oc_times :: signaling_timestamps
  oc_jitter :: bool
  oc_project :: string
  oc_video :: bool
  oc_conf :: out_conf

datatype out_call_effect =
    OutDialog out_effect | OutMetric metric | OutReport state_effect | OutPort port_effect
  | OutAdd string | OutDrop string | OutRegister string | OutDeregister string
  | OutRoomConnect str_map | OutRoomAttrs str_map | OutRoomTrack | OutRoomVideoTrack | OutRoomSubscribe
  | OutRoomOutput bool | OutRoomDtmf | OutRoomVideoOutput | OutRoomSend char
  | OutRoomCloseOutput | OutRoomClose disconnect_reason
  | OutPortOut bool | OutDialTone | OutWriterClosed
  | OutSessionEnd string string string string
  | OutScheduleClose nanos | OutPanic

text \<open>
  Configuration and libraries. \<open>cl_chain\<close> is what \<open>errors.As\<close> and \<open>errors.Is\<close> find in an error of the
  SIP stack or of a transaction, \<open>cl_status_text\<close> the text of a SIP status as an error, \<open>cl_rpc\<close> tells
  whether a report of the state succeeds, \<open>cl_bye_answer\<close> is the final response a BYE gets.
\<close>

record 'ch client_env =
  cl_dialog :: "'ch outbound_env"
  cl_chain :: "err \<Rightarrow> err_chain"
  cl_status_text :: "sip_status \<Rightarrow> string"
  cl_hashed :: "string \<Rightarrow> string"
  cl_net :: net_config
  cl_ip :: addr
  cl_names :: attr_names
  cl_header_to_attr :: str_entries
  cl_status_attr :: string
  cl_call_id_attr :: string
  cl_codecs :: codec_names
  cl_sdp :: sdp_lib
  cl_parse_addr :: "string \<Rightarrow> addr option"
  cl_timeout_initial :: nanos
  cl_timeout :: nanos
  cl_default_initial :: nanos
  cl_default_general :: nanos
  cl_opts :: media_opts
  cl_symmetric :: bool
  cl_dtmf_audio :: bool
  cl_processor :: bool
  cl_video :: bool
  cl_video_size :: "int \<times> int"
  cl_codec_name :: "media_answer \<Rightarrow> string"
  cl_handler :: bool
  cl_rpc :: "call_info \<Rightarrow> bool"
  cl_bye_answer :: "int option"
  cl_routes :: "string list"

type_synonym out_result = "outbound_call \<times> out_call_effect list"

section \<open>The request\<close>

record part_request =
  pr_call_id :: string
  pr_call_to :: string
  pr_address :: string
  pr_number :: string
  pr_hostname :: string
  pr_room :: string
  pr_identity :: string
  pr_name :: string
  pr_attrs :: "str_map option"
  pr_transport :: lk_transport
  pr_user :: string
  pr_pass :: string
  pr_dtmf :: string
  pr_dialtone :: bool
  pr_headers :: str_entries
  pr_include :: header_options
  pr_hdr_to_attr :: str_entries
  pr_attr_to_hdr :: str_entries
  pr_ringing :: nanos
  pr_max_duration :: nanos
  pr_flags :: str_map
  pr_media :: media_request
  pr_display :: "string option"
  pr_trunk :: string
  pr_project :: string
  pr_wait :: bool

definition invalid_argument :: "string \<Rightarrow> err option" where
  "invalid_argument m = Some (PsErr PsInvalidArgument m None)"

definition check_request :: "part_request \<Rightarrow> err option" where
  "check_request r =
     (if pr_call_to r = [] then invalid_argument ''call-to number must be set''
      else if pr_address r = [] then invalid_argument ''trunk adresss must be set''
      else if pr_number r = [] then invalid_argument ''trunk outbound number must be set''
      else if pr_room r = [] then invalid_argument ''room name must be set''
      else if contains (pr_call_to r) ''@''
      then invalid_argument ''call_to should be a phone number or SIP user, not a full SIP URI''
      else if has_prefix (pr_address r) ''sip:'' \<or> has_prefix (pr_address r) ''sips:''
      then invalid_argument (''address must be a hostname without '' @ [CHR 0x27] @ ''sip:'' @ [CHR 0x27] @ '' prefix'')
      else if contains (pr_address r) ''transport=''
      then invalid_argument ''address must not contain parameters; use transport field''
      else if contains_any (pr_address r) '';=''
      then invalid_argument ''address must not contain parameters'' else None)"

definition out_sip_conf :: "part_request \<Rightarrow> media_conf \<Rightarrow> out_conf" where
  "out_sip_conf r m =
     \<lparr>sc_address = pr_address r, sc_transport = pr_transport r, sc_host = pr_hostname r,
      sc_from = pr_number r, sc_to = pr_call_to r, sc_user = pr_user r, sc_pass = pr_pass r,
      sc_dtmf = pr_dtmf r, sc_dialtone = pr_dialtone r, sc_headers = pr_headers r,
      sc_include = pr_include r, sc_hdr_to_attr = pr_hdr_to_attr r, sc_attr_to_hdr = pr_attr_to_hdr r,
      sc_ringing = pr_ringing r, sc_max_duration = pr_max_duration r, sc_flags = pr_flags r,
      sc_media = m, sc_display = pr_display r\<rparr>"

text \<open>The reported call, and the two addresses in it.\<close>

definition createSIPCallInfo :: "('ch, 'z) client_env_scheme \<Rightarrow> part_request \<Rightarrow> call_info \<times> lk_uri \<times> lk_uri" where
  "createSIPCallInfo env r =
     (empty_info\<lparr>ci_call_id := pr_call_id r, ci_trunk_id := pr_trunk r, ci_room_name := pr_room r,
        ci_identity := pr_identity r, ci_attrs := pr_attrs r\<rparr>,
      URI_ToSIPUri (CreateURIFromUserAndAddress (pr_call_to r) (pr_address r) (TransportFrom (pr_transport r))),
      URI_ToSIPUri \<lparr>u_user = pr_number r, u_host = pr_hostname r,
        u_addr = \<lparr>ap_addr = cl_ip env, ap_port = word_of_int (nc_sip_port (cl_net env))\<rparr>, u_transport = []\<rparr>)"

definition err_unavailable :: err where
  "err_unavailable = PsErr PsUnavailable ''cpu exhausted'' None"

text \<open>The checks of \<open>createSIPParticipant\<close>; \<open>upgrade\<close> is \<open>req.Upgrade\<close> of the protocol library.\<close>

definition admit_request ::
  "('ch, 'z) client_env_scheme \<Rightarrow> (part_request \<Rightarrow> part_request) \<Rightarrow> health_status \<Rightarrow> part_request
    \<Rightarrow> err + (part_request \<times> out_conf \<times> call_state)" where
  "admit_request env upgrade health req0 =
     (if health \<noteq> HealthOK then Inl err_unavailable
      else (let req = upgrade req0; m = pr_media req in
        case check_request req of
          Some e \<Rightarrow> Inl e
        | None \<Rightarrow>
            (case newMediaConfig (cl_codecs env) (mr_encryption m) (mr_only_listed m) (mr_codecs m)
                    (mr_timeout m) (cl_timeout env) of
               Inl e \<Rightarrow> Inl (OtherErr e)
             | Inr mconf \<Rightarrow>
                 Inr (req, out_sip_conf req mconf, NewCallState True (Some (fst (createSIPCallInfo env req)))))))"

section \<open>Parts of the call\<close>

definition setAttrsToHeaders :: "outbound_call \<Rightarrow> str_map option \<Rightarrow> str_map option" where
  "setAttrsToHeaders c headers =
     (if sc_attr_to_hdr (oc_conf c) = [] then headers
      else (case oc_room c of
              Some (Some r) \<Rightarrow> AttrsToHeaders (rv_attrs r) (sc_attr_to_hdr (oc_conf c)) headers
            | _ \<Rightarrow> headers))"

text \<open>An operation of the dialog, of the monitor, of the state, of the port; the dialog's headers are the call's.\<close>

definition with_headers :: "outbound_call \<Rightarrow> sip_outbound" where
  "with_headers c = (oc_cc c)\<lparr>so_get_headers := Some (setAttrsToHeaders c)\<rparr>"

definition on_out :: "(sip_outbound \<Rightarrow> sip_outbound \<times> out_effect list) \<Rightarrow> outbound_call \<Rightarrow> out_result" where
  "on_out f c = (case f (with_headers c) of (cc, es) \<Rightarrow> (c\<lparr>oc_cc := cc\<rparr>, map OutDialog es))"

definition on_mon :: "(call_monitor \<Rightarrow> call_monitor \<times> metric list) \<Rightarrow> outbound_call \<Rightarrow> out_result" where
  "on_mon f c = (case f (oc_mon c) of (m, es) \<Rightarrow> (c\<lparr>oc_mon := m\<rparr>, map OutMetric es))"

definition on_state :: "(call_state \<Rightarrow> call_state \<times> state_effect list) \<Rightarrow> outbound_call \<Rightarrow> out_result" where
  "on_state f c = (case f (oc_state c) of (s, es) \<Rightarrow> (c\<lparr>oc_state := s\<rparr>, map OutReport es))"

definition on_media :: "(media_port \<Rightarrow> media_port \<times> port_effect list) \<Rightarrow> outbound_call \<Rightarrow> out_result" where
  "on_media f c = (case oc_media c of
       None \<Rightarrow> (c, [])
     | Some (p, t) \<Rightarrow> (case f p of (p', es) \<Rightarrow> (c\<lparr>oc_media := Some (p', t)\<rparr>, map OutPort es)))"

definition state_update :: "('ch, 'z) client_env_scheme \<Rightarrow> (call_info \<Rightarrow> call_info) \<Rightarrow> outbound_call \<Rightarrow> out_result" where
  "state_update env upd c = on_state (Update upd (cl_rpc env (upd (cs_info (oc_state c))))) c"

definition out_setStatus :: "('ch, 'z) client_env_scheme \<Rightarrow> call_status \<Rightarrow> outbound_call \<Rightarrow> out_result" where
  "out_setStatus env v c = (c,
     if Attribute v = [] then []
     else (case oc_room c of
             Some (Some r) \<Rightarrow> [OutRoomAttrs [cl_status_attr env \<mapsto> Attribute v]]
           | _ \<Rightarrow> []))"

text \<open>Whether \<open>HeadersToAttrs\<close> set no attribute, decided on the names it can set.\<close>

definition attr_candidates :: "attr_names \<Rightarrow> str_entries \<Rightarrow> str_entries \<Rightarrow> header list \<Rightarrow> string list" where
  "attr_candidates names header_to_attr hdr_to_attr headers =
     [an_call_tag names, an_call_id_full names]
     @ map (\<lambda>h. an_header_prefix names @ to_lower (h_name h)) headers @ map snd header_to_attr @ map snd hdr_to_attr"

definition setExtraAttrs ::
  "('ch, 'z) client_env_scheme \<Rightarrow> str_entries \<Rightarrow> header_options \<Rightarrow> signaling_view option \<Rightarrow> header list
    \<Rightarrow> outbound_call \<Rightarrow> out_result" where
  "setExtraAttrs env hdr_to_attr opts view hdrs c =
     (let extra = HeadersToAttrs (cl_names env) (cl_header_to_attr env) None hdr_to_attr opts view hdrs;
          names = attr_candidates (cl_names env) (cl_header_to_attr env) hdr_to_attr
                    (case view of None \<Rightarrow> hdrs | Some sv \<Rightarrow> sv_headers sv) in
      (c, case oc_room c of
            Some (Some r) \<Rightarrow> (if list_all (\<lambda>k. extra k = None) names then [] else [OutRoomAttrs extra])
          | _ \<Rightarrow> []))"

lemma dom_map_all: "dom (fold (map_all_header p opts) hs m) \<subseteq> dom m \<union> (\<lambda>h. p @ to_lower (h_name h)) ` set hs"
  by (induction hs arbitrary: m) (fastforce simp: map_all_header_def Let_def split: if_splits)+

lemma dom_map_named: "dom (fold (map_named_header hs) es m) \<subseteq> dom m \<union> snd ` set es"
  by (induction es arbitrary: m) (fastforce simp: map_named_header_def split: option.splits)+

lemma attr_candidates_complete:
  "list_all (\<lambda>k. HeadersToAttrs names h2a None m opts view hdrs k = None)
       (attr_candidates names h2a m (case view of None \<Rightarrow> hdrs | Some sv \<Rightarrow> sv_headers sv))
   \<longleftrightarrow> HeadersToAttrs names h2a None m opts view hdrs = Map.empty"
proof -
  define hs where "hs = (case view of None \<Rightarrow> hdrs | Some sv \<Rightarrow> sv_headers sv)"
  define base where "base = (if opts \<noteq> SIP_NO_HEADERS
    then fold (map_all_header (an_header_prefix names) opts) hs Map.empty else Map.empty)"
  define mid where "mid = fold (map_named_header hs) h2a base"
  define full where "full = fold (map_named_header hs) m mid"
  have "dom base \<subseteq> (\<lambda>h. an_header_prefix names @ to_lower (h_name h)) ` set hs"
    using dom_map_all [of "an_header_prefix names" opts hs Map.empty] by (simp add: base_def)
  moreover have "dom mid \<subseteq> dom base \<union> snd ` set h2a" "dom full \<subseteq> dom mid \<union> snd ` set m"
    unfolding mid_def full_def by (rule dom_map_named)+
  ultimately have "dom full \<subseteq> set (attr_candidates names h2a m hs)"
    unfolding attr_candidates_def set_append set_map by blast
  moreover have "HeadersToAttrs names h2a None m opts view hdrs
    = (case view of None \<Rightarrow> full | Some sv \<Rightarrow>
        (let a = (if sv_tag sv \<noteq> [] then full(an_call_tag names \<mapsto> sv_tag sv) else full)
         in if sv_call_id sv \<noteq> [] then a(an_call_id_full names \<mapsto> sv_call_id sv) else a))"
    unfolding HeadersToAttrs_def full_def mid_def base_def hs_def Let_def option.case ..
  ultimately have "dom (HeadersToAttrs names h2a None m opts view hdrs) \<subseteq> set (attr_candidates names h2a m hs)"
    by (cases view) (auto simp: attr_candidates_def Let_def split: if_splits)
  then show ?thesis unfolding hs_def by (auto simp: list_all_iff dom_def fun_eq_iff)
qed

definition ensureClosed :: "('ch, 'z) client_env_scheme \<Rightarrow> nanos \<Rightarrow> outbound_call \<Rightarrow> out_result" where
  "ensureClosed env now c = state_update env (\<lambda>i.
     (let i1 = i\<lparr>ci_status := (if ci_error i \<noteq> [] then SCS_ERROR else SCS_DISCONNECTED)\<rparr>;
          i2 = (case oc_room c of
                  Some (Some r) \<Rightarrow> i1\<lparr>ci_identity := rv_identity r, ci_attrs := Some (rv_attrs r)\<rparr>
                | _ \<Rightarrow> i1)
      in i2\<lparr>ci_ended := now\<rparr>)) c"

definition setErrStatus :: "('ch, 'z) client_env_scheme \<Rightarrow> err option \<Rightarrow> outbound_call \<Rightarrow> out_result" where
  "setErrStatus env e c = (case e of
       None \<Rightarrow> (c, [])
     | Some x \<Rightarrow> state_update env (\<lambda>i.
         if ci_error i \<noteq> [] then i else i\<lparr>ci_error := err_msg x, ci_status := SCS_ERROR\<rparr>) c)"

section \<open>Closing the call\<close>

text \<open>\<open>stopSIP\<close>: the metric, then the end of the dialog; \<open>closing\<close> tells that the client is stopping.\<close>

definition stopSIP :: "('ch, 'z) client_env_scheme \<Rightarrow> bool \<Rightarrow> termination_class \<Rightarrow> outbound_call \<Rightarrow> out_result" where
  "stopSIP env closing t c =
     andThen (on_mon (CallTerminate t) c) (on_out (Out_Close (cl_dialog env) closing (cl_bye_answer env)))"

text \<open>Media and room, then the tables; a call without a media port panics.\<close>

definition close_media :: "call_status \<Rightarrow> outbound_call \<Rightarrow> out_result" where
  "close_media status c =
     (let (c1, es) = on_media (Port_Close ()) c in
      case oc_room c of
        None \<Rightarrow> (c1\<lparr>oc_room_in := False\<rparr>, es)
      | Some r \<Rightarrow> (c1\<lparr>oc_room := Some None, oc_room_in := False\<rparr>,
                   es @ [OutRoomCloseOutput, OutRoomClose (DisconnectReason status)]))"

definition unregister :: "('ch, 'z) client_env_scheme \<Rightarrow> termination_class \<Rightarrow> outbound_call \<Rightarrow> out_result" where
  "unregister env t c = (c,
     [OutDrop (so_id (oc_cc c)), OutDeregister (so_id (oc_cc c))]
     @ (if cl_handler env
        then [OutSessionEnd (oc_project c) (ci_call_id (cs_info (oc_state c))) (so_call_id (oc_cc c)) (t_reason t)]
        else []))"

definition close_report :: "string option \<Rightarrow> disconnect_reason \<Rightarrow> call_info \<Rightarrow> call_info" where
  "close_report e reason i =
     (case e of
        Some m \<Rightarrow> (if ci_error i = [] then i\<lparr>ci_error := m, ci_status := SCS_ERROR\<rparr> else i)
      | None \<Rightarrow> i)\<lparr>ci_disconnect := reason\<rparr>"

definition out_close ::
  "('ch, 'z) client_env_scheme \<Rightarrow> bool \<Rightarrow> string option \<Rightarrow> call_status \<Rightarrow> termination_class \<Rightarrow> disconnect_reason
    \<Rightarrow> outbound_call \<Rightarrow> out_result" where
  "out_close env closing e status t reason c0 =
     (let c = c0\<lparr>oc_closing := True\<rparr> in
      if oc_stopped c then (c, [])
      else (let r = andThen (andThen (out_setStatus env status (c\<lparr>oc_stopped := True\<rparr>))
                      (state_update env (close_report e reason)))
                      (stopSIP env closing t)
            in case oc_media c of
                 None \<Rightarrow> (fst r, snd r @ [OutPanic])
               | Some m \<Rightarrow> andThen (andThen r (close_media status)) (unregister env t)))"

definition Out_Shutdown :: "('ch, 'z) client_env_scheme \<Rightarrow> bool \<Rightarrow> outbound_call \<Rightarrow> out_result" where
  "Out_Shutdown env closing = out_close env closing None callDropped (ServerError ''shutdown'') DR_SERVER_SHUTDOWN"

definition CloseWithReason ::
  "('ch, 'z) client_env_scheme \<Rightarrow> bool \<Rightarrow> call_status \<Rightarrow> termination_class \<Rightarrow> disconnect_reason \<Rightarrow> outbound_call
    \<Rightarrow> out_result" where
  "CloseWithReason env closing status t reason = out_close env closing None status t reason"

definition out_closeWithTimeout :: "('ch, 'z) client_env_scheme \<Rightarrow> bool \<Rightarrow> outbound_call \<Rightarrow> out_result" where
  "out_closeWithTimeout env closing =
     out_close env closing (Some ''media-timeout'') callDropped (ServerError ''media-timeout'') DR_UNKNOWN_REASON"

section \<open>Creating the call\<close>

text \<open>The feature flags of a call; \<open>strconv.ParseBool\<close> with its error dropped.\<close>

definition parse_bool :: "string \<Rightarrow> bool" where
  "parse_bool s = (s \<in> {''1'', ''t'', ''T'', ''TRUE'', ''true'', ''True''})"

definition feature_flag :: "string \<Rightarrow> str_map \<Rightarrow> string" where
  "feature_flag k m = (case m k of None \<Rightarrow> [] | Some v \<Rightarrow> v)"

definition signalLoggingFeatureFlag :: string where
  "signalLoggingFeatureFlag = ''sip.signal_logging''"

definition outboundRouteHeadersFeatureFlag :: string where
  "outboundRouteHeadersFeatureFlag = ''sip.outbound_route_headers''"

definition normal_conf :: "('ch, 'z) client_env_scheme \<Rightarrow> out_conf \<Rightarrow> out_conf" where
  "normal_conf env s =
     (let s1 = s\<lparr>sc_max_duration := (if sc_max_duration s \<le> 0 \<or> sc_max_duration s > maxCallDuration
                                     then maxCallDuration else sc_max_duration s),
                 sc_ringing := (if sc_ringing s \<le> 0 then defaultRingingTimeout else sc_ringing s)\<rparr>;
          contact = getContactURI (cl_net env) (cl_ip env) (TransportFrom (sc_transport s))
      in if sc_host s1 = [] then s1\<lparr>sc_host := GetHost contact\<rparr> else s1)"

definition out_dialog :: "('ch, 'z) client_env_scheme \<Rightarrow> string \<Rightarrow> out_conf \<Rightarrow> sip_outbound" where
  "out_dialog env ident s =
     (let tr = TransportFrom (sc_transport s);
          contact = getContactURI (cl_net env) (cl_ip env) tr;
          from = \<lparr>u_user = sc_from s, u_host = sc_host s, u_addr = u_addr contact, u_transport = tr\<rparr>;
          cc = newOutbound (cl_hashed env) ident from contact (sc_display s) None
      in if feature_flag outboundRouteHeadersFeatureFlag (sc_flags s) = ''true''
         then cc\<lparr>so_route_headers := cl_routes env\<rparr> else cc)"

text \<open>
  What creating a call meets: whether the media sockets are found, the room that is joined, whether it
  gives us a track, and whether the signaling RPC is registered.
\<close>

record new_probe =
  np_audio :: bool
  np_video :: bool
  np_connect :: "err + room_view"
  np_track :: "err option"
  np_rpc :: "err option"

text \<open>The attributes of the request are one map, shared by the room's configuration and the reported state.\<close>

definition share_attrs :: "str_map option \<Rightarrow> str_map \<Rightarrow> outbound_call \<Rightarrow> outbound_call" where
  "share_attrs attrs0 attrs c = (case attrs0 of
       None \<Rightarrow> c
     | Some m \<Rightarrow> c\<lparr>oc_state := (oc_state c)\<lparr>cs_info := (cs_info (oc_state c))\<lparr>ci_attrs := Some attrs\<rparr>\<rparr>\<rparr>)"

definition connectToRoom ::
  "('ch, 'z) client_env_scheme \<Rightarrow> new_probe \<Rightarrow> str_map option \<Rightarrow> outbound_call \<Rightarrow> out_result \<times> err option" where
  "connectToRoom env np attrs0 c0 =
     (let attrs1 = (case attrs0 of None \<Rightarrow> Map.empty | Some m \<Rightarrow> m);
          reg = (case attrs1 (cl_call_id_attr env) of
                   None \<Rightarrow> [] | Some i \<Rightarrow> if i = [] then [] else [OutRegister i]);
          attrs = attrs1(cl_status_attr env \<mapsto> Attribute CallDialing);
          c = share_attrs attrs0 attrs c0;
          es = reg @ [OutRoomConnect attrs];
          gone = [OutRoomClose DR_UNKNOWN_REASON]
      in case np_connect np of
           Inl e \<Rightarrow> ((c, es @ gone), Some e)
         | Inr r \<Rightarrow>
             (case np_track np of
                Some e \<Rightarrow> ((c, es @ gone), Some e)
              | None \<Rightarrow> ((c\<lparr>oc_room := Some (Some r), oc_room_in := True\<rparr>, es @ [OutRoomTrack]), np_rpc np)))"

definition out_media ::
  "('ch, 'z) client_env_scheme \<Rightarrow> new_probe \<Rightarrow> outbound_call \<Rightarrow> (media_port \<times> timeout_state) option \<times> port_effect list" where
  "out_media env np c =
     NewMediaPortWith (np_audio np) (np_video np) (cl_video env) (cl_symmetric env)
       (cl_default_initial env) (cl_default_general env) (cl_timeout_initial env) (me_timeout (sc_media (oc_conf c)))
       ((cl_opts env)\<lparr>op_ignore_preanswer := True, op_jitter := oc_jitter c,
          op_log_signal := parse_bool (feature_flag signalLoggingFeatureFlag (sc_flags (oc_conf c)))\<rparr>)"

definition start_call ::
  "('ch, 'z) client_env_scheme \<Rightarrow> bool \<Rightarrow> nanos \<Rightarrow> string \<Rightarrow> out_conf \<Rightarrow> call_state \<Rightarrow> string \<Rightarrow> outbound_call" where
  "start_call env jitter now ident conf state project =
     (let s = normal_conf env conf in
      \<lparr>oc_cc = out_dialog env ident s, oc_mon = NewCall Outbound (sc_host s) (sc_address s),
       oc_state = state, oc_media = None, oc_room = None, oc_room_in = False, oc_started = False,
       oc_stopped = False, oc_closing = False,
       oc_times = \<lparr>st_invite = None, st_trying = None, st_ringing = None, st_accept = None,
                   st_api = Some now, st_ack = None\<rparr>,
       oc_jitter = jitter, oc_project = project, oc_video = False, oc_conf = s\<rparr>)"

text \<open>\<open>newCall\<close>: the call is in the table of active calls, or it failed with an error, or panicked.\<close>

datatype new_outcome = NewOk | NewErr err | NewPanic

definition no_out_port :: err where
  "no_out_port = OtherErr ''no free port''"

definition newCall ::
  "('ch, 'z) client_env_scheme \<Rightarrow> bool \<Rightarrow> new_probe \<Rightarrow> str_map option \<Rightarrow> outbound_call \<Rightarrow> out_result \<times> new_outcome" where
  "newCall env closing np attrs c0 = (case out_media env np c0 of
       (None, es) \<Rightarrow>
         (andThen (c0, map OutPort es) (out_close env closing (Some (''media failed: '' @ err_msg no_out_port))
            callDropped (ServerError ''media-failed'') DR_UNKNOWN_REASON), NewPanic)
     | (Some (p, t), es) \<Rightarrow>
         (let c = c0\<lparr>oc_media := Some (p\<lparr>mp_opts := (mp_opts p)\<lparr>op_dtmf_audio := cl_dtmf_audio env\<rparr>\<rparr>, disableTimeout t)\<rparr>;
              (r1, e) = connectToRoom env np attrs c;
              r = (fst r1, map OutPort es @ [OutPortOut False] @ snd r1)
          in case e of
               Some x \<Rightarrow>
                 (andThen r (out_close env closing (Some (''room join failed: '' @ err_msg x))
                    callDropped (ServerError ''join-failed'') DR_UNKNOWN_REASON),
                  NewErr (PsErr PsInternal (''update room failed: '' @ err_msg x) None))
             | None \<Rightarrow> ((fst r, snd r @ [OutAdd (so_id (oc_cc (fst r)))]), NewOk)))"

section \<open>Media and video\<close>

definition connectMedia :: "(string \<Rightarrow> string) \<Rightarrow> outbound_call \<Rightarrow> out_result" where
  "connectMedia processor c =
     (let (c1, es) = on_media (\<lambda>p. case WriteAudioTo processor ''room'' p of
                                      None \<Rightarrow> (p, []) | Some (p1, es) \<Rightarrow> (HandleDTMF True p1, es)) c
      in (c1, [OutRoomOutput True, OutRoomDtmf] @ es))"

text \<open>What video setup meets: the clock, whether the stream, the compositor and a track are given, our port.\<close>

record video_probe =
  vp_now :: nanos
  vp_write :: bool
  vp_compositor :: bool
  vp_track :: bool
  vp_port :: int

definition setupOutboundVideo :: "video_probe \<Rightarrow> video_media \<Rightarrow> outbound_call \<Rightarrow> out_result \<times> bool" where
  "setupOutboundVideo vp v c = (case oc_media c of
       None \<Rightarrow> ((c, []), False)
     | Some (p, t) \<Rightarrow>
         (case SetVideoConfig (vp_write vp) (vp_now vp) (Some (video_conf.truncate v)) p of
            (p1, es, Some e) \<Rightarrow> ((c\<lparr>oc_media := Some (p1, t)\<rparr>, map OutPort es), False)
          | (p1, es, None) \<Rightarrow>
              (let c1 = c\<lparr>oc_media := Some (p1, t)\<rparr>; es1 = map OutPort es in
               if \<not> vp_compositor vp then ((c1, es1), False)
               else if \<not> vp_track vp then ((c1, es1 @ [OutRoomVideoOutput]), False)
               else ((c1\<lparr>oc_video := True\<rparr>, es1 @ [OutRoomVideoOutput, OutRoomVideoTrack]), True))))"

text \<open>\<open>prepareReinviteOffer\<close>: the SDP a re-INVITE is answered with and the video it asks for, if any.\<close>

definition prepareReinviteOffer ::
  "('ch, 'z) client_env_scheme \<Rightarrow> int \<Rightarrow> string \<Rightarrow> outbound_call \<Rightarrow> err + (string \<times> video_media) option" where
  "prepareReinviteOffer env port offer c =
     (if offer = [] \<or> \<not> VideoEnabled (map_option fst (oc_media c)) then Inr None
      else (case parseVideoOffer (sl_unmarshal (cl_sdp env)) (cl_parse_addr env) offer of
              None \<Rightarrow> Inr None
            | Some v \<Rightarrow>
                if so_local_sdp (oc_cc c) = [] then Inr None
                else (case setVideoAnswerOnLocalSDP (sl_unmarshal (cl_sdp env)) (sl_marshal (cl_sdp env))
                             (so_local_sdp (oc_cc c)) port v of
                        Inl e \<Rightarrow> Inl e
                      | Inr sdp \<Rightarrow> Inr (Some (sdp, v)))))"

definition applyReinviteVideo :: "video_probe \<Rightarrow> video_media option \<Rightarrow> outbound_call \<Rightarrow> out_result" where
  "applyReinviteVideo vp v c = (case v of
       None \<Rightarrow> (c, [])
     | Some v \<Rightarrow>
         if oc_stopped c then (c, [])
         else (case setupOutboundVideo vp v c of
                 (r, False) \<Rightarrow> r
               | (r, True) \<Rightarrow> andThen r (on_media (\<lambda>p. (EnableVideoOut True p, [])))))"

definition out_handleDTMF :: "char \<Rightarrow> outbound_call \<Rightarrow> out_result" where
  "out_handleDTMF digit c = (c, if oc_room c = None then [] else [OutRoomSend digit])"

end
