(* ===== verification/Outbound_Flow.thy ===== *)
theory Outbound_Flow
  imports Outbound_Call
begin

text \<open>
  \<open>Dial\<close> and \<open>WaitClose\<close> of \<open>pkg/sip/outbound.go\<close> as a state machine, with the requests, timers and stops
  that reach the call from other goroutines.

  \<open>connectSIP\<close> holds the mutex of the call from the INVITE to the end of the dial. It is two steps: up to
  the answer and its media, and from the ACK on; between them only operations that need the mutex of the
  dialog can come. An operation that closes the call waits for the mutex: it does nothing in between, and
  comes again later.
\<close>

section \<open>Errors of the dial\<close>

text \<open>An error, and what \<open>errors.As\<close> and \<open>errors.Is\<close> find in it.\<close>

type_synonym dial_error = "err \<times> err_chain"

definition plain_chain :: "string \<Rightarrow> err_chain" where
  "plain_chain m = \<lparr>ec_msg = m, ec_sdp = None, ec_status = None, ec_timeout = False, ec_deadline = False,
     ec_canceled = False, ec_addr_error = False, ec_dns_error = False, ec_op_error = False, ec_auth = False\<rparr>"

definition plain_error :: "err \<Rightarrow> dial_error" where
  "plain_error e = (e, plain_chain (err_msg e))"

definition status_error :: "('ch, 'z) client_env_scheme \<Rightarrow> string \<Rightarrow> sip_status \<Rightarrow> dial_error" where
  "status_error env prefix st =
     (let m = prefix @ cl_status_text env st in (OtherErr m, (plain_chain m)\<lparr>ec_status := Some st\<rparr>))"

definition auth_error :: "string \<Rightarrow> dial_error" where
  "auth_error m = (PsErr PsFailedPrecondition m None, (plain_chain m)\<lparr>ec_auth := True\<rparr>)"

definition internal_error :: "string \<Rightarrow> dial_error" where
  "internal_error m = plain_error (PsErr PsInternal m None)"

text \<open>Go's \<open>%q\<close> of a challenge without characters that need quoting.\<close>

definition quoted :: "string \<Rightarrow> string" where
  "quoted s = [CHR 0x22] @ s @ [CHR 0x22]"

definition invite_dial_error :: "('ch, 'z) client_env_scheme \<Rightarrow> invite_error \<Rightarrow> dial_error" where
  "invite_dial_error env e = (case e of
       InvTx x \<Rightarrow> (x, cl_chain env x)
     | InvUnexpected st \<Rightarrow> status_error env ''unexpected status from INVITE response: '' st
     | InvFailed st \<Rightarrow> status_error env ''INVITE failed: '' st
     | InvMaxRetry \<Rightarrow> auth_error ''max auth retry attempts reached for SIP invite''
     | InvMissingCreds \<Rightarrow> auth_error ''sip server required auth, but no username or password was provided''
     | InvNoAuthHeader \<Rightarrow> auth_error ''no auth header in sip invite response''
     | InvBadChallenge ch m \<Rightarrow> internal_error (''invalid challenge '' @ quoted ch @ '': '' @ m)
     | InvNoToInResponse \<Rightarrow> internal_error (''no '' @ [CHR 0x27] @ ''To'' @ [CHR 0x27] @ '' header on Response'')
     | InvDigest m \<Rightarrow> (OtherErr m, cl_chain env (OtherErr m))
     | InvNoTo \<Rightarrow> internal_error ''no To header in INVITE response''
     | InvNoTag \<Rightarrow> internal_error ''no tag in To header in INVITE response'')"

definition media_dial_error :: "('ch, 'z) client_env_scheme \<Rightarrow> media_error \<Rightarrow> dial_error" where
  "media_dial_error env e = (case e of
       SDPError c m \<Rightarrow> (OtherErr m, (plain_chain m)\<lparr>ec_sdp := Some (c, m)\<rparr>)
     | PlainError x \<Rightarrow> (x, cl_chain env x))"

section \<open>Signalling\<close>

text \<open>What a dial meets up to the answer: the clock, the INVITE transactions, and the media setup.\<close>

record dial_probe =
  dp_now :: nanos
  dp_port :: int
  dp_attempts :: "nat \<Rightarrow> attempt"
  dp_answered :: nanos
  dp_session :: bool
  dp_write :: bool
  dp_video :: video_probe

text \<open>The callback of a response: times, the ringing status once, and the attributes of its headers.\<close>

definition note_response ::
  "('ch, 'z) client_env_scheme \<Rightarrow> nanos \<Rightarrow> int \<Rightarrow> header list \<Rightarrow> bool \<times> out_result \<Rightarrow> bool \<times> out_result" where
  "note_response env now code hdrs s =
     (if code = 200 then s
      else (let ringing = fst s;
                rings = (\<not> ringing \<and> code \<ge> 180 \<and> code < 200);
                tried = (\<lambda>c. c\<lparr>oc_times := (if code = 100 \<and> st_trying (oc_times c) = None
                            then (oc_times c)\<lparr>st_trying := Some now\<rparr> else oc_times c)\<rparr>);
                rung = (\<lambda>c. c\<lparr>oc_times := (if rings then (oc_times c)\<lparr>st_ringing := Some now\<rparr> else oc_times c)\<rparr>);
                r1 = andThen (snd s) (\<lambda>c. (rung (tried c), []));
                r2 = (if rings then andThen r1 (out_setStatus env CallRinging) else r1)
            in (ringing \<or> rings, andThen r2 (setExtraAttrs env [] SIP_NO_HEADERS None hdrs))))"

fun note_responses ::
  "('ch, 'z) client_env_scheme \<Rightarrow> nanos \<Rightarrow> out_effect list \<Rightarrow> bool \<times> out_result \<Rightarrow> bool \<times> out_result" where
  "note_responses env now [] s = s"
| "note_responses env now (ReportState code hdrs # es) s = note_responses env now es (note_response env now code hdrs s)"
| "note_responses env now (e # es) s = note_responses env now es s"

text \<open>The offer: audio, and video if the port has it.\<close>

definition out_offer :: "('ch, 'z) client_env_scheme \<Rightarrow> int \<Rightarrow> outbound_call \<Rightarrow> err + (string \<times> string)" where
  "out_offer env port c =
     (let m = sc_media (oc_conf c) in
      case NewOffer (cl_sdp env) (me_base m, me_enabled m) (me_encryption m) of
        Inl e \<Rightarrow> Inl e
      | Inr (offer, sdp) \<Rightarrow>
          (case sl_marshal (cl_sdp env)
                  (if VideoEnabled (map_option fst (oc_media c)) then addVideoOffer port sdp else sdp) of
             Inl e \<Rightarrow> Inl e
           | Inr bytes \<Rightarrow> Inr (offer, bytes)))"

definition full_id_info :: "('ch, 'z) client_env_scheme \<Rightarrow> string \<Rightarrow> call_info \<Rightarrow> call_info" where
  "full_id_info env i info = (if i = [] then info
     else info\<lparr>ci_sip_call_id := i,
               ci_attrs := Some ((case ci_attrs info of None \<Rightarrow> Map.empty | Some m \<Rightarrow> m)
                                   (an_call_id_full (cl_names env) \<mapsto> i))\<rparr>)"

text \<open>
  The INVITE: \<open>None\<close> if its transaction has not ended. Its effects, then what the responses did, then the
  report of the full call id.
\<close>

definition out_invite ::
  "('ch, 'z) client_env_scheme \<Rightarrow> dial_probe \<Rightarrow> string \<Rightarrow> outbound_call
    \<Rightarrow> (out_result \<times> (invite_error + string)) option" where
  "out_invite env dp offer c0 =
     (let s = oc_conf c0;
          c = c0\<lparr>oc_times := (oc_times c0)\<lparr>st_invite := Some (dp_now dp)\<rparr>\<rparr>;
          to = CreateURIFromUserAndAddress (sc_to s) (sc_address s) (TransportFrom (sc_transport s))
      in case Invite (cl_dialog env) (dp_attempts dp) to (sc_user s) (sc_pass s) (sc_headers s) offer (with_headers c) of
           (cc, es, None) \<Rightarrow> None
         | (cc, es, Some out) \<Rightarrow>
             Some (andThen (snd (note_responses env (dp_now dp) es
                       (False, (c\<lparr>oc_cc := cc\<rparr>, map OutMetric (SDPSize (length offer) True)
                          @ map OutMetric (snd (mon_step MInviteReq (oc_mon c))) @ map OutDialog es))))
                     (\<lambda>c. on_state (DeferUpdate (full_id_info env (so_call_id (oc_cc c)))) c), out))"

text \<open>After a failed INVITE: the metric and the status code, and the dialog is closed.\<close>

definition out_invite_failed ::
  "('ch, 'z) client_env_scheme \<Rightarrow> bool \<Rightarrow> invite_error \<Rightarrow> outbound_call \<Rightarrow> out_result" where
  "out_invite_failed env closing e c =
     (let close = on_out (Out_Close (cl_dialog env) closing (cl_bye_answer env)) in
      case ec_status (snd (invite_dial_error env e)) of
        Some st \<Rightarrow>
          andThen (andThen (on_mon (mon_step (MInviteError (statusName (st_code st)))) c)
            (on_state (DeferUpdate (\<lambda>i. i\<lparr>ci_status_code := Some st\<rparr>)))) close
      | None \<Rightarrow> andThen (on_mon (mon_step (MInviteError ''other'')) c) close)"

definition out_video :: "('ch, 'z) client_env_scheme \<Rightarrow> video_probe \<Rightarrow> string \<Rightarrow> outbound_call \<Rightarrow> out_result" where
  "out_video env vp answer c =
     (if \<not> VideoEnabled (map_option fst (oc_media c)) then (c, [])
      else (case parseVideoOffer (sl_unmarshal (cl_sdp env)) (cl_parse_addr env) answer of
              None \<Rightarrow> (c, [])
            | Some v \<Rightarrow> fst (setupOutboundVideo vp v c)))"

definition out_on_timeout :: "(timeout_state \<Rightarrow> timeout_state) \<Rightarrow> outbound_call \<Rightarrow> outbound_call" where
  "out_on_timeout f c = c\<lparr>oc_media := map_option (\<lambda>(p, t). (p, f t)) (oc_media c)\<rparr>"

text \<open>The media of an answered call, up to its ACK.\<close>

definition out_media_on ::
  "('ch, 'z) client_env_scheme \<Rightarrow> nanos \<Rightarrow> outbound_call \<Rightarrow> out_result" where
  "out_media_on env now c =
     (let c1 = out_on_timeout (enableTimeout (cl_default_initial env) (cl_default_general env) now
                 (cl_timeout_initial env) (me_timeout (sc_media (oc_conf c)))) c in
      andThen (andThen (on_mon (mon_step MInviteAccept) c1) (\<lambda>c. (c, [OutPortOut True])))
        (\<lambda>c. if oc_video c then on_media (\<lambda>p. (EnableVideoOut True p, [])) c else (c, [])))"

definition out_set_config ::
  "('ch, 'z) client_env_scheme \<Rightarrow> dial_probe \<Rightarrow> media_answer \<Rightarrow> outbound_call \<Rightarrow> out_result \<times> string option" where
  "out_set_config env dp mc c = (case oc_media c of
       None \<Rightarrow> ((c, []), Some ''media'')
     | Some (p, t) \<Rightarrow>
         (case Port_SetConfig (dp_session dp) (dp_write dp) (dp_answered dp) mc p of
            (p1, es, Some e) \<Rightarrow> ((c\<lparr>oc_media := Some (p1, t)\<rparr>, map OutPort es), Some e)
          | (p1, es, None) \<Rightarrow>
              ((c\<lparr>oc_media := Some (p1\<lparr>mp_conf := Some (mc\<lparr>an_processor := cl_processor env\<rparr>)\<rparr>, t)\<rparr>, map OutPort es), None)))"

definition out_answered ::
  "('ch, 'z) client_env_scheme \<Rightarrow> dial_probe \<Rightarrow> string \<Rightarrow> string \<Rightarrow> outbound_call
    \<Rightarrow> out_result \<times> (dial_error + media_answer)" where
  "out_answered env dp offer answer c0 =
     (let c = c0\<lparr>oc_times := (oc_times c0)\<lparr>st_accept := Some (dp_answered dp)\<rparr>\<rparr>;
          m = sc_media (oc_conf c);
          r = (c, map OutMetric (SDPSize (length answer) False))
      in case SetAnswer (cl_sdp env) (me_base m, me_enabled m) offer answer (me_encryption m) of
           Inl e \<Rightarrow> (r, Inl (media_dial_error env e))
         | Inr (mc, local) \<Rightarrow>
             (case out_set_config env dp mc c of
                (r1, Some e) \<Rightarrow> ((fst r1, snd r @ snd r1), Inl (OtherErr e, cl_chain env (OtherErr e)))
              | (r1, None) \<Rightarrow>
                  (andThen (andThen (andThen (fst r1, snd r @ snd r1)
                     (\<lambda>c. (c\<lparr>oc_cc := SetLocalSDP local (oc_cc c)\<rparr>, [])))
                     (out_video env (dp_video dp) answer))
                     (out_media_on env (dp_answered dp)), Inr mc)))"

text \<open>\<open>sipSignal\<close> up to the ACK; \<open>None\<close> as long as the INVITE is pending.\<close>

definition sip_signal ::
  "('ch, 'z) client_env_scheme \<Rightarrow> bool \<Rightarrow> dial_probe \<Rightarrow> outbound_call
    \<Rightarrow> (out_result \<times> (dial_error + media_answer)) option" where
  "sip_signal env closing dp c = (case out_offer env (dp_port dp) c of
       Inl e \<Rightarrow> Some ((c, []), Inl (e, cl_chain env e))
     | Inr (offer, bytes) \<Rightarrow>
         (case out_invite env dp bytes c of
            None \<Rightarrow> None
          | Some (r, Inl e) \<Rightarrow> Some (andThen r (out_invite_failed env closing e), Inl (invite_dial_error env e))
          | Some (r, Inr answer) \<Rightarrow>
              (case out_answered env dp offer answer (fst r) of
                 ((c1, es1), out) \<Rightarrow> Some ((c1, snd r @ es1), out))))"

text \<open>From the ACK on: whether it can be written, the DTMF tones of the request, the room.\<close>

record ack_probe =
  ap_write :: "err option"
  ap_now :: nanos
  ap_rtp_ts :: u32
  ap_dtmf :: "err option"

definition active_report :: "('ch, 'z) client_env_scheme \<Rightarrow> media_answer \<Rightarrow> outbound_call \<Rightarrow> call_info \<Rightarrow> call_info" where
  "active_report env mc c i =
     (let i1 = i\<lparr>ci_audio_codec := cl_codec_name env mc\<rparr> in
      case oc_room c of Some (Some r) \<Rightarrow> i1\<lparr>ci_attrs := Some (rv_attrs r)\<rparr> | _ \<Rightarrow> i1)"

definition out_view :: "outbound_call \<Rightarrow> signaling_view" where
  "out_view c = \<lparr>sv_headers = (case so_invite_ok (oc_cc c) of None \<Rightarrow> [] | Some r \<Rightarrow> ir_headers r),
     sv_tag = so_tag (oc_cc c), sv_call_id = so_call_id (oc_cc c)\<rparr>"

definition ack_answer ::
  "('ch, 'z) client_env_scheme \<Rightarrow> ack_probe \<Rightarrow> media_answer \<Rightarrow> outbound_call \<Rightarrow> out_result \<times> dial_error option" where
  "ack_answer env ak mc c = (case AckInviteOK (oc_cc c) of
       (es, False) \<Rightarrow> ((c, map OutDialog es),
         Some (let e = PsErr PsCanceled ''call already closed'' None in (e, cl_chain env e)))
     | (es, True) \<Rightarrow>
         (case ap_write ak of
            Some e \<Rightarrow> ((c, map OutDialog es), Some (e, cl_chain env e))
          | None \<Rightarrow>
              (andThen (andThen (c\<lparr>oc_times := (oc_times c)\<lparr>st_ack := Some (ap_now ak)\<rparr>\<rparr>, map OutDialog es)
                 (\<lambda>c. setExtraAttrs env (sc_hdr_to_attr (oc_conf c)) (sc_include (oc_conf c)) (Some (out_view c)) [] c))
                 (\<lambda>c. on_state (DeferUpdate (active_report env mc c)) c), None)))"

definition dial_dtmf :: "('ch, 'z) client_env_scheme \<Rightarrow> ack_probe \<Rightarrow> outbound_call \<Rightarrow> out_result \<times> dial_error option" where
  "dial_dtmf env ak c =
     (if sc_dtmf (oc_conf c) = [] then (out_setStatus env CallActive c, None)
      else (let r = andThen (out_setStatus env CallAutomation c)
                      (on_media (\<lambda>p. (p, WriteDTMF (ap_rtp_ts ak) (sc_dtmf (oc_conf c)) p)))
            in case ap_dtmf ak of
                 Some e \<Rightarrow> (r, Some (e, cl_chain env e))
               | None \<Rightarrow> (andThen r (out_setStatus env CallActive), None)))"

section \<open>The machine\<close>

datatype out_phase = OutNew | OutAcking media_answer | OutDialed | OutReturned "err option"

record outbound_flow =
  fo_call :: outbound_call
  fo_phase :: out_phase
  fo_closing :: bool

text \<open>
  The end of a failed dial: the call is closed by the verdict for the error, then \<open>Dial\<close> makes sure that
  it is reported as ended.
\<close>

definition returned_error :: "dial_error \<Rightarrow> err" where
  "returned_error de = (case if_return (classifyInviteError (snd de)) of
       AsIs \<Rightarrow> fst de
     | Wrapped code \<Rightarrow> PsErr code (err_msg (fst de)) None)"

definition dial_failed ::
  "('ch, 'z) client_env_scheme \<Rightarrow> bool \<Rightarrow> nanos \<Rightarrow> dial_error \<Rightarrow> outbound_call \<Rightarrow> out_result" where
  "dial_failed env closing now de c =
     (let res = classifyInviteError (snd de) in
      andThen (andThen
        (out_close env closing (if_report res) (if_status res) (if_term res) (if_reason res) c)
        (ensureClosed env now))
        (on_mon CallEnd))"

definition dial_step ::
  "('ch, 'z) client_env_scheme \<Rightarrow> bool \<Rightarrow> dial_probe \<Rightarrow> nanos \<Rightarrow> outbound_call \<Rightarrow> (out_result \<times> out_phase) option" where
  "dial_step env closing dp now c0 =
     (let (c, es) = on_mon CallStart c0;
          tone = (if sc_dialtone (oc_conf c) then [OutDialTone] else []) in
      case sip_signal env closing dp c of
        None \<Rightarrow> None
      | Some ((c1, es1), Inr mc) \<Rightarrow> Some ((c1, es @ tone @ es1), OutAcking mc)
      | Some ((c1, es1), Inl de) \<Rightarrow>
          Some (andThen (c1, es @ tone @ es1) (dial_failed env closing now de), OutReturned (Some (returned_error de))))"

definition dialed_report :: "nanos \<Rightarrow> outbound_call \<Rightarrow> call_info \<Rightarrow> call_info" where
  "dialed_report now c i = (case oc_room c of
       Some (Some r) \<Rightarrow> i\<lparr>ci_room_id := rv_sid r, ci_started := now, ci_status := SCS_ACTIVE\<rparr>
     | _ \<Rightarrow> i)"

definition dial_done ::
  "('ch, 'z) client_env_scheme \<Rightarrow> (string \<Rightarrow> string) \<Rightarrow> nanos \<Rightarrow> outbound_call \<Rightarrow> out_result" where
  "dial_done env processor now c =
     andThen (andThen (andThen (connectMedia processor c)
       (\<lambda>c. (c\<lparr>oc_started := True\<rparr>, [OutRoomSubscribe])))
       (\<lambda>c. state_update env (dialed_report now c) c))
       (on_mon CallEnd)"

definition ack_step ::
  "('ch, 'z) client_env_scheme \<Rightarrow> bool \<Rightarrow> ack_probe \<Rightarrow> (string \<Rightarrow> string) \<Rightarrow> media_answer \<Rightarrow> outbound_call
    \<Rightarrow> out_result \<times> out_phase" where
  "ack_step env closing ak processor mc c = (case ack_answer env ak mc c of
       (r, Some de) \<Rightarrow> (andThen r (dial_failed env closing (ap_now ak) de), OutReturned (Some (returned_error de)))
     | (r, None) \<Rightarrow>
         (case dial_dtmf env ak (fst r) of
            (r1, Some de) \<Rightarrow>
              (andThen (fst r1, snd r @ snd r1) (dial_failed env closing (ap_now ak) de),
               OutReturned (Some (returned_error de)))
          | (r1, None) \<Rightarrow> (andThen (fst r1, snd r @ snd r1) (dial_done env processor (ap_now ak)), OutDialed)))"

text \<open>One round of \<open>waitClose\<close>.\<close>

datatype out_wait = OutStatsTick | OutStateTick | OutRoomGone disconnect_reason | OutMediaSilent | OutSawStopped

definition media_silent_err :: err where
  "media_silent_err = PsErr PsDeadlineExceeded ''media timeout'' None"

definition wait_step ::
  "('ch, 'z) client_env_scheme \<Rightarrow> bool \<Rightarrow> out_wait \<Rightarrow> nanos \<Rightarrow> outbound_call \<Rightarrow> out_result \<times> out_phase" where
  "wait_step env closing e now c = (case e of
       OutStatsTick \<Rightarrow> ((c, []), OutDialed)
     | OutStateTick \<Rightarrow> (on_state (ForceFlush (cl_rpc env (cs_info (oc_state c)))) c, OutDialed)
     | OutRoomGone reason \<Rightarrow>
         (andThen (CloseWithReason env closing callDropped (terminationFromRoomDisconnect reason) DR_CLIENT_INITIATED c)
            (ensureClosed env now), OutReturned None)
     | OutMediaSilent \<Rightarrow>
         (andThen (andThen (out_closeWithTimeout env closing c) (setErrStatus env (Some media_silent_err)))
            (ensureClosed env now), OutReturned (Some media_silent_err))
     | OutSawStopped \<Rightarrow>
         (if oc_stopped c then (ensureClosed env now c, OutReturned None) else ((c, []), OutDialed)))"

text \<open>The report of \<open>createSIPParticipant\<close> about the creation, when it returns with the given error.\<close>

definition created_report :: "err option \<Rightarrow> call_info \<Rightarrow> call_info" where
  "created_report e i = (case e of
       None \<Rightarrow> i\<lparr>ci_status := SCS_PARTICIPANT_JOINED\<rparr>
     | Some x \<Rightarrow> i\<lparr>ci_status := SCS_ERROR, ci_disconnect := DR_UNKNOWN_REASON, ci_error := err_msg x\<rparr>)"

datatype out_flow_op =
    DoDial dial_probe nanos
  | DoAckStep ack_probe "string \<Rightarrow> string"
  | DoWait out_wait nanos
  | RemoteBye | ByeCloses | TransferTimer | ClientCloses | ShutsDown
  | BeginTransfer string nanos string | SendRefer string "str_map option" | FinishTransfer string nanos "err option"
  | Reinvite u32 int string video_probe
  | RoomReports str_map | ToneFromSip char | AskKeyframe
  | Created "err option"

definition is_closer :: "out_flow_op \<Rightarrow> bool" where
  "is_closer op = (case op of ByeCloses \<Rightarrow> True | TransferTimer \<Rightarrow> True | ShutsDown \<Rightarrow> True | _ \<Rightarrow> False)"

definition client_closes :: "out_flow_op \<Rightarrow> bool" where
  "client_closes op = (case op of ClientCloses \<Rightarrow> True | _ \<Rightarrow> False)"

text \<open>
  A re-INVITE with the CSeq \<open>n\<close> that the server passes to the call: it counts if it is newer and the
  call has an SDP; the video it changes is applied at once. The server answers it.
\<close>

definition reinvite_step ::
  "('ch, 'z) client_env_scheme \<Rightarrow> u32 \<Rightarrow> int \<Rightarrow> string \<Rightarrow> video_probe \<Rightarrow> outbound_call \<Rightarrow> out_result" where
  "reinvite_step env n port offer vp c =
     (if n \<le> so_latest_invite_cseq (oc_cc c) \<or> so_local_sdp (oc_cc c) = [] then (c, [])
      else (let c1 = c\<lparr>oc_cc := RecordInvite n (oc_cc c)\<rparr> in
            case prepareReinviteOffer env port offer c of
              Inr (Some (sdp, v)) \<Rightarrow>
                if sdp = [] then (c1, [])
                else applyReinviteVideo vp (Some v) (c1\<lparr>oc_cc := SetLocalSDP sdp (oc_cc c1)\<rparr>)
            | _ \<Rightarrow> (c1, [])))"

definition out_other ::
  "('ch, 'z) client_env_scheme \<Rightarrow> bool \<Rightarrow> out_flow_op \<Rightarrow> outbound_call \<Rightarrow> out_result" where
  "out_other env closing op c = (case op of
       RemoteBye \<Rightarrow> on_out Out_AcceptBye c
     | ByeCloses \<Rightarrow> CloseWithReason env closing CallHangup (Success ''bye'') DR_CLIENT_INITIATED c
     | TransferTimer \<Rightarrow> CloseWithReason env closing CallHangup (Success ''call transferred'') DR_CLIENT_INITIATED c
     | ShutsDown \<Rightarrow> Out_Shutdown env closing c
     | BeginTransfer tid now to \<Rightarrow> on_state (StartTransfer tid now to) c
     | SendRefer to h \<Rightarrow> on_out (out_transfer_send closing to h) c
     | FinishTransfer tid now e \<Rightarrow> on_state (EndTransfer tid now e) c
     | Reinvite n port offer vp \<Rightarrow> reinvite_step env n port offer vp c
     | RoomReports m \<Rightarrow>
         (case oc_room c of
            Some (Some r) \<Rightarrow> (c\<lparr>oc_room := Some (Some (r\<lparr>rv_attrs := m\<rparr>))\<rparr>, [])
          | _ \<Rightarrow> (c, []))
     | ToneFromSip b \<Rightarrow> out_handleDTMF b c
     | AskKeyframe \<Rightarrow> on_media (\<lambda>p. (p, RequestVideoPLI p)) c
     | Created e \<Rightarrow> state_update env (created_report e) c
     | _ \<Rightarrow> (c, []))"

text \<open>The steps of the dial and the wait, where their phase allows them; a step that does not fit does nothing.\<close>

definition dialer_step ::
  "('ch, 'z) client_env_scheme \<Rightarrow> out_flow_op \<Rightarrow> outbound_flow \<Rightarrow> (out_result \<times> out_phase) option" where
  "dialer_step env op f = (let c = fo_call f; closing = fo_closing f in
     case (fo_phase f, op) of
       (OutNew, DoDial dp now) \<Rightarrow> dial_step env closing dp now c
     | (OutAcking mc, DoAckStep ak processor) \<Rightarrow> Some (ack_step env closing ak processor mc c)
     | (OutDialed, DoWait e now) \<Rightarrow> Some (wait_step env closing e now c)
     | _ \<Rightarrow> None)"

definition of_dialer :: "out_flow_op \<Rightarrow> bool" where
  "of_dialer op = (case op of DoDial dp n \<Rightarrow> True | DoAckStep ak p \<Rightarrow> True | DoWait e n \<Rightarrow> True | _ \<Rightarrow> False)"

definition is_acking :: "out_phase \<Rightarrow> bool" where
  "is_acking ph = (case ph of OutAcking mc \<Rightarrow> True | _ \<Rightarrow> False)"

definition out_flow_step ::
  "('ch, 'z) client_env_scheme \<Rightarrow> out_flow_op \<Rightarrow> outbound_flow \<Rightarrow> outbound_flow \<times> out_call_effect list" where
  "out_flow_step env op f =
     (if of_dialer op
      then (case dialer_step env op f of
              None \<Rightarrow> (f, [])
            | Some ((c, es), ph) \<Rightarrow> (f\<lparr>fo_call := c, fo_phase := ph\<rparr>, es))
      else if client_closes op then (f\<lparr>fo_closing := True\<rparr>, [])
      else if is_closer op \<and> is_acking (fo_phase f) then (f, [])
      else (case out_other env (fo_closing f) op (fo_call f) of (c, es) \<Rightarrow> (f\<lparr>fo_call := c\<rparr>, es)))"

end
