(* ===== verification/Outbound_Outcome.thy ===== *)
theory Outbound_Outcome
  imports Outbound_Flow
begin

text \<open>
  What the state machine of an outbound call guarantees for every interleaving: the books of the call
  (table of active calls, end of the session, metrics), what is released at its end, and what is
  reported of it.
\<close>

section \<open>The books of a call\<close>

definition drops :: "out_call_effect \<Rightarrow> bool" where
  "drops e = (case e of OutDrop s \<Rightarrow> True | _ \<Rightarrow> False)"

definition ends_session :: "out_call_effect \<Rightarrow> bool" where
  "ends_session e = (case e of OutSessionEnd p c s r \<Rightarrow> True | _ \<Rightarrow> False)"

definition counts_end :: "out_call_effect \<Rightarrow> bool" where
  "counts_end e = (case e of OutMetric (CallsTerminated l) \<Rightarrow> True | _ \<Rightarrow> False)"

definition raises_gauge :: "out_call_effect \<Rightarrow> bool" where
  "raises_gauge e = (case e of OutMetric m \<Rightarrow> is_active_inc m | _ \<Rightarrow> False)"

definition lowers_gauge :: "out_call_effect \<Rightarrow> bool" where
  "lowers_gauge e = (case e of OutMetric m \<Rightarrow> is_active_dec m | _ \<Rightarrow> False)"

definition panics :: "out_call_effect \<Rightarrow> bool" where
  "panics e = (case e of OutPanic \<Rightarrow> True | _ \<Rightarrow> False)"

lemmas out_seen = drops_def ends_session_def counts_end_def raises_gauge_def lowers_gauge_def panics_def

definition room_open :: "outbound_call \<Rightarrow> bool" where
  "room_open c = (case oc_room c of Some (Some r) \<Rightarrow> True | _ \<Rightarrow> False)"

definition shut :: "outbound_call \<Rightarrow> bool" where
  "shut c = ((case oc_media c of None \<Rightarrow> False | Some (p, t) \<Rightarrow> mp_closed p) \<and> \<not> room_open c)"

definition out_good :: "outbound_call \<Rightarrow> bool" where
  "out_good c = (cm_terminated (oc_mon c) = oc_stopped c \<and> oc_media c \<noteq> None \<and> (oc_stopped c \<longrightarrow> shut c))"

text \<open>What leaves the table is the entry of the call itself.\<close>

definition drops_own :: "string \<Rightarrow> out_call_effect \<Rightarrow> bool" where
  "drops_own i e = (case e of OutDrop s \<Rightarrow> s = i | _ \<Rightarrow> True)"

definition out_settles :: "bool \<Rightarrow> outbound_call \<Rightarrow> outbound_call \<Rightarrow> out_call_effect list \<Rightarrow> bool" where
  "out_settles H c c' es =
     ((oc_stopped c \<longrightarrow> oc_stopped c')
      \<and> so_id (oc_cc c') = so_id (oc_cc c) \<and> list_all (drops_own (so_id (oc_cc c))) es
      \<and> count_by drops es + of_bool (oc_stopped c) = of_bool (oc_stopped c')
      \<and> count_by ends_session es = (if H then count_by drops es else 0)
      \<and> count_by counts_end es + of_bool (oc_stopped c) = of_bool (oc_stopped c')
      \<and> count_by panics es = 0
      \<and> count_by raises_gauge es + of_bool (cm_started (oc_mon c))
         = count_by lowers_gauge es + (of_bool (cm_started (oc_mon c')) :: nat))"

abbreviation accounted :: "bool \<Rightarrow> outbound_call \<Rightarrow> out_result \<Rightarrow> bool" where
  "accounted H \<equiv> keeps out_good (out_settles H)"

interpretation out_books: ledger out_good "out_settles H" for H
  by unfold_locales (auto simp: out_settles_def)

named_theorems out_steps \<open>steps that keep the books of an outbound call\<close>

lemmas [out_steps] = out_books.keeps_andThen out_books.keeps_nothing

definition unseen :: "out_call_effect \<Rightarrow> bool" where
  "unseen e = (\<not> drops e \<and> \<not> ends_session e \<and> \<not> counts_end e \<and> \<not> panics e \<and> \<not> raises_gauge e \<and> \<not> lowers_gauge e)"

lemma unseen_counts:
  assumes "list_all unseen es"
  shows "count_by drops es = 0" "count_by ends_session es = 0" "count_by counts_end es = 0"
    "count_by panics es = 0" "count_by raises_gauge es = 0" "count_by lowers_gauge es = 0"
  using assms by (auto simp: count_by_zero_iff list_all_iff unseen_def)

lemma unseen_drops_own: "list_all unseen es \<Longrightarrow> list_all (drops_own i) es"
  by (auto simp: list_all_iff unseen_def drops_own_def drops_def split: out_call_effect.splits)

lemma unseen_effects [simp]:
  "unseen (OutDialog d)" "unseen (OutReport r)" "unseen (OutPort p)" "unseen (OutAdd s)" "unseen (OutRegister s)"
  "unseen (OutDeregister s)" "unseen (OutRoomConnect m)" "unseen (OutRoomAttrs m)" "unseen OutRoomTrack"
  "unseen OutRoomVideoTrack" "unseen OutRoomSubscribe" "unseen (OutRoomOutput b)" "unseen OutRoomDtmf"
  "unseen OutRoomVideoOutput" "unseen (OutRoomSend ch)" "unseen OutRoomCloseOutput" "unseen (OutRoomClose dr)"
  "unseen (OutPortOut b)" "unseen OutDialTone" "unseen OutWriterClosed" "unseen (OutScheduleClose n)"
  by (simp_all add: unseen_def out_seen)

lemma unseen_maps [simp]:
  "list_all unseen (map OutDialog ds)" "list_all unseen (map OutReport rs)" "list_all unseen (map OutPort ps)"
  by (simp_all add: list_all_iff)

text \<open>A change of the call that the books do not see.\<close>

definition same_accounts :: "outbound_call \<Rightarrow> outbound_call \<Rightarrow> bool" where
  "same_accounts c c' = (oc_stopped c' = oc_stopped c \<and> oc_mon c' = oc_mon c \<and> so_id (oc_cc c') = so_id (oc_cc c)
     \<and> (oc_media c \<noteq> None \<longrightarrow> oc_media c' \<noteq> None) \<and> (shut c \<longrightarrow> shut c'))"

lemma accounted_same: "same_accounts c c' \<Longrightarrow> list_all unseen es \<Longrightarrow> accounted H c (c', es)"
  by (auto simp: keeps_def out_good_def out_settles_def same_accounts_def unseen_counts unseen_drops_own)

lemma same_accounts_refl [simp]: "same_accounts c c"
  by (simp add: same_accounts_def)

lemma same_accounts_trans: "same_accounts a b \<Longrightarrow> same_accounts b c \<Longrightarrow> same_accounts a c"
  by (simp add: same_accounts_def)

lemma same_accounts_updates [simp]:
  "so_id cc = so_id (oc_cc c) \<Longrightarrow> same_accounts c (c\<lparr>oc_cc := cc\<rparr>)" "same_accounts c (c\<lparr>oc_state := s\<rparr>)" "same_accounts c (c\<lparr>oc_times := ts\<rparr>)"
  "same_accounts c (c\<lparr>oc_started := b\<rparr>)" "same_accounts c (c\<lparr>oc_closing := b\<rparr>)" "same_accounts c (c\<lparr>oc_video := b\<rparr>)"
  "same_accounts c (c\<lparr>oc_room_in := b\<rparr>)"
  by (simp_all add: same_accounts_def shut_def room_open_def)

lemma same_accounts_update_intro:
  "same_accounts c c' \<Longrightarrow> so_id cc = so_id (oc_cc c) \<Longrightarrow> same_accounts c (c'\<lparr>oc_cc := cc\<rparr>)" "same_accounts c c' \<Longrightarrow> same_accounts c (c'\<lparr>oc_state := s\<rparr>)"
  "same_accounts c c' \<Longrightarrow> same_accounts c (c'\<lparr>oc_times := ts\<rparr>)" "same_accounts c c' \<Longrightarrow> same_accounts c (c'\<lparr>oc_video := b\<rparr>)"
  by (simp_all add: same_accounts_def shut_def room_open_def)

text \<open>The parts of the call.\<close>

definition keeps_id :: "(sip_outbound \<Rightarrow> sip_outbound \<times> out_effect list) \<Rightarrow> bool" where
  "keeps_id f = (\<forall>cc. so_id (fst (f cc)) = so_id cc)"

lemma keeps_id_ops [simp]:
  "keeps_id Out_AcceptBye" "keeps_id (Out_Close denv b a)" "keeps_id (out_transfer_send b to h)"
  using out_step_id [of denv DoAcceptBye] out_step_id [of denv "DoClose b a"] out_step_id [of denv "DoTransfer b to h"]
  by (simp_all add: keeps_id_def)

lemma dialog_ids [simp]:
  "so_id (with_headers c) = so_id (oc_cc c)" "so_id (SetLocalSDP sdp cc) = so_id cc" "so_id (RecordInvite n cc) = so_id cc"
  by (simp_all add: with_headers_def SetLocalSDP_def RecordInvite_def)

lemma Out_Close_id [simp]: "so_id (fst (Out_Close denv b a cc)) = so_id cc"
  using keeps_id_ops(2) [of denv b a] by (simp add: keeps_id_def)

lemma keeps_id_out: "keeps_id f \<Longrightarrow> so_id (oc_cc (fst (on_out f c))) = so_id (oc_cc c)"
  by (simp add: on_out_def split_def keeps_id_def)

lemma accounted_out [out_steps]:
  assumes "keeps_id f"
  shows "accounted H c (on_out f c)"
  using keeps_id_out [OF assms, of c] by (simp add: on_out_def split_def accounted_same)

lemma accounted_state [out_steps]: "accounted H c (on_state f c)"
  by (simp add: on_state_def split_def accounted_same)

lemma accounted_update [out_steps]: "accounted H c (state_update env upd c)"
  by (simp add: state_update_def accounted_state)

lemma accounted_status [out_steps]:
  "accounted H c (out_setStatus env v c)" "accounted H c (setExtraAttrs env m opts view hdrs c)"
  by (auto simp: out_setStatus_def setExtraAttrs_def Let_def intro!: accounted_same split: option.split)

lemma accounted_reports [out_steps]: "accounted H c (ensureClosed env now c)" "accounted H c (setErrStatus env e c)"
  by (auto simp: ensureClosed_def setErrStatus_def intro!: out_steps split: option.split)

definition keeps_closed :: "(media_port \<Rightarrow> media_port \<times> port_effect list) \<Rightarrow> bool" where
  "keeps_closed f = (\<forall>p. mp_closed p \<longrightarrow> mp_closed (fst (f p)))"

lemma accounted_media [out_steps]:
  assumes "keeps_closed f"
  shows "accounted H c (on_media f c)"
  using assms
  by (auto simp: on_media_def split_def same_accounts_def shut_def room_open_def keeps_closed_def
      intro!: accounted_same split: option.split)

lemma keeps_closed_ops [simp]:
  "keeps_closed (\<lambda>p. (p, g p))" "keeps_closed (\<lambda>p. (EnableVideoOut b p, []))"
  "keeps_closed (\<lambda>p. case WriteAudioTo pr w p of None \<Rightarrow> (p, []) | Some (p1, es) \<Rightarrow> (HandleDTMF True p1, es))"
  by (auto simp: keeps_closed_def EnableVideoOut_def WriteAudioTo_def HandleDTMF_def split: option.split)

lemma accounted_mon [out_steps]:
  "accounted H c (on_mon CallStart c)" "accounted H c (on_mon CallEnd c)"
  "accounted H c (on_mon (mon_step MInviteAccept) c)" "accounted H c (on_mon (mon_step (MInviteError r)) c)"
  by (auto simp: keeps_def on_mon_def out_good_def out_settles_def shut_def room_open_def CallStart_def CallEnd_def
      out_seen drops_own_def is_active_inc_def is_active_dec_def)

section \<open>The end of the call\<close>

lemma state_update_frame:
  "oc_stopped (fst (state_update env u c)) = oc_stopped c" "oc_mon (fst (state_update env u c)) = oc_mon c"
  "oc_media (fst (state_update env u c)) = oc_media c" "oc_room (fst (state_update env u c)) = oc_room c"
  "oc_cc (fst (state_update env u c)) = oc_cc c" "oc_project (fst (state_update env u c)) = oc_project c"
  "oc_closing (fst (state_update env u c)) = oc_closing c"
  "cs_info (oc_state (fst (state_update env u c))) = u (cs_info (oc_state c))"
  "list_all unseen (snd (state_update env u c))"
  by (simp_all add: state_update_def on_state_def split_def Update_def flush_state_def)

lemma status_frame: "fst (out_setStatus env v c) = c" "list_all unseen (snd (out_setStatus env v c))"
  by (simp_all add: out_setStatus_def split: option.split)

lemma stopSIP_frame:
  assumes "\<not> cm_terminated (oc_mon c)"
  shows "oc_stopped (fst (stopSIP env b t c)) = oc_stopped c" "cm_terminated (oc_mon (fst (stopSIP env b t c)))"
    "cm_started (oc_mon (fst (stopSIP env b t c))) = cm_started (oc_mon c)"
    "oc_media (fst (stopSIP env b t c)) = oc_media c" "oc_room (fst (stopSIP env b t c)) = oc_room c"
    "oc_state (fst (stopSIP env b t c)) = oc_state c"
    "\<exists>l es. snd (stopSIP env b t c) = OutMetric (CallsTerminated l) # es \<and> list_all unseen es"
  using assms by (auto simp: stopSIP_def andThen_pair on_mon_def CallTerminate_def on_out_def split_def)

lemma close_media_frame:
  assumes "oc_media c = Some m"
  shows "oc_stopped (fst (close_media st c)) = oc_stopped c" "oc_mon (fst (close_media st c)) = oc_mon c"
    "shut (fst (close_media st c))" "\<exists>p t. oc_media (fst (close_media st c)) = Some (p, t)"
    "list_all unseen (snd (close_media st c))" "oc_state (fst (close_media st c)) = oc_state c"
  using assms
  by (auto simp: close_media_def on_media_def shut_def room_open_def Port_Close_def Let_def split_def split: option.splits)

lemma stopSIP_counts:
  assumes "\<not> cm_terminated (oc_mon c)"
  shows "count_by drops (snd (stopSIP env b t c)) = 0" "count_by ends_session (snd (stopSIP env b t c)) = 0"
    "count_by counts_end (snd (stopSIP env b t c)) = 1" "count_by panics (snd (stopSIP env b t c)) = 0"
    "count_by raises_gauge (snd (stopSIP env b t c)) = 0" "count_by lowers_gauge (snd (stopSIP env b t c)) = 0"
  using stopSIP_frame(7) [OF assms, of env b t]
  by (auto simp: unseen_counts out_seen is_active_inc_def is_active_dec_def)

lemma unregister_frame:
  "fst (unregister env t c) = c" "count_by drops (snd (unregister env t c)) = 1"
  "count_by ends_session (snd (unregister env t c)) = of_bool (cl_handler env)"
  "count_by counts_end (snd (unregister env t c)) = 0" "count_by panics (snd (unregister env t c)) = 0"
  "count_by raises_gauge (snd (unregister env t c)) = 0" "count_by lowers_gauge (snd (unregister env t c)) = 0"
  by (simp_all add: unregister_def out_seen)

lemma close_ids:
  "so_id (oc_cc (fst (stopSIP env b t c))) = so_id (oc_cc c)" "so_id (oc_cc (fst (close_media st c))) = so_id (oc_cc c)"
  "list_all (drops_own i) (snd (stopSIP env b t c))" "so_id (oc_cc c) = i \<Longrightarrow> list_all (drops_own i) (snd (unregister env t c))"
  by (auto simp: stopSIP_def close_media_def unregister_def andThen_pair keeps_id_out on_mon_def on_media_def on_out_def
      Let_def split_def CallTerminate_def drops_own_def list_all_iff split: option.split)

lemmas close_parts = close_ids state_update_frame status_frame stopSIP_frame(1-6) stopSIP_counts close_media_frame unregister_frame

lemma close_stopped: "oc_stopped c \<Longrightarrow> out_close env b e st t reason c = (c\<lparr>oc_closing := True\<rparr>, [])"
  by (simp add: out_close_def Let_def)

lemma close_open:
  assumes "\<not> oc_stopped c" and "\<not> cm_terminated (oc_mon c)" and "oc_media c \<noteq> None"
  shows "out_good (fst (out_close env b e st t reason c))" "oc_stopped (fst (out_close env b e st t reason c))"
    "out_settles (cl_handler env) c (fst (out_close env b e st t reason c)) (snd (out_close env b e st t reason c))"
    "cs_info (oc_state (fst (out_close env b e st t reason c))) = close_report e reason (cs_info (oc_state c))"
  using assms
  by (auto simp: out_close_def Let_def andThen_pair out_good_def out_settles_def close_parts unseen_counts unseen_drops_own)

lemma accounted_close [out_steps]: "accounted (cl_handler env) c (out_close env b e st t reason c)"
proof (cases "oc_stopped c")
  case True
  then show ?thesis by (auto simp: close_stopped intro!: accounted_same)
next
  case False
  with close_open [of c env b e st t reason] show ?thesis by (auto simp: keeps_def out_good_def)
qed

lemma accounted_closes [out_steps]:
  "accounted (cl_handler env) c (CloseWithReason env b st t reason c)"
  "accounted (cl_handler env) c (Out_Shutdown env b c)" "accounted (cl_handler env) c (out_closeWithTimeout env b c)"
  by (simp_all add: CloseWithReason_def Out_Shutdown_def out_closeWithTimeout_def accounted_close)

section \<open>The dial\<close>

lemma accounted_plain: "list_all unseen es \<Longrightarrow> accounted H c (c, es)"
  by (simp add: accounted_same)

lemma accounted_from:
  assumes "accounted H c (c1, es)" and "accounted H c1 r"
  shows "accounted H c (fst r, es @ snd r)"
  using out_books.keeps_then [OF assms(1), of "\<lambda>x. r"] assms(2) by (simp add: andThen_pair)

lemma accounted_pre: "list_all unseen es \<Longrightarrow> accounted H c r \<Longrightarrow> accounted H c (fst r, es @ snd r)"
  by (rule accounted_from [OF accounted_plain])

lemma accounted_cc: "so_id cc = so_id (oc_cc c) \<Longrightarrow> accounted H c (c\<lparr>oc_cc := cc\<rparr>, [])"
  by (simp add: accounted_same)

lemma accounted_failed [out_steps]: "accounted (cl_handler env) c (dial_failed env b now de c)"
  by (auto simp: dial_failed_def Let_def intro!: out_steps)

lemma unseen_SDPSize [simp]: "list_all unseen (map OutMetric (SDPSize n b))"
  by (simp add: SDPSize_def unseen_def out_seen is_active_inc_def is_active_dec_def)

lemma accounted_note:
  assumes "accounted H c (snd s)"
  shows "accounted H c (snd (note_response env now code hdrs s))"
  using assms by (auto simp: note_response_def Let_def intro!: out_steps accounted_same)

lemma accounted_notes: "accounted H c (snd s) \<Longrightarrow> accounted H c (snd (note_responses env now es s))"
proof (induction es arbitrary: s)
  case Nil
  then show ?case by simp
next
  case (Cons e es)
  then show ?case by (cases e) (simp_all add: accounted_note)
qed

lemma unseen_metrics [simp]:
  "unseen (OutMetric (InviteReqM l))" "unseen (OutMetric (InviteAcceptM l))" "unseen (OutMetric (InviteErrM l))"
  by (simp_all add: unseen_def out_seen is_active_inc_def is_active_dec_def)

lemma accounted_invite:
  assumes "out_invite env dp offer c = Some (r, out)"
  shows "accounted H c r"
  using assms
  by (auto simp: out_invite_def Let_def split: prod.splits option.splits
      intro!: out_books.keeps_andThen accounted_state accounted_notes accounted_same same_accounts_update_intro
      dest!: Invite_id)

lemma accounted_invite_failed [out_steps]: "accounted H c (out_invite_failed env b e c)"
  by (auto simp: out_invite_failed_def Let_def intro!: out_steps split: option.split)

lemma set_config_closed: "mp_closed p \<Longrightarrow> mp_closed (fst (SetVideoConfig w now v p))"
  by (simp add: SetVideoConfig_def split: option.split)

lemma accounted_setup: "accounted H c (fst (setupOutboundVideo vp v c))"
proof (cases "oc_media c")
  case None
  then show ?thesis by (simp add: setupOutboundVideo_def out_books.keeps_nothing)
next
  case (Some m)
  obtain p t where m: "oc_media c = Some (p, t)" using Some by (cases m) simp
  obtain p1 es e where v: "SetVideoConfig (vp_write vp) (vp_now vp) (Some (video_conf.truncate v)) p = (p1, es, e)" by (metis surj_pair)
  have "mp_closed p \<Longrightarrow> mp_closed p1" using set_config_closed [of p] v by (metis fst_conv)
  then show ?thesis
    by (auto simp: setupOutboundVideo_def m v same_accounts_def shut_def room_open_def Let_def
        intro!: accounted_same split: option.split)
qed

lemma accounted_video [out_steps]: "accounted H c (out_video env vp answer c)"
  by (auto simp: out_video_def intro!: out_steps accounted_setup split: option.split)

lemma accounted_media_on [out_steps]: "accounted H c (out_media_on env now c)"
proof -
  let ?c1 = "out_on_timeout (enableTimeout (cl_default_initial env) (cl_default_general env) now
                 (cl_timeout_initial env) (me_timeout (sc_media (oc_conf c)))) c"
  have start: "accounted H c (?c1, [])"
    by (rule accounted_same)
      (auto simp: out_on_timeout_def same_accounts_def shut_def room_open_def split: option.splits)
  have rest: "accounted H ?c1 (andThen (andThen (on_mon (mon_step MInviteAccept) ?c1) (\<lambda>c. (c, [OutPortOut True])))
        (\<lambda>c. if oc_video c then on_media (\<lambda>p. (EnableVideoOut True p, [])) c else (c, [])))"
    by (auto intro!: out_steps accounted_plain)
  from accounted_from [OF start rest] show ?thesis by (simp add: out_media_on_def Let_def)
qed

lemma accounted_set_config: "accounted H c (fst (out_set_config env dp mc c))"
proof (cases "oc_media c")
  case None
  then show ?thesis by (simp add: out_set_config_def out_books.keeps_nothing)
next
  case (Some m)
  obtain p t where m: "oc_media c = Some (p, t)" using Some by (cases m) simp
  obtain p1 es e where v: "Port_SetConfig (dp_session dp) (dp_write dp) (dp_answered dp) mc p = (p1, es, e)" by (metis surj_pair)
  have "mp_closed p \<Longrightarrow> mp_closed p1" using v by (simp add: Port_SetConfig_def)
  then show ?thesis
    by (cases e) (auto simp: out_set_config_def m v same_accounts_def shut_def room_open_def intro!: accounted_same)
qed

lemma accounted_answered: "accounted H c (fst (out_answered env dp offer answer c))"
proof -
  let ?c = "c\<lparr>oc_times := (oc_times c)\<lparr>st_accept := Some (dp_answered dp)\<rparr>\<rparr>"
  let ?es = "map OutMetric (SDPSize (length answer) False)"
  have start: "accounted H c (?c, ?es)" by (simp add: accounted_same)
  have step: "accounted H c (fst r1, ?es @ snd r1)" if "out_set_config env dp mc ?c = (r1, e)" for mc r1 e
    using accounted_from [OF start accounted_set_config [of H ?c env dp mc]] that by simp
  show ?thesis
    by (auto simp: out_answered_def Let_def start split: sum.split prod.splits option.splits
        intro!: out_books.keeps_andThen accounted_video accounted_media_on accounted_cc dest!: step)
qed

lemma accounted_signal:
  assumes "sip_signal env b dp c = Some (r, out)"
  shows "accounted H c r"
proof (cases "out_offer env (dp_port dp) c")
  case (Inl e)
  with assms show ?thesis by (auto simp: sip_signal_def out_books.keeps_nothing)
next
  case (Inr ob)
  obtain offer bytes where o: "ob = (offer, bytes)" by (metis surj_pair)
  obtain r0 v where i: "out_invite env dp bytes c = Some (r0, v)"
    using assms Inr o by (auto simp: sip_signal_def split: option.splits)
  note first = accounted_invite [OF i, of H]
  show ?thesis
  proof (cases v)
    case (Inl e)
    with assms Inr o i first show ?thesis
      by (auto simp: sip_signal_def intro!: out_books.keeps_andThen accounted_invite_failed)
  next
    case (Inr answer)
    obtain c1 es1 w where a: "out_answered env dp offer answer (fst r0) = ((c1, es1), w)" by (metis surj_pair)
    have "accounted H (fst r0) (c1, es1)" using accounted_answered [of H "fst r0" env dp offer answer] a by simp
    with first have "accounted H c (c1, snd r0 @ es1)" using accounted_from [of H c "fst r0" "snd r0" "(c1, es1)"] by simp
    with assms Inr \<open>out_offer env (dp_port dp) c = Inr ob\<close> o i a show ?thesis
      by (auto simp: sip_signal_def andThen_pair)
  qed
qed

lemma accounted_dial:
  assumes "dial_step env b dp now c = Some (r, ph)"
  shows "accounted (cl_handler env) c r"
proof -
  let ?H = "cl_handler env"
  let ?tone = "if sc_dialtone (oc_conf (fst (on_mon CallStart c))) then [OutDialTone] else []"
  obtain c0 es where s: "on_mon CallStart c = (c0, es)" by (metis surj_pair)
  obtain c1 es1 out where g: "sip_signal env b dp c0 = Some ((c1, es1), out)"
    using assms by (auto simp: dial_step_def s Let_def split: option.splits)
  have "accounted ?H c (c0, es)" using accounted_mon(1) [of ?H c] s by simp
  moreover have "accounted ?H c0 (c0, ?tone)" by (auto intro: accounted_plain)
  moreover have "accounted ?H c0 (c1, es1)" using accounted_signal [OF g, of ?H] by simp
  ultimately have "accounted ?H c (c1, es @ ?tone @ es1)"
    using accounted_from [of ?H c c0 es "(c0, ?tone)"] accounted_from [of ?H c c0 "es @ ?tone" "(c1, es1)"] by simp
  with assms show ?thesis
    by (cases out) (auto simp: dial_step_def s g Let_def intro!: out_books.keeps_andThen accounted_failed)
qed

lemma accounted_ack: "accounted H c (fst (ack_answer env ak mc c))"
  by (auto simp: ack_answer_def split: prod.splits option.splits bool.splits
      intro!: out_steps accounted_same)

lemma accounted_dtmf: "accounted H c (fst (dial_dtmf env ak c))"
  by (auto simp: dial_dtmf_def Let_def intro!: out_steps split: option.splits)

lemma accounted_connect [out_steps]: "accounted H c (connectMedia pr c)"
proof -
  let ?f = "\<lambda>p. case WriteAudioTo pr ''room'' p of None \<Rightarrow> (p, []) | Some (p1, es) \<Rightarrow> (HandleDTMF True p1, es)"
  have "accounted H c (on_media ?f c)" by (rule accounted_media) simp
  from accounted_pre [of "[OutRoomOutput True, OutRoomDtmf]", OF _ this] show ?thesis
    by (simp add: connectMedia_def split_def Let_def)
qed

lemma accounted_done [out_steps]: "accounted H c (dial_done env pr now c)"
  by (auto simp: dial_done_def intro!: out_steps accounted_same)

lemma accounted_ack_step: "accounted (cl_handler env) c (fst (ack_step env b ak pr mc c))"
proof -
  let ?H = "cl_handler env"
  obtain r v where a: "ack_answer env ak mc c = (r, v)" by (metis surj_pair)
  have r: "accounted ?H c r" using accounted_ack [of ?H c env ak mc] a by simp
  obtain r1 w where d: "dial_dtmf env ak (fst r) = (r1, w)" by (metis surj_pair)
  have "accounted ?H (fst r) r1" using accounted_dtmf [of ?H "fst r" env ak] d by simp
  then have "accounted ?H c (fst r1, snd r @ snd r1)" using accounted_from [of ?H c "fst r" "snd r" r1] r by simp
  then show ?thesis
    using r
    by (cases v; cases w) (auto simp: ack_step_def a d intro!: out_books.keeps_andThen accounted_failed accounted_done)
qed

lemma accounted_wait: "accounted (cl_handler env) c (fst (wait_step env b e now c))"
  by (cases e) (auto simp: wait_step_def intro!: out_steps)

lemma accounted_reinvite [out_steps]: "accounted H c (reinvite_step env n port offer vp c)"
proof -
  have start: "accounted H c (c\<lparr>oc_cc := x\<rparr>, [])" if "so_id x = so_id (oc_cc c)" for x using that by (rule accounted_cc)
  have apply_video: "accounted H c' (applyReinviteVideo vp v c')" for c' v
  proof (cases v)
    case None
    then show ?thesis by (simp add: applyReinviteVideo_def out_books.keeps_nothing)
  next
    case (Some w)
    obtain r b where r: "setupOutboundVideo vp w c' = (r, b)" by (metis surj_pair)
    with accounted_setup [of H c' vp w] Some show ?thesis
      by (cases b) (auto simp: applyReinviteVideo_def intro!: out_steps)
  qed
  show ?thesis
    using accounted_from [OF start apply_video, of "SetLocalSDP sdp (RecordInvite n (oc_cc c))" for sdp]
    by (auto simp: reinvite_step_def Let_def start out_books.keeps_nothing split: option.split sum.split)
qed

lemma accounted_room [out_steps]:
  "accounted H c (case oc_room c of Some (Some r) \<Rightarrow> (c\<lparr>oc_room := Some (Some (r\<lparr>rv_attrs := m\<rparr>))\<rparr>, []) | _ \<Rightarrow> (c, []))"
  "accounted H c (out_handleDTMF b c)"
  by (auto simp: same_accounts_def shut_def room_open_def out_handleDTMF_def intro!: accounted_same split: option.splits)

lemma accounted_other: "accounted (cl_handler env) c (out_other env b op c)"
  by (cases op) (auto simp: out_other_def intro!: out_steps)

text \<open>The books over a run of the machine: they are those of its call.\<close>

definition flow_good :: "outbound_flow \<Rightarrow> bool" where
  "flow_good f = out_good (fo_call f)"

definition flow_settles :: "bool \<Rightarrow> outbound_flow \<Rightarrow> outbound_flow \<Rightarrow> out_call_effect list \<Rightarrow> bool" where
  "flow_settles H f f' es = out_settles H (fo_call f) (fo_call f') es"

interpretation flow_books: ledger flow_good "flow_settles H" for H
  by unfold_locales (auto simp: flow_settles_def out_books.settles_nothing intro: out_books.settles_adds)

lemma dialer_cases:
  assumes "dialer_step env op f = Some (r, ph)"
  obtains (dial) dp now where "fo_phase f = OutNew" "op = DoDial dp now"
      "dial_step env (fo_closing f) dp now (fo_call f) = Some (r, ph)"
  | (ack) mc ak pr where "fo_phase f = OutAcking mc" "op = DoAckStep ak pr"
      "ack_step env (fo_closing f) ak pr mc (fo_call f) = (r, ph)"
  | (wait) e now where "fo_phase f = OutDialed" "op = DoWait e now"
      "wait_step env (fo_closing f) e now (fo_call f) = (r, ph)"
  using assms by (cases "fo_phase f"; cases op) (auto simp: dialer_step_def Let_def)

lemma flow_cases:
  obtains (idle) "fo_call (fst (out_flow_step env op f)) = fo_call f" "fo_phase (fst (out_flow_step env op f)) = fo_phase f"
      "snd (out_flow_step env op f) = []"
  | (dialer) r ph where "dialer_step env op f = Some (r, ph)"
      "out_flow_step env op f = (f\<lparr>fo_call := fst r, fo_phase := ph\<rparr>, snd r)"
  | (other) "out_flow_step env op f = (f\<lparr>fo_call := fst (out_other env (fo_closing f) op (fo_call f))\<rparr>,
      snd (out_other env (fo_closing f) op (fo_call f)))" "is_closer op \<longrightarrow> \<not> is_acking (fo_phase f)"
proof (cases "of_dialer op")
  case True
  with idle dialer show ?thesis
    by (cases "dialer_step env op f") (auto simp: out_flow_step_def)
next
  case False
  with idle other show ?thesis
    by (cases "client_closes op"; cases "is_closer op \<and> is_acking (fo_phase f)")
      (auto simp: out_flow_step_def split_def)
qed

lemma accounted_dialer:
  assumes "dialer_step env op f = Some (r, ph)"
  shows "accounted (cl_handler env) (fo_call f) r"
  using assms
proof (cases rule: dialer_cases)
  case (dial dp now)
  then show ?thesis by (intro accounted_dial)
next
  case (ack mc ak pr)
  then show ?thesis using accounted_ack_step [of env "fo_call f" "fo_closing f" ak pr mc] by simp
next
  case (wait e now)
  then show ?thesis using accounted_wait [of env "fo_call f" "fo_closing f" e now] by simp
qed

lemma flow_step_keeps: "keeps flow_good (flow_settles (cl_handler env)) f (out_flow_step env op f)"
proof (cases rule: flow_cases [of env op f])
  case idle
  then show ?thesis by (simp add: keeps_def flow_good_def flow_settles_def out_books.settles_nothing)
next
  case (dialer r ph)
  with accounted_dialer [OF dialer(1)] show ?thesis by (simp add: keeps_def flow_good_def flow_settles_def)
next
  case other
  with accounted_other [of env "fo_call f" "fo_closing f" op] show ?thesis
    by (simp add: keeps_def flow_good_def flow_settles_def)
qed

section \<open>What holds when the call is over\<close>

definition out_returned :: "outbound_flow \<Rightarrow> bool" where
  "out_returned f = (case fo_phase f of OutReturned e \<Rightarrow> True | _ \<Rightarrow> False)"

definition dial_over :: "outbound_flow \<Rightarrow> bool" where
  "dial_over f = (case fo_phase f of OutReturned e \<Rightarrow> True | OutDialed \<Rightarrow> True | _ \<Rightarrow> False)"

definition ended_status :: "outbound_call \<Rightarrow> bool" where
  "ended_status c = (ci_status (cs_info (oc_state c)) \<in> {SCS_ERROR, SCS_DISCONNECTED})"

definition phase_inv :: "outbound_flow \<Rightarrow> bool" where
  "phase_inv f = ((\<not> is_acking (fo_phase f) \<longrightarrow> \<not> cm_started (oc_mon (fo_call f)))
     \<and> (out_returned f \<longrightarrow> oc_stopped (fo_call f)))"

definition rings_on :: "outbound_call \<Rightarrow> outbound_call \<Rightarrow> bool" where
  "rings_on c c' = (cm_started (oc_mon c') = cm_started (oc_mon c) \<and> (oc_stopped c \<longrightarrow> oc_stopped c'))"

lemma same_rings: "same_accounts c c' \<Longrightarrow> rings_on c c'"
  by (simp add: same_accounts_def rings_on_def)

lemma close_rings [simp]:
  "cm_started (oc_mon (fst (out_close env b e st t reason c))) = cm_started (oc_mon c)"
  "oc_stopped (fst (out_close env b e st t reason c))"
  by (auto simp: out_close_def Let_def andThen_pair state_update_frame status_frame stopSIP_def on_mon_def on_out_def
      CallTerminate_def close_media_def on_media_def unregister_def split_def split: option.split)

lemma closes_ring [simp]:
  "cm_started (oc_mon (fst (CloseWithReason env b st t reason c))) = cm_started (oc_mon c)"
  "oc_stopped (fst (CloseWithReason env b st t reason c))"
  "cm_started (oc_mon (fst (Out_Shutdown env b c))) = cm_started (oc_mon c)" "oc_stopped (fst (Out_Shutdown env b c))"
  "cm_started (oc_mon (fst (out_closeWithTimeout env b c))) = cm_started (oc_mon c)"
  "oc_stopped (fst (out_closeWithTimeout env b c))"
  by (simp_all add: CloseWithReason_def Out_Shutdown_def out_closeWithTimeout_def)

lemma ensure_frame:
  "ended_status (fst (ensureClosed env now c))" "oc_mon (fst (ensureClosed env now c)) = oc_mon c"
  "oc_stopped (fst (ensureClosed env now c)) = oc_stopped c"
  by (auto simp: ensureClosed_def state_update_frame ended_status_def Let_def split: option.split)

lemma end_frame:
  "\<not> cm_started (oc_mon (fst (on_mon CallEnd c)))" "oc_stopped (fst (on_mon CallEnd c)) = oc_stopped c"
  "oc_state (fst (on_mon CallEnd c)) = oc_state c"
  by (simp_all add: on_mon_def CallEnd_def)

lemma failed_ends:
  "ended_status (fst (dial_failed env b now de c))" "oc_stopped (fst (dial_failed env b now de c))"
  "\<not> cm_started (oc_mon (fst (dial_failed env b now de c)))"
  using ensure_frame(1)
  by (simp_all add: dial_failed_def Let_def andThen_pair end_frame ensure_frame close_rings ended_status_def)

lemma err_status_frame:
  "oc_mon (fst (setErrStatus env e c)) = oc_mon c" "oc_stopped (fst (setErrStatus env e c)) = oc_stopped c"
  by (simp_all add: setErrStatus_def state_update_frame split: option.split)

lemma wait_rings: "rings_on c (fst (fst (wait_step env b e now c)))"
  by (cases e) (auto simp: wait_step_def andThen_pair ensure_frame err_status_frame rings_on_def on_state_def split_def)

lemma wait_ends:
  assumes "wait_step env b e now c = (r, OutReturned x)"
  shows "oc_stopped (fst r)" "ended_status (fst r)"
  using assms
  by (cases e; auto simp: wait_step_def andThen_pair ensure_frame err_status_frame split: if_splits)+

lemma setup_rings: "rings_on c (fst (fst (setupOutboundVideo vp v c)))"
  by (auto simp: setupOutboundVideo_def rings_on_def Let_def split: option.split prod.split)

lemma media_rings: "rings_on c (fst (on_media f c))"
  by (auto simp: on_media_def rings_on_def split_def split: option.split)

lemma rings_trans: "rings_on a b \<Longrightarrow> rings_on b c \<Longrightarrow> rings_on a c"
  by (simp add: rings_on_def)

lemma apply_rings: "rings_on c (fst (applyReinviteVideo vp v c))"
proof (cases v)
  case (Some w)
  obtain r ok where r: "setupOutboundVideo vp w c = (r, ok)" by (metis surj_pair)
  with setup_rings [of c vp w] have "rings_on c (fst r)" by simp
  with r Some show ?thesis
    by (cases ok) (auto simp: applyReinviteVideo_def andThen_pair rings_on_def [of c c] intro: rings_trans media_rings)
qed (simp add: applyReinviteVideo_def rings_on_def)

lemma reinvite_rings: "rings_on c (fst (reinvite_step env n port offer vp c))"
proof -
  have "rings_on c (fst (applyReinviteVideo vp v (c\<lparr>oc_cc := x\<rparr>)))" for x v
    by (rule rings_trans [OF _ apply_rings]) (simp add: rings_on_def)
  then show ?thesis
    by (auto simp: reinvite_step_def Let_def rings_on_def [of c c] rings_on_def [of c "c\<lparr>oc_cc := x\<rparr>" for x]
        split: sum.split option.split)
qed

lemma other_rings: "rings_on c (fst (out_other env b op c))"
proof (cases op)
  case (Reinvite n port offer vp)
  then show ?thesis by (simp add: out_other_def reinvite_rings)
next
  case AskKeyframe
  then show ?thesis by (simp add: out_other_def media_rings)
qed (auto simp: out_other_def out_handleDTMF_def on_out_def on_state_def rings_on_def state_update_frame
    split_def split: option.split)

lemma dialed_rings:
  "\<not> cm_started (oc_mon (fst (dial_done env pr now c)))"
  by (simp add: dial_done_def andThen_pair end_frame)

lemma dial_phase:
  assumes "dial_step env b dp now c = Some (r, ph)"
  obtains (acking) mc where "ph = OutAcking mc"
  | (failed) e where "ph = OutReturned e" "oc_stopped (fst r)" "ended_status (fst r)" "\<not> cm_started (oc_mon (fst r))"
  using assms by (auto simp: dial_step_def Let_def andThen_pair failed_ends split: prod.splits option.splits sum.splits)

lemma ack_phase:
  assumes "ack_step env b ak pr mc c = (r, ph)"
  obtains (dialed) "ph = OutDialed" "\<not> cm_started (oc_mon (fst r))"
  | (failed) e where "ph = OutReturned e" "oc_stopped (fst r)" "ended_status (fst r)" "\<not> cm_started (oc_mon (fst r))"
  using assms by (auto simp: ack_step_def andThen_pair failed_ends dialed_rings split: prod.splits option.splits)

lemma wait_phase:
  assumes "wait_step env b e now c = (r, ph)"
  shows "ph = OutDialed \<or> (\<exists>x. ph = OutReturned x)"
  using assms by (cases e) (auto simp: wait_step_def split: if_splits)

lemma phase_step: "phase_inv f \<Longrightarrow> phase_inv (fst (out_flow_step env op f))"
proof (cases rule: flow_cases [of env op f])
  case idle
  then show "phase_inv f \<Longrightarrow> ?thesis" by (simp add: phase_inv_def out_returned_def)
next
  case other
  with other_rings [of "fo_call f" env "fo_closing f" op] show "phase_inv f \<Longrightarrow> ?thesis"
    by (auto simp: phase_inv_def out_returned_def rings_on_def split: out_phase.splits)
next
  case (dialer r ph)
  assume inv: "phase_inv f"
  from dialer(1) show ?thesis
  proof (cases rule: dialer_cases)
    case (dial dp now)
    from dial_phase [OF dial(3)] dialer(2) show ?thesis
      by cases (simp_all add: phase_inv_def is_acking_def out_returned_def)
  next
    case (ack mc ak pr)
    from ack_phase [OF ack(3)] dialer(2) show ?thesis
      by cases (simp_all add: phase_inv_def out_returned_def)
  next
    case (wait e now)
    have "rings_on (fo_call f) (fst r)" using wait_rings [of "fo_call f" env "fo_closing f" e now] wait(3) by simp
    with wait inv wait_phase [OF wait(3)] wait_ends [of env "fo_closing f" e now "fo_call f" r] dialer(2) show ?thesis
      by (auto simp: phase_inv_def out_returned_def is_acking_def rings_on_def)
  qed
qed

interpretation out_phases: stepper "out_flow_step env" "\<lambda>_. True" phase_inv for env
  by unfold_locales (rule phase_step)

text \<open>A call that has returned is reported as ended, unless a late report says that it was created.\<close>

definition no_late_join :: "out_flow_op \<Rightarrow> bool" where
  "no_late_join op = (case op of Created e \<Rightarrow> e \<noteq> None | _ \<Rightarrow> True)"

definition reported_inv :: "outbound_flow \<Rightarrow> bool" where
  "reported_inv f = (phase_inv f \<and> (out_returned f \<longrightarrow> ended_status (fo_call f)))"

lemma setup_state: "oc_state (fst (fst (setupOutboundVideo vp v c))) = oc_state c"
  by (auto simp: setupOutboundVideo_def Let_def split: option.split prod.split)

lemma apply_state: "oc_state (fst (applyReinviteVideo vp v c)) = oc_state c"
proof (cases v)
  case (Some w)
  obtain r ok where "setupOutboundVideo vp w c = (r, ok)" by (metis surj_pair)
  with setup_state [of vp w c] Some show ?thesis
    by (cases ok) (auto simp: applyReinviteVideo_def andThen_pair on_media_def split_def split: option.split)
qed (simp add: applyReinviteVideo_def)

lemma reinvite_state: "oc_state (fst (reinvite_step env n port offer vp c)) = oc_state c"
  by (auto simp: reinvite_step_def Let_def apply_state split: sum.split option.split)

lemma other_reported:
  assumes "no_late_join op" and "oc_stopped c" and "ended_status c"
  shows "ended_status (fst (out_other env b op c))"
  using assms
  by (cases op)
    (auto simp: out_other_def no_late_join_def out_handleDTMF_def on_out_def on_state_def state_update_frame
      CloseWithReason_def Out_Shutdown_def close_stopped reinvite_state Let_def on_media_def
      ended_status_def created_report_def StartTransfer_def EndTransfer_def split_def split: option.split)

lemma reported_step:
  assumes "no_late_join op" and "reported_inv f"
  shows "reported_inv (fst (out_flow_step env op f))"
proof -
  have p: "phase_inv (fst (out_flow_step env op f))" using assms(2) by (auto simp: reported_inv_def intro: phase_step)
  show ?thesis
  proof (cases rule: flow_cases [of env op f])
    case idle
    with assms p show ?thesis by (simp add: reported_inv_def out_returned_def)
  next
    case other
    with assms p other_reported [OF assms(1), of "fo_call f" env "fo_closing f"] show ?thesis
      by (auto simp: reported_inv_def phase_inv_def out_returned_def split: out_phase.splits)
  next
    case (dialer r ph)
    from dialer(1) show ?thesis
    proof (cases rule: dialer_cases)
      case (dial dp now)
      from dial_phase [OF dial(3)] dialer(2) p show ?thesis
        by cases (simp_all add: reported_inv_def out_returned_def)
    next
      case (ack mc ak pr)
      from ack_phase [OF ack(3)] dialer(2) p show ?thesis
        by cases (simp_all add: reported_inv_def out_returned_def)
    next
      case (wait e now)
      with wait_phase [OF wait(3)] wait_ends [of env "fo_closing f" e now "fo_call f" r] dialer(2) p show ?thesis
        by (auto simp: reported_inv_def out_returned_def)
    qed
  qed
qed

interpretation out_reports: stepper "out_flow_step env" no_late_join reported_inv for env
  by unfold_locales (rule reported_step)

section \<open>A new call\<close>

lemma newCall_good:
  assumes "newCall env closing np attrs (start_call env jitter now ident conf st project) = ((c, es), NewOk)"
  shows "out_good c" "\<not> oc_stopped c" "\<not> cm_started (oc_mon c)"
proof -
  let ?c0 = "start_call env jitter now ident conf st project"
  obtain p t es0 where m: "out_media env np ?c0 = (Some (p, t), es0)"
    using assms by (auto simp: newCall_def split: prod.splits option.splits)
  let ?c1 = "?c0\<lparr>oc_media := Some (p\<lparr>mp_opts := (mp_opts p)\<lparr>op_dtmf_audio := cl_dtmf_audio env\<rparr>\<rparr>, disableTimeout t)\<rparr>"
  obtain r e where j: "connectToRoom env np attrs ?c1 = (r, e)" by (metis surj_pair)
  have "e = None \<and> c = fst r" using assms by (auto simp: newCall_def m j Let_def split: option.splits)
  with j have "oc_stopped c = oc_stopped ?c1 \<and> oc_mon c = oc_mon ?c1 \<and> oc_media c = oc_media ?c1"
    by (auto simp: connectToRoom_def share_attrs_def Let_def split: sum.splits option.splits)
  then show "out_good c" "\<not> oc_stopped c" "\<not> cm_started (oc_mon c)"
    by (simp_all add: out_good_def start_call_def NewCall_def Let_def)
qed

text \<open>What creating a call removes from the table is its own entry.\<close>

lemma close_own: "list_all (drops_own (so_id (oc_cc c))) (snd (out_close env b e st t reason c))"
proof -
  have "list_all (drops_own i) (snd (close_media st d))" for st d i
    by (auto simp: close_media_def on_media_def drops_own_def list_all_iff Let_def split_def split: option.split)
  then show ?thesis
    by (auto simp: out_close_def Let_def andThen_pair close_ids unseen_drops_own status_frame state_update_frame
        unregister_def drops_own_def split: option.split)
qed

lemma connect_frame:
  "oc_cc (fst (fst (connectToRoom env np attrs c))) = oc_cc c"
  "list_all (drops_own i) (snd (fst (connectToRoom env np attrs c)))"
  by (auto simp: connectToRoom_def share_attrs_def drops_own_def Let_def split: sum.split option.split)

lemma newCall_own:
  "list_all (drops_own (so_id (oc_cc c0))) (snd (fst (newCall env b np attrs c0)))"
  "snd (newCall env b np attrs c0) = NewOk \<Longrightarrow> so_id (oc_cc (fst (fst (newCall env b np attrs c0)))) = so_id (oc_cc c0)"
proof -
  obtain m es where m: "out_media env np c0 = (m, es)" by (metis surj_pair)
  have pe: "list_all (drops_own i) (map OutPort es)" for i by (simp add: drops_own_def list_all_iff)
  show "list_all (drops_own (so_id (oc_cc c0))) (snd (fst (newCall env b np attrs c0)))"
  proof (cases m)
    case None
    then show ?thesis using pe close_own [of c0 env b] by (simp add: newCall_def m andThen_pair)
  next
    case (Some pt)
    obtain p t where pt: "pt = (p, t)" by (metis surj_pair)
    let ?c = "c0\<lparr>oc_media := Some (p\<lparr>mp_opts := (mp_opts p)\<lparr>op_dtmf_audio := cl_dtmf_audio env\<rparr>\<rparr>, disableTimeout t)\<rparr>"
    obtain r e where r: "connectToRoom env np attrs ?c = (r, e)" by (metis surj_pair)
    then have "oc_cc (fst r) = oc_cc c0" "list_all (drops_own i) (snd r)" for i
      using connect_frame [where env = env and np = np and attrs = attrs and c = ?c] by simp_all
    then show ?thesis
      using pe close_own [of "fst r" env b]
      by (cases e) (simp_all add: newCall_def m Some pt r Let_def andThen_pair drops_own_def)
  qed
  assume "snd (newCall env b np attrs c0) = NewOk"
  then show "so_id (oc_cc (fst (fst (newCall env b np attrs c0)))) = so_id (oc_cc c0)"
    by (auto simp: newCall_def m Let_def connect_frame split_def split: option.splits prod.splits)
qed

lemma start_call_id: "so_id (oc_cc (start_call env jitter now ident conf st project)) = ident"
  by (simp add: start_call_def out_dialog_def newOutbound_def Let_def)

end
