(* ===== verification/Outbound_Properties.thy ===== *)
theory Outbound_Properties
  imports Outbound_Outcome
begin

text \<open>
  The properties of an outbound call: what every run of its machine guarantees, and what is reported of
  a dial that is refused.
\<close>

section \<open>A sample call\<close>

text \<open>A call to a trunk whose INVITE rings and is then refused or answered.\<close>

definition sample_out_answer :: media_answer where
  "sample_out_answer = \<lparr>an_remote = \<lparr>ap_addr = IPv4 0x0A000009, ap_port = 4000\<rparr>, an_crypto = False,
     an_audio = 0, an_dtmf = 101, an_processor = False\<rparr>"

definition sample_out_sdp :: sdp_lib where
  "sample_out_sdp = (let session = \<lparr>ss_conn = None, ss_media = [], ss_rest = []\<rparr> in
     \<lparr>sl_new_offer = (\<lambda>c e. Inr (''offer'', session)), sl_parse_offer = (\<lambda>c d. Inr d),
      sl_answer = (\<lambda>o' e. Inr (session, sample_out_answer)),
      sl_parse_answer = (\<lambda>c d. Inr d), sl_apply = (\<lambda>a o' e. Inr (session, sample_out_answer)),
      sl_unmarshal = (\<lambda>d. Inl (OtherErr [])), sl_marshal = (\<lambda>s. Inr ''sdp'')\<rparr>)"

definition sample_client_env :: "string client_env" where
  "sample_client_env = \<lparr>cl_dialog = sample_out_env,
     cl_chain = (\<lambda>e. plain_chain (err_msg e)), cl_status_text = (\<lambda>st. ''sip status: '' @ itoa (st_code st)),
     cl_hashed = (\<lambda>i. ''hash''), cl_net = \<lparr>nc_sip_port = 5060, nc_tls_port = None, nc_sip_hostname = ''lk.example.com''\<rparr>,
     cl_ip = NoAddr,
     cl_names = \<lparr>an_header_prefix = ''h.'', an_call_tag = ''tag'', an_call_id_full = ''id''\<rparr>,
     cl_header_to_attr = [], cl_status_attr = ''status'', cl_call_id_attr = ''call'',
     cl_codecs = \<lparr>co_alaw = ''PCMA'', co_ulaw = ''PCMU'', co_g722 = ''G722'', co_amrwb = ''AMR-WB''\<rparr>,
     cl_sdp = sample_out_sdp, cl_parse_addr = (\<lambda>t. None), cl_timeout_initial = 30 * second,
     cl_timeout = 15 * second, cl_default_initial = 30 * second, cl_default_general = 15 * second,
     cl_opts = \<lparr>op_ignore_local = False, op_ignore_preanswer = False, op_no_resample = True, op_jitter = False,
                op_log_signal = False, op_dtmf_audio = False\<rparr>,
     cl_symmetric = False, cl_dtmf_audio = False, cl_processor = False, cl_video = False,
     cl_video_size = (1280, 720), cl_codec_name = (\<lambda>a. ''PCMU''), cl_handler = True, cl_rpc = (\<lambda>i. True),
     cl_bye_answer = Some 200, cl_routes = []\<rparr>"

definition sample_request :: part_request where
  "sample_request = \<lparr>pr_call_id = ''SCL_2'', pr_call_to = ''+1555'', pr_address = ''sip.example.com'',
     pr_number = ''+1777'', pr_hostname = ''lk.example.com'', pr_room = ''room'', pr_identity = ''sip_1'', pr_name = [],
     pr_attrs = None, pr_transport = SIP_TRANSPORT_UDP, pr_user = [], pr_pass = [], pr_dtmf = ''12'', pr_dialtone = True,
     pr_headers = [], pr_include = SIP_NO_HEADERS, pr_hdr_to_attr = [], pr_attr_to_hdr = [], pr_ringing = 0,
     pr_max_duration = 0, pr_flags = Map.empty,
     pr_media = \<lparr>mr_encryption = ENCRYPT_DISABLE, mr_only_listed = False, mr_codecs = [], mr_timeout = None\<rparr>,
     pr_display = None, pr_trunk = ''ST_1'', pr_project = [], pr_wait = True\<rparr>"

definition sample_new_probe :: new_probe where
  "sample_new_probe = \<lparr>np_audio = True, np_video = True,
     np_connect = Inr \<lparr>rv_sid = ''RM_1'', rv_identity = ''sip_1'', rv_attrs = Map.empty\<rparr>, np_track = None, np_rpc = None\<rparr>"

definition sample_start :: outbound_call where
  "sample_start = (case admit_request sample_client_env id HealthOK sample_request of
     Inr (req, conf, st) \<Rightarrow> start_call sample_client_env False 7 ''SCL_2'' conf st [])"

definition sample_dial :: "int \<Rightarrow> dial_probe" where
  "sample_dial code = \<lparr>dp_now = 10, dp_port = 0,
     dp_attempts = (\<lambda>n. \<lparr>at_source = ''10.0.0.1:5060'', at_dest = ''10.0.0.9:5060'', at_tx_err = None,
       at_events = [GotResponse (sample_response 180), GotResponse (sample_response code)]\<rparr>),
     dp_answered = 20, dp_session = True, dp_write = True,
     dp_video = \<lparr>vp_now = 0, vp_write = True, vp_compositor = True, vp_track = True, vp_port = 0\<rparr>\<rparr>"

definition sample_ack :: ack_probe where
  "sample_ack = \<lparr>ap_write = None, ap_now = 30, ap_rtp_ts = 0, ap_dtmf = None\<rparr>"

definition sample_new :: "out_result \<times> new_outcome" where
  "sample_new = newCall sample_client_env False sample_new_probe None sample_start"

definition new_out_flow :: "bool \<Rightarrow> outbound_call \<Rightarrow> outbound_flow" where
  "new_out_flow closing c = \<lparr>fo_call = c, fo_phase = OutNew, fo_closing = closing\<rparr>"

definition sample_out_flow :: outbound_flow where
  "sample_out_flow = new_out_flow False (fst (fst sample_new))"

definition sample_talk :: "out_flow_op list" where
  "sample_talk = [DoDial (sample_dial 200) 25, DoAckStep sample_ack id, Created None]"

definition sample_end :: "out_flow_op list" where
  "sample_end = [DoWait OutStatsTick 40, RemoteBye, ByeCloses, DoWait OutSawStopped 50]"

lemma sample_admitted: "case admit_request sample_client_env id HealthOK sample_request of Inl e \<Rightarrow> False | Inr r \<Rightarrow> True"
  by code_simp

lemma sample_created: "snd sample_new = NewOk"
  by code_simp

lemma sample_dialed:
  "case run (out_flow_step sample_client_env) sample_talk sample_out_flow of (f, es) \<Rightarrow>
     dial_over f \<and> \<not> out_returned f
     \<and> (case run (out_flow_step sample_client_env) sample_end f of (g, es') \<Rightarrow> out_returned g)"
  by code_simp

section \<open>The call and its books\<close>

text \<open>
  C3. A call that \<open>newCall\<close> created, over every sequence of steps of its dial, its wait, and the requests,
  timers and stops that reach it: it is dropped from the table of calls, its metric counted and the end
  of its session reported exactly once if it was closed, and not before; closing it never finds a media
  port missing; once it is closed its media port and its room are; the gauge of active calls goes down
  once for every time it went up, and is down when the dial is over, answered or not; and
  when \<open>WaitClose\<close> or a failed \<open>Dial\<close> has returned, the call is closed.
\<close>
theorem outbound_call_concluded:
  assumes "newCall env closing np attrs (start_call env jitter now ident conf st project) = ((c, es0), NewOk)"
  shows "case run (out_flow_step env) ops (new_out_flow closing c) of (f, es) \<Rightarrow>
     count_by drops es = of_bool (oc_stopped (fo_call f))
     \<and> count_by counts_end es = of_bool (oc_stopped (fo_call f))
     \<and> count_by ends_session es = (if cl_handler env then of_bool (oc_stopped (fo_call f)) else 0)
     \<and> count_by panics es = 0
     \<and> count_by raises_gauge es = count_by lowers_gauge es + (of_bool (cm_started (oc_mon (fo_call f))) :: nat)
     \<and> (if oc_stopped (fo_call f) then shut (fo_call f) else True)
     \<and> (if dial_over f then \<not> cm_started (oc_mon (fo_call f)) else True)
     \<and> (if out_returned f then oc_stopped (fo_call f) else True)"
proof -
  let ?f0 = "new_out_flow closing c"
  note new = newCall_good [OF assms]
  have "keeps flow_good (flow_settles (cl_handler env)) ?f0 (run (out_flow_step env) ops ?f0)"
    by (rule flow_books.keeps_run [of "\<lambda>_. True"]) (simp_all add: flow_step_keeps list_all_iff)
  moreover have "phase_inv (fst (run (out_flow_step env) ops ?f0))"
    by (rule out_phases.run_inv) (simp_all add: list_all_iff phase_inv_def new_out_flow_def new(3) out_returned_def)
  moreover have "dial_over f \<Longrightarrow> \<not> is_acking (fo_phase f)" for f
    by (simp add: dial_over_def is_acking_def split: out_phase.splits)
  ultimately show ?thesis
    using new by (auto simp: keeps_def flow_good_def flow_settles_def out_settles_def out_good_def new_out_flow_def
        phase_inv_def split_def)
qed

lemma sample_newCall:
  "newCall sample_client_env False sample_new_probe None sample_start = ((fo_call sample_out_flow, snd (fst sample_new)), NewOk)"
  using sample_created by (simp add: sample_new_def sample_out_flow_def new_out_flow_def prod_eq_iff)

lemma sample_start_call:
  "\<exists>conf st. sample_start = start_call sample_client_env False 7 ''SCL_2'' conf st []"
  using sample_admitted by (auto simp: sample_start_def split: sum.splits)

lemma sample_flow_new: "new_out_flow False (fo_call sample_out_flow) = sample_out_flow"
  by (simp add: sample_out_flow_def new_out_flow_def)

lemma sample_over: "out_returned (fst (run (out_flow_step sample_client_env) (sample_talk @ sample_end) sample_out_flow))"
  using sample_dialed by (simp add: run_append split_def Let_def)

lemma outbound_call_concluded_witness:
  "count_by drops (snd (run (out_flow_step sample_client_env) (sample_talk @ sample_end) sample_out_flow)) = 1
   \<and> shut (fo_call (fst (run (out_flow_step sample_client_env) (sample_talk @ sample_end) sample_out_flow)))"
proof -
  obtain conf st where s: "sample_start = start_call sample_client_env False 7 ''SCL_2'' conf st []"
    using sample_start_call by blast
  show ?thesis
    using outbound_call_concluded [OF sample_newCall [unfolded s], of "sample_talk @ sample_end"] sample_over
    by (simp add: sample_flow_new split_def)
qed

text \<open>
  C8. What is reported of a call: if the call was still dialed or waited for after some steps, and no
  report of its successful creation comes after them, then, once it has returned, it is reported as ended:
  with an error, or as disconnected.
\<close>
theorem outbound_call_reported:
  assumes "newCall env closing np attrs (start_call env jitter now ident conf st project) = ((c, es0), NewOk)"
    and "\<not> out_returned (fst (run (out_flow_step env) ops (new_out_flow closing c)))"
    and "list_all no_late_join late"
    and "out_returned (fst (run (out_flow_step env) (ops @ late) (new_out_flow closing c)))"
  shows "ended_status (fo_call (fst (run (out_flow_step env) (ops @ late) (new_out_flow closing c))))"
proof -
  let ?f0 = "new_out_flow closing c" and ?f = "fst (run (out_flow_step env) ops (new_out_flow closing c))"
  have "phase_inv ?f"
    by (rule out_phases.run_inv)
      (simp_all add: list_all_iff phase_inv_def new_out_flow_def newCall_good [OF assms(1)] out_returned_def)
  with assms(2) have "reported_inv ?f" by (simp add: reported_inv_def)
  then have "reported_inv (fst (run (out_flow_step env) late ?f))" by (rule out_reports.run_inv [OF assms(3)])
  with assms(4) show ?thesis by (simp add: reported_inv_def run_append split_def Let_def)
qed

lemma outbound_call_reported_witness:
  "ended_status (fo_call (fst (run (out_flow_step sample_client_env) (sample_talk @ sample_end) sample_out_flow)))"
proof -
  obtain conf st where s: "sample_start = start_call sample_client_env False 7 ''SCL_2'' conf st []"
    using sample_start_call by blast
  have "\<not> out_returned (fst (run (out_flow_step sample_client_env) sample_talk sample_out_flow))"
    using sample_dialed by (simp add: split_def)
  moreover have "list_all no_late_join sample_end" by (simp add: sample_end_def no_late_join_def)
  ultimately show ?thesis
    using outbound_call_reported [OF sample_newCall [unfolded s], of sample_talk sample_end] sample_over
    by (simp add: sample_flow_new)
qed

section \<open>A refused dial\<close>

lemma note_frame:
  "oc_state (fst (snd (note_response env now code hdrs s))) = oc_state (fst (snd s))"
  "oc_stopped (fst (snd (note_response env now code hdrs s))) = oc_stopped (fst (snd s))"
  "oc_mon (fst (snd (note_response env now code hdrs s))) = oc_mon (fst (snd s))"
  "oc_media (fst (snd (note_response env now code hdrs s))) = oc_media (fst (snd s))"
  by (auto simp: note_response_def Let_def andThen_pair out_setStatus_def setExtraAttrs_def)

lemma notes_frame:
  "oc_state (fst (snd (note_responses env now es s))) = oc_state (fst (snd s))
   \<and> oc_stopped (fst (snd (note_responses env now es s))) = oc_stopped (fst (snd s))
   \<and> oc_mon (fst (snd (note_responses env now es s))) = oc_mon (fst (snd s))
   \<and> oc_media (fst (snd (note_responses env now es s))) = oc_media (fst (snd s))"
proof (induction es arbitrary: s)
  case (Cons e es)
  then show ?case by (cases e) (simp_all add: note_frame)
qed simp

text \<open>The error a refusal ends the loop with, and the status in it.\<close>

definition refusal :: "invite_resp \<Rightarrow> invite_error" where
  "refusal r = (case invite_verdict r of Failed e \<Rightarrow> e | _ \<Rightarrow> InvMaxRetry)"

definition refuses :: "dial_probe \<Rightarrow> invite_resp \<Rightarrow> bool" where
  "refuses dp r = (at_tx_err (dp_attempts dp 0) = None \<and> snd (sipResponse (at_events (dp_attempts dp 0)) 0) = Final r
     \<and> 400 \<le> ir_status r \<and> ir_status r < 700 \<and> ir_status r \<noteq> 401 \<and> ir_status r \<noteq> 407)"

lemma refuses_final: "refuses dp r \<Longrightarrow> snd (sipResponse (at_events (dp_attempts dp 0)) 0) = Final r"
  by (simp add: refuses_def)

lemma refusal_status:
  assumes "refuses dp r"
  shows "invite_verdict r = Failed (refusal r)"
    and "\<exists>st. ec_status (snd (invite_dial_error env (refusal r))) = Some st \<and> st_code st = ir_status r"
    and "ec_sdp (snd (invite_dial_error env (refusal r))) = None" "ec_msg (snd (invite_dial_error env (refusal r))) \<noteq> []"
  using assms
  by (auto simp: refuses_def refusal_def invite_verdict_def invite_dial_error_def status_error_def plain_chain_def
      response_error_def Let_def)

lemma Invite_refused:
  assumes "refuses dp r"
  shows "\<exists>c' es. Invite env (dp_attempts dp) to user pass hs offer c = (c', es, Some (Inl (refusal r)))"
proof -
  obtain c' es res where l: "auth_loop env (dp_attempts dp) (GetDestinationURI to) (u_transport to) user pass offer
      (sorted_headers hs) 0 [] [] c = (c', es, res)" by (metis prod_cases3)
  then have "res = InvErr (refusal r)"
    using assms refusal_status(1) [OF assms]
    by (subst (asm) auth_loop.simps) (auto simp: attemptInvite_def refuses_def Let_def split: prod.splits)
  with l show ?thesis by (simp add: Invite_def)
qed

lemma on_state_frame:
  "oc_stopped (fst (on_state f c)) = oc_stopped c" "oc_mon (fst (on_state f c)) = oc_mon c"
  "oc_media (fst (on_state f c)) = oc_media c" "oc_state (fst (on_state f c)) = fst (f (oc_state c))"
  by (simp_all add: on_state_def split_def)

lemma invite_refused:
  assumes "refuses dp r"
  obtains r1 where "out_invite env dp offer c = Some (r1, Inl (refusal r))"
    "oc_stopped (fst r1) = oc_stopped c" "oc_mon (fst r1) = oc_mon c" "oc_media (fst r1) = oc_media c"
    "ci_error (cs_info (oc_state (fst r1))) = ci_error (cs_info (oc_state c))"
proof -
  let ?c = "c\<lparr>oc_times := (oc_times c)\<lparr>st_invite := Some (dp_now dp)\<rparr>\<rparr>"
  obtain cc es where i: "Invite (cl_dialog env) (dp_attempts dp)
      (CreateURIFromUserAndAddress (sc_to (oc_conf c)) (sc_address (oc_conf c)) (TransportFrom (sc_transport (oc_conf c))))
      (sc_user (oc_conf c)) (sc_pass (oc_conf c)) (sc_headers (oc_conf c)) offer (with_headers ?c)
    = (cc, es, Some (Inl (refusal r)))"
    using Invite_refused [OF assms] by metis
  show ?thesis
  proof (rule that)
    show "out_invite env dp offer c = Some
      (andThen (snd (note_responses env (dp_now dp) es
         (False, (?c\<lparr>oc_cc := cc\<rparr>, map OutMetric (SDPSize (length offer) True)
            @ map OutMetric (snd (mon_step MInviteReq (oc_mon ?c))) @ map OutDialog es))))
         (\<lambda>c. on_state (DeferUpdate (full_id_info env (so_call_id (oc_cc c)))) c), Inl (refusal r))"
      by (simp add: out_invite_def i)
  qed (simp_all add: andThen_pair on_state_frame notes_frame DeferUpdate_def full_id_info_def)
qed

lemma failed_frame:
  assumes "ec_status (snd (invite_dial_error env e)) = Some st"
  shows "oc_stopped (fst (out_invite_failed env b e c)) = oc_stopped c"
    "cm_terminated (oc_mon (fst (out_invite_failed env b e c))) = cm_terminated (oc_mon c)"
    "oc_media (fst (out_invite_failed env b e c)) = oc_media c"
    "cs_info (oc_state (fst (out_invite_failed env b e c))) = (cs_info (oc_state c))\<lparr>ci_status_code := Some st\<rparr>"
  using assms
  by (simp_all add: out_invite_failed_def Let_def andThen_pair on_state_frame on_mon_def on_out_def split_def DeferUpdate_def)

lemma failed_info:
  assumes "\<not> oc_stopped c" and "\<not> cm_terminated (oc_mon c)" and "oc_media c \<noteq> None"
  shows "let i = cs_info (oc_state (fst (dial_failed env b now de c)));
             i0 = close_report (if_report (classifyInviteError (snd de))) (if_reason (classifyInviteError (snd de)))
                    (cs_info (oc_state c)) in
    ci_status_code i = ci_status_code i0 \<and> ci_disconnect i = ci_disconnect i0 \<and> ci_error i = ci_error i0
    \<and> ci_status i = (if ci_error i0 = [] then SCS_DISCONNECTED else SCS_ERROR)"
  using close_open(4) [OF assms, of env b]
  by (auto simp: dial_failed_def Let_def andThen_pair end_frame ensureClosed_def state_update_frame split: option.split)

lemma start_frame:
  "oc_state (fst (on_mon CallStart c)) = oc_state c" "oc_stopped (fst (on_mon CallStart c)) = oc_stopped c"
  "oc_media (fst (on_mon CallStart c)) = oc_media c" "oc_conf (fst (on_mon CallStart c)) = oc_conf c"
  "cm_terminated (oc_mon (fst (on_mon CallStart c))) = cm_terminated (oc_mon c)"
  by (simp_all add: on_mon_def split_def CallStart_def)

lemma offer_cong: "oc_conf d = oc_conf c \<Longrightarrow> oc_media d = oc_media c \<Longrightarrow> out_offer env p d = out_offer env p c"
  by (simp add: out_offer_def Let_def split: sum.split prod.split)

text \<open>
  C9. A callee or trunk that refuses an INVITE (a final response from 400 to 699 that does not ask for
  credentials): the dial returns an error and the call is closed; its report carries the code of the
  response and a reason that tells apart the rejecting user (403, 486, 488, 6xx), the unavailable user
  (other 4xx), and a failure of the trunk (5xx); the call is reported as an error, with a text, for a
  failure of the trunk only, and as disconnected without an error otherwise.
\<close>
theorem dial_refused:
  assumes "out_good c" and "\<not> oc_stopped c" and "ci_error (cs_info (oc_state c)) = []"
    and "out_offer env (dp_port dp) c = Inr offer" and "refuses dp r"
  shows "case dial_step env closing dp now c of None \<Rightarrow> False | Some (res, ph) \<Rightarrow>
    (let i = cs_info (oc_state (fst res)); code = ir_status r; trunk = (500 \<le> code \<and> code < 600) in
     ph = OutReturned (Some (returned_error (invite_dial_error env (refusal r))))
     \<and> oc_stopped (fst res) \<and> shut (fst res)
     \<and> map_option st_code (ci_status_code i) = Some code
     \<and> ci_disconnect i = (if trunk then DR_SIP_TRUNK_FAILURE
                          else if code \<in> {403, 486, 488} \<or> code \<ge> 600 then DR_USER_REJECTED
                          else DR_USER_UNAVAILABLE)
     \<and> (ci_error i = []) = (\<not> trunk)
     \<and> ci_status i = (if trunk then SCS_ERROR else SCS_DISCONNECTED))"
proof -
  obtain sdp bytes where offer: "offer = (sdp, bytes)" by (metis surj_pair)
  obtain c0 es0 where s: "on_mon CallStart c = (c0, es0)" by (metis surj_pair)
  have c0: "oc_state c0 = oc_state c" "oc_stopped c0 = oc_stopped c" "oc_media c0 = oc_media c"
    "cm_terminated (oc_mon c0) = cm_terminated (oc_mon c)" "out_offer env (dp_port dp) c0 = Inr (sdp, bytes)"
    using s assms(4) offer start_frame [of c] offer_cong [of c0 c env "dp_port dp"] by auto
  obtain r1 where i: "out_invite env dp bytes c0 = Some (r1, Inl (refusal r))"
    and r1: "oc_stopped (fst r1) = oc_stopped c0" "oc_mon (fst r1) = oc_mon c0" "oc_media (fst r1) = oc_media c0"
    "ci_error (cs_info (oc_state (fst r1))) = ci_error (cs_info (oc_state c0))"
    using invite_refused [OF assms(5)] by metis
  obtain st where st: "ec_status (snd (invite_dial_error env (refusal r))) = Some st" "st_code st = ir_status r"
    using refusal_status(2) [OF assms(5)] by blast
  let ?de = "invite_dial_error env (refusal r)" and ?r2 = "andThen r1 (out_invite_failed env closing (refusal r))"
  have c2: "\<not> oc_stopped (fst ?r2)" "\<not> cm_terminated (oc_mon (fst ?r2))" "oc_media (fst ?r2) \<noteq> None"
    "ci_error (cs_info (oc_state (fst ?r2))) = []" "ci_status_code (cs_info (oc_state (fst ?r2))) = Some st"
    using assms(1-3) by (simp_all add: andThen_pair failed_frame [OF st(1)] r1 c0 out_good_def)
  have sig: "sip_signal env closing dp c0 = Some (?r2, Inl ?de)" by (simp add: sip_signal_def c0 i)
  let ?tone = "if sc_dialtone (oc_conf c0) then [OutDialTone] else []"
  have step: "dial_step env closing dp now c =
    Some (andThen (fst ?r2, es0 @ ?tone @ snd ?r2) (dial_failed env closing now ?de), OutReturned (Some (returned_error ?de)))"
    by (simp add: dial_step_def s sig Let_def split_def del: split_paired_Ex)
  have cls: "classifyInviteError (snd ?de) = classify_status (ir_status r)
      \<lparr>if_status = callDropped, if_term = ServerError ''invite-failed'', if_reason = DR_UNKNOWN_REASON,
       if_report = Some (ec_msg (snd ?de)), if_return = AsIs\<rparr>"
    using st refusal_status(3) [OF assms(5), of env] by (simp add: classifyInviteError_def Let_def)
  let ?res = "dial_failed env closing now ?de (fst ?r2)"
  have "out_good (fst ?r2)" using c2 by (simp add: out_good_def)
  then have "out_good (fst ?res)" using accounted_failed [of env "fst ?r2" closing now ?de] by (simp add: keeps_def)
  then have closed: "oc_stopped (fst ?res)" "shut (fst ?res)" 
    using failed_ends(2) [of env closing now ?de "fst ?r2"] by (simp_all add: out_good_def)
  have code: "400 \<le> ir_status r" "ir_status r < 700" "ir_status r \<noteq> 401" "ir_status r \<noteq> 407"
    using assms(5) by (simp_all add: refuses_def)
  show ?thesis
    using failed_info [OF c2(1-3), of env closing now ?de] refusal_status(4) [OF assms(5), of env] c2(4,5) st(2) closed code
    by (auto simp: step andThen_pair cls close_report_def classify_status_def Let_def)
qed

lemma dial_refused_witness:
  "case dial_step sample_client_env False (sample_dial 486) 25 (fo_call sample_out_flow) of
     None \<Rightarrow> False
   | Some (res, ph) \<Rightarrow> ci_disconnect (cs_info (oc_state (fst res))) = DR_USER_REJECTED
       \<and> ci_status (cs_info (oc_state (fst res))) = SCS_DISCONNECTED"
proof -
  let ?c = "fo_call sample_out_flow"
  obtain conf st where s: "sample_start = start_call sample_client_env False 7 ''SCL_2'' conf st []"
    using sample_start_call by blast
  have "refuses (sample_dial 486) (sample_response 486)" by (simp add: refuses_def sample_dial_def sample_response_def)
  moreover have "out_offer sample_client_env 0 ?c = Inr (''offer'', ''sdp'')"
    by (simp add: out_offer_def sample_client_env_def sample_out_sdp_def NewOffer_def Let_def)
  moreover have "ci_error (cs_info (oc_state ?c)) = []" by code_simp
  moreover note newCall_good(1,2) [OF sample_newCall [unfolded s]]
  ultimately show ?thesis
    using dial_refused [of ?c sample_client_env "sample_dial 486" "(''offer'', ''sdp'')" "sample_response 486" False 25]
    by (auto simp: sample_response_def sample_dial_def Let_def split: option.splits)
qed

end
