(* ===== verification/Sip_Client.thy ===== *)
theory Sip_Client
  imports Outbound_Properties "HOL-Library.AList"
begin

text \<open>
  \<open>pkg/sip/client.go\<close>: the client keeps the outbound calls in a table by their id, creates calls on
  request, passes BYE and NOTIFY to the call of their tag, and closes the calls of the table when it is
  stopped.

  A call is an object: the store holds every call ever created, and the table and the loop of \<open>Stop\<close>
  point into it. Dialing, waiting and all other steps of a call are those of its state machine; when a
  call leaves the table, it deletes the entry of its id.
\<close>

section \<open>The client\<close>

record sip_client =
  cn_store :: "outbound_flow list"
  cn_active :: "(string \<times> nat) list"
  cn_closing :: bool
  cn_stopping :: "nat list"

datatype client_effect =
    OfCall nat out_call_effect | OfNewCall out_call_effect
  | NotifyAnswer int string | NotifyResult nat "err option"
  | RequestFailed err | ClientPanic

definition NewClient :: sip_client where
  "NewClient = \<lparr>cn_store = [], cn_active = [], cn_closing = False, cn_stopping = []\<rparr>"

definition client_active_call :: "sip_client \<Rightarrow> string \<Rightarrow> nat option" where
  "client_active_call s = map_of (cn_active s)"

definition enter_call :: "string \<Rightarrow> nat \<Rightarrow> sip_client \<Rightarrow> sip_client" where
  "enter_call tag k s = s\<lparr>cn_active := AList.update tag k (cn_active s)\<rparr>"

definition leave_call :: "string \<Rightarrow> sip_client \<Rightarrow> sip_client" where
  "leave_call tag s = s\<lparr>cn_active := AList.delete tag (cn_active s)\<rparr>"

interpretation client_calls: registry client_active_call enter_call leave_call
  by unfold_locales
    (simp_all add: client_active_call_def enter_call_def leave_call_def update_conv' delete_conv')

text \<open>What the effects of a call do to the table.\<close>

fun settle_table :: "out_call_effect list \<Rightarrow> sip_client \<Rightarrow> sip_client" where
  "settle_table [] s = s"
| "settle_table (OutDrop tag # es) s = settle_table es (leave_call tag s)"
| "settle_table (e # es) s = settle_table es s"

section \<open>Operations\<close>

definition call_at :: "sip_client \<Rightarrow> nat \<Rightarrow> outbound_call" where
  "call_at s k = fo_call (cn_store s ! k)"

text \<open>A step of one call.\<close>

definition call_step ::
  "('ch, 'z) client_env_scheme \<Rightarrow> nat \<Rightarrow> out_flow_op \<Rightarrow> sip_client \<Rightarrow> sip_client \<times> client_effect list" where
  "call_step env k op s =
     (if k < length (cn_store s)
      then (case out_flow_step env op (cn_store s ! k) of
              (f, es) \<Rightarrow> (settle_table es (s\<lparr>cn_store := (cn_store s)[k := f]\<rparr>), map (OfCall k) es))
      else (s, []))"

text \<open>
  \<open>createSIPParticipant\<close> up to the dial: \<open>upgrade\<close> is \<open>req.Upgrade\<close>, \<open>health\<close> that of the node.
\<close>

definition create_participant ::
  "('ch, 'z) client_env_scheme \<Rightarrow> (part_request \<Rightarrow> part_request) \<Rightarrow> health_status \<Rightarrow> new_probe \<Rightarrow> bool \<Rightarrow> nanos
    \<Rightarrow> part_request \<Rightarrow> sip_client \<Rightarrow> sip_client \<times> client_effect list" where
  "create_participant env upgrade health np jitter now req0 s = (case admit_request env upgrade health req0 of
       Inl e \<Rightarrow> (s, [RequestFailed e])
     | Inr (req, conf, st) \<Rightarrow>
         (case newCall env (cn_closing s) np (pr_attrs req)
                 (start_call env jitter now (pr_call_id req) conf st (pr_project req)) of
            ((c, es), NewOk) \<Rightarrow>
              (enter_call (pr_call_id req) (length (cn_store s))
                 (s\<lparr>cn_store := cn_store s @ [\<lparr>fo_call = c, fo_phase = OutNew, fo_closing = cn_closing s\<rparr>]\<rparr>),
               map OfNewCall es)
          | ((c, es), NewErr e) \<Rightarrow>
              (settle_table es s,
               map OfNewCall (es @ snd (state_update env (created_report (Some e)) c)) @ [RequestFailed e])
          | ((c, es), NewPanic) \<Rightarrow> (settle_table es s, map OfNewCall es @ [ClientPanic])))"

text \<open>The tag of a request; without one it is empty, the error is dropped.\<close>

definition request_tag :: "sip_request \<Rightarrow> string" where
  "request_tag req = (case GetLocalTagUAS (rq_to req) of Inr t \<Rightarrow> t | Inl m \<Rightarrow> [])"

text \<open>\<open>onBye\<close>: the BYE is answered at once; the end of the call follows as a step of the call.\<close>

definition Client_onBye ::
  "('ch, 'z) client_env_scheme \<Rightarrow> sip_request \<Rightarrow> sip_client \<Rightarrow> (sip_client \<times> client_effect list) \<times> bool" where
  "Client_onBye env req s = (case client_active_call s (request_tag req) of
       None \<Rightarrow> ((s, []), False)
     | Some k \<Rightarrow> (call_step env k RemoteBye s, True))"

definition Client_onNotify ::
  "(sip_status \<Rightarrow> psrpc_code) \<Rightarrow> sip_request \<Rightarrow> sip_client \<Rightarrow> (sip_client \<times> client_effect list) \<times> bool" where
  "Client_onNotify to_code req s = (case client_active_call s (request_tag req) of
       None \<Rightarrow> ((s, []), False)
     | Some k \<Rightarrow>
         ((s, (case out_handleNotify to_code req (oc_cc (call_at s k)) of
                 Inl e \<Rightarrow> [case sipCodeAndMessageFromError (Some e) of (code, msg) \<Rightarrow> NotifyAnswer code msg]
               | Inr res \<Rightarrow>
                   (case res of None \<Rightarrow> [] | Some r \<Rightarrow> [NotifyResult k r])
                   @ [case sipCodeAndMessageFromError None of (code, msg) \<Rightarrow> NotifyAnswer code msg])), True))"

definition Client_OnRequest ::
  "('ch, 'z) client_env_scheme \<Rightarrow> (sip_status \<Rightarrow> psrpc_code) \<Rightarrow> string \<Rightarrow> sip_request \<Rightarrow> sip_client
    \<Rightarrow> (sip_client \<times> client_effect list) \<times> bool" where
  "Client_OnRequest env to_code meth req s =
     (if meth = ''BYE'' then Client_onBye env req s
      else if meth = ''NOTIFY'' then Client_onNotify to_code req s
      else ((s, []), False))"

text \<open>
  \<open>Stop\<close> takes the calls of the table, then closes one after the other; a call that holds its mutex for
  the end of its dial makes it wait.
\<close>

definition Client_Stop :: "sip_client \<Rightarrow> sip_client" where
  "Client_Stop s = s\<lparr>cn_closing := True, cn_active := [], cn_stopping := cn_stopping s @ map snd (cn_active s),
     cn_store := map (\<lambda>f. f\<lparr>fo_closing := True\<rparr>) (cn_store s)\<rparr>"

definition stop_next :: "('ch, 'z) client_env_scheme \<Rightarrow> sip_client \<Rightarrow> sip_client \<times> client_effect list" where
  "stop_next env s = (case cn_stopping s of
       [] \<Rightarrow> (s, [])
     | k # ks \<Rightarrow>
         if k < length (cn_store s) \<and> is_acking (fo_phase (cn_store s ! k)) then (s, [])
         else call_step env k ShutsDown (s\<lparr>cn_stopping := ks\<rparr>))"

datatype client_op =
    CreateParticipant "part_request \<Rightarrow> part_request" health_status new_probe bool nanos part_request
  | CallSteps nat out_flow_op
  | ClientRequest "sip_status \<Rightarrow> psrpc_code" string sip_request
  | ClientStops | StopsNext

fun client_step :: "('ch, 'z) client_env_scheme \<Rightarrow> client_op \<Rightarrow> sip_client \<Rightarrow> sip_client \<times> client_effect list" where
  "client_step env (CreateParticipant upgrade health np jitter now req) s =
     create_participant env upgrade health np jitter now req s"
| "client_step env (CallSteps k op) s = call_step env k op s"
| "client_step env (ClientRequest to_code meth req) s = fst (Client_OnRequest env to_code meth req s)"
| "client_step env ClientStops s = (Client_Stop s, [])"
| "client_step env StopsNext s = stop_next env s"

section \<open>The table and the calls\<close>

text \<open>The ids of the calls that requests create.\<close>

definition created_id :: "client_op \<Rightarrow> string option" where
  "created_id op = (case op of CreateParticipant upgrade h np j n req \<Rightarrow> Some (pr_call_id (upgrade req)) | _ \<Rightarrow> None)"

definition created_ids :: "client_op list \<Rightarrow> string list" where
  "created_ids ops = List.map_filter created_id ops"

definition flow_id :: "outbound_flow \<Rightarrow> string" where
  "flow_id f = so_id (oc_cc (fo_call f))"

definition flow_stopped :: "outbound_flow \<Rightarrow> bool" where
  "flow_stopped f = oc_stopped (fo_call f)"

text \<open>An entry of the table is an open call with the id of the entry.\<close>

definition entry_ok :: "sip_client \<Rightarrow> string \<times> nat \<Rightarrow> bool" where
  "entry_ok s e = (case e of (tag, k) \<Rightarrow>
     k < length (cn_store s) \<and> flow_id (cn_store s ! k) = tag \<and> \<not> flow_stopped (cn_store s ! k))"

text \<open>No call is lost: it is closed, or in the table, or waits for the loop of \<open>Stop\<close>.\<close>

definition kept :: "sip_client \<Rightarrow> nat \<Rightarrow> bool" where
  "kept s k = (flow_stopped (cn_store s ! k) \<or> client_active_call s (flow_id (cn_store s ! k)) = Some k
     \<or> k \<in> set (cn_stopping s))"

text \<open>The invariant; \<open>but\<close> is a call that is about to be closed.\<close>

definition table_inv :: "nat option \<Rightarrow> sip_client \<Rightarrow> bool" where
  "table_inv but s = ((\<forall>f \<in> set (cn_store s). flow_good f) \<and> distinct (map flow_id (cn_store s))
     \<and> distinct (map fst (cn_active s))
     \<and> (\<forall>tag k. client_active_call s tag = Some k \<longrightarrow> entry_ok s (tag, k))
     \<and> (\<forall>k < length (cn_store s). but \<noteq> Some k \<longrightarrow> kept s k))"

lemma settle_table_frame [simp]:
  "cn_store (settle_table es s) = cn_store s" "cn_stopping (settle_table es s) = cn_stopping s"
  "cn_closing (settle_table es s) = cn_closing s"
  by (induction es s rule: settle_table.induct) (simp_all add: leave_call_def)

lemma settle_table_none: "count_by drops es = 0 \<Longrightarrow> settle_table es s = s"
  by (induction es s rule: settle_table.induct) (simp_all add: drops_def split: if_splits)

lemma settle_table_own:
  "list_all (drops_own i) es \<Longrightarrow> settle_table es s = (if count_by drops es = 0 then s else leave_call i s)"
proof (induction es s rule: settle_table.induct)
  case (2 tag es s)
  moreover have "leave_call i (leave_call i s) = leave_call i s" for s
    by (simp add: leave_call_def delete_idem)
  ultimately show ?case by (auto simp: drops_own_def drops_def)
qed (simp_all add: drops_own_def drops_def)

lemma leave_frame [simp]:
  "cn_store (leave_call tag s) = cn_store s" "cn_stopping (leave_call tag s) = cn_stopping s"
  by (simp_all add: leave_call_def)

lemma nth_id: "k < length (cn_store s) \<Longrightarrow> flow_id (cn_store s ! k) \<in> flow_id ` set (cn_store s)"
  by simp

lemma distinct_leave: "distinct (map fst (cn_active s)) \<Longrightarrow> distinct (map fst (cn_active (leave_call tag s)))"
  by (simp add: leave_call_def delete_keys distinct_removeAll)

text \<open>A call is replaced by the call after a step, and the table is settled.\<close>

lemma replace_inv:
  assumes inv: "table_inv but s" and k: "k < length (cn_store s)"
    and id: "flow_id f = flow_id (cn_store s ! k)" and good: "flow_good f"
    and own: "list_all (drops_own (flow_id (cn_store s ! k))) es"
    and drop: "count_by drops es + of_bool (flow_stopped (cn_store s ! k)) = (of_bool (flow_stopped f) :: nat)"
    and but: "but = None \<or> but = Some k \<and> flow_stopped f"
  shows "table_inv None (settle_table es (s\<lparr>cn_store := (cn_store s)[k := f]\<rparr>))"
proof -
  let ?s = "s\<lparr>cn_store := (cn_store s)[k := f]\<rparr>" and ?i = "flow_id (cn_store s ! k)"
  have ids: "map flow_id ((cn_store s)[k := f]) = map flow_id (cn_store s)"
    using k id by (simp add: map_update list_update_same_conv)
  have other: "j = k" if "j < length (cn_store s)" "flow_id (cn_store s ! j) = ?i" for j
    using inv k that by (auto simp: table_inv_def distinct_conv_nth)
  have nth: "(cn_store s)[k := f] ! j = (if j = k then f else cn_store s ! j)" if "j < length (cn_store s)" for j
    using that by (simp add: nth_list_update)
  have entry: "entry_ok s (tag, j)" if "client_active_call s tag = Some j" for tag j
    using inv that by (simp add: table_inv_def)
  have keep: "kept s j" if "j < length (cn_store s)" "but \<noteq> Some j" for j
    using inv that by (simp add: table_inv_def)
  show ?thesis
  proof (cases "count_by drops es = 0")
    case True
    then have same: "flow_stopped f = flow_stopped (cn_store s ! k)" using drop by (auto simp: of_bool_def split: if_splits)
    have "settle_table es ?s = ?s" using True by (rule settle_table_none)
    moreover have "entry_ok ?s (tag, j)" if "client_active_call s tag = Some j" for tag j
      using entry [OF that] same id by (auto simp: entry_ok_def nth)
    moreover have "kept ?s j" if "j < length (cn_store s)" for j
      using keep [OF that] but same id that by (auto simp: kept_def nth client_active_call_def)
    ultimately show ?thesis
      using inv good ids by (auto simp: table_inv_def client_active_call_def dest!: set_update_subset_insert [THEN subsetD])
  next
    case False
    then have stopped: "flow_stopped f" using drop by (auto simp: of_bool_def split: if_splits)
    have settled: "settle_table es ?s = leave_call ?i ?s" using False by (simp add: settle_table_own [OF own])
    have lookup: "client_active_call (leave_call ?i ?s) = (client_active_call s)(?i := None)"
      by (simp add: client_calls.lookup_delete) (simp add: client_active_call_def)
    have "entry_ok (leave_call ?i ?s) (tag, j)" if "client_active_call (leave_call ?i ?s) tag = Some j" for tag j
      using that entry [of tag j] other [of j]
      by (auto simp: lookup entry_ok_def nth split: if_splits)
    moreover have "kept (leave_call ?i ?s) j" if "j < length (cn_store s)" for j
      using keep [OF that] but stopped that other [of j]
      by (auto simp: kept_def lookup nth)
    ultimately show ?thesis
      using inv good ids distinct_leave [of ?s ?i]
      by (auto simp: table_inv_def settled dest!: set_update_subset_insert [THEN subsetD])
  qed
qed

lemma step_settles:
  assumes "flow_good f"
  shows "flow_id (fst (out_flow_step env op f)) = flow_id f" "flow_good (fst (out_flow_step env op f))"
    "list_all (drops_own (flow_id f)) (snd (out_flow_step env op f))"
    "count_by drops (snd (out_flow_step env op f)) + of_bool (flow_stopped f)
       = (of_bool (flow_stopped (fst (out_flow_step env op f))) :: nat)"
  using flow_step_keeps [of env f op] assms
  by (auto simp: keeps_def flow_settles_def out_settles_def flow_id_def flow_stopped_def)

lemma call_step_inv:
  assumes "table_inv but s"
    and "but = None \<or> but = Some k
      \<and> (k < length (cn_store s) \<longrightarrow> flow_stopped (fst (out_flow_step env op (cn_store s ! k))))"
  shows "table_inv None (fst (call_step env k op s))"
proof (cases "k < length (cn_store s)")
  case True
  then have "flow_good (cn_store s ! k)" using assms(1) by (simp add: table_inv_def)
  note st = step_settles [OF this, of env op]
  show ?thesis
    using replace_inv [OF assms(1) True st(1,2,3,4)] assms(2) True by (simp add: call_step_def split_def)
next
  case False
  then show ?thesis using assms by (auto simp: call_step_def table_inv_def)
qed

lemma shutdown_stops: "\<not> is_acking (fo_phase f) \<Longrightarrow> flow_stopped (fst (out_flow_step env ShutsDown f))"
  by (simp add: out_flow_step_def of_dialer_def client_closes_def flow_stopped_def out_other_def split_def)

lemma closing_same [simp]:
  "flow_id (f\<lparr>fo_closing := True\<rparr>) = flow_id f" "flow_stopped (f\<lparr>fo_closing := True\<rparr>) = flow_stopped f"
  "flow_good (f\<lparr>fo_closing := True\<rparr>) = flow_good f"
  by (simp_all add: flow_id_def flow_stopped_def flow_good_def)

lemma Client_Stop_inv:
  assumes "table_inv None s"
  shows "table_inv None (Client_Stop s)"
proof -
  have "kept (Client_Stop s) k" if "k < length (cn_store s)" for k
  proof -
    have "kept s k" using assms that by (simp add: table_inv_def)
    moreover have "k \<in> snd ` set (cn_active s)" if "client_active_call s (flow_id (cn_store s ! k)) = Some k"
      using that by (force simp: client_active_call_def dest: map_of_SomeD)
    ultimately show ?thesis using that by (auto simp: kept_def Client_Stop_def)
  qed
  moreover have "map flow_id (map (\<lambda>f. f\<lparr>fo_closing := True\<rparr>) (cn_store s)) = map flow_id (cn_store s)"
    by simp
  ultimately show ?thesis
    using assms by (simp add: table_inv_def Client_Stop_def client_active_call_def comp_def)
qed

lemma stop_next_inv:
  assumes "table_inv None s"
  shows "table_inv None (fst (stop_next env s))"
proof (cases "cn_stopping s")
  case Nil
  with assms show ?thesis by (simp add: stop_next_def)
next
  case (Cons k ks)
  have "table_inv (Some k) (s\<lparr>cn_stopping := ks\<rparr>)"
    using assms Cons by (auto simp: table_inv_def kept_def entry_ok_def client_active_call_def)
  then show ?thesis
    using call_step_inv [of "Some k" "s\<lparr>cn_stopping := ks\<rparr>" k env ShutsDown] shutdown_stops assms
    by (auto simp: stop_next_def Cons)
qed

lemma enter_inv:
  assumes inv: "table_inv None s" and fresh: "flow_id f \<notin> flow_id ` set (cn_store s)"
    and f: "flow_good f" "\<not> flow_stopped f"
  shows "table_inv None (enter_call (flow_id f) (length (cn_store s)) (s\<lparr>cn_store := cn_store s @ [f]\<rparr>))"
proof -
  let ?s = "enter_call (flow_id f) (length (cn_store s)) (s\<lparr>cn_store := cn_store s @ [f]\<rparr>)"
  have lookup: "client_active_call ?s = (client_active_call s)(flow_id f \<mapsto> length (cn_store s))"
    by (simp add: client_calls.lookup_insert) (simp add: client_active_call_def)
  have store: "cn_store ?s = cn_store s @ [f]" "cn_stopping ?s = cn_stopping s" by (simp_all add: enter_call_def)
  have "entry_ok ?s (tag, k)" if "client_active_call ?s tag = Some k" for tag k
    using that inv f by (auto simp: lookup table_inv_def entry_ok_def store nth_append split: if_splits)
  moreover have "kept ?s k" if "k < Suc (length (cn_store s))" for k
  proof (cases "k = length (cn_store s)")
    case True
    then show ?thesis by (simp add: kept_def lookup store)
  next
    case False
    with that have k: "k < length (cn_store s)" by simp
    then have "kept s k" "flow_id (cn_store s ! k) \<noteq> flow_id f"
      using inv fresh nth_id [OF k] by (auto simp: table_inv_def simp del: image_eqI)
    with k show ?thesis by (simp add: kept_def lookup store nth_append)
  qed
  ultimately show ?thesis
    using inv fresh f by (auto simp: table_inv_def store) (simp add: enter_call_def distinct_update)
qed

lemma admitted_id: "admit_request env upgrade h req0 = Inr (req, conf, st) \<Longrightarrow> req = upgrade req0"
  by (auto simp: admit_request_def Let_def split: if_splits option.splits sum.splits)

text \<open>Without an entry of that id, settling it changes nothing.\<close>

lemma settle_absent:
  assumes "table_inv None s" and "i \<notin> flow_id ` set (cn_store s)" and "list_all (drops_own i) es"
  shows "settle_table es s = s"
proof -
  have "client_active_call s i = None"
  proof (cases "client_active_call s i")
    case (Some k)
    then have "k < length (cn_store s)" "flow_id (cn_store s ! k) = i"
      using assms(1) by (simp_all add: table_inv_def entry_ok_def)
    with nth_id [of k s] assms(2) show ?thesis by simp
  qed simp
  then have "leave_call i s = s"
    by (simp add: leave_call_def client_active_call_def map_of_eq_None_iff)
  with settle_table_own [OF assms(3), of s] show ?thesis by simp
qed

lemma create_inv:
  assumes inv: "table_inv None s" and fresh: "pr_call_id (upgrade req) \<notin> flow_id ` set (cn_store s)"
  shows "table_inv None (fst (create_participant env upgrade h np j n req s))"
proof (cases "admit_request env upgrade h req")
  case (Inl e)
  with inv show ?thesis by (simp add: create_participant_def)
next
  case (Inr r)
  obtain req' conf st where r: "r = (req', conf, st)" by (metis prod_cases3)
  then have same_req: "req' = upgrade req" using admitted_id [of env upgrade h req req' conf st] Inr by simp
  let ?c0 = "start_call env j n (pr_call_id req') conf st (pr_project req')"
  obtain c es out where new: "newCall env (cn_closing s) np (pr_attrs req') ?c0 = ((c, es), out)" by (metis surj_pair)
  have own: "list_all (drops_own (pr_call_id req')) es"
    using newCall_own(1) [of ?c0 env "cn_closing s" np "pr_attrs req'"] by (simp add: new start_call_id)
  note gone = settle_absent [OF inv _ own]
  show ?thesis
  proof (cases out)
    case NewOk
    let ?f = "\<lparr>fo_call = c, fo_phase = OutNew, fo_closing = cn_closing s\<rparr>"
    have ok: "newCall env (cn_closing s) np (pr_attrs req') ?c0 = ((c, es), NewOk)" using new NewOk by simp
    have "flow_id ?f = pr_call_id req'"
      using newCall_own(2) [of env "cn_closing s" np "pr_attrs req'" ?c0] by (simp add: ok start_call_id flow_id_def)
    moreover have "flow_good ?f" "\<not> flow_stopped ?f"
      using newCall_good [OF ok] by (simp_all add: flow_good_def flow_stopped_def)
    ultimately show ?thesis
      using enter_inv [OF inv, of ?f] fresh
      by (simp add: create_participant_def Inr r ok [unfolded same_req] same_req)
  qed (use inv gone fresh same_req in \<open>simp_all add: create_participant_def Inr r new [unfolded same_req]\<close>)
qed

lemma client_step_inv:
  assumes "table_inv None s" and "case created_id op of None \<Rightarrow> True | Some i \<Rightarrow> i \<notin> flow_id ` set (cn_store s)"
  shows "table_inv None (fst (client_step env op s))"
proof (cases op)
  case (CreateParticipant upgrade h np j n req)
  with assms create_inv [of s upgrade req env h np j n] show ?thesis by (simp add: created_id_def)
next
  case (CallSteps k op')
  with assms call_step_inv [of None s k env op'] show ?thesis by simp
next
  case (ClientRequest to_code meth req)
  with assms call_step_inv [of None s _ env RemoteBye] show ?thesis
    by (auto simp: Client_OnRequest_def Client_onBye_def Client_onNotify_def split: option.split)
next
  case ClientStops
  with assms Client_Stop_inv show ?thesis by simp
next
  case StopsNext
  with assms stop_next_inv [of s env] show ?thesis by simp
qed

text \<open>The ids in the store are ids of requests.\<close>

lemma call_step_ids:
  assumes "table_inv but s"
  shows "map flow_id (cn_store (fst (call_step env k op s))) = map flow_id (cn_store s)"
proof (cases "k < length (cn_store s)")
  case True
  then have "flow_good (cn_store s ! k)" using assms by (simp add: table_inv_def)
  from step_settles(1) [OF this, of env op] True show ?thesis
    by (simp add: call_step_def split_def map_update list_update_same_conv)
qed (simp add: call_step_def)

lemma client_step_ids:
  assumes "table_inv None s"
  shows "flow_id ` set (cn_store (fst (client_step env op s)))
    \<subseteq> flow_id ` set (cn_store s) \<union> set_option (created_id op)"
proof (cases op)
  case (CreateParticipant upgrade h np j n req)
  then show ?thesis
  proof (cases "admit_request env upgrade h req")
    case (Inr r)
    obtain req' conf st where r: "r = (req', conf, st)" by (metis prod_cases3)
    then have same_req: "req' = upgrade req" using admitted_id [of env upgrade h req req' conf st] Inr by simp
    let ?c0 = "start_call env j n (pr_call_id req') conf st (pr_project req')"
    obtain c es out where new: "newCall env (cn_closing s) np (pr_attrs req') ?c0 = ((c, es), out)" by (metis surj_pair)
    have "out = NewOk \<Longrightarrow> so_id (oc_cc c) = pr_call_id (upgrade req)"
      using newCall_own(2) [of env "cn_closing s" np "pr_attrs req'" ?c0]
      by (simp add: new [unfolded same_req] start_call_id same_req)
    then show ?thesis
      by (cases out)
        (auto simp: CreateParticipant create_participant_def Inr r new [unfolded same_req] same_req created_id_def enter_call_def flow_id_def)
  qed (simp add: create_participant_def)
next
  case (CallSteps k op')
  with call_step_ids [OF assms, of env k op'] show ?thesis by (simp flip: set_map)
next
  case (ClientRequest to_code meth req)
  with call_step_ids [OF assms, of env _ RemoteBye] show ?thesis
    by (auto simp: Client_OnRequest_def Client_onBye_def Client_onNotify_def split: option.split simp flip: set_map)
next
  case ClientStops
  then show ?thesis by (auto simp: Client_Stop_def)
next
  case StopsNext
  have "table_inv (Some k) (s\<lparr>cn_stopping := ks\<rparr>)" if "cn_stopping s = k # ks" for k ks
    using assms that by (auto simp: table_inv_def kept_def entry_ok_def client_active_call_def)
  with StopsNext call_step_ids [of _ "s\<lparr>cn_stopping := ks\<rparr>" env _ ShutsDown for ks] show ?thesis
    by (auto simp: stop_next_def split: list.split simp flip: set_map)
qed

lemma created_ids_snoc: "created_ids (ops @ [op]) = created_ids ops @ (case created_id op of None \<Rightarrow> [] | Some i \<Rightarrow> [i])"
  by (simp add: created_ids_def List.map_filter_def split: option.split)

lemma client_run_inv:
  assumes "distinct (created_ids ops)"
  shows "table_inv None (fst (run (client_step env) ops NewClient))"
proof -
  have "distinct (created_ids ops) \<longrightarrow> table_inv None (fst (run (client_step env) ops NewClient))
      \<and> flow_id ` set (cn_store (fst (run (client_step env) ops NewClient))) \<subseteq> set (created_ids ops)"
  proof (rule run_history_induct [where Q = "\<lambda>ops es s. distinct (created_ids ops) \<longrightarrow>
      table_inv None s \<and> flow_id ` set (cn_store s) \<subseteq> set (created_ids ops)"])
    show "distinct (created_ids []) \<longrightarrow> table_inv None NewClient \<and> flow_id ` set (cn_store NewClient) \<subseteq> set (created_ids [])"
      by (simp add: table_inv_def NewClient_def client_active_call_def)
  next
    fix ops es s op
    assume ih: "distinct (created_ids ops) \<longrightarrow> table_inv None s \<and> flow_id ` set (cn_store s) \<subseteq> set (created_ids ops)"
    show "distinct (created_ids (ops @ [op])) \<longrightarrow> table_inv None (fst (client_step env op s))
      \<and> flow_id ` set (cn_store (fst (client_step env op s))) \<subseteq> set (created_ids (ops @ [op]))"
    proof
      assume d: "distinct (created_ids (ops @ [op]))"
      then have inv: "table_inv None s" and ids: "flow_id ` set (cn_store s) \<subseteq> set (created_ids ops)"
        using ih by (simp_all add: created_ids_snoc)
      have "case created_id op of None \<Rightarrow> True | Some i \<Rightarrow> i \<notin> flow_id ` set (cn_store s)"
        using d ids by (auto simp: created_ids_snoc split: option.splits)
      from client_step_inv [OF inv this, of env] client_step_ids [OF inv, of env op] ids
      show "table_inv None (fst (client_step env op s))
        \<and> flow_id ` set (cn_store (fst (client_step env op s))) \<subseteq> set (created_ids (ops @ [op]))"
        by (cases "created_id op") (auto simp: created_ids_snoc)
    qed
  qed
  with assms show ?thesis by blast
qed

text \<open>
  C4. No outbound call is lost, whatever requests, steps of calls and stops come in whatever order, as long
  as the requests carry different call ids: every call that was ever created is closed, or is in the
  client's table under its id, so that a BYE or NOTIFY finds it, or waits to be closed by \<open>Stop\<close>; and
  every entry of the table is an open call with that id.
\<close>
theorem client_keeps_calls:
  assumes "distinct (created_ids ops)"
  shows "let s = fst (run (client_step env) ops NewClient) in
     list_all (kept s) [0..<length (cn_store s)] \<and> list_all (entry_ok s) (cn_active s)"
  using client_run_inv [OF assms, of env]
  by (auto simp: table_inv_def Let_def list_all_iff client_active_call_def)

definition sample_client_ops :: "client_op list" where
  "sample_client_ops = [CreateParticipant id HealthOK sample_new_probe False 7 sample_request, ClientStops, StopsNext]"

lemma client_keeps_calls_witness:
  "let s = fst (run (client_step sample_client_env) sample_client_ops NewClient) in
     list_all (kept s) [0..<length (cn_store s)] \<and> list_all (entry_ok s) (cn_active s)"
  by (rule client_keeps_calls) (simp add: sample_client_ops_def created_ids_def List.map_filter_def created_id_def)

end
