(* ===== verification/Opus_Stream.thy ===== *)
theory Opus_Stream
  imports Media_Stats
begin

text \<open>
  \<open>pkg/media/opus/opus.go\<close>: the writers around the Opus codec. The decoder passes over a few corrupted
  packets in a row; the encoder collects samples of any frame size and encodes them in frames of \<open>samples\<close>
  samples, the rest when it is closed.

  The codec is a library: \<open>enc n\<close> and \<open>dec\<close> are its answers, \<open>enc n\<close> for the \<open>n\<close>-th frame handed to it; whether
  the wrapped writer takes what it is given is \<open>wr\<close>. With a frame size of zero the loop of the encoder need not
  end, which is the value \<open>None\<close>.
\<close>

section \<open>Decoder\<close>

datatype decode_result = Decoded pcm_frame | InvalidPacket | DecodeFailed

datatype opus_error = CodecError | WriterError

datatype opus_effect = PcmWritten pcm_frame | FrameGiven pcm_frame | PacketWritten "u8 list" | WriterClosed

record opus_decoder =
  od_errors :: nat

definition decoder_WriteSample ::
  "(u8 list \<Rightarrow> decode_result) \<Rightarrow> bool \<Rightarrow> u8 list \<Rightarrow> opus_decoder \<Rightarrow> (opus_decoder \<times> opus_effect list) \<times> opus_error option" where
  "decoder_WriteSample dec wr inp d =
     (if inp = [] then ((d, []), None)
      else (case dec inp of
              Decoded pcm \<Rightarrow> ((d\<lparr>od_errors := 0\<rparr>, [PcmWritten pcm]), if wr then None else Some WriterError)
            | InvalidPacket \<Rightarrow>
                if od_errors d \<ge> 5 then ((d, []), Some CodecError)
                else ((d\<lparr>od_errors := od_errors d + 1\<rparr>, []), None)
            | DecodeFailed \<Rightarrow> ((d, []), Some CodecError)))"

section \<open>Encoder\<close>

text \<open>\<open>oe_given\<close> counts the frames given to the codec.\<close>

record opus_encoder =
  oe_samples :: nat
  oe_inbuf :: pcm_frame
  oe_errors :: nat
  oe_given :: nat

type_synonym opus_codec = "nat \<Rightarrow> pcm_frame \<Rightarrow> u8 list option"

type_synonym encode_result = "(opus_encoder \<times> opus_effect list) \<times> opus_error option"

definition newEncoder :: "nat \<Rightarrow> nat \<Rightarrow> opus_encoder" where
  "newEncoder rate fps = \<lparr>oe_samples = rate div fps, oe_inbuf = [], oe_errors = 0, oe_given = 0\<rparr>"

text \<open>One frame: it leaves the buffer whether it is encoded or not.\<close>

definition encode_frame :: "opus_codec \<Rightarrow> (nat \<Rightarrow> bool) \<Rightarrow> opus_encoder \<Rightarrow> encode_result" where
  "encode_frame enc wr e =
     (let frame = take (oe_samples e) (oe_inbuf e);
          n = oe_given e;
          e1 = e\<lparr>oe_inbuf := drop (oe_samples e) (oe_inbuf e), oe_given := n + 1\<rparr>
      in case enc n frame of
           None \<Rightarrow> ((if oe_errors e1 < 5 then e1\<lparr>oe_errors := oe_errors e1 + 1\<rparr> else e1, [FrameGiven frame]), Some CodecError)
         | Some pkt \<Rightarrow>
             ((e1\<lparr>oe_errors := 0\<rparr>, [FrameGiven frame, PacketWritten pkt]), if wr n then None else Some WriterError))"

partial_function (option) encode_loop ::
  "opus_codec \<Rightarrow> (nat \<Rightarrow> bool) \<Rightarrow> opus_encoder \<Rightarrow> encode_result option" where
  "encode_loop enc wr e =
     (if length (oe_inbuf e) < oe_samples e then Some ((e, []), None)
      else (case encode_frame enc wr e of
              ((e1, es), Some err) \<Rightarrow> Some ((e1, es), Some err)
            | ((e1, es), None) \<Rightarrow>
                Option.bind (encode_loop enc wr e1) (\<lambda>((e2, es'), err). Some ((e2, es @ es'), err))))"

declare encode_loop.simps [code]

definition encoder_WriteSample ::
  "opus_codec \<Rightarrow> (nat \<Rightarrow> bool) \<Rightarrow> pcm_frame \<Rightarrow> opus_encoder \<Rightarrow> encode_result option" where
  "encoder_WriteSample enc wr inp e = encode_loop enc wr (e\<lparr>oe_inbuf := oe_inbuf e @ inp\<rparr>)"

definition flush :: "opus_codec \<Rightarrow> (nat \<Rightarrow> bool) \<Rightarrow> opus_encoder \<Rightarrow> opus_effect list \<times> opus_error option" where
  "flush enc wr e =
     (if oe_inbuf e = [] then ([], None)
      else (case enc (oe_given e) (oe_inbuf e) of
              None \<Rightarrow> ([FrameGiven (oe_inbuf e)], Some CodecError)
            | Some pkt \<Rightarrow> ([FrameGiven (oe_inbuf e), PacketWritten pkt], if wr (oe_given e) then None else Some WriterError)))"

text \<open>\<open>shut\<close>: the error of closing the wrapped writer, if any.\<close>

definition encoder_Close ::
  "opus_codec \<Rightarrow> (nat \<Rightarrow> bool) \<Rightarrow> opus_error option \<Rightarrow> opus_encoder \<Rightarrow> opus_effect list \<times> opus_error option" where
  "encoder_Close enc wr shut e =
     (case flush enc wr e of (es, err1) \<Rightarrow> (es @ [WriterClosed], if err1 \<noteq> None then err1 else shut))"

text \<open>The frames of a caller, one after the other, whatever each write returns; \<open>None\<close> if one does not return.\<close>

fun write_all :: "opus_codec \<Rightarrow> (nat \<Rightarrow> bool) \<Rightarrow> pcm_frame list \<Rightarrow> opus_encoder \<Rightarrow> (opus_encoder \<times> opus_effect list) option" where
  "write_all enc wr [] e = Some (e, [])"
| "write_all enc wr (x # xs) e =
     (case encoder_WriteSample enc wr x e of
        None \<Rightarrow> None
      | Some ((e1, es), _) \<Rightarrow> map_option (\<lambda>(e2, es'). (e2, es @ es')) (write_all enc wr xs e1))"

section \<open>No sample is lost\<close>

definition given :: "opus_effect list \<Rightarrow> pcm_frame list" where
  "given es = List.map_filter (\<lambda>e. case e of FrameGiven f \<Rightarrow> Some f | _ \<Rightarrow> None) es"

lemma given_simps [simp]:
  "given [] = []" "given (xs @ ys) = given xs @ given ys"
  "given (FrameGiven f # es) = f # given es" "given (PacketWritten p # es) = given es"
  "given (WriterClosed # es) = given es"
  by (simp_all add: given_def List.map_filter_def)

lemma encode_frame_given:
  assumes "encode_frame enc wr e = ((e1, es), err)" "oe_samples e \<le> length (oe_inbuf e)"
  shows "concat (given es) @ oe_inbuf e1 = oe_inbuf e" "list_all (\<lambda>f. length f = oe_samples e) (given es)"
    "oe_samples e1 = oe_samples e" "length (oe_inbuf e1) = length (oe_inbuf e) - oe_samples e"
  using assms by (auto simp: encode_frame_def Let_def split: option.splits)

lemma encode_loop_total:
  assumes "0 < oe_samples e"
  shows "\<exists>e' es err. encode_loop enc wr e = Some ((e', es), err)
    \<and> concat (given es) @ oe_inbuf e' = oe_inbuf e \<and> list_all (\<lambda>f. length f = oe_samples e) (given es)
    \<and> oe_samples e' = oe_samples e \<and> (err = None \<longrightarrow> length (oe_inbuf e') < oe_samples e)"
  using assms
proof (induction "length (oe_inbuf e)" arbitrary: e rule: less_induct)
  case less
  show ?case
  proof (cases "length (oe_inbuf e) < oe_samples e")
    case True
    then show ?thesis by (simp add: encode_loop.simps [of _ _ e])
  next
    case False
    obtain e1 es err where f: "encode_frame enc wr e = ((e1, es), err)" by (metis surj_pair)
    note one = encode_frame_given [OF f] False
    show ?thesis
    proof (cases err)
      case (Some x)
      with f one show ?thesis by (simp add: encode_loop.simps [of _ _ e])
    next
      case None
      have "length (oe_inbuf e1) < length (oe_inbuf e)" "0 < oe_samples e1" using one less.prems by simp_all
      from less.hyps [OF this] obtain e2 es' err' where
        "encode_loop enc wr e1 = Some ((e2, es'), err')" "concat (given es') @ oe_inbuf e2 = oe_inbuf e1"
        "list_all (\<lambda>f. length f = oe_samples e1) (given es')" "oe_samples e2 = oe_samples e1"
        "err' = None \<longrightarrow> length (oe_inbuf e2) < oe_samples e1" by blast
      with None f one show ?thesis by (auto simp: encode_loop.simps [of _ _ e])
    qed
  qed
qed

lemma write_all_given:
  assumes "0 < oe_samples e"
  shows "\<exists>e' es. write_all enc wr xs e = Some (e', es) \<and> concat (given es) @ oe_inbuf e' = oe_inbuf e @ concat xs
    \<and> list_all (\<lambda>f. length f = oe_samples e) (given es) \<and> oe_samples e' = oe_samples e"
  using assms
proof (induction xs arbitrary: e)
  case (Cons x xs)
  obtain e1 es err where w: "encoder_WriteSample enc wr x e = Some ((e1, es), err)"
    "concat (given es) @ oe_inbuf e1 = oe_inbuf e @ x" "list_all (\<lambda>f. length f = oe_samples e) (given es)"
    "oe_samples e1 = oe_samples e"
    using encode_loop_total [of "e\<lparr>oe_inbuf := oe_inbuf e @ x\<rparr>" enc wr] Cons.prems
    by (auto simp: encoder_WriteSample_def)
  with Cons.IH [of e1] Cons.prems obtain e2 es' where r: "write_all enc wr xs e1 = Some (e2, es')"
    "concat (given es') @ oe_inbuf e2 = oe_inbuf e1 @ concat xs" "list_all (\<lambda>f. length f = oe_samples e) (given es')"
    "oe_samples e2 = oe_samples e" by auto
  have "concat (given es) @ concat (given es') @ oe_inbuf e2 = oe_inbuf e @ x @ concat xs"
    using w(2) r(2) by (metis append_assoc)
  with w r show ?case by simp
qed simp

lemma flush_given: "given (fst (flush enc wr e)) = (if oe_inbuf e = [] then [] else [oe_inbuf e])"
  by (simp add: flush_def split: option.split)

section \<open>Properties\<close>

text \<open>
  C37. The encoder returns from every write and loses no sample before the codec: whatever the codec and the
  writer answer, the frames given to the codec by any sequence of writes and the closing are, one after the
  other, the samples written, and all but the one given at the closing have the frame size.
\<close>

theorem encoder_gives_all_samples:
  assumes "0 < rate div fps"
  shows "case write_all enc wr xs (newEncoder rate fps) of
     None \<Rightarrow> False
   | Some (e, es) \<Rightarrow> concat (given (es @ fst (encoder_Close enc wr shut e))) = concat xs
       \<and> list_all (\<lambda>f. length f = rate div fps) (given es)"
proof -
  obtain e es where w: "write_all enc wr xs (newEncoder rate fps) = Some (e, es)"
    "concat (given es) @ oe_inbuf e = concat xs" "list_all (\<lambda>f. length f = rate div fps) (given es)"
    using write_all_given [of "newEncoder rate fps" enc wr xs] assms by (auto simp: newEncoder_def)
  then show ?thesis by (auto simp: encoder_Close_def split_def flush_given)
qed

lemma encoder_gives_all_samples_witness:
  "case write_all (\<lambda>n f. if n = 0 then None else Some [1]) (\<lambda>_. True) [[1, 2, 3], [4, 5]] (newEncoder 100 50) of
     None \<Rightarrow> False
   | Some (e, es) \<Rightarrow>
       concat (given (es @ fst (encoder_Close (\<lambda>n f. if n = 0 then None else Some [1]) (\<lambda>_. True) None e))) = concat [[1, 2, 3], [4, 5]]
       \<and> list_all (\<lambda>f. length f = 100 div 50) (given es)"
  by (rule encoder_gives_all_samples) simp

text \<open>The decoder passes over at most five corrupted packets in a row.\<close>

lemma decoder_tolerates:
  "fst (fst (decoder_WriteSample (\<lambda>_. InvalidPacket) True [x] \<lparr>od_errors = n\<rparr>)) = \<lparr>od_errors = (if n < 5 then n + 1 else n)\<rparr>
   \<and> (snd (decoder_WriteSample (\<lambda>_. InvalidPacket) True [x] \<lparr>od_errors = n\<rparr>) = None) = (n < 5)"
  by (simp add: decoder_WriteSample_def)

end
