(* ===== verification/Rtp_Conn.thy ===== *)
theory Rtp_Conn
  imports Media_Stats
begin

text \<open>
  \<open>pkg/media/rtpconn/conn.go\<close>: a UDP socket that reads RTP, answers to the address the last datagram came from,
  and calls back when no media arrives. The read loop, the timeout goroutine and the owner interleave: a run is
  a sequence of operations. Addresses are of any type; what the socket reads, whether a packet parses, and the
  address a new socket gets are arguments. \<open>pkg/sip/srtp_conn.go\<close> is the wrapper at the end.
\<close>

section \<open>State\<close>

record 'a conn =
  uc_socket :: bool
  uc_closed :: bool
  uc_packets :: u64
  uc_received :: bool
  uc_start :: "nanos option"
  uc_initial :: nanos
  uc_timeout :: nanos
  uc_dest :: "'a option"
  uc_handler :: bool
  uc_reading :: bool
  uc_overflow :: bool
  uc_ticking :: bool
  uc_last :: u64

datatype 'a conn_effect =
    SocketOpened
  | SocketClosed
  | FirstPacket
  | Handled rtp_packet
  | Sent "u8 list" 'a
  | OverflowLogged
  | TimeoutCalled
  | ConnPanic

text \<open>\<open>now\<close>: the time of the call; \<open>callback\<close>: there is a timeout callback, whose goroutine then runs.\<close>

definition NewConnWith :: "bool \<Rightarrow> nanos \<Rightarrow> nanos \<Rightarrow> bool \<Rightarrow> nanos \<Rightarrow> 'a conn" where
  "NewConnWith socket initial timeout callback now =
     \<lparr>uc_socket = socket, uc_closed = False, uc_packets = 0, uc_received = False,
      uc_start = (if callback then Some now else None),
      uc_initial = (if initial \<le> 0 then 30 * second else initial),
      uc_timeout = (if timeout \<le> 0 then 15 * second else timeout),
      uc_dest = None, uc_handler = False, uc_reading = False, uc_overflow = False, uc_ticking = callback, uc_last = 0\<rparr>"

section \<open>Operations\<close>

definition EnableTimeout :: "bool \<Rightarrow> nanos \<Rightarrow> 'a conn \<Rightarrow> 'a conn" where
  "EnableTimeout enabled now c = c\<lparr>uc_start := (if enabled then Some now else None)\<rparr>"

text \<open>Closing a connection that never listened panics.\<close>

definition Conn_Close :: "'a conn \<Rightarrow> 'a conn \<times> 'a conn_effect list" where
  "Conn_Close c =
     (let c1 = c\<lparr>uc_handler := False\<rparr> in
      if uc_closed c then (c1, [])
      else (c1\<lparr>uc_closed := True\<rparr>, [if uc_socket c then SocketClosed else ConnPanic]))"

text \<open>\<open>parses\<close>: the address to listen on is one; \<open>opens\<close>: a port of the range is free.\<close>

definition Listen :: "bool \<Rightarrow> bool \<Rightarrow> 'a conn \<Rightarrow> ('a conn \<times> 'a conn_effect list) \<times> bool" where
  "Listen parses opens c =
     (if uc_socket c then ((c, []), True)
      else if \<not> parses \<or> \<not> opens then ((c, []), False)
      else ((c\<lparr>uc_socket := True\<rparr>, [SocketOpened]), True))"

definition ListenAndServe :: "bool \<Rightarrow> bool \<Rightarrow> 'a conn \<Rightarrow> ('a conn \<times> 'a conn_effect list) \<times> bool" where
  "ListenAndServe parses opens c =
     (case Listen parses opens c of
        ((c1, es), True) \<Rightarrow> ((c1\<lparr>uc_reading := True\<rparr>, es), True)
      | ((c1, es), False) \<Rightarrow> ((c1, es), False))"

text \<open>A datagram: its length, its source, and the packet it parses to.\<close>

record 'a datagram =
  dg_length :: nat
  dg_source :: 'a
  dg_packet :: "rtp_packet option"

definition read_datagram :: "nat \<Rightarrow> 'a datagram option \<Rightarrow> 'a conn \<Rightarrow> 'a conn \<times> 'a conn_effect list" where
  "read_datagram mtu d c =
     (if \<not> uc_reading c then (c, [])
      else case d of
        None \<Rightarrow> (c\<lparr>uc_reading := False\<rparr>, [])
      | Some g \<Rightarrow>
          (let c1 = c\<lparr>uc_dest := Some (dg_source g)\<rparr> in
           if dg_length g > mtu then (c1\<lparr>uc_overflow := True\<rparr>, if uc_overflow c then [] else [OverflowLogged])
           else (case dg_packet g of
                   None \<Rightarrow> (c1, [])
                 | Some p \<Rightarrow>
                     (let n = uc_packets c + 1 in
                      (c1\<lparr>uc_packets := n, uc_received := (uc_received c \<or> n = 1)\<rparr>,
                       (if n = 1 then [FirstPacket] else []) @ (if uc_handler c then [Handled p] else []))))))"

text \<open>\<open>raw\<close>: the packet marshalled, if it can be.\<close>

definition Conn_WriteRTP :: "u8 list option \<Rightarrow> 'a conn \<Rightarrow> 'a conn_effect list \<times> bool" where
  "Conn_WriteRTP raw c =
     (case uc_dest c of
        None \<Rightarrow> ([], True)
      | Some a \<Rightarrow> (case raw of None \<Rightarrow> ([], False) | Some bytes \<Rightarrow> ([Sent bytes a], True)))"

text \<open>A tick of the timeout goroutine, which runs every \<open>uc_timeout\<close>.\<close>

definition timeout_tick :: "nanos \<Rightarrow> 'a conn \<Rightarrow> 'a conn \<times> 'a conn_effect list" where
  "timeout_tick now c =
     (if \<not> uc_ticking c then (c, [])
      else if uc_closed c then (c\<lparr>uc_ticking := False\<rparr>, [])
      else if uc_packets c \<noteq> uc_last c then (c\<lparr>uc_last := uc_packets c\<rparr>, [])
      else (case uc_start c of
              None \<Rightarrow> (c, [])
            | Some start \<Rightarrow>
                if uc_last c = 0 \<and> now - start < uc_initial c then (c, [])
                else (c\<lparr>uc_ticking := False\<rparr>, [TimeoutCalled])))"

datatype 'a conn_op =
    EnablesTimeout bool nanos
  | ClosesConn
  | Serves bool bool
  | Reads nat "'a datagram option"
  | SetsHandler bool
  | SetsDest "'a option"
  | Writes "u8 list option"
  | Ticks nanos

fun conn_step :: "'a conn_op \<Rightarrow> 'a conn \<Rightarrow> 'a conn \<times> 'a conn_effect list" where
  "conn_step (EnablesTimeout b now) c = (EnableTimeout b now c, [])"
| "conn_step ClosesConn c = Conn_Close c"
| "conn_step (Serves parses opens) c = fst (ListenAndServe parses opens c)"
| "conn_step (Reads mtu d) c = read_datagram mtu d c"
| "conn_step (SetsHandler b) c = (c\<lparr>uc_handler := b\<rparr>, [])"
| "conn_step (SetsDest a) c = (c\<lparr>uc_dest := a\<rparr>, [])"
| "conn_step (Writes raw) c = (c, fst (Conn_WriteRTP raw c))"
| "conn_step (Ticks now) c = timeout_tick now c"

section \<open>The connection under SRTP\<close>

datatype read_error = NetClosed | ReadEOF | OtherReadError

record srtp_conn =
  sc_closing :: bool

text \<open>After our own \<open>Close\<close> a read that fails because of it ends the stream instead.\<close>

definition Srtp_Read :: "nat \<times> read_error option \<Rightarrow> srtp_conn \<Rightarrow> nat \<times> read_error option" where
  "Srtp_Read r c = (if snd r = Some NetClosed \<and> sc_closing c then (fst r, Some ReadEOF) else r)"

definition Srtp_Close :: "srtp_conn \<Rightarrow> srtp_conn" where
  "Srtp_Close c = c\<lparr>sc_closing := True\<rparr>"

lemma own_close_is_eof: "Srtp_Read (n, Some NetClosed) (Srtp_Close c) = (n, Some ReadEOF)"
  by (simp add: Srtp_Read_def Srtp_Close_def)

section \<open>The timeout\<close>

definition times_out :: "'a conn_effect \<Rightarrow> bool" where
  "times_out e = (case e of TimeoutCalled \<Rightarrow> True | _ \<Rightarrow> False)"

definition closes_socket :: "'a conn_effect \<Rightarrow> bool" where
  "closes_socket e = (case e of SocketClosed \<Rightarrow> True | _ \<Rightarrow> False)"

definition callbacks_left :: "'a conn \<Rightarrow> nat" where
  "callbacks_left c = (if uc_ticking c then 1 else 0)"

definition closings_due :: "'a conn \<Rightarrow> nat" where
  "closings_due c = (if uc_closed c then 0 else 1)"

lemmas conn_ops = EnableTimeout_def Conn_Close_def Listen_def ListenAndServe_def read_datagram_def Conn_WriteRTP_def
  timeout_tick_def times_out_def closes_socket_def callbacks_left_def closings_due_def

lemma conn_step_pays:
  "count_by times_out (snd (conn_step op c)) + callbacks_left (fst (conn_step op c)) \<le> callbacks_left c"
  "count_by closes_socket (snd (conn_step op c)) + closings_due (fst (conn_step op c)) \<le> closings_due c"
  by (cases op; auto simp: conn_ops Let_def split: option.split)+

interpretation callbacks: budgeted conn_step "\<lambda>_. True" "\<lambda>_. True" times_out callbacks_left
  using conn_step_pays(1) by unfold_locales simp_all

interpretation socket: budgeted conn_step "\<lambda>_. True" "\<lambda>_. True" closes_socket closings_due
  using conn_step_pays(2) by unfold_locales simp_all

text \<open>Two ticks, the first at least the initial timeout after the start, with nothing but silence in between.\<close>

lemma two_ticks:
  assumes "uc_ticking c" "\<not> uc_closed c" "uc_start c = Some start" "uc_initial c \<le> t - start" "t \<le> t'"
  shows "count_by times_out (snd (run conn_step [Ticks t, Ticks t'] c)) = 1"
  using assms by (auto simp: timeout_tick_def times_out_def Let_def)

definition awaits_timeout :: "nanos \<Rightarrow> nanos \<Rightarrow> 'a conn \<Rightarrow> bool" where
  "awaits_timeout t t' c =
     (uc_ticking c \<and> \<not> uc_closed c \<and> (case uc_start c of None \<Rightarrow> False | Some start \<Rightarrow> uc_initial c \<le> t - start) \<and> t \<le> t')"

section \<open>Properties\<close>

text \<open>
  C38. The media timeout of a connection calls back at most once and the socket is closed at most once, over
  every interleaving of reads, writes, ticks and calls. And it does call back: if at some point the connection
  is open, its goroutine runs and its timeout is enabled, then two ticks with nothing in between, the first at
  least the initial timeout after the start, leave exactly one callback behind.
\<close>

theorem conn_timeout_once:
  "count_by times_out (snd (run conn_step ops c)) \<le> 1
   \<and> count_by closes_socket (snd (run conn_step ops c)) \<le> 1
   \<and> (if awaits_timeout t t' (fst (run conn_step ops c))
      then count_by times_out (snd (run conn_step (ops @ [Ticks t, Ticks t']) c)) = 1 else True)"
proof -
  have most: "count_by times_out (snd (run conn_step as c)) \<le> 1" "count_by closes_socket (snd (run conn_step as c)) \<le> 1" for as
    using callbacks.run_at_most [of as c] socket.run_at_most [of as c]
    by (simp_all add: list_all_iff callbacks_left_def closings_due_def split: if_splits)
  have "count_by times_out (snd (run conn_step (ops @ [Ticks t, Ticks t']) c)) \<ge> 1"
    if "awaits_timeout t t' (fst (run conn_step ops c))"
    using that two_ticks [of "fst (run conn_step ops c)" _ t t']
    by (auto simp: awaits_timeout_def run_append Let_def split: option.splits)
  with most show ?thesis by (simp add: le_antisym del: run.simps)
qed

end
