(* ===== verification/Monitor_Registry.thy ===== *)
theory Monitor_Registry
  imports Call_Monitor
begin

text \<open>
  \<open>pkg/stats/monitor.go\<close>, the registration of the metrics: which vectors \<open>Start\<close> registers with Prometheus and
  with which labels, what \<open>Stop\<close> takes back, and the timers of a call. Prometheus panics when an update names
  other labels than the vector was declared with, so the declaration and the updates of \<open>Call_Monitor\<close> have to
  agree. The registry is a list of names; \<open>fault\<close> is an error of Prometheus other than a name taken.
\<close>

section \<open>The metrics and their labels\<close>

datatype metric_kind = CounterM | CounterVecM | GaugeM | GaugeVecM | GaugeFuncM | HistogramVecM

record metric_spec =
  ms_subsystem :: string
  ms_name :: string
  ms_kind :: metric_kind
  ms_labels :: "string list"

definition sip_metric :: "string \<Rightarrow> metric_kind \<Rightarrow> string list \<Rightarrow> metric_spec" where
  "sip_metric name kind ls = \<lparr>ms_subsystem = ''sip'', ms_name = name, ms_kind = kind, ms_labels = ls\<rparr>"

definition metric_specs :: "metric_spec list" where
  "metric_specs =
     [sip_metric ''invite_requests_raw'' CounterM [],
      sip_metric ''invite_requests'' CounterVecM [''dir''],
      sip_metric ''invite_accepted'' CounterVecM [''dir'', ''to''],
      sip_metric ''invite_error'' CounterVecM [''dir'', ''to'', ''reason''],
      sip_metric ''calls_active'' GaugeVecM [''dir'', ''to''],
      sip_metric ''calls_terminated'' CounterVecM [''dir'', ''to'', ''result'', ''reason''],
      sip_metric ''calls_termination_failures'' CounterVecM [''dir''],
      sip_metric ''packets_rtp'' CounterVecM [''dir'', ''to'', ''op'', ''payload''],
      sip_metric ''dur_session_sec'' HistogramVecM [''dir''],
      sip_metric ''dur_call_sec'' HistogramVecM [''dir''],
      sip_metric ''dur_check_sec'' HistogramVecM [''dir''],
      sip_metric ''dur_join_sec'' HistogramVecM [''dir''],
      sip_metric ''stage_dur_sec'' HistogramVecM [''dir'', ''stage''],
      sip_metric ''sdp_size_bytes'' HistogramVecM [''type''],
      sip_metric ''available'' GaugeFuncM [],
      \<lparr>ms_subsystem = ''node'', ms_name = ''cpu_load'', ms_kind = GaugeM, ms_labels = []\<rparr>,
      sip_metric ''transfers_total'' CounterVecM [''dir''],
      sip_metric ''transfers_succeeded_total'' CounterVecM [''dir''],
      sip_metric ''transfers_failed_total'' CounterVecM [''dir'', ''reason''],
      sip_metric ''transfers_active'' GaugeVecM [''dir'']]"

definition declared :: "string \<Rightarrow> string list option" where
  "declared name = map_option ms_labels (List.find (\<lambda>s. ms_name s = name) metric_specs)"

text \<open>The gauge \<open>available\<close>, read when Prometheus scrapes it.\<close>

definition node_available :: "node_monitor \<Rightarrow> real" where
  "node_available m = (if Health m = HealthOK then 1 else 0)"

section \<open>Registering\<close>

record registry_state =
  rg_names :: "string list"
  rg_own :: "string list"
  rg_started :: bool

text \<open>A name that is taken is used as it is and not owned; \<open>None\<close> is a panic.\<close>

definition mustRegister :: "(string \<Rightarrow> bool) \<Rightarrow> string \<Rightarrow> registry_state \<Rightarrow> registry_state option" where
  "mustRegister fault name r =
     (if name \<in> set (rg_names r) then Some r
      else if fault name then None
      else Some (r\<lparr>rg_names := rg_names r @ [name], rg_own := rg_own r @ [name]\<rparr>))"

fun register_all :: "(string \<Rightarrow> bool) \<Rightarrow> string list \<Rightarrow> registry_state \<Rightarrow> registry_state option" where
  "register_all fault [] r = Some r"
| "register_all fault (n # ns) r = Option.bind (mustRegister fault n r) (register_all fault ns)"

definition go_collector :: string where
  "go_collector = ''go''"

definition Unregister :: "string \<Rightarrow> registry_state \<Rightarrow> registry_state" where
  "Unregister name r = r\<lparr>rg_names := filter (\<lambda>n. n \<noteq> name) (rg_names r)\<rparr>"

definition Monitor_Start :: "(string \<Rightarrow> bool) \<Rightarrow> registry_state \<Rightarrow> registry_state option" where
  "Monitor_Start fault r =
     map_option (\<lambda>r. r\<lparr>rg_started := True\<rparr>)
       (register_all fault (go_collector # map ms_name metric_specs) (Unregister go_collector r))"

definition Monitor_Stop :: "registry_state \<Rightarrow> registry_state" where
  "Monitor_Stop r = (fold Unregister (rg_own r) r)\<lparr>rg_own := []\<rparr>"

section \<open>Timers of a call\<close>

text \<open>An observation: the vector and its labels. A timer of a call observes the stage and its own vector when stopped.\<close>

datatype call_timer = SessionDur | CallDur | JoinDur | CheckDur

definition StageDur :: "string \<Rightarrow> call_monitor \<Rightarrow> string \<times> labels" where
  "StageDur stage c = (''stage_dur_sec'', labelsShort [''stage'' \<mapsto> stage] c)"

definition timer_stops :: "call_timer \<Rightarrow> call_monitor \<Rightarrow> (string \<times> labels) list" where
  "timer_stops t c =
     (case t of
        SessionDur \<Rightarrow> [StageDur ''session'' c, (''dur_session_sec'', labelsShort Map.empty c)]
      | CallDur \<Rightarrow> [StageDur ''call'' c, (''dur_call_sec'', labelsShort Map.empty c)]
      | JoinDur \<Rightarrow> [StageDur ''invite-to-dispatch'' c, (''dur_join_sec'', labelsShort Map.empty c)]
      | CheckDur \<Rightarrow> [(''dur_check_sec'', labelsShort Map.empty c), StageDur ''auth-check'' c])"

section \<open>Updates against declarations\<close>

text \<open>The vector an update goes to and the labels it names; by position for \<open>WithLabelValues\<close>.\<close>

definition metric_use :: "metric \<Rightarrow> string \<times> string set + string \<times> nat" where
  "metric_use m =
     (case m of
        InviteReqRaw \<Rightarrow> Inr (''invite_requests_raw'', 0)
      | InviteReqM l \<Rightarrow> Inl (''invite_requests'', dom l)
      | InviteAcceptM l \<Rightarrow> Inl (''invite_accepted'', dom l)
      | InviteErrM l \<Rightarrow> Inl (''invite_error'', dom l)
      | CallsActiveInc l \<Rightarrow> Inl (''calls_active'', dom l)
      | CallsActiveDec l \<Rightarrow> Inl (''calls_active'', dom l)
      | CallsTerminated l \<Rightarrow> Inl (''calls_terminated'', dom l)
      | CallsTerminationFailures l \<Rightarrow> Inl (''calls_termination_failures'', dom l)
      | PacketsRTP l \<Rightarrow> Inl (''packets_rtp'', dom l)
      | TransfersTotal d \<Rightarrow> Inr (''transfers_total'', 1)
      | TransfersActiveInc d \<Rightarrow> Inr (''transfers_active'', 1)
      | TransfersActiveDec d \<Rightarrow> Inr (''transfers_active'', 1)
      | TransfersSucceeded d \<Rightarrow> Inr (''transfers_succeeded_total'', 1)
      | TransfersFailed d reason \<Rightarrow> Inr (''transfers_failed_total'', 2)
      | SdpSize t n \<Rightarrow> Inr (''sdp_size_bytes'', 1))"

definition well_labelled :: "metric \<Rightarrow> bool" where
  "well_labelled m =
     (case metric_use m of
        Inl (name, ks) \<Rightarrow> map_option set (declared name) = Some ks
      | Inr (name, n) \<Rightarrow> map_option length (declared name) = Some n)"

definition observation_ok :: "string \<times> labels \<Rightarrow> bool" where
  "observation_ok ob = (map_option set (declared (fst ob)) = Some (dom (snd ob)))"

lemma declared_labels:
  "declared ''invite_requests_raw'' = Some []" "declared ''invite_requests'' = Some [''dir'']"
  "declared ''invite_accepted'' = Some [''dir'', ''to'']" "declared ''invite_error'' = Some [''dir'', ''to'', ''reason'']"
  "declared ''calls_active'' = Some [''dir'', ''to'']"
  "declared ''calls_terminated'' = Some [''dir'', ''to'', ''result'', ''reason'']"
  "declared ''calls_termination_failures'' = Some [''dir'']"
  "declared ''packets_rtp'' = Some [''dir'', ''to'', ''op'', ''payload'']"
  "declared ''dur_session_sec'' = Some [''dir'']" "declared ''dur_call_sec'' = Some [''dir'']"
  "declared ''dur_check_sec'' = Some [''dir'']" "declared ''dur_join_sec'' = Some [''dir'']"
  "declared ''stage_dur_sec'' = Some [''dir'', ''stage'']" "declared ''sdp_size_bytes'' = Some [''type'']"
  "declared ''transfers_total'' = Some [''dir'']" "declared ''transfers_succeeded_total'' = Some [''dir'']"
  "declared ''transfers_failed_total'' = Some [''dir'', ''reason'']" "declared ''transfers_active'' = Some [''dir'']"
  by (simp_all add: declared_def metric_specs_def sip_metric_def)

lemmas label_sets = labelsShort_def labels_full_def well_labelled_def metric_use_def declared_labels

lemma mon_step_labelled: "list_all well_labelled (snd (mon_step op c))"
  by (cases op) (auto simp: label_sets mon_ops)

lemma transfer_labelled:
  "list_all well_labelled (TransferStarted d @ TransferSucceeded d @ TransferFailed d reason change @ SDPSize n offer)"
  by (simp add: label_sets TransferStarted_def TransferSucceeded_def TransferFailed_def SDPSize_def)

lemma timers_labelled: "list_all observation_ok (timer_stops t c)"
  by (auto simp: timer_stops_def observation_ok_def StageDur_def label_sets split: call_timer.split)

section \<open>The registry over start and stop\<close>

lemma register_all_names:
  "register_all fault ns r = Some r' \<Longrightarrow>
     \<exists>new. rg_names r' = rg_names r @ new \<and> rg_own r' = rg_own r @ new \<and> set new \<inter> set (rg_names r) = {}
       \<and> set ns \<subseteq> set (rg_names r')"
proof (induction ns arbitrary: r)
  case (Cons n ns)
  then obtain r1 where r1: "mustRegister fault n r = Some r1" "register_all fault ns r1 = Some r'"
    by (auto simp: bind_eq_Some_conv)
  with Cons.IH obtain new where new: "rg_names r' = rg_names r1 @ new" "rg_own r' = rg_own r1 @ new"
    "set new \<inter> set (rg_names r1) = {}" "set ns \<subseteq> set (rg_names r')" by blast
  show ?case
  proof (cases "n \<in> set (rg_names r)")
    case True
    with r1 new show ?thesis by (auto simp: mustRegister_def)
  next
    case False
    with r1(1) have "r1 = r\<lparr>rg_names := rg_names r @ [n], rg_own := rg_own r @ [n]\<rparr>"
      by (simp add: mustRegister_def split: if_splits)
    with new False show ?thesis by (intro exI [of _ "n # new"]) auto
  qed
qed simp

lemma fold_Unregister:
  "rg_names (fold Unregister ns r) = filter (\<lambda>n. n \<notin> set ns) (rg_names r) \<and> rg_started (fold Unregister ns r) = rg_started r"
  by (induction ns arbitrary: r) (auto simp: Unregister_def intro: filter_cong)

lemma start_stop_names:
  assumes "Monitor_Start fault r = Some r'" "rg_own r = []"
  shows "set (go_collector # map ms_name metric_specs) \<subseteq> set (rg_names r')"
    "rg_names (Monitor_Stop r') = filter (\<lambda>n. n \<noteq> go_collector) (rg_names r)"
proof -
  obtain r1 where r1: "register_all fault (go_collector # map ms_name metric_specs) (Unregister go_collector r) = Some r1"
    "r' = r1\<lparr>rg_started := True\<rparr>" using assms(1) by (auto simp: Monitor_Start_def)
  from register_all_names [OF r1(1)] obtain new where
    new: "rg_names r1 = filter (\<lambda>n. n \<noteq> go_collector) (rg_names r) @ new" "rg_own r1 = new"
      "set new \<inter> set (filter (\<lambda>n. n \<noteq> go_collector) (rg_names r)) = {}"
      "set (go_collector # map ms_name metric_specs) \<subseteq> set (rg_names r1)"
    using assms(2) by (auto simp: Unregister_def)
  show "set (go_collector # map ms_name metric_specs) \<subseteq> set (rg_names r')" using new(4) r1(2) by simp
  have "filter (\<lambda>n. n \<notin> set new) (rg_names r1) = filter (\<lambda>n. n \<noteq> go_collector) (rg_names r)"
    using new(3) by (auto simp: new(1) filter_empty_conv intro: filter_cong)
  then show "rg_names (Monitor_Stop r') = filter (\<lambda>n. n \<noteq> go_collector) (rg_names r)"
    using new(2) r1(2) by (simp add: Monitor_Stop_def fold_Unregister)
qed

section \<open>Properties\<close>

text \<open>
  C39. Every update of a metric that a call, a transfer or an offer makes, and every timer, names exactly the
  labels that \<open>Start\<close> declared for its vector: Prometheus does not panic on any of them.
\<close>

theorem metrics_well_labelled:
  "list_all well_labelled (snd (run mon_step ops c))
   \<and> list_all well_labelled (TransferStarted d @ TransferSucceeded d @ TransferFailed d reason change @ SDPSize n offer)
   \<and> list_all observation_ok (timer_stops t c)"
proof (intro conjI)
  show "list_all well_labelled (snd (run mon_step ops c))"
    by (induction ops arbitrary: c) (simp_all add: Let_def mon_step_labelled)
qed (rule transfer_labelled timers_labelled)+

text \<open>
  Starting and stopping a monitor registers all its metrics and takes back exactly what it registered: the
  registry is as before, but for the collector of the Go runtime, which \<open>Start\<close> replaces.
\<close>

theorem monitor_stop_restores:
  assumes "Monitor_Start fault r = Some r'" "rg_own r = []"
  shows "list_all (\<lambda>s. ms_name s \<in> set (rg_names r')) metric_specs
     \<and> rg_names (Monitor_Stop r') = filter (\<lambda>n. n \<noteq> go_collector) (rg_names r)"
  using start_stop_names [OF assms] by (auto simp: list_all_iff)

lemma monitor_stop_restores_witness:
  "case Monitor_Start (\<lambda>_. False) \<lparr>rg_names = [''go'', ''calls_active'', ''up''], rg_own = [], rg_started = False\<rparr> of
     None \<Rightarrow> False
   | Some r' \<Rightarrow> rg_names (Monitor_Stop r') = [''calls_active'', ''up'']"
proof -
  let ?r = "\<lparr>rg_names = [''go'', ''calls_active'', ''up''], rg_own = [], rg_started = False\<rparr>"
  have "Monitor_Start (\<lambda>_. False) ?r \<noteq> None" by code_simp
  then obtain r' where r': "Monitor_Start (\<lambda>_. False) ?r = Some r'" by blast
  from monitor_stop_restores [OF r'] show ?thesis by (simp add: r' go_collector_def)
qed

end
