(* ===== verification/Video_Rtp.thy ===== *)
theory Video_Rtp
  imports Media_Stats Go_Strings Service_Config
begin

text \<open>
  \<open>pkg/media/video/video.go\<close> and \<open>pkg/sip/video.go\<close>: the settings of the composited video, the gate
  in front of the SIP video writer, the packetizer that turns encoded H.264 access units into RTP, the
  depacketizer of the inbound video, the key frame test on Annex-B data and the dimensions of the grid.

  Sequence numbers and timestamps wrap at 16 and 32 bits, counters at 64. The payloader and the sample
  builder are pion's: what they return for a frame or a packet is an argument of the operation, as is
  what the RTP stream answers to each write. A timestamp increment, computed in the code with a
  \<open>float64\<close>, is the exact product of duration and clock rate, rounded half up.
\<close>

unbundle bit_operations_syntax

section \<open>The settings of the composited video\<close>

datatype input_kind = KindCamera | KindScreenShare

datatype input_codec = CodecUnknown | CodecVP8 | CodecVP9 | CodecH264

definition codec_String :: "input_codec \<Rightarrow> string" where
  "codec_String c =
     (case c of CodecVP8 \<Rightarrow> ''VP8'' | CodecVP9 \<Rightarrow> ''VP9'' | CodecH264 \<Rightarrow> ''H264'' | CodecUnknown \<Rightarrow> ''unknown'')"

definition CodecFromMimeType :: "string \<Rightarrow> input_codec" where
  "CodecFromMimeType mime =
     (if equal_fold mime ''video/VP8'' then CodecVP8
      else if equal_fold mime ''video/VP9'' then CodecVP9
      else if equal_fold mime ''video/H264'' then CodecH264
      else CodecUnknown)"

record video_out_config =
  vo_width :: int
  vo_height :: int
  vo_fps :: int
  vo_bitrate :: int
  vo_keyframe :: nanos

definition WithDefaults :: "video_out_config \<Rightarrow> video_out_config" where
  "WithDefaults c =
     c\<lparr>vo_width := (if vo_width c \<le> 0 then 1280 else vo_width c),
       vo_height := (if vo_height c \<le> 0 then 720 else vo_height c),
       vo_fps := (if vo_fps c \<le> 0 then 30 else vo_fps c),
       vo_bitrate := (if vo_bitrate c \<le> 0 then 2000 else vo_bitrate c),
       vo_keyframe := (if vo_keyframe c \<le> 0 then 2 * second else vo_keyframe c)\<rparr>"

definition videoConfigFrom :: "video_settings \<Rightarrow> video_out_config" where
  "videoConfigFrom c =
     WithDefaults \<lparr>vo_width = vs_width c, vo_height = vs_height c, vo_fps = vs_fps c,
       vo_bitrate = vs_bitrate c, vo_keyframe = vs_keyframe c\<rparr>"

record video_sample =
  smp_data :: "u8 list"
  smp_duration :: nanos
  smp_key :: bool

section \<open>Statistics and the gate of the SIP writer\<close>

record video_stats =
  vt_out_frames :: u64
  vt_out_key_frames :: u64
  vt_out_packets :: u64
  vt_out_bytes :: u64
  vt_in_packets :: u64
  vt_in_bytes :: u64
  vt_in_frames :: u64
  vt_inputs :: u64

definition no_video_stats :: video_stats where
  "no_video_stats = \<lparr>vt_out_frames = 0, vt_out_key_frames = 0, vt_out_packets = 0, vt_out_bytes = 0,
     vt_in_packets = 0, vt_in_bytes = 0, vt_in_frames = 0, vt_inputs = 0\<rparr>"

definition VideoStats_Load :: "video_stats option \<Rightarrow> video_stats" where
  "VideoStats_Load s = (case s of None \<Rightarrow> no_video_stats | Some t \<Rightarrow> t)"

text \<open>The gate names the writer behind it; a sample that passes goes to that writer.\<close>

record 'w gated_writer =
  gw_enabled :: bool
  gw_w :: "'w option"

definition gated_Enable :: "'w gated_writer \<Rightarrow> 'w gated_writer" where
  "gated_Enable g = g\<lparr>gw_enabled := True\<rparr>"

definition gated_Disable :: "'w gated_writer \<Rightarrow> 'w gated_writer" where
  "gated_Disable g = g\<lparr>gw_enabled := False\<rparr>"

definition gated_Swap :: "'w option \<Rightarrow> 'w gated_writer \<Rightarrow> 'w gated_writer \<times> 'w option" where
  "gated_Swap w g = (g\<lparr>gw_w := w\<rparr>, gw_w g)"

definition gated_WriteVideoSample :: "video_sample \<Rightarrow> 'w gated_writer \<Rightarrow> ('w \<times> video_sample) list" where
  "gated_WriteVideoSample s g =
     (if \<not> gw_enabled g then [] else case gw_w g of None \<Rightarrow> [] | Some w \<Rightarrow> [(w, s)])"

section \<open>The packetizer\<close>

definition H264ClockRate :: int where
  "H264ClockRate = 90000"

definition videoMTU :: nat where
  "videoMTU = 1200"

record h264_writer =
  hw_pt :: u8
  hw_ssrc :: u32
  hw_clock :: u32
  hw_frame_dur :: u32
  hw_stats :: "video_stats option"
  hw_seq :: u16
  hw_ts :: u32
  hw_started :: bool

text \<open>\<open>ssrc\<close>, \<open>seq\<close> and \<open>ts\<close> are the random numbers drawn.\<close>

definition newH264RTPWriter ::
  "u8 \<Rightarrow> int \<Rightarrow> int \<Rightarrow> video_stats option \<Rightarrow> u32 \<Rightarrow> u32 \<Rightarrow> u32 \<Rightarrow> h264_writer" where
  "newH264RTPWriter pt clockRate fps stats ssrc seq ts =
     (let clockRate = (if clockRate \<le> 0 then H264ClockRate else clockRate);
          fps = (if fps \<le> 0 then 30 else fps)
      in \<lparr>hw_pt = pt, hw_ssrc = ssrc, hw_clock = word_of_int clockRate,
          hw_frame_dur = word_of_int (clockRate div fps), hw_stats = stats,
          hw_seq = ucast seq, hw_ts = ts, hw_started = False\<rparr>)"

record video_header =
  vh_version :: u8
  vh_pt :: u8
  vh_seq :: u16
  vh_ts :: u32
  vh_ssrc :: u32
  vh_marker :: bool

text \<open>What became of a packet: written with the number of bytes the stream reports, or refused.\<close>

datatype video_write =
    Written video_header "u8 list" nat
  | WriteRefused video_header "u8 list"

definition ts_increment :: "video_sample \<Rightarrow> h264_writer \<Rightarrow> u32" where
  "ts_increment s h =
     (let inc = (if smp_duration s > 0
                 then word_of_int ((2 * smp_duration s * uint (hw_clock h) + second) div (2 * second))
                 else hw_frame_dur h)
      in if inc = 0 then hw_frame_dur h else inc)"

definition frame_start :: "video_sample \<Rightarrow> h264_writer \<Rightarrow> h264_writer" where
  "frame_start s h =
     (if hw_started h then h\<lparr>hw_ts := hw_ts h + ts_increment s h\<rparr> else h)\<lparr>hw_started := True\<rparr>"

definition packet_header :: "bool \<Rightarrow> h264_writer \<Rightarrow> video_header" where
  "packet_header last_one h =
     \<lparr>vh_version = 2, vh_pt = hw_pt h, vh_seq = hw_seq h, vh_ts = hw_ts h, vh_ssrc = hw_ssrc h,
      vh_marker = last_one\<rparr>"

definition count_written :: "nat \<Rightarrow> h264_writer \<Rightarrow> h264_writer" where
  "count_written n h =
     h\<lparr>hw_seq := hw_seq h + 1,
       hw_stats := map_option (\<lambda>t. t\<lparr>vt_out_packets := vt_out_packets t + 1,
         vt_out_bytes := vt_out_bytes t + of_nat n\<rparr>) (hw_stats h)\<rparr>"

definition count_frame :: "bool \<Rightarrow> h264_writer \<Rightarrow> h264_writer" where
  "count_frame key h =
     h\<lparr>hw_stats := map_option (\<lambda>t. t\<lparr>vt_out_frames := vt_out_frames t + 1,
         vt_out_key_frames := (if key then vt_out_key_frames t + 1 else vt_out_key_frames t)\<rparr>) (hw_stats h)\<rparr>"

text \<open>\<open>wr i\<close>: what the stream returns for packet \<open>i\<close> of the frame, \<open>None\<close> an error, which ends the frame.\<close>

fun write_payloads ::
  "(nat \<Rightarrow> nat option) \<Rightarrow> nat \<Rightarrow> u8 list list \<Rightarrow> h264_writer \<Rightarrow> (h264_writer \<times> video_write list) \<times> bool" where
  "write_payloads wr i [] h = ((h, []), True)"
| "write_payloads wr i (pl # pls) h =
     (let hdr = packet_header (pls = []) h in
      case wr i of
        None \<Rightarrow> ((h, [WriteRefused hdr pl]), False)
      | Some n \<Rightarrow>
          (case write_payloads wr (Suc i) pls (count_written n h) of
             ((h', es), ok) \<Rightarrow> ((h', Written hdr pl n # es), ok)))"

text \<open>
  \<open>payload mtu data\<close> is what the payloader makes of this frame. The second component of the result is
  whether the frame was written (\<open>False\<close>: the error of the stream is returned).
\<close>

record video_frame =
  vf_sample :: video_sample
  vf_payload :: "nat \<Rightarrow> u8 list \<Rightarrow> u8 list list"
  vf_write :: "nat \<Rightarrow> nat option"

definition WriteVideoSample :: "video_frame \<Rightarrow> h264_writer \<Rightarrow> (h264_writer \<times> video_write list) \<times> bool" where
  "WriteVideoSample f h =
     (let s = vf_sample f in
      if smp_data s = [] then ((h, []), True)
      else (case write_payloads (vf_write f) 0 (vf_payload f videoMTU (smp_data s)) (frame_start s h) of
              ((h', es), True) \<Rightarrow> ((count_frame (smp_key s) h', es), True)
            | ((h', es), False) \<Rightarrow> ((h', es), False)))"

abbreviation write_frames :: "video_frame list \<Rightarrow> h264_writer \<Rightarrow> h264_writer \<times> video_write list" where
  "write_frames \<equiv> run (\<lambda>f h. fst (WriteVideoSample f h))"

section \<open>Key frames and the depacketizer\<close>

text \<open>The Annex-B start code at the front of the data, if there is one, is removed.\<close>

definition strip_start :: "u8 list \<Rightarrow> u8 list option" where
  "strip_start d =
     (if length d \<ge> 4 \<and> d ! 0 = 0 \<and> d ! 1 = 0 \<and> d ! 2 = 0 \<and> d ! 3 = 1 then Some (drop 4 d)
      else if length d \<ge> 3 \<and> d ! 0 = 0 \<and> d ! 1 = 0 \<and> d ! 2 = 1 then Some (drop 3 d)
      else None)"

text \<open>The loop over \<open>i\<close> that looks for the next three-byte start code.\<close>

function next_start :: "nat \<Rightarrow> u8 list \<Rightarrow> nat option" where
  "next_start i d =
     (if i + 2 < length d
      then if d ! i = 0 \<and> d ! (i + 1) = 0 \<and> d ! (i + 2) = 1 then Some i else next_start (Suc i) d
      else None)"
  by pat_completeness auto
termination by (relation "measure (\<lambda>(i, d). length d - i)") auto

declare next_start.simps [simp del]

lemma strip_start_shorter: "strip_start d = Some r \<Longrightarrow> length r < length d"
  by (auto simp: strip_start_def split: if_splits)

function isH264Keyframe :: "u8 list \<Rightarrow> bool" where
  "isH264Keyframe d =
     (case strip_start d of
        None \<Rightarrow> False
      | Some r \<Rightarrow>
          (case r of
             [] \<Rightarrow> False
           | b # _ \<Rightarrow>
               (let naluType = b AND 0x1f in
                if naluType = 5 then True
                else if naluType = 6 \<or> naluType = 7 \<or> naluType = 8
                then (case next_start 1 r of None \<Rightarrow> False | Some i \<Rightarrow> isH264Keyframe (drop i r))
                else False)))"
  by pat_completeness auto
termination
  by (relation "measure length") (auto dest: strip_start_shorter)

declare isH264Keyframe.simps [simp del]

record sample_in =
  si_sample :: video_sample
  si_dropped :: nat

record h264_stream_in =
  hs_callback :: bool
  hs_stats :: "video_stats option"
  hs_logs :: bool
  hs_frames :: u64

datatype stream_effect =
    SampleOut video_sample
  | FrameAssembled u64 nat bool nanos nat
  | FrameDropped u64 bool

text \<open>The clock rate the sample builder of a new stream gets.\<close>

definition newH264StreamIn :: "int \<Rightarrow> bool \<Rightarrow> video_stats option \<Rightarrow> bool \<Rightarrow> h264_stream_in \<times> u32" where
  "newH264StreamIn clockRate onSample stats logs =
     (\<lparr>hs_callback = onSample, hs_stats = stats, hs_logs = logs, hs_frames = 0\<rparr>,
      word_of_int (if clockRate \<le> 0 then H264ClockRate else clockRate))"

definition take_sample :: "sample_in \<Rightarrow> h264_stream_in \<Rightarrow> h264_stream_in \<times> stream_effect list" where
  "take_sample s h =
     (let n = hs_frames h + 1;
          keyframe = isH264Keyframe (smp_data (si_sample s));
          h1 = h\<lparr>hs_frames := n, hs_stats := map_option (\<lambda>t. t\<lparr>vt_in_frames := vt_in_frames t + 1\<rparr>) (hs_stats h)\<rparr>;
          logged = (if hs_logs h \<and> (n \<le> 3 \<or> n mod 150 = 0 \<or> keyframe)
                    then [FrameAssembled n (length (smp_data (si_sample s))) keyframe (smp_duration (si_sample s)) (si_dropped s)]
                    else [])
      in (h1, logged @ (if hs_callback h then [SampleOut (si_sample s)]
                        else if hs_logs h then [FrameDropped n keyframe] else [])))"

text \<open>\<open>popped\<close>: the samples the builder gives up after the packet was pushed.\<close>

definition Stream_HandleRTP ::
  "u8 list \<times> sample_in list \<Rightarrow> h264_stream_in \<Rightarrow> h264_stream_in \<times> stream_effect list" where
  "Stream_HandleRTP p h =
     (case p of (payload, popped) \<Rightarrow>
        run take_sample popped
          (h\<lparr>hs_stats := map_option (\<lambda>t. t\<lparr>vt_in_packets := vt_in_packets t + 1,
               vt_in_bytes := vt_in_bytes t + of_nat (length payload)\<rparr>) (hs_stats h)\<rparr>))"

section \<open>The grid\<close>

text \<open>The least \<open>c\<close> from which on \<open>c * c\<close> reaches \<open>n\<close>: \<open>math.Ceil(math.Sqrt(n))\<close> when started from zero.\<close>

function ceil_sqrt_from :: "nat \<Rightarrow> nat \<Rightarrow> nat" where
  "ceil_sqrt_from n c = (if n \<le> c * c then c else ceil_sqrt_from n (Suc c))"
  by pat_completeness auto
termination
proof (relation "measure (\<lambda>(n, c). n - c)")
  fix n c :: nat
  assume "\<not> n \<le> c * c"
  moreover have "c \<le> c * c" by (cases c) simp_all
  ultimately have "c < n" by linarith
  then show "((n, Suc c), n, c) \<in> measure (\<lambda>(n, c). n - c)" by simp
qed simp

declare ceil_sqrt_from.simps [simp del]

definition gridDims :: "int \<Rightarrow> nat \<times> nat" where
  "gridDims n =
     (if n \<le> 0 then (0, 0)
      else (let cols = ceil_sqrt_from (nat n) 0 in (cols, (nat n + cols - 1) div cols)))"

section \<open>Lemmas\<close>

subsection \<open>The packets of a frame\<close>

definition header_of :: "video_write \<Rightarrow> video_header" where
  "header_of e = (case e of Written hdr pl n \<Rightarrow> hdr | WriteRefused hdr pl \<Rightarrow> hdr)"

definition is_written :: "video_write \<Rightarrow> bool" where
  "is_written e = (case e of Written hdr pl n \<Rightarrow> True | WriteRefused hdr pl \<Rightarrow> False)"

definition payload_of :: "video_write \<Rightarrow> u8 list" where
  "payload_of e = (case e of Written hdr pl n \<Rightarrow> pl | WriteRefused hdr pl \<Rightarrow> pl)"

lemmas write_projections [simp] =
  header_of_def is_written_def payload_of_def

text \<open>The sequence numbers of the packets that were written.\<close>

definition sent_seqs :: "video_write list \<Rightarrow> u16 list" where
  "sent_seqs es = map (vh_seq \<circ> header_of) (filter is_written es)"

lemma sent_seqs_simps [simp]:
  "sent_seqs [] = []"
  "sent_seqs (Written hdr pl n # es) = vh_seq hdr # sent_seqs es"
  "sent_seqs (WriteRefused hdr pl # es) = sent_seqs es"
  "sent_seqs (xs @ ys) = sent_seqs xs @ sent_seqs ys"
  by (simp_all add: sent_seqs_def)

text \<open>The numbers that follow \<open>n\<close>, modulo \<open>2 ^ 16\<close>.\<close>

definition seqs_from :: "u16 \<Rightarrow> nat \<Rightarrow> u16 list" where
  "seqs_from n k = map (\<lambda>i. n + of_nat i) [0..<k]"

lemma seqs_from_simps [simp]: "seqs_from n 0 = []" "seqs_from n (Suc k) = n # seqs_from (n + 1) k"
  by (simp_all add: seqs_from_def upt_conv_Cons map_Suc_upt [symmetric] comp_def ac_simps del: upt_Suc)

lemma seqs_from_add: "seqs_from n (j + k) = seqs_from n j @ seqs_from (n + of_nat j) k"
  by (induction j arbitrary: n) (simp_all add: ac_simps)

lemma packet_updates [simp]:
  "hw_seq (count_written n h) = hw_seq h + 1" "hw_ts (count_written n h) = hw_ts h"
  "hw_pt (count_written n h) = hw_pt h" "hw_ssrc (count_written n h) = hw_ssrc h"
  "hw_seq (count_frame key h) = hw_seq h" "hw_ts (count_frame key h) = hw_ts h"
  "hw_pt (count_frame key h) = hw_pt h" "hw_ssrc (count_frame key h) = hw_ssrc h"
  "hw_seq (frame_start s h) = hw_seq h" "hw_pt (frame_start s h) = hw_pt h" "hw_ssrc (frame_start s h) = hw_ssrc h"
  by (simp_all add: count_written_def count_frame_def frame_start_def)

lemma write_payloads_seqs:
  "case write_payloads wr i pls h of ((h', es), ok) \<Rightarrow>
     \<exists>k. sent_seqs es = seqs_from (hw_seq h) k \<and> hw_seq h' = hw_seq h + of_nat k"
proof (induction wr i pls h rule: write_payloads.induct)
  case (1 wr i h)
  show ?case by (auto intro: exI [of _ 0])
next
  case (2 wr i pl pls h)
  show ?case
  proof (cases "wr i")
    case None
    then show ?thesis by (auto intro: exI [of _ 0])
  next
    case (Some n)
    obtain h' es ok where w: "write_payloads wr (Suc i) pls (count_written n h) = ((h', es), ok)"
      by (metis surj_pair)
    with 2 [OF refl Some] obtain k where "sent_seqs es = seqs_from (hw_seq h + 1) k"
      "hw_seq h' = hw_seq h + 1 + of_nat k"
      by auto
    with Some w show ?thesis by (auto simp: packet_header_def ac_simps intro: exI [of _ "Suc k"])
  qed
qed

text \<open>A frame whose packets are all taken is written whole, with the marker on its last packet only.\<close>

lemma write_payloads_whole:
  assumes "write_payloads wr i pls h = ((h', es), True)"
  shows "map payload_of es = pls" "list_all is_written es"
    "map (vh_marker \<circ> header_of) es = map (\<lambda>j. j + 1 = length pls) [0..<length pls]"
    "list_all (\<lambda>e. vh_ts (header_of e) = hw_ts h \<and> vh_pt (header_of e) = hw_pt h \<and> vh_ssrc (header_of e) = hw_ssrc h) es"
  using assms
proof (induction wr i pls h arbitrary: h' es rule: write_payloads.induct)
  case (2 wr i pl pls h)
  {
    case 1
    with "2.IH" show ?case by (auto simp: Let_def split: option.splits prod.splits)
  next
    case 2
    with "2.IH" show ?case by (auto simp: Let_def split: option.splits prod.splits)
  next
    case 3
    have shift: "map (\<lambda>j. j = length pls) [0..<Suc (length pls)]
        = (pls = []) # map (\<lambda>j. Suc j = length pls) [0..<length pls]"
      by (simp add: upt_conv_Cons map_Suc_upt [symmetric] comp_def del: upt_Suc)
    from 3 "2.IH"(3) show ?case
      by (auto simp: Let_def shift packet_header_def simp del: upt_Suc split: option.splits prod.splits)
  next
    case 4
    with "2.IH"(4) show ?case by (auto simp: Let_def packet_header_def split: option.splits prod.splits)
  }
qed simp_all

lemma write_payloads_ts: "hw_ts (fst (fst (write_payloads wr i pls h))) = hw_ts h"
  by (induction wr i pls h rule: write_payloads.induct) (auto simp: Let_def split_def split: option.splits)

lemma WriteVideoSample_seqs:
  "case WriteVideoSample f h of ((h', es), ok) \<Rightarrow>
     \<exists>k. sent_seqs es = seqs_from (hw_seq h) k \<and> hw_seq h' = hw_seq h + of_nat k"
  using write_payloads_seqs [where wr = "vf_write f" and i = 0
      and pls = "vf_payload f videoMTU (smp_data (vf_sample f))" and h = "frame_start (vf_sample f) h"]
  by (auto simp: WriteVideoSample_def Let_def split: prod.splits bool.splits intro: exI [of _ 0])

definition numbered :: "u16 \<Rightarrow> video_write list \<Rightarrow> h264_writer \<Rightarrow> bool" where
  "numbered n es h = (sent_seqs es = seqs_from n (length (sent_seqs es))
     \<and> hw_seq h = n + of_nat (length (sent_seqs es)))"

lemma numbered_step:
  assumes "numbered n tr h"
  shows "numbered n (tr @ snd (fst (WriteVideoSample f h))) (fst (fst (WriteVideoSample f h)))"
proof -
  obtain h' es ok where w: "WriteVideoSample f h = ((h', es), ok)" by (metis surj_pair)
  with WriteVideoSample_seqs [where f = f and h = h] obtain k where
    k: "sent_seqs es = seqs_from (hw_seq h) k" "hw_seq h' = hw_seq h + of_nat k" by auto
  have "length (seqs_from n j) = j" for n j by (simp add: seqs_from_def)
  with assms k w show ?thesis by (auto simp: numbered_def seqs_from_add)
qed

interpretation packets: traced "\<lambda>f h. fst (WriteVideoSample f h)" "numbered n" for n
  by unfold_locales (rule numbered_step)

subsection \<open>The key frame test\<close>

definition start_at :: "u8 list \<Rightarrow> nat \<Rightarrow> bool" where
  "start_at d j = (j + 2 < length d \<and> d ! j = 0 \<and> d ! (j + 1) = 0 \<and> d ! (j + 2) = 1)"

lemma next_start_Some:
  "i \<le> k \<Longrightarrow> start_at d k \<Longrightarrow> (\<And>j. i \<le> j \<Longrightarrow> j < k \<Longrightarrow> \<not> start_at d j) \<Longrightarrow> next_start i d = Some k"
proof (induction i d rule: next_start.induct)
  case (1 i d)
  then have "i + 2 < length d" by (simp add: start_at_def)
  show ?case
  proof (cases "i = k")
    case True
    with 1 show ?thesis by (subst next_start.simps) (simp add: start_at_def)
  next
    case False
    with 1 have "\<not> start_at d i" by simp
    with \<open>i + 2 < length d\<close> False 1 show ?thesis by (subst next_start.simps) (simp add: start_at_def)
  qed
qed

lemma next_start_None: "(\<And>j. i \<le> j \<Longrightarrow> \<not> start_at d j) \<Longrightarrow> next_start i d = None"
proof (induction i d rule: next_start.induct)
  case (1 i d)
  then have "\<not> start_at d i" by simp
  with 1 show ?case by (subst next_start.simps) (auto simp: start_at_def)
qed

text \<open>
  An access unit as an encoder writes it: each NAL unit, a header byte and a payload, behind a start code
  of four bytes or three. Emulation prevention keeps start codes out of payloads, and a payload does not
  end in a zero byte.
\<close>

type_synonym nal_unit = "bool \<times> u8 \<times> u8 list"

definition nal_type :: "nal_unit \<Rightarrow> u8" where
  "nal_type u = fst (snd u) AND 0x1f"

definition nal_clean :: "nal_unit \<Rightarrow> bool" where
  "nal_clean u = (case u of (_, _, p) \<Rightarrow>
     list_all (\<lambda>j. \<not> start_at p j) [0..<length p] \<and> (p = [] \<or> last p \<noteq> 0))"

fun annexb :: "nal_unit list \<Rightarrow> u8 list" where
  "annexb [] = []"
| "annexb ((four, b, p) # us) = (if four then [0] else []) @ [0, 0, 1] @ b # p @ annexb us"

definition leading_idr :: "nal_unit list \<Rightarrow> bool" where
  "leading_idr us =
     (case dropWhile (\<lambda>u. nal_type u = 6 \<or> nal_type u = 7 \<or> nal_type u = 8) us of
        [] \<Rightarrow> False | u # _ \<Rightarrow> nal_type u = 5)"

lemma strip_annexb: "strip_start (annexb ((four, b, p) # us)) = Some (b # p @ annexb us)"
  by (simp add: strip_start_def)

lemma strip_short: "strip_start ([0, 0, 1] @ r) = Some r"
  by (simp add: strip_start_def)

text \<open>No start code begins inside a clean payload, also not one that reaches into what follows.\<close>

lemma no_start_inside:
  assumes "nal_clean (four, b, p)" and "j < length p" and "rest = [] \<or> (\<exists>r. rest = [0, 0] @ r)"
  shows "\<not> start_at (p @ rest) j"
proof
  assume s: "start_at (p @ rest) j"
  have "p \<noteq> []" using assms(2) by auto
  with assms(1,2) have last_p: "p ! (length p - 1) \<noteq> 0" and clean: "\<not> start_at p j"
    by (auto simp: nal_clean_def last_conv_nth list_all_iff)
  consider "j + 2 < length p" | "j + 1 = length p" | "j + 2 = length p" using assms(2) by linarith
  then show False
  proof cases
    case 1
    with s clean show False by (simp add: start_at_def nth_append)
  next
    case 2
    then have "length p - 1 = j" by simp
    with s last_p assms(2) show False by (simp add: start_at_def nth_append)
  next
    case 3
    then have "length p - 1 = j + 1" by simp
    with s last_p 3 show False by (simp add: start_at_def nth_append)
  qed
qed

lemma start_at_Suc: "start_at (b # d) (Suc j) = start_at d j"
  by (simp add: start_at_def)

lemma annexb_front: "us \<noteq> [] \<Longrightarrow> \<exists>r. annexb us = [0, 0] @ r"
  by (cases us rule: annexb.cases) auto

lemma next_unit:
  assumes "nal_clean (four, b, p)"
  shows "next_start 1 (b # p) = None"
    and "next_start 1 (b # p @ annexb ((four', b', p') # us))
      = Some (1 + length p + (if four' then 1 else 0))"
proof -
  have "\<not> start_at (b # p) j" if "1 \<le> j" for j
  proof (cases j)
    case (Suc k)
    with no_start_inside [OF assms, of k "[]"] show ?thesis
      by (cases "k < length p") (simp_all add: start_at_Suc, simp add: start_at_def)
  qed (use that in simp)
  then show "next_start 1 (b # p) = None" by (rule next_start_None)
  let ?d = "p @ annexb ((four', b', p') # us)"
  obtain r where "annexb ((four', b', p') # us) = [0, 0] @ r" using annexb_front by blast
  then have inside: "\<not> start_at ?d j" if "j < length p" for j
    using no_start_inside [OF assms that, of "annexb ((four', b', p') # us)"] by blast
  have not_before: "\<not> start_at ?d (length p)" if "four'"
    using that by (simp add: start_at_def nth_append)
  have found: "start_at ?d (length p + (if four' then 1 else 0))"
    by (simp add: start_at_def nth_append)
  show "next_start 1 (b # ?d) = Some (1 + length p + (if four' then 1 else 0))"
  proof (rule next_start_Some)
    show "start_at (b # ?d) (1 + length p + (if four' then 1 else 0))"
      using found by (simp add: start_at_Suc)
    fix j
    assume j: "1 \<le> j" "j < 1 + length p + (if four' then 1 else 0)"
    then obtain k where k: "j = Suc k" by (cases j) simp_all
    with j inside not_before show "\<not> start_at (b # ?d) j"
      by (cases "k < length p") (auto simp: start_at_Suc split: if_splits simp: less_Suc_eq)
  qed simp
qed

lemma drop_next_unit:
  "drop (1 + length p + (if four' then 1 else 0)) (b # p @ annexb ((four', b', p') # us))
    = annexb ((False, b', p') # us)"
  by simp

lemma isH264Keyframe_unit:
  "isH264Keyframe (annexb ((four, b, p) # us)) =
     (if b AND 0x1f = 5 then True
      else if b AND 0x1f = 6 \<or> b AND 0x1f = 7 \<or> b AND 0x1f = 8
      then (case next_start 1 (b # p @ annexb us) of
              None \<Rightarrow> False | Some i \<Rightarrow> isH264Keyframe (drop i (b # p @ annexb us)))
      else False)"
  by (subst isH264Keyframe.simps) (simp add: strip_annexb Let_def del: annexb.simps)

lemma isH264Keyframe_units: "list_all nal_clean us \<Longrightarrow> isH264Keyframe (annexb us) = leading_idr us"
proof (induction us rule: length_induct)
  case (1 us)
  show ?case
  proof (cases us)
    case Nil
    then show ?thesis by (simp add: isH264Keyframe.simps strip_start_def leading_idr_def)
  next
    case (Cons u us')
    obtain four b p where u: "u = (four, b, p)" by (metis prod_cases3)
    have clean: "nal_clean (four, b, p)" using "1.prems" Cons u by simp
    note unit = isH264Keyframe_unit [of four b p us', folded u, folded Cons]
    show ?thesis
    proof (cases "b AND 0x1f = 6 \<or> b AND 0x1f = 7 \<or> b AND 0x1f = 8")
      case False
      then show ?thesis unfolding unit by (simp add: Cons u leading_idr_def nal_type_def)
    next
      case True
      then have skip: "b AND 0x1f \<noteq> 5" by auto
      show ?thesis
      proof (cases us')
        case Nil
        with True skip next_unit(1) [OF clean] show ?thesis
          unfolding unit by (simp add: Cons u leading_idr_def nal_type_def)
      next
        case (Cons v us'')
        obtain four' b' p' where v: "v = (four', b', p')" by (metis prod_cases3)
        let ?rest = "(False, b', p') # us''"
        have "isH264Keyframe (annexb us) = isH264Keyframe (annexb ?rest)"
          unfolding unit using True skip next_unit(2) [OF clean, of four' b' p' us'']
            drop_next_unit [of p four' b b' p' us'']
          by (simp add: Cons v del: annexb.simps drop_append drop_Suc_Cons)
        also have "\<dots> = leading_idr ?rest"
        proof (rule "1.IH" [rule_format])
          have "nal_clean (False, b', p') = nal_clean (four', b', p')" by (simp add: nal_clean_def)
          with "1.prems" show "list_all nal_clean ?rest" by (simp add: \<open>us = u # us'\<close> Cons v)
        qed (simp add: \<open>us = u # us'\<close> Cons)
        also have "\<dots> = leading_idr us"
          using True by (simp add: \<open>us = u # us'\<close> u Cons v leading_idr_def nal_type_def)
        finally show ?thesis .
      qed
    qed
  qed
qed

subsection \<open>The dimensions of the grid\<close>

lemma ceil_sqrt_from_least:
  "n \<le> ceil_sqrt_from n c * ceil_sqrt_from n c \<and> (\<forall>d. c \<le> d \<and> d < ceil_sqrt_from n c \<longrightarrow> d * d < n)"
proof (induction n c rule: ceil_sqrt_from.induct)
  case (1 n c)
  show ?case
  proof (cases "n \<le> c * c")
    case True
    then show ?thesis by (simp add: ceil_sqrt_from.simps [of n c])
  next
    case False
    with 1 have IH: "n \<le> ceil_sqrt_from n (Suc c) * ceil_sqrt_from n (Suc c)"
      "\<And>d. Suc c \<le> d \<Longrightarrow> d < ceil_sqrt_from n (Suc c) \<Longrightarrow> d * d < n" by auto
    have "d * d < n" if "c \<le> d" "d < ceil_sqrt_from n (Suc c)" for d
      using that False IH(2) [of d] by (cases "d = c") auto
    with IH(1) False show ?thesis by (simp add: ceil_sqrt_from.simps [of n c])
  qed
qed

lemma ceil_sqrt_from_real: "int (ceil_sqrt_from n 0) = \<lceil>sqrt (real n)\<rceil>"
proof -
  let ?c = "ceil_sqrt_from n 0"
  have up: "n \<le> ?c * ?c" and least: "\<And>d. d < ?c \<Longrightarrow> d * d < n"
    using ceil_sqrt_from_least [of n 0] by auto
  have "real n \<le> real ?c * real ?c" using up by (metis of_nat_le_iff of_nat_mult)
  then have "sqrt (real n) \<le> real ?c" by (simp add: real_le_lsqrt power2_eq_square)
  moreover have "real ?c - 1 < sqrt (real n)"
  proof (cases ?c)
    case (Suc d)
    then have "d * d < n" using least by simp
    then have "real d * real d < real n" by (metis of_nat_less_iff of_nat_mult)
    with Suc show ?thesis by (simp add: real_less_rsqrt power2_eq_square)
  qed (use up in simp)
  ultimately show ?thesis by (simp add: ceiling_eq_iff [symmetric] eq_commute ceiling_unique)
qed

lemma ceil_div_real:
  assumes "0 < c"
  shows "int ((n + c - 1) div c) = \<lceil>real n / real c\<rceil>"
proof -
  let ?q = "(n + c - 1) div c"
  have div: "n + c - 1 = c * ?q + (n + c - 1) mod c" and m: "(n + c - 1) mod c < c"
    using assms by (simp_all only: mult_div_mod_eq mod_less_divisor)
  then have "n \<le> c * ?q" and low: "c * ?q < n + c" using assms by linarith+
  then have "real n \<le> real c * real ?q" "real c * real ?q < real n + real c"
    by (metis of_nat_le_iff of_nat_mult, metis of_nat_less_iff of_nat_mult of_nat_add)
  with assms have "real n / real c \<le> real ?q" "real ?q - 1 < real n / real c"
    by (simp_all add: field_simps)
  then have "\<lceil>real n / real c\<rceil> = int ?q" by (intro ceiling_unique) simp_all
  then show ?thesis by simp
qed

lemma gridDims_cells:
  assumes "0 < n" and "gridDims n = (cols, rows)"
  shows "0 < cols" "0 < rows" "nat n \<le> cols * rows" "cols * (rows - 1) < nat n" "rows \<le> cols"
proof -
  from assms have cols: "cols = ceil_sqrt_from (nat n) 0" and rows: "rows = (nat n + cols - 1) div cols"
    by (auto simp: gridDims_def Let_def)
  have up: "nat n \<le> cols * cols" using ceil_sqrt_from_least [of "nat n" 0] by (simp add: cols)
  then show pos: "0 < cols" using assms(1) by (cases cols) auto
  have div: "nat n + cols - 1 = cols * rows + (nat n + cols - 1) mod cols"
    and m: "(nat n + cols - 1) mod cols < cols"
    using pos by (simp_all only: rows mult_div_mod_eq mod_less_divisor)
  then show fits: "nat n \<le> cols * rows" using pos by linarith
  then show "0 < rows" using assms(1) by (cases rows) auto
  have low: "cols * rows < nat n + cols" using div pos assms(1) by linarith
  then show "cols * (rows - 1) < nat n" using \<open>0 < rows\<close> by (cases rows) auto
  have "cols * rows < cols * (cols + 1)" using low up by simp
  then have "rows < cols + 1" by (simp only: mult_less_cancel1)
  then show "rows \<le> cols" by simp
qed

section \<open>Properties\<close>

text \<open>
  The packets the SIP video writer has written, over any sequence of frames, of answers of the RTP
  stream and of results of the payloader, carry consecutive sequence numbers modulo \<open>2 ^ 16\<close>, also across
  frames and after frames that were cut short by a failed write, and the writer's counter is the number
  after the last.
\<close>

theorem video_packets_numbered:
  "case write_frames fs h of (h', es) \<Rightarrow>
     sent_seqs es = seqs_from (hw_seq h) (length (sent_seqs es))
     \<and> hw_seq h' = hw_seq h + of_nat (length (sent_seqs es))"
  using packets.run_rel_start [where n = "hw_seq h" and s = h and as = fs] by (simp add: numbered_def split_def)

text \<open>
  C34. A frame of the encoder whose packets the stream takes is sent whole: the payloads of the payloader in
  their order, all with the frame's timestamp, the payload type and the SSRC of the stream, and with the
  marker on the last packet and on no other.
\<close>

theorem video_frame_whole:
  assumes "smp_data (vf_sample f) \<noteq> []" and "WriteVideoSample f h = ((h', es), True)"
  shows "map payload_of es = vf_payload f 1200 (smp_data (vf_sample f))
     \<and> map (vh_marker \<circ> header_of) es = map (\<lambda>j. j + 1 = length es) [0..<length es]
     \<and> list_all (\<lambda>e. is_written e \<and> vh_ts (header_of e) = hw_ts h' \<and> vh_pt (header_of e) = hw_pt h
           \<and> vh_ssrc (header_of e) = hw_ssrc h) es"
proof -
  let ?h = "frame_start (vf_sample f) h" and ?pls = "vf_payload f 1200 (smp_data (vf_sample f))"
  obtain h1 where w: "write_payloads (vf_write f) 0 ?pls ?h = ((h1, es), True)" and h': "h' = count_frame (smp_key (vf_sample f)) h1"
    using assms by (auto simp: WriteVideoSample_def videoMTU_def Let_def split: prod.splits bool.splits)
  note whole = write_payloads_whole [OF w]
  have "length es = length ?pls" using whole(1) by (metis length_map)
  moreover have "hw_ts h1 = hw_ts ?h" using write_payloads_ts [of "vf_write f" 0 ?pls ?h] by (simp add: w)
  ultimately show ?thesis using whole by (auto simp: h' list_all_iff)
qed

definition sample_frame :: video_frame where
  "sample_frame =
     \<lparr>vf_sample = \<lparr>smp_data = [0, 0, 1, 0x65, 7, 9], smp_duration = 33333333, smp_key = True\<rparr>,
      vf_payload = (\<lambda>_ d. [take 2 (drop 3 d), drop 5 d]), vf_write = (\<lambda>_. Some 13)\<rparr>"

lemma video_frame_whole_witness:
  "case fst (WriteVideoSample sample_frame (newH264RTPWriter 96 90000 30 None 5 0x1ffff 0)) of (h', es) \<Rightarrow>
     map payload_of es = vf_payload sample_frame 1200 (smp_data (vf_sample sample_frame))
     \<and> map (vh_marker \<circ> header_of) es = map (\<lambda>j. j + 1 = length es) [0..<length es]
     \<and> list_all (\<lambda>e. is_written e \<and> vh_ts (header_of e) = hw_ts h' \<and> vh_pt (header_of e) = 96
           \<and> vh_ssrc (header_of e) = 5) es"
proof -
  let ?h = "newH264RTPWriter 96 90000 30 None 5 0x1ffff 0"
  obtain h' es ok where r: "WriteVideoSample sample_frame ?h = ((h', es), ok)" by (metis surj_pair)
  have "snd (WriteVideoSample sample_frame ?h)" by code_simp
  with r have "WriteVideoSample sample_frame ?h = ((h', es), True)" by simp
  moreover have "smp_data (vf_sample sample_frame) \<noteq> []" by (simp add: sample_frame_def)
  ultimately show ?thesis using video_frame_whole [of sample_frame ?h h' es]
    by (simp add: newH264RTPWriter_def Let_def)
qed

text \<open>
  C35. The key frame test agrees with the reading of the access unit as NAL units: on any sequence of units,
  each behind a three- or four-byte start code and with payloads that emulation prevention keeps clean, it
  says yes exactly if the first unit that is not SEI, SPS or PPS is an IDR slice.
\<close>

theorem keyframe_reads_units:
  assumes "list_all nal_clean us"
  shows "isH264Keyframe (annexb us) = leading_idr us"
  using assms by (rule isH264Keyframe_units)

lemma keyframe_reads_units_witness:
  "isH264Keyframe (annexb [(True, 0x67, [0x42, 0, 0x1e]), (False, 0x68, [0xce]), (True, 0x65, [0x88])])
   \<and> \<not> isH264Keyframe (annexb [(True, 0x67, [0x42]), (False, 0x41, [0x9a])])"
  by (subst (1 2) keyframe_reads_units; code_simp)

text \<open>An access unit that opens with an access unit delimiter is not recognised, although it holds an IDR slice.\<close>

lemma keyframe_after_delimiter:
  "\<not> isH264Keyframe (annexb [(True, 9, [0xf0]), (True, 0x67, [0x42]), (True, 0x68, [0xce]), (True, 0x65, [0x88])])"
  by code_simp

text \<open>
  The grid for \<open>n\<close> tiles has \<open>\<lceil>\<surd>n\<rceil>\<close> columns and \<open>\<lceil>n / columns\<rceil>\<close> rows, is at least as wide as it is
  high, has a cell for every tile and no empty row.
\<close>

theorem grid_holds_tiles:
  assumes "0 < n"
  shows "case gridDims n of (cols, rows) \<Rightarrow>
     int cols = \<lceil>sqrt (real_of_int n)\<rceil> \<and> int rows = \<lceil>real_of_int n / real cols\<rceil>
     \<and> rows \<le> cols \<and> n \<le> int (cols * rows) \<and> int (cols * (rows - 1)) < n"
proof -
  obtain cols rows where g: "gridDims n = (cols, rows)" by (metis surj_pair)
  note cells = gridDims_cells [OF assms g]
  have "cols = ceil_sqrt_from (nat n) 0" "rows = (nat n + cols - 1) div cols"
    using assms g by (auto simp: gridDims_def Let_def)
  with ceil_sqrt_from_real [of "nat n"] ceil_div_real [OF cells(1), of "nat n"] assms
  have "int cols = \<lceil>sqrt (real_of_int n)\<rceil>" "int rows = \<lceil>real_of_int n / real cols\<rceil>" by simp_all
  with cells assms show ?thesis by (simp add: g nat_le_iff zless_nat_eq_int_zless [symmetric] del: of_nat_mult)
qed

lemma grid_holds_tiles_witness: "gridDims 5 = (3, 2) \<and> \<lceil>sqrt (real_of_int 5)\<rceil> = 3"
proof -
  have "gridDims 5 = (3, 2)" by code_simp
  with grid_holds_tiles [of 5] show ?thesis by simp
qed

end
