(* ===== verification/Compositor.thy ===== *)
theory Compositor
  imports Video_Rtp "HOL-Library.Char_ord" "HOL-Library.List_Lexorder"
begin

text \<open>
  \<open>pkg/media/video/gst.go\<close>: the compositor that lays the video of the participants of a room out on one
  canvas. Its pipeline is GStreamer's; modelled is what the code decides: the settings and the order of the
  elements, which tiles there are, where each one is placed, when a branch of the pipeline is added and
  torn down, and the time stamp of every pushed packet. What GStreamer answers (an element or a pad that
  cannot be made, the clock, the result of a push) is an argument of the operation.

  The inputs handed out are objects: \<open>gc_objs\<close> holds every input ever made, the table \<open>gc_inputs\<close>
  (\<open>c.inputs\<close>) names the live ones by index. Adding, removing and closing run under the compositor's mutex and
  are one step each. \<open>WriteRTP\<close> takes no lock: it is two steps, the test of the input's flag and the push, and
  anything may come in between. Only the goroutine of its track writes to an input, so at most one write of an
  input is under way. Logging, and the log of the pipeline's bus, are left out.
\<close>

section \<open>State\<close>

record tile =
  tl_x :: int
  tl_y :: int
  tl_w :: int
  tl_h :: int

text \<open>\<open>gi_writing\<close> is the packet of a \<open>WriteRTP\<close> that has passed the test and has not pushed yet. \<open>gi_tile\<close> is the place and the size the pad of the compositor was given, \<open>gi_ratio\<close> the ratio of the cropper.\<close>

record gst_input =
  gi_id :: string
  gi_kind :: input_kind
  gi_elems :: "string list"
  gi_crop :: bool
  gi_closed :: bool
  gi_pkts :: u64
  gi_writing :: "u8 list option"
  gi_tile :: "tile option"
  gi_ratio :: "(int \<times> int) option"

record compositor =
  gc_cfg :: video_out_config
  gc_objs :: "gst_input list"
  gc_inputs :: "(string \<times> nat) list"
  gc_closed :: bool
  gc_pts_base :: "nanos option"

datatype add_fault = NoSource | NoDepay | NoDecoder | NotAdded | NotLinked | NoPad | PadNotLinked

datatype add_error =
    UnsupportedCodec input_codec
  | CompositorClosed
  | InputExists string
  | GstFault add_fault

datatype gst_effect =
    SourceCaps string
  | BranchAdded string "string list"
  | PadTaken string
  | AddRefused add_error
  | BranchRemoved string
  | BufferPushed nat u64 "u8 list"
  | KeyUnitSent
  | StopSignalled
  | PipelineStopped

section \<open>Making the pipeline\<close>

text \<open>The steps of \<open>NewCompositor\<close> in their order; the first that fails is the error returned.\<close>

definition pipeline_steps :: "string list" where
  "pipeline_steps = [''pipeline'', ''compositor'', ''videoconvert'', ''videorate'', ''raw capsfilter'', ''x264enc'',
     ''encoded capsfilter'', ''appsink'', ''add'', ''link'', ''play'']"

record encoder_settings =
  es_raw_caps :: string
  es_bitrate :: u64
  es_key_int_max :: u64

definition encoder_for :: "video_out_config \<Rightarrow> encoder_settings" where
  "encoder_for cfg =
     \<lparr>es_raw_caps = ''video/x-raw,format=I420,width='' @ itoa (vo_width cfg) @ '',height='' @ itoa (vo_height cfg)
        @ '',framerate='' @ itoa (vo_fps cfg) @ ''/1'',
      es_bitrate = word_of_int (vo_bitrate cfg),
      es_key_int_max = word_of_int (vo_fps cfg * (vo_keyframe cfg div second))\<rparr>"

definition NewCompositor ::
  "(string \<Rightarrow> bool) \<Rightarrow> video_out_config \<Rightarrow> string + compositor \<times> encoder_settings" where
  "NewCompositor fails cfg =
     (let cfg = WithDefaults cfg in
      case List.find fails pipeline_steps of
        Some step \<Rightarrow> Inl step
      | None \<Rightarrow> Inr (\<lparr>gc_cfg = cfg, gc_objs = [], gc_inputs = [], gc_closed = False, gc_pts_base = None\<rparr>, encoder_for cfg))"

datatype flow = FlowOK | FlowEOS

record gst_buffer =
  gb_data :: "u8 list"
  gb_duration :: "nanos option"
  gb_delta :: bool

definition clockTimeToDuration :: "nanos option \<Rightarrow> nanos" where
  "clockTimeToDuration ct = (case ct of None \<Rightarrow> 0 | Some d \<Rightarrow> d)"

text \<open>The callback of the sink: the sample pulled, with its buffer if it has one.\<close>

definition sink_sample :: "gst_buffer option option \<Rightarrow> flow \<times> video_sample option" where
  "sink_sample s =
     (case s of
        None \<Rightarrow> (FlowEOS, None)
      | Some None \<Rightarrow> (FlowOK, None)
      | Some (Some b) \<Rightarrow>
          if gb_data b = [] then (FlowOK, None)
          else (FlowOK, Some \<lparr>smp_data = gb_data b, smp_duration = clockTimeToDuration (gb_duration b),
                              smp_key = (\<not> gb_delta b)\<rparr>))"

section \<open>Layout\<close>

definition grid_tile :: "nat \<Rightarrow> int \<Rightarrow> int \<Rightarrow> int \<Rightarrow> int \<Rightarrow> nat \<Rightarrow> tile" where
  "grid_tile cols tileW tileH xOff yOff i =
     \<lparr>tl_x = xOff + int (i mod cols) * tileW, tl_y = yOff + int (i div cols) * tileH, tl_w = tileW, tl_h = tileH\<rparr>"

text \<open>The tile of each of the inputs, an object of the store, in the rectangle given.\<close>

definition layoutGrid :: "nat list \<Rightarrow> int \<Rightarrow> int \<Rightarrow> int \<Rightarrow> int \<Rightarrow> (nat \<times> tile) list" where
  "layoutGrid inputs xOff yOff w h =
     (let n = length inputs in
      if n = 0 then []
      else (let cols = ceil_sqrt_from n 0;
                rows = (n + cols - 1) div cols;
                tileW = w div int cols;
                tileH = h div int rows
            in zip inputs (map (grid_tile cols tileW tileH xOff yOff) [0..<n])))"

definition place :: "tile \<Rightarrow> gst_input \<Rightarrow> gst_input" where
  "place t i =
     i\<lparr>gi_tile := Some t, gi_ratio := (if gi_crop i then Some (tl_w t, tl_h t) else gi_ratio i)\<rparr>"

fun place_all :: "(nat \<times> tile) list \<Rightarrow> gst_input list \<Rightarrow> gst_input list" where
  "place_all [] objs = objs"
| "place_all ((k, t) # kts) objs = place_all kts (objs[k := place t (objs ! k)])"

definition is_screen :: "compositor \<Rightarrow> nat \<Rightarrow> bool" where
  "is_screen c k = (gi_kind (gc_objs c ! k) = KindScreenShare)"

definition relayoutLocked :: "compositor \<Rightarrow> compositor" where
  "relayoutLocked c =
     (if gc_inputs c = [] then c
      else (let all = map snd (sort_key fst (gc_inputs c));
                screens = filter (is_screen c) all;
                cameras = filter (\<lambda>k. \<not> is_screen c k) all;
                W = vo_width (gc_cfg c);
                H = vo_height (gc_cfg c)
            in c\<lparr>gc_objs := place_all
                   (if screens \<noteq> [] then layoutGrid screens 0 0 W H @ layoutGrid cameras (- W) 0 W H
                    else layoutGrid cameras 0 0 W H) (gc_objs c)\<rparr>))"

section \<open>Inputs\<close>

definition depayDecodeFor :: "input_codec \<Rightarrow> (string \<times> string) option" where
  "depayDecodeFor codec =
     (case codec of
        CodecVP8 \<Rightarrow> Some (''rtpvp8depay'', ''vp8dec'')
      | CodecVP9 \<Rightarrow> Some (''rtpvp9depay'', ''vp9dec'')
      | CodecH264 \<Rightarrow> Some (''rtph264depay'', ''avdec_h264'')
      | CodecUnknown \<Rightarrow> None)"

record input_request =
  ir_id :: string
  ir_codec :: input_codec
  ir_clock :: int
  ir_pt :: int
  ir_label :: string
  ir_kind :: input_kind

definition source_caps :: "input_request \<Rightarrow> string" where
  "source_caps r =
     ''application/x-rtp,media=video,encoding-name='' @ (if ir_codec r = CodecUnknown then [] else codec_String (ir_codec r))
       @ '',clock-rate='' @ itoa (if ir_clock r \<le> 0 then 90000 else ir_clock r)
       @ '',payload='' @ itoa (if ir_pt r \<le> 0 then 96 else ir_pt r)"

text \<open>The chain of a tile. The cropper is left out when GStreamer does not have it.\<close>

definition tile_elements :: "bool \<Rightarrow> string \<times> string \<Rightarrow> string \<Rightarrow> string list" where
  "tile_elements crop dd label =
     [''appsrc'', ''rtpjitterbuffer'', fst dd, snd dd, ''videoflip'', ''videoconvert'']
       @ (if crop then [''aspectratiocrop''] else []) @ [''videoscale'', ''capsfilter'']
       @ (if label \<noteq> [] then [''textoverlay''] else []) @ [''queue'']"

text \<open>
  \<open>fault\<close>: the first call to GStreamer that fails, if any. The result is the error, or the object of the
  new input.
\<close>

definition AddInput ::
  "add_fault option \<Rightarrow> bool \<Rightarrow> input_request \<Rightarrow> compositor \<Rightarrow> (compositor \<times> gst_effect list) \<times> (add_error + nat)" where
  "AddInput fault crop r c =
     (let refuse = (\<lambda>es e. ((c, es @ [AddRefused e]), Inl e)); caps = SourceCaps (source_caps r) in
      case depayDecodeFor (ir_codec r) of
        None \<Rightarrow> refuse [] (UnsupportedCodec (ir_codec r))
      | Some dd \<Rightarrow>
          if gc_closed c then refuse [] CompositorClosed
          else if map_of (gc_inputs c) (ir_id r) \<noteq> None then refuse [] (InputExists (ir_id r))
          else (let elems = tile_elements crop dd (ir_label r);
                    branch = BranchAdded (ir_id r) elems in
                case fault of
                  Some NoSource \<Rightarrow> refuse [] (GstFault NoSource)
                | Some NotAdded \<Rightarrow> refuse [caps] (GstFault NotAdded)
                | Some NoDepay \<Rightarrow> refuse [caps] (GstFault NoDepay)
                | Some NoDecoder \<Rightarrow> refuse [caps] (GstFault NoDecoder)
                | Some NotLinked \<Rightarrow> refuse [caps, branch] (GstFault NotLinked)
                | Some NoPad \<Rightarrow> refuse [caps, branch] (GstFault NoPad)
                | Some PadNotLinked \<Rightarrow> refuse [caps, branch, PadTaken (ir_id r)] (GstFault PadNotLinked)
                | None \<Rightarrow>
                    (let k = length (gc_objs c);
                         i = \<lparr>gi_id = ir_id r, gi_kind = ir_kind r, gi_elems = elems, gi_crop = crop, gi_closed = False,
                              gi_pkts = 0, gi_writing = None, gi_tile = None, gi_ratio = None\<rparr>;
                         c1 = c\<lparr>gc_objs := gc_objs c @ [i], gc_inputs := (ir_id r, k) # gc_inputs c\<rparr>
                     in ((relayoutLocked c1, [caps, branch, PadTaken (ir_id r)]), Inr k))))"

definition teardownLocked :: "nat \<Rightarrow> compositor \<Rightarrow> compositor \<times> gst_effect list" where
  "teardownLocked k c =
     (if gi_closed (gc_objs c ! k) then (c, [])
      else (c\<lparr>gc_objs := (gc_objs c)[k := (gc_objs c ! k)\<lparr>gi_closed := True\<rparr>]\<rparr>,
            [BranchRemoved (gi_id (gc_objs c ! k))]))"

definition unlist :: "string \<Rightarrow> compositor \<Rightarrow> compositor" where
  "unlist i c = c\<lparr>gc_inputs := filter (\<lambda>(j, _). j \<noteq> i) (gc_inputs c)\<rparr>"

definition RemoveInput :: "string \<Rightarrow> compositor \<Rightarrow> compositor \<times> gst_effect list" where
  "RemoveInput i c =
     (case map_of (gc_inputs c) i of
        None \<Rightarrow> (c, [])
      | Some k \<Rightarrow> (case teardownLocked k (unlist i c) of (c', es) \<Rightarrow> (relayoutLocked c', es)))"

text \<open>An input closes by its id.\<close>

definition Input_Close :: "nat \<Rightarrow> compositor \<Rightarrow> compositor \<times> gst_effect list" where
  "Input_Close k c = RemoveInput (gi_id (gc_objs c ! k)) c"

definition clock_none :: u64 where
  "clock_none = - 1"

text \<open>
  \<open>clock\<close>: the base time and the time of the pipeline's clock, if it has one; \<open>now\<close> the time of the call.
\<close>

definition buffer_pts :: "(u64 \<times> u64) option \<Rightarrow> nanos \<Rightarrow> nanos \<Rightarrow> u64" where
  "buffer_pts clock now base =
     (let elapsed = word_of_int (max 0 (now - base)) in
      case clock of
        None \<Rightarrow> elapsed
      | Some (b, t) \<Rightarrow> if t \<noteq> clock_none \<and> b \<noteq> clock_none \<and> b \<le> t then t - b else elapsed)"

text \<open>
  \<open>WriteRTP\<close>: a closed input takes the packet and drops it; otherwise the packet is on its way, and is pushed by
  the second step, whatever became of the input. The result of the push is \<open>GStreamer\<close>'s.
\<close>

definition write_begin :: "nat \<Rightarrow> u8 list \<Rightarrow> compositor \<Rightarrow> compositor" where
  "write_begin k pkt c =
     (let i = gc_objs c ! k in
      if gi_closed i \<or> gi_writing i \<noteq> None then c
      else c\<lparr>gc_objs := (gc_objs c)[k := i\<lparr>gi_pkts := gi_pkts i + 1, gi_writing := Some pkt\<rparr>]\<rparr>)"

definition write_push :: "(u64 \<times> u64) option \<Rightarrow> nanos \<Rightarrow> nat \<Rightarrow> compositor \<Rightarrow> compositor \<times> gst_effect list" where
  "write_push clock now k c =
     (case gi_writing (gc_objs c ! k) of
        None \<Rightarrow> (c, [])
      | Some pkt \<Rightarrow>
          (let base = (case gc_pts_base c of None \<Rightarrow> now | Some b \<Rightarrow> b) in
           (c\<lparr>gc_objs := (gc_objs c)[k := (gc_objs c ! k)\<lparr>gi_writing := None\<rparr>], gc_pts_base := Some base\<rparr>,
            [BufferPushed k (buffer_pts clock now base) pkt])))"

definition Comp_ForceKeyFrame :: "compositor \<Rightarrow> compositor \<times> gst_effect list" where
  "Comp_ForceKeyFrame c = (c, [KeyUnitSent])"

fun teardown_all :: "(string \<times> nat) list \<Rightarrow> compositor \<Rightarrow> compositor \<times> gst_effect list" where
  "teardown_all [] c = (c, [])"
| "teardown_all ((i, k) # iks) c =
     (case teardownLocked k c of (c1, es) \<Rightarrow> (case teardown_all iks (unlist i c1) of (c2, es') \<Rightarrow> (c2, es @ es')))"

definition Comp_Close :: "compositor \<Rightarrow> compositor \<times> gst_effect list" where
  "Comp_Close c =
     (if gc_closed c then (c, [])
      else (case teardown_all (gc_inputs c) (c\<lparr>gc_closed := True\<rparr>) of
              (c', es) \<Rightarrow> (c', StopSignalled # es @ [PipelineStopped])))"

datatype comp_op =
    AddTile "add_fault option" bool input_request
  | RemoveTile string
  | CloseTile nat
  | WriteBegins nat "u8 list"
  | WritePushes "(u64 \<times> u64) option" nanos nat
  | ForceKey
  | CloseCompositor

fun comp_step :: "comp_op \<Rightarrow> compositor \<Rightarrow> compositor \<times> gst_effect list" where
  "comp_step (AddTile fault crop r) c = fst (AddInput fault crop r c)"
| "comp_step (RemoveTile i) c = RemoveInput i c"
| "comp_step (CloseTile k) c = (if k < length (gc_objs c) then Input_Close k c else (c, []))"
| "comp_step (WriteBegins k pkt) c = (if k < length (gc_objs c) then write_begin k pkt c else c, [])"
| "comp_step (WritePushes clock now k) c = (if k < length (gc_objs c) then write_push clock now k c else (c, []))"
| "comp_step ForceKey c = Comp_ForceKeyFrame c"
| "comp_step CloseCompositor c = Comp_Close c"

section \<open>The grid\<close>

definition inside :: "int \<Rightarrow> int \<Rightarrow> tile \<Rightarrow> bool" where
  "inside w h t = (0 \<le> tl_x t \<and> 0 \<le> tl_y t \<and> tl_x t + tl_w t \<le> w \<and> tl_y t + tl_h t \<le> h)"

definition apart :: "tile \<Rightarrow> tile \<Rightarrow> bool" where
  "apart t u = (tl_x t + tl_w t \<le> tl_x u \<or> tl_x u + tl_w u \<le> tl_x t
     \<or> tl_y t + tl_h t \<le> tl_y u \<or> tl_y u + tl_h u \<le> tl_y t)"

lemma cell_bound:
  fixes w :: int
  assumes "0 \<le> w" and "i < c"
  shows "0 \<le> int i * (w div int c)" "int i * (w div int c) + w div int c \<le> w"
proof -
  have q: "0 \<le> w div int c" using assms by (simp add: pos_imp_zdiv_nonneg_iff)
  then show "0 \<le> int i * (w div int c)" by simp
  have "int i * (w div int c) + w div int c = (int i + 1) * (w div int c)" by (simp add: algebra_simps)
  also have "\<dots> \<le> int c * (w div int c)" using assms(2) q by (intro mult_right_mono) simp_all
  also have "\<dots> \<le> w" using assms mult_div_mod_eq [of "int c" w] pos_mod_sign [of "int c" w] by linarith
  finally show "int i * (w div int c) + w div int c \<le> w" .
qed

lemma cells_apart:
  fixes q :: int
  assumes "0 \<le> q" and "i < j"
  shows "int i * q + q \<le> int j * q"
proof -
  have "(int i + 1) * q \<le> int j * q" using assms by (intro mult_right_mono) simp_all
  then show ?thesis by (simp add: algebra_simps)
qed

lemma layoutGrid_handles: "map fst (layoutGrid ks xo yo w h) = ks"
  by (simp add: layoutGrid_def Let_def)

lemma layoutGrid_entry:
  assumes "(k, t) \<in> set (layoutGrid ks xo yo w h)"
  obtains i cols rows where "i < length ks" "k = ks ! i" "i < cols * rows" "0 < cols"
    "t = grid_tile cols (w div int cols) (h div int rows) xo yo i"
    "cols = ceil_sqrt_from (length ks) 0" "rows = (length ks + cols - 1) div cols"
proof -
  let ?cols = "ceil_sqrt_from (length ks) 0"
  let ?rows = "(length ks + ?cols - 1) div ?cols"
  from assms have ne: "0 < length ks" by (auto simp: layoutGrid_def Let_def)
  from assms obtain i where i: "i < length ks" "k = ks ! i"
    "t = grid_tile ?cols (w div int ?cols) (h div int ?rows) xo yo i"
    by (auto simp: layoutGrid_def Let_def set_zip split: if_splits)
  have dims: "gridDims (int (length ks)) = (?cols, ?rows)" using ne by (simp add: gridDims_def Let_def)
  from ne have "0 < int (length ks)" by simp
  note cells = gridDims_cells [OF this dims]
  from cells i(1) have "i < ?cols * ?rows" by simp
  with that i cells show thesis by blast
qed

lemma layoutGrid_bounds:
  assumes "(k, t) \<in> set (layoutGrid ks xo yo w h)" and "0 \<le> w" "0 \<le> h"
  shows "xo \<le> tl_x t" "yo \<le> tl_y t" "tl_x t + tl_w t \<le> xo + w" "tl_y t + tl_h t \<le> yo + h"
proof -
  obtain i cols rows where i: "i < cols * rows" "0 < cols"
    and t: "t = grid_tile cols (w div int cols) (h div int rows) xo yo i"
    using assms(1) by (rule layoutGrid_entry)
  have "i mod cols < cols" "i div cols < rows" using i by (simp_all add: less_mult_imp_div_less mult.commute)
  with assms(2,3) show "xo \<le> tl_x t" "yo \<le> tl_y t" "tl_x t + tl_w t \<le> xo + w" "tl_y t + tl_h t \<le> yo + h"
    using cell_bound [of w "i mod cols" cols] cell_bound [of h "i div cols" rows]
    by (simp_all add: t grid_tile_def)
qed

lemma layoutGrid_apart:
  assumes "(k, t) \<in> set (layoutGrid ks xo yo w h)" "(k', t') \<in> set (layoutGrid ks xo yo w h)"
    and "k \<noteq> k'" "0 \<le> w" "0 \<le> h"
  shows "apart t t'"
proof -
  let ?c = "ceil_sqrt_from (length ks) 0"
  let ?r = "(length ks + ?c - 1) div ?c"
  let ?tile = "grid_tile ?c (w div int ?c) (h div int ?r) xo yo"
  obtain i where i: "k = ks ! i" "t = ?tile i" using assms(1) by (rule layoutGrid_entry) blast
  obtain j where j: "k' = ks ! j" "t' = ?tile j" using assms(2) by (rule layoutGrid_entry) blast
  have q: "0 \<le> w div int ?c" "0 \<le> h div int ?r"
    using assms(4,5) by (simp_all add: div_int_pos_iff)
  have "i \<noteq> j" using assms(3) i j by auto
  then consider "i mod ?c < j mod ?c" | "j mod ?c < i mod ?c" | "i div ?c < j div ?c" | "j div ?c < i div ?c"
    by (metis div_mult_mod_eq linorder_neqE_nat)
  then show ?thesis
    using cells_apart [OF q(1), of "i mod ?c" "j mod ?c"] cells_apart [OF q(1), of "j mod ?c" "i mod ?c"]
      cells_apart [OF q(2), of "i div ?c" "j div ?c"] cells_apart [OF q(2), of "j div ?c" "i div ?c"]
    by cases (simp_all add: apart_def i j grid_tile_def)
qed

subsection \<open>Placing the tiles\<close>

lemma place_frame [simp]:
  "gi_id (place t i) = gi_id i" "gi_kind (place t i) = gi_kind i" "gi_closed (place t i) = gi_closed i"
  "gi_tile (place t i) = Some t"
  by (simp_all add: place_def)

lemma place_all_length [simp]: "length (place_all kts objs) = length objs"
  by (induction kts objs rule: place_all.induct) simp_all

lemma update_frame: "f (g (objs ! j)) = f (objs ! j) \<Longrightarrow> f ((objs[j := g (objs ! j)]) ! k) = f (objs ! k)"
  by (cases "j < length objs"; cases "j = k") (simp_all add: list_update_beyond)

lemma place_all_frame [simp]:
  "gi_id (place_all kts objs ! k) = gi_id (objs ! k)"
  "gi_kind (place_all kts objs ! k) = gi_kind (objs ! k)"
  "gi_closed (place_all kts objs ! k) = gi_closed (objs ! k)"
  by (induction kts objs rule: place_all.induct)
    (simp_all add: update_frame [of gi_id "place _"] update_frame [of gi_kind "place _"] update_frame [of gi_closed "place _"])

lemma place_all_other: "k \<notin> fst ` set kts \<Longrightarrow> place_all kts objs ! k = objs ! k"
  by (induction kts objs rule: place_all.induct) auto

lemma place_all_tile:
  "distinct (map fst kts) \<Longrightarrow> (k, t) \<in> set kts \<Longrightarrow> k < length objs \<Longrightarrow> gi_tile (place_all kts objs ! k) = Some t"
proof (induction kts objs rule: place_all.induct)
  case (2 j u kts objs)
  then show ?case
  proof (cases "(k, t) = (j, u)")
    case True
    with 2 have "k \<notin> fst ` set kts" by simp
    with True 2 show ?thesis by (simp add: place_all_other)
  qed auto
qed simp

lemma relayout_frame [simp]:
  "gc_inputs (relayoutLocked c) = gc_inputs c" "gc_closed (relayoutLocked c) = gc_closed c"
  "gc_cfg (relayoutLocked c) = gc_cfg c" "length (gc_objs (relayoutLocked c)) = length (gc_objs c)"
  "gi_id (gc_objs (relayoutLocked c) ! k) = gi_id (gc_objs c ! k)"
  "gi_kind (gc_objs (relayoutLocked c) ! k) = gi_kind (gc_objs c ! k)"
  "gi_closed (gc_objs (relayoutLocked c) ! k) = gi_closed (gc_objs c ! k)"
  "is_screen (relayoutLocked c) = is_screen c"
  by (simp_all add: relayoutLocked_def is_screen_def fun_eq_iff Let_def)

section \<open>Invariants\<close>

text \<open>
  The table and the store agree: an id is listed once, with an object of that id that is open, and every
  open object is listed; a closed compositor lists nothing.
\<close>

definition table_ok :: "compositor \<Rightarrow> bool" where
  "table_ok c =
     (distinct (map fst (gc_inputs c))
      \<and> list_all (\<lambda>(i, k). k < length (gc_objs c) \<and> gi_id (gc_objs c ! k) = i \<and> \<not> gi_closed (gc_objs c ! k)) (gc_inputs c)
      \<and> list_all (\<lambda>k. gi_closed (gc_objs c ! k) \<or> (gi_id (gc_objs c ! k), k) \<in> set (gc_inputs c)) [0..<length (gc_objs c)])"

definition comp_wf :: "compositor \<Rightarrow> bool" where
  "comp_wf c =
     (table_ok c \<and> (gc_closed c \<longrightarrow> gc_inputs c = [])
      \<and> 0 < vo_width (gc_cfg c) \<and> 0 < vo_height (gc_cfg c))"

definition handles :: "compositor \<Rightarrow> nat list" where
  "handles c = map snd (gc_inputs c)"

text \<open>The inputs on the canvas, and those parked beside it while a screen is shared.\<close>

definition shown :: "compositor \<Rightarrow> nat list" where
  "shown c = (if list_ex (is_screen c) (handles c) then filter (is_screen c) (handles c) else handles c)"

definition parked :: "compositor \<Rightarrow> nat list" where
  "parked c = (if list_ex (is_screen c) (handles c) then filter (\<lambda>k. \<not> is_screen c k) (handles c) else [])"

definition tile_at :: "compositor \<Rightarrow> nat \<Rightarrow> tile" where
  "tile_at c k = the (gi_tile (gc_objs c ! k))"

definition layout_ok :: "compositor \<Rightarrow> bool" where
  "layout_ok c =
     (list_all (\<lambda>k. gi_tile (gc_objs c ! k) \<noteq> None) (handles c)
      \<and> list_all (\<lambda>k. inside (vo_width (gc_cfg c)) (vo_height (gc_cfg c)) (tile_at c k)) (shown c)
      \<and> list_all (\<lambda>k. list_all (\<lambda>j. j = k \<or> apart (tile_at c j) (tile_at c k)) (shown c)) (shown c)
      \<and> list_all (\<lambda>k. tl_x (tile_at c k) + tl_w (tile_at c k) \<le> 0) (parked c))"

lemma relayout_wf [simp]:
  "table_ok (relayoutLocked c) = table_ok c" "comp_wf (relayoutLocked c) = comp_wf c"
  by (simp_all add: table_ok_def comp_wf_def)

lemma handles_distinct: "comp_wf c \<Longrightarrow> distinct (handles c)"
proof -
  assume wf: "comp_wf c"
  have "map fst (gc_inputs c) = map (\<lambda>k. gi_id (gc_objs c ! k)) (handles c)"
    using wf by (auto simp: comp_wf_def table_ok_def handles_def list_all_iff)
  with wf show ?thesis by (simp add: comp_wf_def table_ok_def distinct_map)
qed

lemma relayout_ok:
  assumes "comp_wf c"
  shows "layout_ok (relayoutLocked c)"
proof (cases "gc_inputs c = []")
  case True
  then show ?thesis by (simp add: relayoutLocked_def layout_ok_def shown_def parked_def handles_def)
next
  case False
  let ?all = "map snd (sort_key fst (gc_inputs c))"
  let ?screens = "filter (is_screen c) ?all" and ?cameras = "filter (\<lambda>k. \<not> is_screen c k) ?all"
  let ?W = "vo_width (gc_cfg c)" and ?H = "vo_height (gc_cfg c)"
  let ?kts = "if ?screens \<noteq> [] then layoutGrid ?screens 0 0 ?W ?H @ layoutGrid ?cameras (- ?W) 0 ?W ?H
              else layoutGrid ?cameras 0 0 ?W ?H"
  have size: "0 \<le> ?W" "0 \<le> ?H" using assms by (simp_all add: comp_wf_def)
  have set_all: "set ?all = set (handles c)" by (simp add: handles_def)
  have "distinct ?all" using handles_distinct [OF assms] by (simp add: handles_def distinct_map)
  then have distinct_kts: "distinct (map fst ?kts)" by (auto simp: layoutGrid_handles)
  have objs: "gc_objs (relayoutLocked c) = place_all ?kts (gc_objs c)"
    using False by (simp add: relayoutLocked_def Let_def)
  have range: "k < length (gc_objs c)" if "k \<in> set (handles c)" for k
    using assms that by (auto simp: comp_wf_def table_ok_def handles_def list_all_iff)
  have tile: "gi_tile (gc_objs (relayoutLocked c) ! k) = Some t" if "(k, t) \<in> set ?kts" "k \<in> set (handles c)" for k t
    unfolding objs using place_all_tile [OF distinct_kts that(1) range [OF that(2)]] .
  have entry: "\<exists>t. (k, t) \<in> set (layoutGrid ks xo yo w h)" if "k \<in> set ks" for k ks xo yo w h
    using that by (subst (asm) layoutGrid_handles [of ks xo yo w h, symmetric]) auto
  have screens: "?screens \<noteq> [] \<longleftrightarrow> list_ex (is_screen c) (handles c)"
    using set_all by (auto simp: filter_empty_conv list_ex_iff)
  let ?c = "relayoutLocked c"
  have same: "handles ?c = handles c" by (simp add: handles_def)
  have tiled: "\<exists>t. gi_tile (gc_objs ?c ! k) = Some t \<and> (k, t) \<in> set ?kts" if k: "k \<in> set (handles c)" for k
  proof -
    have "k \<in> set (if ?screens \<noteq> [] then ?screens @ ?cameras else ?cameras)"
      using k set_all by (auto simp: filter_empty_conv)
    then have "\<exists>t. (k, t) \<in> set ?kts"
      using entry [of k ?screens 0 0 ?W ?H] entry [of k ?cameras "- ?W" 0 ?W ?H] entry [of k ?cameras 0 0 ?W ?H]
      by (auto split: if_splits)
    with tile k show ?thesis by blast
  qed
  let ?front = "layoutGrid (if ?screens \<noteq> [] then ?screens else ?cameras) 0 0 ?W ?H"
  have front: "(k, tile_at ?c k) \<in> set ?front" if k: "k \<in> set (shown ?c)" for k
  proof -
    have k': "k \<in> set (handles c)" using k by (auto simp: shown_def same split: if_splits)
    have "k \<in> set (if ?screens \<noteq> [] then ?screens else ?cameras)"
      using k set_all screens by (auto simp: shown_def same list_ex_iff split: if_splits)
    then obtain t where t: "(k, t) \<in> set ?front" using entry by blast
    then have "(k, t) \<in> set ?kts" by (auto split: if_splits)
    with tile [OF _ k'] t show ?thesis by (simp add: tile_at_def)
  qed
  show ?thesis unfolding layout_ok_def
  proof (intro conjI)
    show "list_all (\<lambda>k. gi_tile (gc_objs ?c ! k) \<noteq> None) (handles ?c)"
      using tiled by (fastforce simp: same list_all_iff)
    show "list_all (\<lambda>k. inside (vo_width (gc_cfg ?c)) (vo_height (gc_cfg ?c)) (tile_at ?c k)) (shown ?c)"
      using layoutGrid_bounds [OF front size] by (simp add: list_all_iff inside_def)
    show "list_all (\<lambda>k. list_all (\<lambda>j. j = k \<or> apart (tile_at ?c j) (tile_at ?c k)) (shown ?c)) (shown ?c)"
      using layoutGrid_apart [OF front front _ size] by (auto simp: list_all_iff)
    have "tl_x (tile_at ?c k) + tl_w (tile_at ?c k) \<le> 0" if k: "k \<in> set (parked ?c)" for k
    proof -
      have k': "k \<in> set (handles c)" and sc: "?screens \<noteq> []" using k screens by (auto simp: parked_def same split: if_splits)
      have "k \<in> set ?cameras" using k set_all by (auto simp: parked_def same split: if_splits)
      then obtain t where t: "(k, t) \<in> set (layoutGrid ?cameras (- ?W) 0 ?W ?H)" using entry by blast
      with sc have "(k, t) \<in> set ?kts" by auto
      with tile [OF _ k'] have "tile_at ?c k = t" by (simp add: tile_at_def)
      with layoutGrid_bounds(3) [OF t size] show ?thesis by simp
    qed
    then show "list_all (\<lambda>k. tl_x (tile_at ?c k) + tl_w (tile_at ?c k) \<le> 0) (parked ?c)" by (simp add: list_all_iff)
  qed
qed

subsection \<open>The operations keep them\<close>

lemma table_entry:
  assumes "table_ok c" and "(i, k) \<in> set (gc_inputs c)"
  shows "k < length (gc_objs c)" "gi_id (gc_objs c ! k) = i" "\<not> gi_closed (gc_objs c ! k)"
    "map_of (gc_inputs c) i = Some k"
  using assms by (auto simp: table_ok_def list_all_iff)

lemma filter_absent: "i \<notin> fst ` set xs \<Longrightarrow> filter (\<lambda>(j, _). j \<noteq> i) xs = xs"
  by (induction xs) auto

lemma filter_one:
  "distinct (map fst xs) \<Longrightarrow> (i, k) \<in> set xs \<Longrightarrow> length xs = Suc (length (filter (\<lambda>(j, _). j \<noteq> i) xs))"
proof (induction xs)
  case (Cons x xs)
  show ?case
  proof (cases "fst x = i")
    case True
    with Cons.prems(1) have "i \<notin> fst ` set xs" by auto
    with True filter_absent [of i xs] show ?thesis by (simp add: case_prod_unfold)
  next
    case False
    with Cons show ?thesis by (auto simp: case_prod_unfold)
  qed
qed simp

lemma unlist_inputs [simp]:
  "gc_inputs (unlist i c) = filter (\<lambda>(j, _). j \<noteq> i) (gc_inputs c)" "gc_objs (unlist i c) = gc_objs c"
  "gc_closed (unlist i c) = gc_closed c" "gc_cfg (unlist i c) = gc_cfg c"
  by (simp_all add: unlist_def)

lemma teardown_frame [simp]:
  "gc_inputs (fst (teardownLocked k c)) = gc_inputs c" "gc_closed (fst (teardownLocked k c)) = gc_closed c"
  "gc_cfg (fst (teardownLocked k c)) = gc_cfg c" "length (gc_objs (fst (teardownLocked k c))) = length (gc_objs c)"
  by (simp_all add: teardownLocked_def)

lemma teardown_unlist: "unlist i (fst (teardownLocked k c)) = fst (teardownLocked k (unlist i c))"
  "snd (teardownLocked k (unlist i c)) = snd (teardownLocked k c)"
  by (simp_all add: teardownLocked_def unlist_def)

lemma remove_table:
  assumes ok: "table_ok c" and entry: "(i, k) \<in> set (gc_inputs c)"
  shows "table_ok (fst (teardownLocked k (unlist i c)))"
proof -
  note here = table_entry [OF ok entry]
  have ids: "gi_id (gc_objs c ! l) = j" "\<not> gi_closed (gc_objs c ! l)" "l < length (gc_objs c)"
    if "(j, l) \<in> set (gc_inputs c)" for j l
    using table_entry [OF ok that] by simp_all
  have own: "l = k" if "(i, l) \<in> set (gc_inputs c)" for l
    using table_entry(4) [OF ok that] here(4) by simp
  have kept: "distinct (map fst (filter (\<lambda>(j, _). j \<noteq> i) (gc_inputs c)))"
    using ok by (simp add: table_ok_def distinct_map_filter)
  have listed: "(gi_id (gc_objs c ! l), l) \<in> set (gc_inputs c)" if "l < length (gc_objs c)" "\<not> gi_closed (gc_objs c ! l)" for l
    using ok that by (auto simp: table_ok_def list_all_iff)
  have only: "l = k" if "l < length (gc_objs c)" "\<not> gi_closed (gc_objs c ! l)" "gi_id (gc_objs c ! l) = i" for l
    using listed [OF that(1,2)] that(3) own by simp
  let ?c = "fst (teardownLocked k (unlist i c))"
  have objs: "gc_objs ?c = (gc_objs c)[k := (gc_objs c ! k)\<lparr>gi_closed := True\<rparr>]"
    using here by (simp add: teardownLocked_def)
  have obj_id: "gi_id (gc_objs ?c ! l) = gi_id (gc_objs c ! l)" for l
    unfolding objs using update_frame [of gi_id "\<lambda>x. x\<lparr>gi_closed := True\<rparr>" "gc_objs c" k l] by simp
  have obj_closed: "gi_closed (gc_objs ?c ! l) = (l = k \<or> gi_closed (gc_objs c ! l))" for l
    unfolding objs using here(1) by (cases "l = k") simp_all
  have "list_all (\<lambda>(j, l). l < length (gc_objs ?c) \<and> gi_id (gc_objs ?c ! l) = j \<and> \<not> gi_closed (gc_objs ?c ! l)) (gc_inputs ?c)"
    unfolding list_all_iff teardown_frame unlist_inputs obj_id obj_closed using ids here(2) by auto
  moreover have "list_all (\<lambda>l. gi_closed (gc_objs ?c ! l) \<or> (gi_id (gc_objs ?c ! l), l) \<in> set (gc_inputs ?c)) [0..<length (gc_objs ?c)]"
    unfolding list_all_iff teardown_frame unlist_inputs obj_id obj_closed using listed only by auto
  ultimately show ?thesis using kept by (simp add: table_ok_def)
qed

lemma add_table:
  assumes ok: "table_ok c" and fresh: "map_of (gc_inputs c) (gi_id i) = None" and "\<not> gi_closed i"
  shows "table_ok (c\<lparr>gc_objs := gc_objs c @ [i], gc_inputs := (gi_id i, length (gc_objs c)) # gc_inputs c\<rparr>)"
proof -
  have "gi_id i \<notin> fst ` set (gc_inputs c)" using fresh by (simp add: map_of_eq_None_iff)
  with assms show ?thesis
    by (auto simp: table_ok_def list_all_iff nth_append)
qed

lemma teardown_all_table:
  assumes "table_ok c"
  shows "table_ok (fst (teardown_all (gc_inputs c) c)) \<and> gc_inputs (fst (teardown_all (gc_inputs c) c)) = []
    \<and> gc_closed (fst (teardown_all (gc_inputs c) c)) = gc_closed c \<and> gc_cfg (fst (teardown_all (gc_inputs c) c)) = gc_cfg c
    \<and> snd (teardown_all (gc_inputs c) c) = map (BranchRemoved \<circ> fst) (gc_inputs c)"
  using assms
proof (induction "gc_inputs c" arbitrary: c)
  case Nil
  then show ?case by simp
next
  case (Cons x iks)
  obtain i k where x: "x = (i, k)" by (cases x)
  then have entry: "(i, k) \<in> set (gc_inputs c)" using Cons.hyps(2) [symmetric] by simp
  note here = table_entry [OF Cons.prems entry]
  let ?c = "fst (teardownLocked k (unlist i c))"
  have "i \<notin> fst ` set iks" using Cons.prems Cons.hyps(2) [symmetric] by (simp add: table_ok_def x)
  then have "filter (\<lambda>(j, _). j \<noteq> i) iks = iks" by (rule filter_absent)
  then have rest: "gc_inputs ?c = iks" using Cons.hyps(2) [symmetric] by (simp add: x)
  have "snd (teardownLocked k c) = [BranchRemoved i]" using here by (simp add: teardownLocked_def)
  then show ?case
    using Cons.hyps(1) [OF rest [symmetric] remove_table [OF Cons.prems entry]] rest
    by (simp add: Cons.hyps(2) [symmetric] x split_def teardown_unlist)
qed

lemma layout_cong:
  assumes "gc_inputs c' = gc_inputs c" "gc_cfg c' = gc_cfg c"
    and "\<And>k. gi_tile (gc_objs c' ! k) = gi_tile (gc_objs c ! k)" "\<And>k. gi_kind (gc_objs c' ! k) = gi_kind (gc_objs c ! k)"
  shows "layout_ok c' = layout_ok c"
proof -
  have "is_screen c' = is_screen c" "tile_at c' = tile_at c" using assms by (simp_all add: is_screen_def tile_at_def fun_eq_iff)
  with assms show ?thesis by (simp add: layout_ok_def shown_def parked_def handles_def)
qed

text \<open>A write changes only the packet under way and the counter of its input.\<close>

definition written :: "compositor \<Rightarrow> compositor \<Rightarrow> bool" where
  "written c c' =
     (gc_inputs c' = gc_inputs c \<and> gc_cfg c' = gc_cfg c \<and> gc_closed c' = gc_closed c
      \<and> length (gc_objs c') = length (gc_objs c)
      \<and> (\<forall>j. gi_id (gc_objs c' ! j) = gi_id (gc_objs c ! j) \<and> gi_kind (gc_objs c' ! j) = gi_kind (gc_objs c ! j)
             \<and> gi_closed (gc_objs c' ! j) = gi_closed (gc_objs c ! j) \<and> gi_tile (gc_objs c' ! j) = gi_tile (gc_objs c ! j)))"

lemma written_update:
  assumes "\<And>i. gi_id (f i) = gi_id i \<and> gi_kind (f i) = gi_kind i \<and> gi_closed (f i) = gi_closed i \<and> gi_tile (f i) = gi_tile i"
  shows "written c (c\<lparr>gc_objs := (gc_objs c)[k := f (gc_objs c ! k)], gc_pts_base := b\<rparr>)"
  using assms update_frame [of gi_id f "gc_objs c" k] update_frame [of gi_kind f "gc_objs c" k]
    update_frame [of gi_closed f "gc_objs c" k] update_frame [of gi_tile f "gc_objs c" k]
  by (simp add: written_def)

lemma write_begin_written: "written c (write_begin k pkt c)"
  using written_update [where f = "\<lambda>i. i\<lparr>gi_pkts := gi_pkts i + 1, gi_writing := Some pkt\<rparr>" and c = c and k = k
      and b = "gc_pts_base c"]
  by (simp add: write_begin_def Let_def) (simp add: written_def)

lemma write_push_written: "written c (fst (write_push clock now k c))"
  using written_update [where f = "\<lambda>i. i\<lparr>gi_writing := None\<rparr>" and c = c and k = k] by (simp add: write_push_def Let_def written_def split: option.split)

lemma written_wf: "written c c' \<Longrightarrow> table_ok c' = table_ok c" "written c c' \<Longrightarrow> layout_ok c' = layout_ok c"
  by (simp add: table_ok_def written_def) (rule layout_cong; simp add: written_def)

definition comp_inv :: "compositor \<Rightarrow> bool" where
  "comp_inv c = (comp_wf c \<and> layout_ok c)"

definition branch_added :: "gst_effect \<Rightarrow> bool" where
  "branch_added e = (case e of BranchAdded i els \<Rightarrow> True | _ \<Rightarrow> False)"

definition branch_removed :: "gst_effect \<Rightarrow> bool" where
  "branch_removed e = (case e of BranchRemoved i \<Rightarrow> True | _ \<Rightarrow> False)"

text \<open>An input refused after its elements had joined the pipeline leaves them there.\<close>

definition branch_stranded :: "gst_effect \<Rightarrow> bool" where
  "branch_stranded e = (e \<in> {AddRefused (GstFault NotLinked), AddRefused (GstFault NoPad), AddRefused (GstFault PadNotLinked)})"

lemmas branch_defs [simp] = branch_added_def branch_removed_def branch_stranded_def

definition branches_settle :: "compositor \<Rightarrow> compositor \<Rightarrow> gst_effect list \<Rightarrow> bool" where
  "branches_settle c c' es =
     (length (gc_inputs c) + count_by branch_added es
        = length (gc_inputs c') + count_by branch_removed es + count_by branch_stranded es)"

lemma no_inputs_layout: "gc_inputs c = [] \<Longrightarrow> layout_ok c"
  by (simp add: layout_ok_def shown_def parked_def handles_def)

interpretation branches: ledger comp_inv branches_settle
  by unfold_locales (simp_all add: branches_settle_def)

lemma add_keeps: "keeps comp_inv branches_settle c (fst (AddInput fault crop r c))"
proof (cases "\<exists>k. snd (AddInput fault crop r c) = Inr k")
  case False
  then have "fst (fst (AddInput fault crop r c)) = c
    \<and> count_by branch_added (snd (fst (AddInput fault crop r c))) = count_by branch_stranded (snd (fst (AddInput fault crop r c)))
    \<and> count_by branch_removed (snd (fst (AddInput fault crop r c))) = 0"
    by (auto simp: AddInput_def Let_def split: option.splits add_fault.splits if_splits)
  then show ?thesis by (simp add: keeps_def branches_settle_def)
next
  case True
  then obtain dd where ok: "depayDecodeFor (ir_codec r) = Some dd" "\<not> gc_closed c" "map_of (gc_inputs c) (ir_id r) = None" "fault = None"
    by (auto simp: AddInput_def Let_def split: option.splits add_fault.splits if_splits)
  let ?i = "\<lparr>gi_id = ir_id r, gi_kind = ir_kind r, gi_elems = tile_elements crop dd (ir_label r), gi_crop = crop,
    gi_closed = False, gi_pkts = 0, gi_writing = None, gi_tile = None, gi_ratio = None\<rparr>"
  let ?c = "c\<lparr>gc_objs := gc_objs c @ [?i], gc_inputs := (ir_id r, length (gc_objs c)) # gc_inputs c\<rparr>"
  have "comp_wf ?c" if "comp_wf c"
    using that add_table [of c ?i] ok by (simp add: comp_wf_def)
  with ok show ?thesis
    by (simp add: AddInput_def keeps_def branches_settle_def comp_inv_def relayout_ok Let_def)
qed

lemma remove_keeps: "keeps comp_inv branches_settle c (RemoveInput i c)"
proof (cases "map_of (gc_inputs c) i")
  case None
  then show ?thesis by (simp add: RemoveInput_def branches.keeps_nothing)
next
  case (Some k)
  then have entry: "(i, k) \<in> set (gc_inputs c)" by (rule map_of_SomeD)
  let ?c = "fst (teardownLocked k (unlist i c))"
  have "comp_wf ?c \<and> snd (teardownLocked k (unlist i c)) = [BranchRemoved i]
      \<and> length (gc_inputs c) = Suc (length (gc_inputs ?c))" if wf: "comp_wf c"
    using remove_table [OF _ entry] table_entry [OF _ entry] filter_one [of "gc_inputs c" i k] entry wf
    by (auto simp: comp_wf_def teardownLocked_def table_ok_def)
  with Some show ?thesis
    by (auto simp: RemoveInput_def split_def keeps_def comp_inv_def relayout_ok branches_settle_def)
qed

lemma close_keeps: "keeps comp_inv branches_settle c (Comp_Close c)"
proof (cases "gc_closed c")
  case True
  then show ?thesis by (simp add: Comp_Close_def branches.keeps_nothing)
next
  case False
  let ?c = "c\<lparr>gc_closed := True\<rparr>"
  have "table_ok ?c = table_ok c" by (simp add: table_ok_def)
  with teardown_all_table [of ?c] False show ?thesis
    by (auto simp: Comp_Close_def split_def keeps_def comp_inv_def comp_wf_def branches_settle_def no_inputs_layout
        count_by_zero_iff count_by_def comp_def)
qed

lemma written_keeps:
  assumes "written c c'" and "list_all (\<lambda>e. \<not> branch_added e \<and> \<not> branch_removed e \<and> \<not> branch_stranded e) es"
  shows "keeps comp_inv branches_settle c (c', es)"
proof -
  have "count_by branch_added es = 0" "count_by branch_removed es = 0" "count_by branch_stranded es = 0"
    using assms(2) by (simp_all only: count_by_zero_iff list_all_iff simp_thms) blast+
  with assms(1) written_wf [OF assms(1)] show ?thesis
    by (simp add: keeps_def comp_inv_def comp_wf_def branches_settle_def written_def)
qed

lemma push_keeps: "keeps comp_inv branches_settle c (write_push clock now k c)"
proof -
  have "list_all (\<lambda>e. \<not> branch_added e \<and> \<not> branch_removed e \<and> \<not> branch_stranded e) (snd (write_push clock now k c))"
    by (simp add: write_push_def Let_def split: option.split)
  from written_keeps [OF write_push_written [of c clock now k] this] show ?thesis by simp
qed

lemma comp_step_keeps: "keeps comp_inv branches_settle c (comp_step op c)"
proof (cases op)
  case (WriteBegins k pkt)
  with written_keeps [OF write_begin_written] show ?thesis by (simp add: branches.keeps_nothing)
qed (simp_all add: add_keeps remove_keeps close_keeps push_keeps Input_Close_def branches.keeps_nothing Comp_ForceKeyFrame_def
  keeps_def [of _ _ c "(c, [KeyUnitSent])"] branches_settle_def)


interpretation tiles: stepper comp_step "\<lambda>_. True" comp_inv
  using comp_step_keeps by unfold_locales (simp add: keeps_def)

interpretation comp_closing: close_once "\<lambda>_::unit. Comp_Close" gc_closed
proof unfold_locales
  show "gc_closed (fst (Comp_Close c))" for c
  proof (cases "gc_closed c")
    case False
    have "gc_closed (fst (teardown_all iks c')) = gc_closed c'" for iks c'
      by (induction iks c' rule: teardown_all.induct) (simp_all add: split_def teardownLocked_def)
    with False show ?thesis by (simp add: Comp_Close_def split_def)
  qed (simp add: Comp_Close_def)
qed (simp add: Comp_Close_def)


definition is_push :: "gst_effect \<Rightarrow> bool" where
  "is_push e = (case e of BufferPushed k pts pkt \<Rightarrow> True | _ \<Rightarrow> False)"








lemma WithDefaults_positive: "0 < vo_width (WithDefaults cfg)" "0 < vo_height (WithDefaults cfg)"
  by (simp_all add: WithDefaults_def)

lemma NewCompositor_inv:
  assumes "NewCompositor fails cfg = Inr (c, es)"
  shows "comp_inv c" "gc_inputs c = []" "\<not> gc_closed c" "gc_cfg c = WithDefaults cfg"
  using assms by (auto simp: NewCompositor_def comp_inv_def comp_wf_def table_ok_def no_inputs_layout WithDefaults_positive
      Let_def split: option.splits)

section \<open>Properties\<close>

text \<open>
  C13. The table and the store of a compositor agree after any sequence of additions (with any failure of
  GStreamer), removals, closings, pushed packets and the closing of the compositor: each id is listed once,
  with an object of that id that is open, every open object is listed, and a closed compositor lists none.
\<close>

theorem compositor_well_formed:
  assumes "NewCompositor fails cfg = Inr (c, enc)"
  shows "comp_wf (fst (run comp_step ops c))"
  using tiles.run_inv [where s = c and as = ops] NewCompositor_inv(1) [OF assms] by (simp add: comp_inv_def list_all_iff)

definition sample_canvas :: compositor where
  "sample_canvas = \<lparr>gc_cfg = WithDefaults \<lparr>vo_width = 0, vo_height = 0, vo_fps = 0, vo_bitrate = 0, vo_keyframe = 0\<rparr>,
     gc_objs = [], gc_inputs = [], gc_closed = False, gc_pts_base = None\<rparr>"

definition sample_tile :: "string \<Rightarrow> input_kind \<Rightarrow> comp_op" where
  "sample_tile i kind = AddTile None True \<lparr>ir_id = i, ir_codec = CodecVP8, ir_clock = 90, ir_pt = 96, ir_label = i, ir_kind = kind\<rparr>"

definition sample_ops :: "comp_op list" where
  "sample_ops = [sample_tile ''b'' KindCamera, sample_tile ''a'' KindCamera, sample_tile ''s'' KindScreenShare]"

lemma sample_canvas_new:
  "NewCompositor (\<lambda>_. False) \<lparr>vo_width = 0, vo_height = 0, vo_fps = 0, vo_bitrate = 0, vo_keyframe = 0\<rparr>
     = Inr (sample_canvas, encoder_for (gc_cfg sample_canvas))"
  by (simp add: NewCompositor_def pipeline_steps_def sample_canvas_def Let_def)

lemma compositor_well_formed_witness:
  "comp_wf (fst (run comp_step sample_ops sample_canvas))
   \<and> map fst (gc_inputs (fst (run comp_step sample_ops sample_canvas))) = [''s'', ''a'', ''b'']"
proof
  show "map fst (gc_inputs (fst (run comp_step sample_ops sample_canvas))) = [''s'', ''a'', ''b'']" by code_simp
qed (rule compositor_well_formed [OF sample_canvas_new])

text \<open>
  C6. Whatever tiles come and go, each tile of the composited picture lies within the canvas, no two of them
  overlap, and while a screen is shared only screens are in the picture: the cameras are parked entirely
  beside the canvas.
\<close>

theorem layout_within_canvas:
  assumes "NewCompositor fails cfg = Inr (c, enc)"
  shows "layout_ok (fst (run comp_step ops c))"
  using tiles.run_inv [where s = c and as = ops] NewCompositor_inv(1) [OF assms] by (simp add: comp_inv_def list_all_iff)

lemma layout_within_canvas_witness:
  "(let c = fst (run comp_step sample_ops sample_canvas) in
     layout_ok c \<and> map (tile_at c) (shown c) = [\<lparr>tl_x = 0, tl_y = 0, tl_w = 1280, tl_h = 720\<rparr>]
     \<and> length (parked c) = 2)"
proof -
  have "(let c = fst (run comp_step sample_ops sample_canvas) in
     map (tile_at c) (shown c) = [\<lparr>tl_x = 0, tl_y = 0, tl_w = 1280, tl_h = 720\<rparr>] \<and> length (parked c) = 2)"
    by code_simp
  with layout_within_canvas [OF sample_canvas_new, of sample_ops] show ?thesis by (simp add: Let_def)
qed


definition racing_ops :: "comp_op list" where
  "racing_ops = sample_ops @ [WriteBegins 0 [1], CloseCompositor]"


text \<open>The race is there: a packet is pushed into the stopped pipeline after the compositor was closed.\<close>

lemma push_after_close:
  "count_by is_push (snd (run comp_step [WritePushes None 0 0] (fst (run comp_step racing_ops sample_canvas)))) = 1"
  by code_simp

text \<open>An input that fails to link stays in the pipeline after the compositor is closed.\<close>

lemma failed_input_stranded:
  "case run comp_step [AddTile (Some NoPad) True \<lparr>ir_id = ''a'', ir_codec = CodecVP8, ir_clock = 90, ir_pt = 96,
       ir_label = ''a'', ir_kind = KindCamera\<rparr>, CloseCompositor] sample_canvas of (c', es) \<Rightarrow>
     gc_closed c' \<and> count_by branch_added es = 1 \<and> count_by branch_removed es = 0"
  by code_simp

end
