(* ===== verification/Room.thy ===== *)
theory Room
  imports Compositor
begin

text \<open>
  \<open>pkg/sip/room.go\<close> and \<open>pkg/sip/room_video.go\<close>: the side of a call that faces the LiveKit room. It joins the
  room, subscribes to the tracks of the participants once the call wants to hear them, mixes their audio into
  the output of the call, hands their video to the compositor, forwards DTMF, and is closed once.

  The LiveKit client is a library: what it answers (the token, the room joined, whether a subscription is
  taken, the packets of a track) is an argument of the operation, what it is asked to do an effect. Writers are
  named by numbers. Callbacks of the library and the goroutines of the video tracks interleave with the calls
  of the owner in any order: an operation of \<open>room_step\<close> is a part that runs without giving up control where
  the interleaving matters. A video track has three such parts before its packets flow: it loads the
  compositor, adds its tile, and enters it in the map of inputs; writing a packet is two, the test whether the
  tile is closed and the push. Closing the room is one part here, although it runs through several locked
  sections.

  The wrappers of the audio chain are those of \<open>Media_Stats\<close>; the Opus codec, the mixer, resampling and the
  jitter buffer are libraries.
\<close>

section \<open>Statistics\<close>

record room_stats =
  rs_published_frames :: u64
  rs_published_samples :: u64
  rs_publish_tx :: real
  rs_rtp :: rtp_counting_stats
  rs_data_packets :: u64
  rs_jitter_lost :: u64
  rs_jitter_dropped :: u64
  rs_latency :: latency_stats
  rs_closed :: bool
  rs_last_time :: nanos
  rs_last_samples :: u64

record room_snapshot =
  rn_input_packets :: u64
  rn_input_bytes :: u64
  rn_resets :: u64
  rn_gaps :: u64
  rn_gaps_sum :: u64
  rn_late :: u64
  rn_late_sum :: u64
  rn_delayed :: u64
  rn_delayed_sum :: u64
  rn_rapid :: u64
  rn_data_packets :: u64
  rn_published_frames :: u64
  rn_published_samples :: u64
  rn_publish_tx :: real
  rn_jitter_lost :: u64
  rn_jitter_dropped :: u64
  rn_latency :: "u64 \<times> u64 \<times> u64"
  rn_closed :: bool

definition RoomStats_Load :: "room_stats \<Rightarrow> room_snapshot" where
  "RoomStats_Load s =
     \<lparr>rn_input_packets = rc_packets (rs_rtp s), rn_input_bytes = rc_bytes (rs_rtp s), rn_resets = rc_resets (rs_rtp s),
      rn_gaps = rc_gaps (rs_rtp s), rn_gaps_sum = rc_gaps_sum (rs_rtp s), rn_late = rc_late (rs_rtp s),
      rn_late_sum = rc_late_sum (rs_rtp s), rn_delayed = rc_delayed (rs_rtp s), rn_delayed_sum = rc_delayed_sum (rs_rtp s),
      rn_rapid = rc_rapid (rs_rtp s), rn_data_packets = rs_data_packets s,
      rn_published_frames = rs_published_frames s, rn_published_samples = rs_published_samples s,
      rn_publish_tx = rs_publish_tx s, rn_jitter_lost = rs_jitter_lost s, rn_jitter_dropped = rs_jitter_dropped s,
      rn_latency = Latency_Load (rs_latency s), rn_closed = rs_closed s\<rparr>"

definition RoomStats_Update :: "nanos \<Rightarrow> room_stats \<Rightarrow> room_stats" where
  "RoomStats_Update t s =
     (let dt = t - rs_last_time s;
          cur = rs_published_samples s
      in s\<lparr>rs_publish_tx := (if dt > 0 then real_of_int (uint (cur - rs_last_samples s)) / (real_of_int dt / real_of_int second)
                            else rs_publish_tx s),
           rs_last_time := t, rs_last_samples := cur\<rparr>)"

text \<open>The chain of an audio track: \<open>jitter\<close> is the library's jitter buffer, \<open>h\<close> decoder, signal log and mixer.\<close>

definition room_track_handler where
  "room_track_handler fps enableJitter jitter h =
     latencyEntry (rtpStreamStats fps (if enableJitter then jitter h else h))"

section \<open>State\<close>

record participant_info =
  pi_id :: string
  pi_room_name :: string
  pi_identity :: string
  pi_name :: string

record lk_room =
  lr_local_sid :: string
  lr_local_identity :: string
  lr_reason :: int

datatype track_kind = TrackAudio | TrackVideo | TrackOther

record publication =
  pb_sid :: string
  pb_kind :: track_kind
  pb_screen :: bool
  pb_remote :: bool

record remote_participant =
  rp_identity :: string
  rp_name :: string
  rp_sip :: bool
  rp_pubs :: "publication list"

record remote_track =
  rt_video :: bool
  rt_mime :: string
  rt_clock :: int
  rt_pt :: int
  rt_ssrc :: u32

text \<open>
  The goroutine of a subscribed video track: before it loads the compositor, with the compositor loaded, with
  its tile added, with the tile entered and the number of failed writes in a row, within a write, and after its end.
\<close>

datatype track_phase =
    TrackStarts
  | TrackLoaded nat
  | TileAdded nat nat
  | Pumping nat nat nat
  | Pushing nat nat nat
  | TrackEnded

record video_track =
  vk_sid :: string
  vk_track :: remote_track
  vk_screen :: bool
  vk_label :: string
  vk_phase :: track_phase

text \<open>
  \<open>rm_comps\<close> holds every compositor made, \<open>rm_comp\<close> (\<open>r.comp\<close>) the current one; \<open>rm_inputs\<close> is the map
  \<open>videoInputs\<close>, \<open>None\<close> the nil map; an input is an object of a compositor.
\<close>

record room =
  rm_room :: "lk_room option"
  rm_p :: participant_info
  rm_ready :: bool
  rm_subscribe :: bool
  rm_subscribed :: bool
  rm_stopped :: bool
  rm_closed :: bool
  rm_out :: "nat option"
  rm_dtmf :: "nat option"
  rm_mix_stopped :: bool
  rm_stats :: room_stats
  rm_video_cfg :: video_out_config
  rm_video_stats :: "video_stats option"
  rm_video_out :: "nat gated_writer option"
  rm_comps :: "compositor list"
  rm_comp :: "nat option"
  rm_inputs :: "(string \<times> nat \<times> nat) list option"
  rm_tracks :: "video_track list"

datatype video_quality = QualityLow | QualityMedium

datatype room_effect =
    SetSubscribed string track_kind bool
  | SetVideoQuality string video_quality
  | SipParticipant string
  | AudioTrack string
  | TrackIgnored string
  | WriterClosed nat
  | DtmfForwarded nat string
  | DtmfIgnored string
  | DataPublished string
  | RoomJoined bool "(string \<times> string) list"
  | RpcRegistered string
  | LeftRoom int
  | MixStopped
  | OnComp nat gst_effect
  | PliSent nat
  | VideoOut nat video_sample
  | RoomPanic string

section \<open>Joining the room\<close>

definition NewRoom :: "room_stats \<Rightarrow> room" where
  "NewRoom st =
     \<lparr>rm_room = None, rm_p = \<lparr>pi_id = [], pi_room_name = [], pi_identity = [], pi_name = []\<rparr>, rm_ready = False,
      rm_subscribe = False, rm_subscribed = False, rm_stopped = False, rm_closed = False, rm_out = None, rm_dtmf = None,
      rm_mix_stopped = False, rm_stats = st,
      rm_video_cfg = \<lparr>vo_width = 0, vo_height = 0, vo_fps = 0, vo_bitrate = 0, vo_keyframe = 0\<rparr>, rm_video_stats = None,
      rm_video_out = None, rm_comps = [], rm_comp = None, rm_inputs = None, rm_tracks = []\<rparr>"

definition ClosedReason :: "room \<Rightarrow> int" where
  "ClosedReason r = (case rm_room r of None \<Rightarrow> 0 | Some lk \<Rightarrow> lr_reason lk)"

record room_config =
  rg_url :: string
  rg_token :: string
  rg_room :: string
  rg_identity :: string
  rg_name :: string
  rg_attrs :: "(string \<times> string) list"

text \<open>
  The attributes that go into a token: those of \<open>keys\<close> (the call, trunk, dispatch rule and the two numbers)
  that the participant has.
\<close>

definition token_attrs :: "string list \<Rightarrow> (string \<times> string) list \<Rightarrow> (string \<times> string) list" where
  "token_attrs keys attrs = List.map_filter (\<lambda>k. map_option (Pair k) (map_of attrs k)) keys"

text \<open>\<open>build\<close> makes a token of the token's attributes, or fails. The result is what the room is joined with.\<close>

definition connect_params ::
  "string \<Rightarrow> string list \<Rightarrow> ((string \<times> string) list \<Rightarrow> string + string) \<Rightarrow> room_config \<Rightarrow> string + string \<times> string" where
  "connect_params url keys build rc =
     (let ws = (if rg_url rc = [] then url else rg_url rc) in
      if rg_token rc \<noteq> [] then Inr (ws, rg_token rc)
      else (case build (token_attrs keys (rg_attrs rc)) of Inl e \<Rightarrow> Inl e | Inr tok \<Rightarrow> Inr (ws, tok)))"

definition Connect_begin :: "room_config \<Rightarrow> room \<Rightarrow> room" where
  "Connect_begin rc r = r\<lparr>rm_p := \<lparr>pi_id = [], pi_room_name = rg_room rc, pi_identity = rg_identity rc, pi_name = rg_name rc\<rparr>\<rparr>"

definition Connect_joined :: "room_config \<Rightarrow> lk_room \<Rightarrow> room \<Rightarrow> room \<times> room_effect list" where
  "Connect_joined rc lk r =
     (r\<lparr>rm_room := Some lk, rm_p := (rm_p r)\<lparr>pi_id := lr_local_sid lk, pi_identity := lr_local_identity lk\<rparr>,
        rm_ready := True, rm_subscribe := False\<rparr>,
      [RoomJoined False (rg_attrs rc)])"

text \<open>\<open>joins\<close> is the library's answer for the address and the token.\<close>

definition Connect ::
  "string \<Rightarrow> string list \<Rightarrow> ((string \<times> string) list \<Rightarrow> string + string) \<Rightarrow> (string \<times> string \<Rightarrow> string + lk_room)
    \<Rightarrow> room_config \<Rightarrow> room \<Rightarrow> (room \<times> room_effect list) \<times> string option" where
  "Connect url keys build joins rc r =
     (let r1 = Connect_begin rc r in
      case connect_params url keys build rc of
        Inl e \<Rightarrow> ((r1, []), Some e)
      | Inr wt \<Rightarrow> (case joins wt of Inl e \<Rightarrow> ((r1, []), Some e) | Inr lk \<Rightarrow> (Connect_joined rc lk r1, None)))"

section \<open>Subscribing\<close>

definition participantJoin :: "remote_participant \<Rightarrow> room \<Rightarrow> room \<times> room_effect list" where
  "participantJoin rp r =
     (if rp_sip rp then (r\<lparr>rm_subscribed := True\<rparr>, [SipParticipant (rp_identity rp)]) else (r, []))"

text \<open>\<open>ok\<close>: whether the library takes the subscription to the track of that id.\<close>

definition subscribeTo :: "(string \<Rightarrow> bool) \<Rightarrow> publication \<Rightarrow> room \<Rightarrow> room \<times> room_effect list" where
  "subscribeTo ok pub r =
     (case pb_kind pub of
        TrackAudio \<Rightarrow>
          (if ok (pb_sid pub) then r\<lparr>rm_subscribed := True\<rparr> else r, [SetSubscribed (pb_sid pub) TrackAudio (ok (pb_sid pub))])
      | TrackVideo \<Rightarrow>
          (if rm_comp r = None then (r, [])
           else (r, [SetVideoQuality (pb_sid pub) (if pb_screen pub then QualityMedium else QualityLow),
                     SetSubscribed (pb_sid pub) TrackVideo (ok (pb_sid pub))]))
      | TrackOther \<Rightarrow> (r, []))"

definition Subscribe_participant :: "(string \<Rightarrow> bool) \<Rightarrow> remote_participant \<Rightarrow> room \<Rightarrow> room \<times> room_effect list" where
  "Subscribe_participant ok rp r = andThen (participantJoin rp r) (run (subscribeTo ok) (filter pb_remote (rp_pubs rp)))"

definition Subscribe :: "(string \<Rightarrow> bool) \<Rightarrow> remote_participant list \<Rightarrow> room \<Rightarrow> room \<times> room_effect list" where
  "Subscribe ok participants r =
     (if rm_room r = None then (r, [])
      else run (Subscribe_participant ok) participants (r\<lparr>rm_subscribe := True\<rparr>))"

definition OnParticipantConnected :: "remote_participant \<Rightarrow> room \<Rightarrow> room \<times> room_effect list" where
  "OnParticipantConnected rp r = (if rm_subscribe r then participantJoin rp r else (r, []))"

definition OnTrackPublished :: "(string \<Rightarrow> bool) \<Rightarrow> publication \<Rightarrow> room \<Rightarrow> room \<times> room_effect list" where
  "OnTrackPublished ok pub r = (if rm_subscribe r then subscribeTo ok pub r else (r, []))"

text \<open>
  A subscribed track: a video track gets its goroutine, an audio track its chain unless the mixer is closed.
  \<open>made\<close>: the signal log, if there is one, and the decoder of the chain can be made.
\<close>

definition OnTrackSubscribed ::
  "bool \<Rightarrow> remote_track \<Rightarrow> publication \<Rightarrow> remote_participant \<Rightarrow> room \<Rightarrow> room \<times> room_effect list" where
  "OnTrackSubscribed made t pub rp r =
     (if \<not> rm_ready r then (r, [TrackIgnored (pb_sid pub)])
      else if rt_video t
      then (r\<lparr>rm_tracks := rm_tracks r @
              [\<lparr>vk_sid = pb_sid pub, vk_track = t, vk_screen = pb_screen pub,
                vk_label = (if rp_name rp = [] then rp_identity rp else rp_name rp) @ (if pb_screen pub then '' (Screen)'' else []),
                vk_phase = TrackStarts\<rparr>]\<rparr>, [])
      else if rm_mix_stopped r \<or> \<not> made then (r, [])
      else (r, [AudioTrack (pb_sid pub)]))"

section \<open>Output, DTMF and data\<close>

definition SwapOutput :: "nat option \<Rightarrow> room \<Rightarrow> room \<times> nat option" where
  "SwapOutput w r = (r\<lparr>rm_out := w\<rparr>, rm_out r)"

definition CloseOutput :: "room \<Rightarrow> room \<times> room_effect list" where
  "CloseOutput r =
     (case SwapOutput None r of (r', old) \<Rightarrow> (r', case old of None \<Rightarrow> [] | Some w \<Rightarrow> [WriterClosed w]))"

definition SetDTMFOutput :: "nat option \<Rightarrow> room \<Rightarrow> room" where
  "SetDTMFOutput w r = r\<lparr>rm_dtmf := w\<rparr>"

definition sendDTMF :: "string \<Rightarrow> room \<Rightarrow> room_effect list" where
  "sendDTMF digit r = (case rm_dtmf r of None \<Rightarrow> [DtmfIgnored digit] | Some w \<Rightarrow> [DtmfForwarded w digit])"

text \<open>\<open>dtmf\<close>: the digit of a DTMF message, \<open>None\<close> for other data.\<close>

definition OnDataPacket :: "string option \<Rightarrow> room \<Rightarrow> room \<times> room_effect list" where
  "OnDataPacket dtmf r =
     (case dtmf of
        None \<Rightarrow> (r, [])
      | Some digit \<Rightarrow>
          (r\<lparr>rm_stats := (rm_stats r)\<lparr>rs_data_packets := rs_data_packets (rm_stats r) + 1\<rparr>\<rparr>, sendDTMF digit r))"

text \<open>A call on the library's room of a room that has none panics.\<close>

definition on_room :: "string \<Rightarrow> (lk_room \<Rightarrow> room_effect list) \<Rightarrow> room \<Rightarrow> room_effect list" where
  "on_room what f r = (case rm_room r of None \<Rightarrow> [RoomPanic what] | Some lk \<Rightarrow> f lk)"

definition RegisterRPC :: "string \<Rightarrow> room \<Rightarrow> room_effect list" where
  "RegisterRPC rpc r = on_room ''RegisterRPC'' (\<lambda>_. [RpcRegistered rpc]) r"

definition SendData :: "string \<Rightarrow> room \<Rightarrow> room_effect list" where
  "SendData data r =
     (if \<not> rm_ready r \<or> rm_closed r then [] else on_room ''SendData'' (\<lambda>_. [DataPublished data]) r)"

datatype track_fault = NoTrack | NotPublished | NoEncoder

text \<open>The result: the error, or that the track is there. A panic is its own effect.\<close>

definition NewParticipantTrack :: "track_fault option \<Rightarrow> room \<Rightarrow> room_effect list \<times> track_fault option" where
  "NewParticipantTrack fault r =
     (if fault = Some NoTrack then ([], fault)
      else (on_room ''NewParticipantTrack'' (\<lambda>_. []) r, fault))"

definition NewParticipantVideoTrack :: "track_fault option \<Rightarrow> room \<Rightarrow> room_effect list \<times> track_fault option" where
  "NewParticipantVideoTrack fault r =
     (if fault = Some NoTrack then ([], fault)
      else (on_room ''NewParticipantVideoTrack'' (\<lambda>_. []) r, fault))"

section \<open>Video\<close>

definition Room_VideoEnabled :: "room \<Rightarrow> bool" where
  "Room_VideoEnabled r = (rm_comp r \<noteq> None)"

text \<open>\<open>available\<close>: the build has GStreamer; \<open>fails\<close>: the step of the pipeline that fails.\<close>

definition EnableVideo ::
  "bool \<Rightarrow> (string \<Rightarrow> bool) \<Rightarrow> video_out_config \<Rightarrow> video_stats option \<Rightarrow> room \<Rightarrow> room \<times> string option" where
  "EnableVideo available fails cfg stats r =
     (if \<not> available then (r, Some ''not supported'')
      else if rm_comp r \<noteq> None then (r, None)
      else (let r1 = r\<lparr>rm_video_cfg := cfg, rm_video_stats := stats, rm_video_out := Some \<lparr>gw_enabled = True, gw_w = None\<rparr>\<rparr> in
            case NewCompositor fails cfg of
              Inl e \<Rightarrow> (r1, Some e)
            | Inr (c, _) \<Rightarrow>
                (r1\<lparr>rm_comps := rm_comps r1 @ [c], rm_comp := Some (length (rm_comps r1)), rm_inputs := Some []\<rparr>, None)))"

text \<open>An operation of one of the compositors.\<close>

definition on_comp ::
  "nat \<Rightarrow> (compositor \<Rightarrow> compositor \<times> gst_effect list) \<Rightarrow> room \<Rightarrow> room \<times> room_effect list" where
  "on_comp n f r =
     (case f (rm_comps r ! n) of (c, es) \<Rightarrow> (r\<lparr>rm_comps := (rm_comps r)[n := c]\<rparr>, map (OnComp n) es))"

definition Room_ForceKeyFrame :: "room \<Rightarrow> room \<times> room_effect list" where
  "Room_ForceKeyFrame r = (case rm_comp r of None \<Rightarrow> (r, []) | Some n \<Rightarrow> on_comp n Comp_ForceKeyFrame r)"

definition SwapVideoOutput :: "nat option \<Rightarrow> room \<Rightarrow> room \<times> nat option" where
  "SwapVideoOutput w r =
     (case rm_video_out r of
        None \<Rightarrow> (r, None)
      | Some g \<Rightarrow> (case gated_Swap w g of (g', old) \<Rightarrow> (r\<lparr>rm_video_out := Some g'\<rparr>, old)))"

text \<open>A sample of the compositor goes through the gate.\<close>

definition on_sample :: "gst_buffer option option \<Rightarrow> room \<Rightarrow> room_effect list" where
  "on_sample s r =
     (case (sink_sample s, rm_video_out r) of
        ((_, Some smp), Some g) \<Rightarrow> map (\<lambda>(w, x). VideoOut w x) (gated_WriteVideoSample smp g)
      | _ \<Rightarrow> [])"

definition count_inputs :: "u64 \<Rightarrow> room \<Rightarrow> room" where
  "count_inputs d r = r\<lparr>rm_video_stats := map_option (\<lambda>t. t\<lparr>vt_inputs := vt_inputs t + d\<rparr>) (rm_video_stats r)\<rparr>"

definition map_lookup :: "(string \<times> 'a) list option \<Rightarrow> string \<Rightarrow> 'a option" where
  "map_lookup m i = (case m of None \<Rightarrow> None | Some xs \<Rightarrow> map_of xs i)"

definition map_remove :: "string \<Rightarrow> (string \<times> 'a) list option \<Rightarrow> (string \<times> 'a) list option" where
  "map_remove i m = map_option (filter (\<lambda>(j, _). j \<noteq> i)) m"

definition removeVideoInput :: "string \<Rightarrow> room \<Rightarrow> room \<times> room_effect list" where
  "removeVideoInput i r =
     (case map_lookup (rm_inputs r) i of
        None \<Rightarrow> (r, [])
      | Some (n, k) \<Rightarrow>
          (case on_comp n (Input_Close k) (r\<lparr>rm_inputs := map_remove i (rm_inputs r)\<rparr>) of
             (r', es) \<Rightarrow> (count_inputs (- 1) r', es)))"

definition closeVideo :: "room \<Rightarrow> room \<times> room_effect list" where
  "closeVideo r =
     (let inputs = (case rm_inputs r of None \<Rightarrow> [] | Some xs \<Rightarrow> xs) in
      andThen (run (\<lambda>(i, n, k). on_comp n (Input_Close k)) inputs (r\<lparr>rm_comp := None, rm_inputs := None\<rparr>))
        (\<lambda>r'. case rm_comp r of None \<Rightarrow> (r', []) | Some n \<Rightarrow> on_comp n Comp_Close r'))"

definition set_phase :: "nat \<Rightarrow> track_phase \<Rightarrow> room \<Rightarrow> room" where
  "set_phase i p r = r\<lparr>rm_tracks := (rm_tracks r)[i := (rm_tracks r ! i)\<lparr>vk_phase := p\<rparr>]\<rparr>"

definition end_track :: "nat \<Rightarrow> room \<Rightarrow> room \<times> room_effect list" where
  "end_track i r = removeVideoInput (vk_sid (rm_tracks r ! i)) (set_phase i TrackEnded r)"

text \<open>
  One part of \<open>handleVideoTrack\<close>. \<open>fault\<close> and \<open>crop\<close> are GStreamer's answer when the tile is added; \<open>read\<close>
  is what the track gives while the packets flow: \<open>None\<close> its end, otherwise a packet (\<open>None\<close>: it does not
  marshal) and what pushing it does.
\<close>

record track_input =
  ti_fault :: "add_fault option"
  ti_crop :: bool
  ti_read :: "u8 list option option"
  ti_clock :: "(u64 \<times> u64) option"
  ti_now :: nanos
  ti_pushed :: bool

definition maxConsecutiveErrors :: nat where
  "maxConsecutiveErrors = 10"

definition tile_request :: "video_track \<Rightarrow> input_request" where
  "tile_request t =
     \<lparr>ir_id = vk_sid t, ir_codec = CodecFromMimeType (rt_mime (vk_track t)), ir_clock = rt_clock (vk_track t),
      ir_pt = rt_pt (vk_track t), ir_label = vk_label t, ir_kind = (if vk_screen t then KindScreenShare else KindCamera)\<rparr>"

definition load_compositor :: "nat \<Rightarrow> room \<Rightarrow> room \<times> room_effect list" where
  "load_compositor i r =
     (case rm_comp r of
        None \<Rightarrow> (set_phase i TrackEnded r, [])
      | Some n \<Rightarrow>
          if CodecFromMimeType (rt_mime (vk_track (rm_tracks r ! i))) = CodecUnknown then (set_phase i TrackEnded r, [])
          else (set_phase i (TrackLoaded n) r, []))"

definition add_tile :: "track_input \<Rightarrow> nat \<Rightarrow> nat \<Rightarrow> room \<Rightarrow> room \<times> room_effect list" where
  "add_tile inp i n r =
     (case AddInput (ti_fault inp) (ti_crop inp) (tile_request (rm_tracks r ! i)) (rm_comps r ! n) of
        ((c, es), res) \<Rightarrow>
          (set_phase i (case res of Inl e \<Rightarrow> TrackEnded | Inr k \<Rightarrow> TileAdded n k) (r\<lparr>rm_comps := (rm_comps r)[n := c]\<rparr>),
           map (OnComp n) es))"

text \<open>Entering the tile in a nil map panics.\<close>

definition enter_tile :: "nat \<Rightarrow> nat \<Rightarrow> nat \<Rightarrow> room \<Rightarrow> room \<times> room_effect list" where
  "enter_tile i n k r =
     (case rm_inputs r of
        None \<Rightarrow> (set_phase i TrackEnded r, [RoomPanic ''assignment to entry in nil map''])
      | Some xs \<Rightarrow>
          (let sid = vk_sid (rm_tracks r ! i);
               r1 = count_inputs 1 (set_phase i (Pumping n k 0)
                      (r\<lparr>rm_inputs := Some ((sid, n, k) # filter (\<lambda>(j, _). j \<noteq> sid) xs)\<rparr>))
           in andThen (r1, [PliSent i]) (on_comp n Comp_ForceKeyFrame)))"

text \<open>A packet is read and handed to the tile; \<open>WriteRTP\<close> of a closed tile returns at once, without an error.\<close>

definition pump_packet :: "track_input \<Rightarrow> nat \<Rightarrow> nat \<Rightarrow> nat \<Rightarrow> nat \<Rightarrow> room \<Rightarrow> room \<times> room_effect list" where
  "pump_packet inp i n k errs r =
     (case ti_read inp of
        None \<Rightarrow> end_track i r
      | Some None \<Rightarrow> (r, [])
      | Some (Some raw) \<Rightarrow>
          (if gi_closed (gc_objs (rm_comps r ! n) ! k) then (set_phase i (Pumping n k 0) r, [])
           else (set_phase i (Pushing n k errs) (r\<lparr>rm_comps := (rm_comps r)[n := write_begin k raw (rm_comps r ! n)]\<rparr>), [])))"

definition push_packet :: "track_input \<Rightarrow> nat \<Rightarrow> nat \<Rightarrow> nat \<Rightarrow> nat \<Rightarrow> room \<Rightarrow> room \<times> room_effect list" where
  "push_packet inp i n k errs r =
     (case write_push (ti_clock inp) (ti_now inp) k (rm_comps r ! n) of
        (c, es) \<Rightarrow>
          (let r1 = r\<lparr>rm_comps := (rm_comps r)[n := c]\<rparr> in
           if ti_pushed inp then (set_phase i (Pumping n k 0) r1, map (OnComp n) es)
           else if errs + 1 \<ge> maxConsecutiveErrors then andThen (r1, map (OnComp n) es) (end_track i)
           else (set_phase i (Pumping n k (errs + 1)) r1, map (OnComp n) es)))"

definition track_step :: "track_input \<Rightarrow> nat \<Rightarrow> room \<Rightarrow> room \<times> room_effect list" where
  "track_step inp i r =
     (case vk_phase (rm_tracks r ! i) of
        TrackStarts \<Rightarrow> load_compositor i r
      | TrackLoaded n \<Rightarrow> add_tile inp i n r
      | TileAdded n k \<Rightarrow> enter_tile i n k r
      | Pumping n k errs \<Rightarrow> pump_packet inp i n k errs r
      | Pushing n k errs \<Rightarrow> push_packet inp i n k errs r
      | TrackEnded \<Rightarrow> (r, []))"

text \<open>The ticker of a track that asks its publisher for a key frame, until the track or the room ends.\<close>

definition track_tick :: "nat \<Rightarrow> room \<Rightarrow> room_effect list" where
  "track_tick i r =
     (case vk_phase (rm_tracks r ! i) of
        Pumping n k errs \<Rightarrow> if rm_stopped r then [] else [PliSent i]
      | Pushing n k errs \<Rightarrow> if rm_stopped r then [] else [PliSent i]
      | _ \<Rightarrow> [])"

text \<open>The writer of the published video track unpublishes it when it has both the publication and the participant.\<close>

definition videoTrackWriter_Close :: "string option \<Rightarrow> bool \<Rightarrow> string option" where
  "videoTrackWriter_Close pub p = (if p then pub else None)"

section \<open>Closing\<close>

definition Room_CloseWithReason :: "int \<Rightarrow> room \<Rightarrow> room \<times> room_effect list" where
  "Room_CloseWithReason reason r =
     (if rm_closed r then (r, [])
      else andThen (andThen (CloseOutput (r\<lparr>rm_subscribe := False\<rparr>)) (\<lambda>r. closeVideo (SetDTMFOutput None r)))
        (\<lambda>r. (r\<lparr>rm_room := None, rm_mix_stopped := True, rm_closed := True, rm_stats := (rm_stats r)\<lparr>rs_closed := True\<rparr>\<rparr>,
              (if rm_room r \<noteq> None then [LeftRoom reason] else []) @ [MixStopped])))"

definition Room_Close :: "room \<Rightarrow> room \<times> room_effect list" where
  "Room_Close r = Room_CloseWithReason 0 r"

section \<open>Runs\<close>

datatype room_op =
    ConnectBegins room_config
  | ConnectJoins room_config lk_room
  | Subscribes "string \<Rightarrow> bool" "remote_participant list"
  | ParticipantConnected remote_participant
  | TrackPublished "string \<Rightarrow> bool" publication
  | TrackSubscribed bool remote_track publication remote_participant
  | TrackUnsubscribed bool string
  | DataReceived "string option"
  | Disconnected
  | OutputSwapped "nat option"
  | DtmfOutputSet "nat option"
  | DataSent string
  | VideoEnables bool "string \<Rightarrow> bool" video_out_config
  | VideoOutputSwapped "nat option"
  | KeyFrameForced
  | SampleComposited "gst_buffer option option"
  | TrackRuns track_input nat
  | TrackTicks nat
  | Closes int

fun room_step :: "room_op \<Rightarrow> room \<Rightarrow> room \<times> room_effect list" where
  "room_step (ConnectBegins rc) r = (Connect_begin rc r, [])"
| "room_step (ConnectJoins rc lk) r = Connect_joined rc lk r"
| "room_step (Subscribes ok ps) r = Subscribe ok ps r"
| "room_step (ParticipantConnected rp) r = OnParticipantConnected rp r"
| "room_step (TrackPublished ok pub) r = OnTrackPublished ok pub r"
| "room_step (TrackSubscribed made t pub rp) r = OnTrackSubscribed made t pub rp r"
| "room_step (TrackUnsubscribed video sid) r = (if video then removeVideoInput sid r else (r, []))"
| "room_step (DataReceived d) r = OnDataPacket d r"
| "room_step Disconnected r = (r\<lparr>rm_stopped := True\<rparr>, [])"
| "room_step (OutputSwapped w) r = (fst (SwapOutput w r), [])"
| "room_step (DtmfOutputSet w) r = (SetDTMFOutput w r, [])"
| "room_step (DataSent d) r = (r, SendData d r)"
| "room_step (VideoEnables av fails cfg) r = (fst (EnableVideo av fails cfg (Some (VideoStats_Load (rm_video_stats r))) r), [])"
| "room_step (VideoOutputSwapped w) r = (fst (SwapVideoOutput w r), [])"
| "room_step KeyFrameForced r = Room_ForceKeyFrame r"
| "room_step (SampleComposited s) r = (r, on_sample s r)"
| "room_step (TrackRuns inp i) r = (if i < length (rm_tracks r) then track_step inp i r else (r, []))"
| "room_step (TrackTicks i) r = (r, if i < length (rm_tracks r) then track_tick i r else [])"
| "room_step (Closes reason) r = Room_CloseWithReason reason r"

section \<open>What video work leaves alone\<close>

lemma run_field: "(\<And>a s. g (fst (f a s)) = g s) \<Longrightarrow> g (fst (run f xs s)) = g s"
  by (induction xs arbitrary: s) (simp_all add: Let_def)

lemma run_all: "(\<And>a s. list_all P (snd (f a s))) \<Longrightarrow> list_all P (snd (run f xs s))"
  by (induction xs arbitrary: s) (simp_all add: Let_def)

text \<open>The part of a room that decides what it hears and whom it talks to.\<close>

definition core :: "room \<Rightarrow> lk_room option \<times> bool \<times> bool \<times> bool \<times> bool" where
  "core r = (rm_room r, rm_ready r, rm_subscribe r, rm_subscribed r, rm_closed r)"

text \<open>Effects of the video work, and of what neither subscribes nor talks to the room.\<close>

definition on_the_side :: "room_effect \<Rightarrow> bool" where
  "on_the_side e =
     (case e of
        OnComp n g \<Rightarrow> True | PliSent i \<Rightarrow> True | VideoOut w s \<Rightarrow> True | TrackIgnored s \<Rightarrow> True | AudioTrack s \<Rightarrow> True
      | WriterClosed w \<Rightarrow> True | DtmfForwarded w d \<Rightarrow> True | DtmfIgnored d \<Rightarrow> True
      | RoomPanic what \<Rightarrow> what = ''assignment to entry in nil map'' | _ \<Rightarrow> False)"

definition aside :: "room \<Rightarrow> room \<times> room_effect list \<Rightarrow> bool" where
  "aside r res = (core (fst res) = core r \<and> list_all on_the_side (snd res))"

lemma aside_nothing [simp]: "aside r (r, [])"
  by (simp add: aside_def)

lemma aside_andThen: "aside r res \<Longrightarrow> (\<And>r'. aside r' (f r')) \<Longrightarrow> aside r (andThen res f)"
  by (simp add: aside_def andThen_pair)

lemma core_updates [simp]:
  "core (r\<lparr>rm_comps := cs\<rparr>) = core r" "core (r\<lparr>rm_inputs := m\<rparr>) = core r" "core (r\<lparr>rm_tracks := ts\<rparr>) = core r"
  "core (r\<lparr>rm_comp := c\<rparr>) = core r" "core (count_inputs d r) = core r" "core (set_phase i p r) = core r"
  "core (r\<lparr>rm_video_out := g\<rparr>) = core r" "core (r\<lparr>rm_out := w\<rparr>) = core r" "core (SetDTMFOutput w r) = core r"
  "core (r\<lparr>rm_stats := st\<rparr>) = core r" "core (r\<lparr>rm_stopped := b\<rparr>) = core r"
  by (simp_all add: core_def count_inputs_def set_phase_def SetDTMFOutput_def)

lemma aside_from: "core r' = core r \<Longrightarrow> aside r' res \<Longrightarrow> aside r res"
  by (simp add: aside_def)

lemma aside_on_comp: "core r' = core r \<Longrightarrow> aside r (on_comp n f r')"
  by (simp add: aside_def on_comp_def on_the_side_def list_all_iff split_def)

lemma aside_remove: "aside r (removeVideoInput i r)"
proof (cases "map_lookup (rm_inputs r) i")
  case (Some nk)
  have "aside r (on_comp (fst nk) (Input_Close (snd nk)) (r\<lparr>rm_inputs := map_remove i (rm_inputs r)\<rparr>))"
    by (rule aside_on_comp) simp
  with Some show ?thesis by (simp add: removeVideoInput_def split_def aside_def)
qed (simp add: removeVideoInput_def)

lemma aside_end_track: "aside r (end_track i r)"
  unfolding end_track_def by (rule aside_from [OF _ aside_remove]) simp

lemma aside_closeVideo: "aside r (closeVideo r)"
  unfolding closeVideo_def Let_def
proof (rule aside_andThen)
  let ?r = "r\<lparr>rm_comp := None, rm_inputs := None\<rparr>"
  let ?f = "\<lambda>(i :: string, n, k). on_comp n (Input_Close k)"
  have one: "aside s (?f a s)" for a s by (cases a) (simp add: aside_on_comp)
  have "core (fst (run ?f xs ?r)) = core ?r" for xs
    by (rule run_field) (rule one [unfolded aside_def, THEN conjunct1])
  moreover have "list_all on_the_side (snd (run ?f xs ?r))" for xs
    by (rule run_all) (rule one [unfolded aside_def, THEN conjunct2])
  ultimately show "aside r (run ?f (case rm_inputs r of None \<Rightarrow> [] | Some xs \<Rightarrow> xs) ?r)"
    by (simp add: aside_def)
  show "aside r' (case rm_comp r of None \<Rightarrow> (r', []) | Some n \<Rightarrow> on_comp n Comp_Close r')" for r'
    by (simp add: aside_on_comp split: option.split)
qed

lemma aside_comp_effects: "core r' = core r \<Longrightarrow> aside r (r', map (OnComp n) es)"
  by (simp add: aside_def on_the_side_def list_all_iff)

lemma aside_track_step: "aside r (track_step inp i r)"
proof -
  have "aside r (load_compositor i r)"
    by (simp add: load_compositor_def aside_def split: option.split)
  moreover have "aside r (add_tile inp i n r)" for n
    by (simp add: add_tile_def aside_comp_effects split: prod.split)
  moreover have "aside r (enter_tile i n k r)" for n k
  proof (cases "rm_inputs r")
    case None
    then show ?thesis by (simp add: enter_tile_def aside_def on_the_side_def)
  next
    case (Some xs)
    show ?thesis
      by (auto simp: enter_tile_def Some Let_def aside_on_comp aside_def [of _ "(_, [PliSent i])"] on_the_side_def
          intro!: aside_andThen)
  qed
  moreover have "aside r (pump_packet inp i n k errs r)" for n k errs
    by (auto simp: pump_packet_def aside_end_track aside_def [of _ "(_, [])"] split: option.split)
  moreover have "aside r (push_packet inp i n k errs r)" for n k errs
    by (auto simp: push_packet_def Let_def aside_end_track aside_comp_effects intro!: aside_andThen
        split: option.split prod.split)
  ultimately show ?thesis by (simp add: track_step_def split: track_phase.split)
qed

lemma aside_tick: "aside r (r, track_tick i r)"
  by (simp add: track_tick_def aside_def on_the_side_def split: track_phase.split)

lemma aside_sample: "aside r (r, on_sample s r)"
  by (auto simp: on_sample_def aside_def on_the_side_def list_all_iff gated_WriteVideoSample_def split: option.split prod.split)

lemma aside_enable: "core (fst (EnableVideo av fails cfg st r)) = core r"
  by (simp add: EnableVideo_def core_def Let_def split: sum.split prod.split)

text \<open>The operations that stay aside: all but those that join, subscribe, talk to the room or close it.\<close>

fun stays_aside :: "room_op \<Rightarrow> bool" where
  "stays_aside (ConnectBegins rc) = True"
| "stays_aside (TrackSubscribed made t pub rp) = True"
| "stays_aside (TrackUnsubscribed v s) = True"
| "stays_aside (DataReceived d) = True"
| "stays_aside Disconnected = True"
| "stays_aside (OutputSwapped w) = True"
| "stays_aside (DtmfOutputSet w) = True"
| "stays_aside (VideoEnables av f c) = True"
| "stays_aside (VideoOutputSwapped w) = True"
| "stays_aside KeyFrameForced = True"
| "stays_aside (SampleComposited s) = True"
| "stays_aside (TrackRuns inp i) = True"
| "stays_aside (TrackTicks i) = True"
| "stays_aside _ = False"

lemma stays_aside_step: "stays_aside op \<Longrightarrow> aside r (room_step op r)"
proof (cases op)
  case (TrackSubscribed made t pub rp)
  then show ?thesis by (simp add: OnTrackSubscribed_def aside_def on_the_side_def)
next
  case (DataReceived d)
  then show ?thesis
    by (simp add: OnDataPacket_def sendDTMF_def aside_def on_the_side_def split: option.split)
next
  case (VideoEnables av f c)
  then show ?thesis using aside_enable [of av f c] by (simp add: aside_def)
next
  case (VideoOutputSwapped w)
  then show ?thesis by (simp add: SwapVideoOutput_def aside_def gated_Swap_def split: option.split)
next
  case KeyFrameForced
  then show ?thesis by (simp add: Room_ForceKeyFrame_def aside_on_comp split: option.split)
qed (simp_all add: aside_remove aside_sample aside_track_step aside_tick Connect_begin_def SwapOutput_def,
  simp_all add: aside_def, simp_all add: core_def)

section \<open>Subscribing\<close>

text \<open>What makes the room heard: another SIP participant, or an audio track whose subscription is taken.\<close>

definition heard :: "room_effect \<Rightarrow> bool" where
  "heard e = (case e of SipParticipant i \<Rightarrow> True | SetSubscribed s k ok \<Rightarrow> k = TrackAudio \<and> ok | _ \<Rightarrow> False)"

definition subscribes :: "room_effect \<Rightarrow> bool" where
  "subscribes e = (case e of SipParticipant i \<Rightarrow> True | SetSubscribed s k ok \<Rightarrow> True | SetVideoQuality s q \<Rightarrow> True
     | RoomJoined auto attrs \<Rightarrow> auto | _ \<Rightarrow> False)"

lemma side_effects:
  "on_the_side e \<Longrightarrow> \<not> heard e" "on_the_side e \<Longrightarrow> \<not> subscribes e" "on_the_side e \<Longrightarrow> e \<noteq> MixStopped"
  "on_the_side e \<Longrightarrow> e \<noteq> LeftRoom x" "on_the_side e \<Longrightarrow> e \<noteq> RoomPanic ''SendData''"
  by (cases e; simp add: on_the_side_def heard_def subscribes_def)+

lemma side_none: "list_all on_the_side es \<Longrightarrow> \<not> list_ex heard es \<and> \<not> list_ex subscribes es"
  using side_effects(1,2) by (auto simp: list_all_iff list_ex_iff)

text \<open>What has been heard so far is what the fuse says.\<close>

definition tells :: "room \<Rightarrow> room \<times> room_effect list \<Rightarrow> bool" where
  "tells r res = (rm_subscribed (fst res) = (rm_subscribed r \<or> list_ex heard (snd res)))"

lemma tells_nothing [simp]: "tells r (r, [])"
  by (simp add: tells_def)

lemma tells_andThen: "tells r res \<Longrightarrow> (\<And>r'. tells r' (f r')) \<Longrightarrow> tells r (andThen res f)"
  by (auto simp: tells_def andThen_pair)

lemma tells_run: "(\<And>a r. tells r (f a r)) \<Longrightarrow> tells r (run f xs r)"
  by (induction xs arbitrary: r) (auto simp: tells_def Let_def)

lemma tells_aside: "aside r res \<Longrightarrow> tells r res"
  using side_none by (simp add: aside_def tells_def core_def)

lemma tells_join: "tells r (participantJoin rp r)"
  by (simp add: participantJoin_def tells_def heard_def)

lemma tells_subscribeTo: "tells r (subscribeTo ok pub r)"
  by (auto simp: subscribeTo_def tells_def heard_def split: track_kind.split)

lemma tells_Subscribe: "tells r (Subscribe ok ps r)"
proof -
  have one: "tells r (Subscribe_participant ok rp r)" for rp r
    unfolding Subscribe_participant_def by (rule tells_andThen [OF tells_join tells_run]) (rule tells_subscribeTo)
  from tells_run [of "Subscribe_participant ok" "r\<lparr>rm_subscribe := True\<rparr>" ps, OF one] show ?thesis
    by (simp add: Subscribe_def tells_def)
qed

lemma tells_close: "tells r (Room_CloseWithReason reason r)"
proof -
  have "tells r (CloseOutput (r\<lparr>rm_subscribe := False\<rparr>))"
    by (simp add: CloseOutput_def SwapOutput_def tells_def heard_def split: option.split)
  moreover have "tells s (closeVideo (SetDTMFOutput None s))" for s
    using tells_aside [OF aside_closeVideo, of "SetDTMFOutput None s"] by (simp add: tells_def SetDTMFOutput_def)
  moreover have "tells s (s\<lparr>rm_room := None, rm_mix_stopped := True, rm_closed := True, rm_stats := (rm_stats s)\<lparr>rs_closed := True\<rparr>\<rparr>,
      (if rm_room s \<noteq> None then [LeftRoom reason] else []) @ [MixStopped])" for s
    by (simp add: tells_def heard_def)
  ultimately show ?thesis by (auto simp: Room_CloseWithReason_def intro!: tells_andThen)
qed

lemma tells_step: "tells r (room_step op r)"
proof (cases "stays_aside op")
  case True
  then show ?thesis using stays_aside_step tells_aside by blast
next
  case False
  then show ?thesis
    by (cases op) (simp_all add: tells_close tells_Subscribe tells_join tells_subscribeTo OnParticipantConnected_def
        OnTrackPublished_def Connect_joined_def SendData_def on_room_def tells_def [of _ "(_, [RoomJoined _ _])"]
        tells_def [of _ "(_, [DataPublished _])"] tells_def [of _ "(_, [RoomPanic _])"] heard_def split: option.split)
qed

interpretation fuse: traced room_step "\<lambda>es r. rm_subscribed r = list_ex heard es"
  using tells_step by unfold_locales (simp add: tells_def)

text \<open>Until it is told to subscribe, a room neither subscribes to anything nor says that it is heard.\<close>

definition waits :: "room \<Rightarrow> bool" where
  "waits r = (\<not> rm_subscribe r \<and> \<not> rm_subscribed r)"

fun not_subscribe :: "room_op \<Rightarrow> bool" where
  "not_subscribe (Subscribes ok ps) = False"
| "not_subscribe _ = True"

lemma close_subscribe:
  "rm_subscribed (fst (Room_CloseWithReason reason r)) = rm_subscribed r \<and> (\<not> rm_subscribe r \<longrightarrow> \<not> rm_subscribe (fst (Room_CloseWithReason reason r)))
   \<and> \<not> list_ex subscribes (snd (Room_CloseWithReason reason r))"
proof -
  have video: "rm_subscribe (fst (closeVideo s)) = rm_subscribe s" "rm_subscribed (fst (closeVideo s)) = rm_subscribed s"
    "\<not> list_ex subscribes (snd (closeVideo s))" for s
    using aside_closeVideo [of s] side_none by (simp_all add: aside_def core_def)
  show ?thesis
    by (auto simp: Room_CloseWithReason_def andThen_pair video CloseOutput_def SwapOutput_def SetDTMFOutput_def subscribes_def split: option.split)
qed

lemma waits_step:
  assumes "not_subscribe op" "waits r"
  shows "waits (fst (room_step op r)) \<and> \<not> list_ex subscribes (snd (room_step op r))"
proof (cases "stays_aside op")
  case True
  from stays_aside_step [OF this, of r] side_none assms(2) show ?thesis
    by (simp add: aside_def core_def waits_def)
next
  case False
  with assms close_subscribe [of _ r] show ?thesis
    by (cases op) (auto simp: waits_def OnParticipantConnected_def OnTrackPublished_def Connect_joined_def SendData_def on_room_def
        subscribes_def split: option.split)
qed

interpretation waiting: stepper room_step not_subscribe waits
  using waits_step by unfold_locales simp

section \<open>The compositors of a room\<close>

text \<open>Every compositor is well laid out, and all but the current one are closed.\<close>

definition comps_inv :: "nat option \<Rightarrow> room \<Rightarrow> bool" where
  "comps_inv cur r =
     (list_all comp_inv (rm_comps r) \<and> list_all (\<lambda>n. cur = Some n \<or> gc_closed (rm_comps r ! n)) [0..<length (rm_comps r)])"

definition video_inv :: "room \<Rightarrow> bool" where
  "video_inv r =
     (comps_inv (rm_comp r) r
      \<and> (rm_inputs r = None) = (rm_comp r = None) \<and> pred_option (\<lambda>n. n < length (rm_comps r)) (rm_comp r))"

text \<open>An operation on a compositor that keeps it well laid out, and closed if it is.\<close>

definition tame :: "compositor \<Rightarrow> compositor \<Rightarrow> bool" where
  "tame c c' = ((comp_inv c \<longrightarrow> comp_inv c') \<and> (gc_closed c \<longrightarrow> gc_closed c'))"

lemma tame_keeps:
  "keeps comp_inv branches_settle c res \<Longrightarrow> (gc_closed c \<Longrightarrow> gc_closed (fst res)) \<Longrightarrow> tame c (fst res)"
  by (simp add: tame_def keeps_def)

lemma tame_add: "tame c (fst (fst (AddInput fault crop rq c)))"
  by (rule tame_keeps [OF add_keeps]) (simp add: AddInput_def Let_def split: option.split)

lemma tame_close_input: "tame c (fst (Input_Close k c))"
  unfolding Input_Close_def
  by (rule tame_keeps [OF remove_keeps]) (simp add: RemoveInput_def teardownLocked_def split: option.split prod.split)

lemma tame_written: "written c c' \<Longrightarrow> tame c c'"
  by (simp add: tame_def comp_inv_def comp_wf_def written_wf) (simp add: written_def)

lemma tame_write: "tame c (write_begin k pkt c)" "tame c (fst (write_push clock now k c))"
  by (simp_all add: tame_written write_begin_written write_push_written)

lemma tame_key: "tame c (fst (Comp_ForceKeyFrame c))"
  by (simp add: tame_def Comp_ForceKeyFrame_def)

lemma tame_close: "tame c (fst (Comp_Close c))"
  by (rule tame_keeps [OF close_keeps]) (simp add: comp_closing.close_again)

lemma comps_inv_update:
  assumes "comps_inv cur r" "tame (rm_comps r ! n) c"
  shows "comps_inv cur (r\<lparr>rm_comps := (rm_comps r)[n := c]\<rparr>)"
proof (cases "n < length (rm_comps r)")
  case True
  with assms show ?thesis
    by (auto simp: comps_inv_def tame_def list_all_length nth_list_update)
qed (use assms in \<open>simp add: comps_inv_def list_update_beyond\<close>)

lemma comps_inv_cong: "rm_comps r' = rm_comps r \<Longrightarrow> comps_inv cur r' = comps_inv cur r"
  by (simp add: comps_inv_def)

lemma video_updates [simp]:
  "rm_comps (set_phase i p r) = rm_comps r" "rm_comp (set_phase i p r) = rm_comp r" "rm_inputs (set_phase i p r) = rm_inputs r"
  "rm_comps (count_inputs d r) = rm_comps r" "rm_comp (count_inputs d r) = rm_comp r" "rm_inputs (count_inputs d r) = rm_inputs r"
  by (simp_all add: set_phase_def count_inputs_def)

lemma video_inv_cong:
  "rm_comps r' = rm_comps r \<Longrightarrow> rm_comp r' = rm_comp r \<Longrightarrow> rm_inputs r' = rm_inputs r \<Longrightarrow> video_inv r' = video_inv r"
  by (simp add: video_inv_def comps_inv_def)

lemma video_inv_update:
  assumes "video_inv r" "tame (rm_comps r ! n) c"
  shows "video_inv (r\<lparr>rm_comps := (rm_comps r)[n := c]\<rparr>)"
  using assms comps_inv_update [of "rm_comp r" r n c] by (simp add: video_inv_def split: option.splits)

lemma on_comp_fields [simp]:
  "rm_comp (fst (on_comp n f r)) = rm_comp r" "rm_inputs (fst (on_comp n f r)) = rm_inputs r"
  "length (rm_comps (fst (on_comp n f r))) = length (rm_comps r)"
  by (simp_all add: on_comp_def split_def)

lemma on_comp_inv:
  assumes "video_inv r" "\<And>c. tame c (fst (f c))"
  shows "video_inv (fst (on_comp n f r))"
  using video_inv_update [OF assms(1), of n] assms(2) by (simp add: on_comp_def split_def)

lemma remove_video_inv:
  assumes "video_inv r"
  shows "video_inv (fst (removeVideoInput i r))"
proof (cases "map_lookup (rm_inputs r) i")
  case (Some nk)
  have "video_inv (r\<lparr>rm_inputs := map_remove i (rm_inputs r)\<rparr>)"
    using assms by (auto simp: video_inv_def comps_inv_def map_remove_def split: option.splits)
  from on_comp_inv [OF this tame_close_input] Some show ?thesis
    by (simp add: removeVideoInput_def split_def video_inv_cong [of "count_inputs _ _"])
qed (use assms in \<open>simp add: removeVideoInput_def\<close>)

lemma end_track_inv: "video_inv r \<Longrightarrow> video_inv (fst (end_track i r))"
  unfolding end_track_def by (rule remove_video_inv) (simp add: video_inv_cong [of "set_phase _ _ _"])

lemma closeVideo_inv:
  assumes "video_inv r"
  shows "comps_inv None (fst (closeVideo r))" "rm_comp (fst (closeVideo r)) = None" "rm_inputs (fst (closeVideo r)) = None"
proof -
  let ?f = "\<lambda>(i :: string, n, k). on_comp n (Input_Close k)"
  let ?r = "r\<lparr>rm_comp := None, rm_inputs := None\<rparr>"
  let ?s = "fst (run ?f (case rm_inputs r of None \<Rightarrow> [] | Some xs \<Rightarrow> xs) ?r)"
  have fields: "rm_comp (fst (run ?f xs ?r)) = rm_comp ?r" "rm_inputs (fst (run ?f xs ?r)) = rm_inputs ?r"
    "length (rm_comps (fst (run ?f xs ?r))) = length (rm_comps ?r)" for xs
    by (rule run_field, simp add: split_def)+
  have step: "comps_inv cur s \<Longrightarrow> comps_inv cur (fst (?f a s))" for cur a s
    using comps_inv_update [of cur s "fst (snd a)"] tame_close_input by (simp add: on_comp_def split_def)
  have "comps_inv cur s \<Longrightarrow> comps_inv cur (fst (run ?f xs s))" for cur xs s
    by (induction xs arbitrary: s) (simp_all add: Let_def step)
  moreover have "comps_inv (rm_comp r) ?r" using assms by (simp add: video_inv_def comps_inv_def)
  ultimately have s: "comps_inv (rm_comp r) ?s" by blast
  show "rm_comp (fst (closeVideo r)) = None" "rm_inputs (fst (closeVideo r)) = None"
    by (simp_all add: closeVideo_def andThen_pair fields split: option.split)
  show "comps_inv None (fst (closeVideo r))"
  proof (cases "rm_comp r")
    case None
    with s show ?thesis by (simp add: closeVideo_def andThen_pair)
  next
    case (Some n)
    have c: "gc_closed (fst (Comp_Close (rm_comps ?s ! n)))" by (rule comp_closing.close_closes)
    have "comps_inv (Some n) (fst (on_comp n Comp_Close ?s))"
      using comps_inv_update [of "Some n" ?s n] s tame_close Some by (simp add: on_comp_def split_def)
    with c have "comps_inv None (fst (on_comp n Comp_Close ?s))"
      by (auto simp: comps_inv_def on_comp_def split_def list_all_length nth_list_update)
    with Some show ?thesis by (simp add: closeVideo_def andThen_pair Let_def)
  qed
qed

lemma close_video_inv:
  assumes "video_inv r" "\<not> rm_closed r"
  shows "video_inv (fst (Room_CloseWithReason reason r))" "list_all gc_closed (rm_comps (fst (Room_CloseWithReason reason r)))"
    "rm_closed (fst (Room_CloseWithReason reason r))"
proof -
  let ?s = "SetDTMFOutput None (fst (CloseOutput (r\<lparr>rm_subscribe := False\<rparr>)))"
  have "video_inv ?s" using assms(1)
    by (simp add: SetDTMFOutput_def CloseOutput_def SwapOutput_def video_inv_def comps_inv_def)
  note closed = closeVideo_inv [OF this]
  have comps: "rm_comps (fst (Room_CloseWithReason reason r)) = rm_comps (fst (closeVideo ?s))"
    "rm_comp (fst (Room_CloseWithReason reason r)) = None" "rm_inputs (fst (Room_CloseWithReason reason r)) = None"
    using assms(2) closed by (simp_all add: Room_CloseWithReason_def andThen_pair)
  show "video_inv (fst (Room_CloseWithReason reason r))"
    using closed by (simp add: video_inv_def comps comps_inv_def)
  show "list_all gc_closed (rm_comps (fst (Room_CloseWithReason reason r)))"
    using closed(1) by (simp add: comps comps_inv_def list_all_length)
  show "rm_closed (fst (Room_CloseWithReason reason r))" using assms(2) by (simp add: Room_CloseWithReason_def andThen_pair)
qed

lemma track_step_inv:
  assumes inv: "video_inv r"
  shows "video_inv (fst (track_step inp i r))"
proof -
  have phase: "video_inv (set_phase j p s) = video_inv s" for j p s by (rule video_inv_cong) simp_all
  have "video_inv (fst (load_compositor i r))" using inv by (simp add: load_compositor_def phase split: option.split)
  moreover have "video_inv (fst (add_tile inp i n r))" for n
    using video_inv_update [OF inv tame_add] by (simp add: add_tile_def phase split_def)
  moreover have "video_inv (fst (enter_tile i n k r))" for n k
  proof (cases "rm_inputs r")
    case None
    with inv show ?thesis by (simp add: enter_tile_def phase)
  next
    case (Some xs)
    let ?sid = "vk_sid (rm_tracks r ! i)"
    let ?r1 = "count_inputs 1 (set_phase i (Pumping n k 0)
      (r\<lparr>rm_inputs := Some ((?sid, n, k) # filter (\<lambda>(j, _). j \<noteq> ?sid) xs)\<rparr>))"
    have "video_inv ?r1" using inv Some by (auto simp: video_inv_def comps_inv_def split: option.splits)
    from on_comp_inv [OF this tame_key] Some show ?thesis by (simp add: enter_tile_def Let_def andThen_pair)
  qed
  moreover have "video_inv (fst (pump_packet inp i n k errs r))" for n k errs
    using video_inv_update [OF inv tame_write(1)] inv
    by (auto simp: pump_packet_def phase end_track_inv split: option.split)
  moreover have "video_inv (fst (push_packet inp i n k errs r))" for n k errs
  proof -
    have pushed: "video_inv (r\<lparr>rm_comps := (rm_comps r)[n := fst (write_push cl now k (rm_comps r ! n))]\<rparr>)" for cl now
      using video_inv_update [OF inv tame_write(2)] .
    show ?thesis
      using pushed end_track_inv [OF pushed]
      by (auto simp: push_packet_def phase Let_def andThen_pair split_def)
  qed
  ultimately show ?thesis using inv by (simp add: track_step_def split: track_phase.split)
qed

lemma enable_inv: "video_inv r \<Longrightarrow> video_inv (fst (EnableVideo av fails cfg st r))"
  using NewCompositor_inv(1)
  by (auto simp: EnableVideo_def Let_def video_inv_def comps_inv_def nth_append list_all_iff split: sum.split option.splits)

lemma participant_video:
  "rm_comps (fst (participantJoin rp r)) = rm_comps r \<and> rm_comp (fst (participantJoin rp r)) = rm_comp r
     \<and> rm_inputs (fst (participantJoin rp r)) = rm_inputs r"
  "rm_comps (fst (subscribeTo ok pub r)) = rm_comps r \<and> rm_comp (fst (subscribeTo ok pub r)) = rm_comp r
     \<and> rm_inputs (fst (subscribeTo ok pub r)) = rm_inputs r"
  by (auto simp: participantJoin_def subscribeTo_def split: track_kind.split)

lemma subscribe_video:
  "(rm_comps (fst (Subscribe ok ps r)), rm_comp (fst (Subscribe ok ps r)), rm_inputs (fst (Subscribe ok ps r)))
     = (rm_comps r, rm_comp r, rm_inputs r)"
proof -
  let ?g = "\<lambda>r. (rm_comps r, rm_comp r, rm_inputs r)"
  have "?g (fst (run (subscribeTo ok) pubs s)) = ?g s" for pubs s
    by (rule run_field) (simp add: participant_video)
  then have "?g (fst (Subscribe_participant ok rp s)) = ?g s" for rp s
    by (simp add: Subscribe_participant_def andThen_pair participant_video)
  then have "?g (fst (run (Subscribe_participant ok) ps s)) = ?g s" for s by (rule run_field)
  then show ?thesis by (simp add: Subscribe_def)
qed

lemma room_step_video:
  assumes inv: "video_inv r"
  shows "video_inv (fst (room_step op r))"
proof (cases op)
  case (Subscribes ok ps)
  with inv subscribe_video [of ok ps r] show ?thesis by (simp add: video_inv_def comps_inv_def)
next
  case KeyFrameForced
  with inv show ?thesis by (auto simp: Room_ForceKeyFrame_def on_comp_inv tame_key split: option.split)
next
  case (Closes reason)
  with inv close_video_inv(1) show ?thesis by (cases "rm_closed r") (simp_all add: Room_CloseWithReason_def)
next
  case (TrackPublished ok pub)
  with inv participant_video(2) [of ok pub r] show ?thesis by (simp add: OnTrackPublished_def video_inv_def comps_inv_def)
next
  case (VideoOutputSwapped w)
  with inv show ?thesis
    by (simp add: SwapVideoOutput_def gated_Swap_def video_inv_def comps_inv_def split: option.split)
qed (use inv in \<open>simp_all add: track_step_inv enable_inv remove_video_inv\<close>,
  use inv in \<open>simp_all add: Connect_begin_def Connect_joined_def OnParticipantConnected_def
    OnTrackSubscribed_def OnDataPacket_def SwapOutput_def SetDTMFOutput_def participantJoin_def
    video_inv_def comps_inv_def split: option.split\<close>)

interpretation video: stepper room_step "\<lambda>_. True" video_inv
  using room_step_video by unfold_locales simp

section \<open>Closing happens once\<close>

text \<open>Leaving the LiveKit room, and stopping the mixer.\<close>

definition leaves :: "room_effect \<Rightarrow> bool" where
  "leaves e = (case e of LeftRoom reason \<Rightarrow> True | _ \<Rightarrow> False)"

definition stops_mix :: "room_effect \<Rightarrow> bool" where
  "stops_mix e = (e = MixStopped)"

definition closings_left :: "room \<Rightarrow> nat" where
  "closings_left r = (if rm_closed r then 0 else 1)"

lemma count_none: "list_all (\<lambda>e. \<not> p e) es \<Longrightarrow> count_by p es = 0"
  by (simp add: count_by_zero_iff list_all_iff)

lemma side_counts:
  assumes "list_all on_the_side es"
  shows "count_by leaves es = 0" "count_by stops_mix es = 0"
  using assms side_effects(3,4)
  by (auto intro!: count_none simp: list_all_iff leaves_def stops_mix_def split: room_effect.split)

lemma run_none: "(\<And>a s. count_by p (snd (f a s)) = 0) \<Longrightarrow> count_by p (snd (run f xs s)) = 0"
  by (induction xs arbitrary: s) (simp_all add: Let_def)

lemma subscribe_quiet:
  "count_by leaves (snd (Subscribe ok ps r)) = 0" "count_by stops_mix (snd (Subscribe ok ps r)) = 0"
  "rm_closed (fst (Subscribe ok ps r)) = rm_closed r" "rm_room (fst (Subscribe ok ps r)) = rm_room r"
  "rm_ready (fst (Subscribe ok ps r)) = rm_ready r" "RoomPanic ''SendData'' \<notin> set (snd (Subscribe ok ps r))"
proof -
  let ?p = "\<lambda>e. leaves e \<or> stops_mix e \<or> e = RoomPanic ''SendData''"
  let ?g = "\<lambda>r. (rm_closed r, rm_room r, rm_ready r)"
  have sub: "?g (fst (subscribeTo ok pub s)) = ?g s" "count_by ?p (snd (subscribeTo ok pub s)) = 0" for pub s
    by (auto simp: subscribeTo_def leaves_def stops_mix_def split: track_kind.split)
  have "?g (fst (run (subscribeTo ok) pubs s)) = ?g s" "count_by ?p (snd (run (subscribeTo ok) pubs s)) = 0" for pubs s
    by (rule run_field [where g = ?g, OF sub(1)], rule run_none [OF sub(2)])
  then have part: "?g (fst (Subscribe_participant ok rp s)) = ?g s" "count_by ?p (snd (Subscribe_participant ok rp s)) = 0" for rp s
    by (simp_all add: Subscribe_participant_def andThen_pair participantJoin_def leaves_def stops_mix_def)
  have "?g (fst (run (Subscribe_participant ok) ps s)) = ?g s" "count_by ?p (snd (run (Subscribe_participant ok) ps s)) = 0" for s
    by (rule run_field [where g = ?g, OF part(1)], rule run_none [OF part(2)])
  then show "count_by leaves (snd (Subscribe ok ps r)) = 0" "count_by stops_mix (snd (Subscribe ok ps r)) = 0"
    "rm_closed (fst (Subscribe ok ps r)) = rm_closed r" "rm_room (fst (Subscribe ok ps r)) = rm_room r"
    "rm_ready (fst (Subscribe ok ps r)) = rm_ready r" "RoomPanic ''SendData'' \<notin> set (snd (Subscribe ok ps r))"
    by (auto simp: Subscribe_def count_by_zero_iff)
qed

lemma close_quiet:
  "count_by leaves (snd (Room_CloseWithReason reason r)) \<le> 1" "count_by stops_mix (snd (Room_CloseWithReason reason r)) \<le> 1"
  "RoomPanic ''SendData'' \<notin> set (snd (Room_CloseWithReason reason r))" "rm_closed (fst (Room_CloseWithReason reason r))"
proof -
  have video: "count_by leaves (snd (closeVideo s)) = 0" "count_by stops_mix (snd (closeVideo s)) = 0"
    "RoomPanic ''SendData'' \<notin> set (snd (closeVideo s))" "rm_room (fst (closeVideo s)) = rm_room s" for s
    using aside_closeVideo [of s] side_counts side_effects(5) by (auto simp: aside_def core_def list_all_iff)
  show "count_by leaves (snd (Room_CloseWithReason reason r)) \<le> 1" "count_by stops_mix (snd (Room_CloseWithReason reason r)) \<le> 1"
    "RoomPanic ''SendData'' \<notin> set (snd (Room_CloseWithReason reason r))" "rm_closed (fst (Room_CloseWithReason reason r))"
    by (auto simp: Room_CloseWithReason_def andThen_pair video CloseOutput_def SwapOutput_def leaves_def stops_mix_def split: option.split)
qed

definition joined_inv :: "room \<Rightarrow> bool" where
  "joined_inv r = (rm_ready r \<and> \<not> rm_closed r \<longrightarrow> rm_room r \<noteq> None)"

lemma room_step_once:
  "count_by leaves (snd (room_step op r)) + closings_left (fst (room_step op r)) \<le> closings_left r"
  "count_by stops_mix (snd (room_step op r)) + closings_left (fst (room_step op r)) \<le> closings_left r"
  "joined_inv r \<Longrightarrow> joined_inv (fst (room_step op r)) \<and> RoomPanic ''SendData'' \<notin> set (snd (room_step op r))"
proof -
  have aside: "aside r (room_step op r) \<Longrightarrow>
    count_by leaves (snd (room_step op r)) = 0 \<and> count_by stops_mix (snd (room_step op r)) = 0
    \<and> rm_closed (fst (room_step op r)) = rm_closed r \<and> rm_room (fst (room_step op r)) = rm_room r
    \<and> rm_ready (fst (room_step op r)) = rm_ready r \<and> RoomPanic ''SendData'' \<notin> set (snd (room_step op r))"
    using side_counts side_effects(5) by (auto simp: aside_def core_def list_all_iff)
  have "count_by leaves (snd (room_step op r)) + closings_left (fst (room_step op r)) \<le> closings_left r
    \<and> count_by stops_mix (snd (room_step op r)) + closings_left (fst (room_step op r)) \<le> closings_left r
    \<and> (joined_inv r \<longrightarrow> joined_inv (fst (room_step op r)) \<and> RoomPanic ''SendData'' \<notin> set (snd (room_step op r)))"
  proof (cases "stays_aside op")
    case True
    from aside [OF stays_aside_step [OF True]] show ?thesis by (simp add: closings_left_def joined_inv_def)
  next
    case False
    then show ?thesis
    proof (cases op)
      case (Closes reason)
      then show ?thesis using close_quiet [of reason r]
        by (cases "rm_closed r") (simp_all add: closings_left_def joined_inv_def, simp_all add: Room_CloseWithReason_def)
    qed (auto simp: subscribe_quiet closings_left_def joined_inv_def Connect_joined_def OnParticipantConnected_def
        OnTrackPublished_def participantJoin_def subscribeTo_def SendData_def on_room_def leaves_def stops_mix_def
        split: option.split track_kind.split)
  qed
  then show "count_by leaves (snd (room_step op r)) + closings_left (fst (room_step op r)) \<le> closings_left r"
    "count_by stops_mix (snd (room_step op r)) + closings_left (fst (room_step op r)) \<le> closings_left r"
    "joined_inv r \<Longrightarrow> joined_inv (fst (room_step op r)) \<and> RoomPanic ''SendData'' \<notin> set (snd (room_step op r))"
    by simp_all
qed

interpretation leaving: budgeted room_step "\<lambda>_. True" joined_inv leaves closings_left
  using room_step_once by unfold_locales simp_all

interpretation stopping: budgeted room_step "\<lambda>_. True" joined_inv stops_mix closings_left
  using room_step_once by unfold_locales simp_all

interpretation room_closing: close_once Room_CloseWithReason rm_closed
  using close_quiet(4) by unfold_locales (simp_all add: Room_CloseWithReason_def)

lemma new_room: "joined_inv (NewRoom st)" "video_inv (NewRoom st)" "waits (NewRoom st)" "\<not> rm_closed (NewRoom st)"
  by (simp_all add: joined_inv_def video_inv_def comps_inv_def waits_def NewRoom_def)

section \<open>Properties\<close>

text \<open>
  C12. Whatever callbacks arrive and whatever else the owner does, a room on which \<open>Subscribe\<close> was not called
  subscribes to no track, takes no participant for a listener, and its \<open>Subscribed\<close> fuse is not broken.
\<close>

theorem room_waits_for_subscribe:
  assumes "list_all not_subscribe ops"
  shows "\<not> list_ex subscribes (snd (run room_step ops (NewRoom st))) \<and> \<not> rm_subscribed (fst (run room_step ops (NewRoom st)))"
proof
  have "\<not> subscribes e" if "e \<in> set (snd (run room_step ops (NewRoom st)))" for e
    using waiting.run_effects [where P = "\<lambda>e. \<not> subscribes e", OF _ assms new_room(3) that] waits_step
    by (auto simp: list_ex_iff)
  then show "\<not> list_ex subscribes (snd (run room_step ops (NewRoom st)))" by (auto simp: list_ex_iff)
  show "\<not> rm_subscribed (fst (run room_step ops (NewRoom st)))"
    using waiting.run_inv [OF assms new_room(3)] by (simp add: waits_def)
qed

definition sample_stats :: room_stats where
  "sample_stats = \<lparr>rs_published_frames = 0, rs_published_samples = 0, rs_publish_tx = 0, rs_rtp = fresh_stats, rs_data_packets = 0,
     rs_jitter_lost = 0, rs_jitter_dropped = 0, rs_latency = \<lparr>la_count = 0, la_sum = 0, la_max = 0\<rparr>, rs_closed = False,
     rs_last_time = 0, rs_last_samples = 0\<rparr>"

definition sample_config :: room_config where
  "sample_config = \<lparr>rg_url = [], rg_token = ''t'', rg_room = ''r'', rg_identity = ''i'', rg_name = ''n'', rg_attrs = []\<rparr>"

definition sample_lk :: lk_room where
  "sample_lk = \<lparr>lr_local_sid = ''PA_1'', lr_local_identity = ''i'', lr_reason = 1\<rparr>"

definition sample_audio :: publication where
  "sample_audio = \<lparr>pb_sid = ''TR_a'', pb_kind = TrackAudio, pb_screen = False, pb_remote = True\<rparr>"

definition sample_speaker :: remote_participant where
  "sample_speaker = \<lparr>rp_identity = ''s'', rp_name = ''S'', rp_sip = False, rp_pubs = [sample_audio]\<rparr>"

lemma room_waits_for_subscribe_witness:
  "\<not> rm_subscribed (fst (run room_step [ConnectJoins sample_config sample_lk, TrackPublished (\<lambda>_. True) sample_audio] (NewRoom sample_stats)))
   \<and> rm_subscribed (fst (run room_step [ConnectJoins sample_config sample_lk, Subscribes (\<lambda>_. True) [sample_speaker]] (NewRoom sample_stats)))"
proof
  show "\<not> rm_subscribed (fst (run room_step [ConnectJoins sample_config sample_lk, TrackPublished (\<lambda>_. True) sample_audio] (NewRoom sample_stats)))"
    using room_waits_for_subscribe [of "[ConnectJoins sample_config sample_lk, TrackPublished (\<lambda>_. True) sample_audio]" sample_stats]
    by simp
qed code_simp

text \<open>
  The \<open>Subscribed\<close> fuse of a room is broken exactly if another SIP participant was seen or the
  subscription to an audio track was taken, over any interleaving of callbacks and calls.
\<close>

theorem room_subscribed_heard:
  "rm_subscribed (fst (run room_step ops (NewRoom st))) = list_ex heard (snd (run room_step ops (NewRoom st)))"
  using fuse.run_rel_start [of "NewRoom st" ops] by (simp add: NewRoom_def)

text \<open>
  C7. A room keeps its compositors in order under any interleaving of its callbacks, the goroutines of its
  video tracks and the calls of its owner: each is well laid out with a table that agrees with its store, and
  all but the current one are closed; closing the room closes every compositor it ever made.
\<close>

theorem room_video_released:
  "case run room_step ops (NewRoom st) of (r, es) \<Rightarrow>
     list_all comp_inv (rm_comps r)
     \<and> list_all (\<lambda>n. rm_comp r = Some n \<or> gc_closed (rm_comps r ! n)) [0..<length (rm_comps r)]
     \<and> (if rm_closed r then True else list_all gc_closed (rm_comps (fst (Room_CloseWithReason reason r))))"
proof -
  have "video_inv (fst (run room_step ops (NewRoom st)))"
    using video.run_inv [OF _ new_room(2)] by (simp add: list_all_iff)
  with close_video_inv(2) show ?thesis by (simp add: split_def video_inv_def comps_inv_def)
qed

text \<open>
  A room is closed once: over any sequence of operations it leaves the LiveKit room at most once and stops
  its mixer at most once, and sending data never runs into a room that is not there.
\<close>

theorem room_closed_once:
  "case run room_step ops (NewRoom st) of (r, es) \<Rightarrow>
     count_by leaves es \<le> 1 \<and> count_by stops_mix es \<le> 1 \<and> \<not> list_ex (\<lambda>e. e = RoomPanic ''SendData'') es"
proof -
  have "e \<noteq> RoomPanic ''SendData''" if "e \<in> set (snd (run room_step ops (NewRoom st)))" for e
    using leaving.run_effects [where P = "\<lambda>e. e \<noteq> RoomPanic ''SendData''", OF _ _ new_room(1) that] room_step_once(3)
    by (auto simp: list_all_iff)
  moreover have "closings_left (NewRoom st) = 1" by (simp add: closings_left_def new_room)
  ultimately show ?thesis
    using leaving.run_at_most [of ops "NewRoom st"] stopping.run_at_most [of ops "NewRoom st"] new_room(1) [of st]
    by (auto simp: split_def list_ex_iff list_all_iff)
qed

section \<open>Behaviours to know\<close>

text \<open>A room that is joined after it was closed is not left again.\<close>

lemma connect_after_close_stays:
  "case run room_step [Closes 0, ConnectJoins sample_config sample_lk, Closes 0] (NewRoom sample_stats) of (r, es) \<Rightarrow>
     rm_room r \<noteq> None \<and> count_by leaves es = 0"
  by code_simp

definition sample_video :: remote_track where
  "sample_video = \<lparr>rt_video = True, rt_mime = ''video/VP8'', rt_clock = 90, rt_pt = 96, rt_ssrc = 7\<rparr>"

definition sample_camera :: publication where
  "sample_camera = \<lparr>pb_sid = ''v'', pb_kind = TrackVideo, pb_screen = False, pb_remote = True\<rparr>"

definition sample_packet_in :: track_input where
  "sample_packet_in = \<lparr>ti_fault = None, ti_crop = True, ti_read = Some (Some [1]), ti_clock = None, ti_now = 0, ti_pushed = True\<rparr>"

definition no_cfg :: video_out_config where
  "no_cfg = \<lparr>vo_width = 0, vo_height = 0, vo_fps = 0, vo_bitrate = 0, vo_keyframe = 0\<rparr>"

definition video_room :: "room_op list" where
  "video_room = [ConnectJoins sample_config sample_lk, VideoEnables True (\<lambda>_. False) no_cfg,
     TrackSubscribed True sample_video sample_camera sample_speaker, TrackRuns sample_packet_in 0, TrackRuns sample_packet_in 0]"

text \<open>The room is closed between adding a tile and entering it: the goroutine writes to a nil map.\<close>

lemma tile_entered_after_close_panics:
  "list_ex (\<lambda>e. case e of RoomPanic w \<Rightarrow> True | _ \<Rightarrow> False)
     (snd (run room_step (video_room @ [Closes 0, TrackRuns sample_packet_in 0]) (NewRoom sample_stats)))"
  by code_simp

text \<open>
  A track is unsubscribed and subscribed again under the same id before its first goroutine ends: the end of
  the first goroutine removes the tile of the second.
\<close>

lemma stale_track_removes_tile:
  "let ops = video_room @ [TrackRuns sample_packet_in 0, TrackUnsubscribed True ''v'',
       TrackSubscribed True sample_video sample_camera sample_speaker, TrackRuns sample_packet_in 1, TrackRuns sample_packet_in 1,
       TrackRuns sample_packet_in 1];
       before = fst (run room_step ops (NewRoom sample_stats));
       after = fst (run room_step (ops @ [TrackRuns (sample_packet_in\<lparr>ti_read := None\<rparr>) 0]) (NewRoom sample_stats))
   in map (length \<circ> gc_inputs) (rm_comps before) = [1] \<and> map (length \<circ> gc_inputs) (rm_comps after) = [0]
      \<and> map vk_phase (rm_tracks after) = [TrackEnded, Pumping 0 1 0]"
  by code_simp

text \<open>Closing the room closes the tiles but does not take them off the gauge.\<close>

lemma gauge_after_close:
  "let r = fst (run room_step (video_room @ [TrackRuns sample_packet_in 0, Closes 0, TrackRuns (sample_packet_in\<lparr>ti_read := None\<rparr>) 0])
              (NewRoom sample_stats))
   in map_option vt_inputs (rm_video_stats r) = Some 1 \<and> map (length \<circ> gc_inputs) (rm_comps r) = [0]"
  by code_simp

end
