(* ===== verification/Service_Run.thy ===== *)
theory Service_Run
  imports Inbound_Call Room Monitor_Registry Transfer_Service
begin

text \<open>
  The process around the calls. \<open>pkg/service/psrpc.go\<close>: the decision on a call, read off the answer of the
  dispatch service. \<open>pkg/sip/service.go\<close>, \<open>pkg/sip/server.go\<close> and \<open>pkg/sip/client.go\<close>, \<open>Start\<close> and \<open>Stop\<close>: metrics,
  TLS, the user agent and the SIP listeners. \<open>pkg/service/service.go\<close>: the servers for metrics, profiling and
  health, and \<open>Run\<close>, which on a shutdown waits for the calls to finish. \<open>cmd/livekit-sip/main.go\<close>: the signals.

  What the network, the TLS library, sipgo and psrpc answer is the argument of the operation. The goroutine of
  the signals, that of \<open>Run\<close> and the ticker interleave.
\<close>

section \<open>Dispatch of a call\<close>

datatype dispatch_answer = LegacyAcceptOrPin | AnswerAccept | AnswerRequestPin | AnswerReject | AnswerDrop | AnswerUnknown int

record dispatch_response =
  dr_result :: dispatch_answer
  dr_request_pin :: bool
  dr_project :: string
  dr_trunk :: string
  dr_rule :: string
  dr_url :: string
  dr_token :: string
  dr_room :: string
  dr_identity :: string
  dr_name :: string
  dr_attrs :: str_entries
  dr_headers :: "str_map option"
  dr_hdr_to_attr :: str_entries
  dr_include :: header_options
  dr_attr_to_hdr :: str_entries
  dr_flags :: str_entries
  dr_ringing :: nanos
  dr_max_duration :: nanos
  dr_media :: media_request

text \<open>A dispatch with all fields but the result at their zero values.\<close>

definition no_dispatch :: "dispatch_result \<Rightarrow> call_dispatch" where
  "no_dispatch res =
     \<lparr>cd_result = res, cd_room = [], cd_identity = [], cd_name = [], cd_attrs = None, cd_project = [], cd_trunk = [], cd_rule = [],
      cd_headers = None, cd_hdr_to_attr = [], cd_include = SIP_NO_HEADERS, cd_attr_to_hdr = [], cd_ringing = 0, cd_max_duration = 0,
      cd_media = \<lparr>mr_encryption = ENCRYPT_DISABLE, mr_only_listed = False, mr_codecs = [], mr_timeout = None\<rparr>\<rparr>"

definition accepted_dispatch :: "dispatch_response \<Rightarrow> call_dispatch" where
  "accepted_dispatch a =
     \<lparr>cd_result = DispatchAccept, cd_room = dr_room a, cd_identity = dr_identity a, cd_name = dr_name a,
      cd_attrs = Some (map_of (dr_attrs a)), cd_project = dr_project a, cd_trunk = dr_trunk a, cd_rule = dr_rule a,
      cd_headers = dr_headers a, cd_hdr_to_attr = dr_hdr_to_attr a, cd_include = dr_include a, cd_attr_to_hdr = dr_attr_to_hdr a,
      cd_ringing = dr_ringing a, cd_max_duration = dr_max_duration a, cd_media = dr_media a\<rparr>"

definition answer_room :: "dispatch_response \<Rightarrow> room_config" where
  "answer_room a = \<lparr>rg_url = dr_url a, rg_token = dr_token a, rg_room = dr_room a, rg_identity = dr_identity a,
     rg_name = dr_name a, rg_attrs = dr_attrs a\<rparr>"

text \<open>
  \<open>answer\<close>: \<open>None\<close> an error of the dispatch service; \<open>upgrade\<close> is the library's conversion of old answers. With
  the decision come the room of an accepted call and its feature flags.
\<close>

definition DispatchCall ::
  "(dispatch_response \<Rightarrow> dispatch_response) \<Rightarrow> dispatch_response option \<Rightarrow> call_dispatch \<times> room_config option \<times> str_entries" where
  "DispatchCall upgrade answer =
     (case answer of
        None \<Rightarrow> (no_dispatch DispatchServiceUnavailable, None, [])
      | Some a0 \<Rightarrow>
          (let a = upgrade a0 in
           case dr_result a of
             AnswerUnknown n \<Rightarrow>
               ((no_dispatch DispatchNoRuleReject)\<lparr>cd_project := dr_project a, cd_trunk := dr_trunk a\<rparr>, None, [])
           | LegacyAcceptOrPin \<Rightarrow>
               if dr_request_pin a
               then ((no_dispatch DispatchRequestPin)\<lparr>cd_project := dr_project a, cd_trunk := dr_trunk a, cd_rule := dr_rule a,
                       cd_media := dr_media a\<rparr>, None, [])
               else (accepted_dispatch a, Some (answer_room a), [])
           | AnswerAccept \<Rightarrow> (accepted_dispatch a, Some (answer_room a), dr_flags a)
           | AnswerRequestPin \<Rightarrow> ((no_dispatch DispatchRequestPin)\<lparr>cd_trunk := dr_trunk a, cd_media := dr_media a\<rparr>, None, [])
           | AnswerReject \<Rightarrow> ((no_dispatch DispatchNoRuleReject)\<lparr>cd_trunk := dr_trunk a\<rparr>, None, [])
           | AnswerDrop \<Rightarrow> ((no_dispatch DispatchNoRuleDrop)\<lparr>cd_trunk := dr_trunk a\<rparr>, None, [])))"

section \<open>The SIP service: start and stop\<close>

record tls_conf =
  tc_alpn :: "string list"
  tc_certs :: "(string \<times> string) list"
  tc_suites :: "u16 list option"
  tc_min :: u16
  tc_max :: u16

text \<open>
  The environment of a start: \<open>se_loads\<close> whether a pair of certificate and key loads, \<open>se_keylog\<close> whether a key
  log is configured and whether its file opens, \<open>se_listens\<close> whether a listener of that protocol opens.
\<close>

record start_env =
  se_fault :: "string \<Rightarrow> bool"
  se_secure :: "string \<rightharpoonup> u16"
  se_insecure :: "string \<rightharpoonup> u16"
  se_loads :: "string \<times> string \<Rightarrow> bool"
  se_keylog :: "bool option"
  se_agent :: bool
  se_client :: bool
  se_server :: bool
  se_ip :: bool
  se_listens :: "string \<Rightarrow> bool"

record sip_service =
  sx_registry :: registry_state
  sx_closers :: nat
  sx_listeners :: "(string \<times> int) list"
  sx_client :: bool
  sx_server :: bool
  sx_closing :: bool

datatype service_effect =
    KeyLogOpened
  | KeyLogClosed
  | ListenerOpened string int
  | ListenerClosed string int
  | ClientClosed
  | ServerClosed
  | CallsShutdown
  | MonitorStopped
  | StartPanic

text \<open>The TLS configuration; the key log, opened on the way, is the effect.\<close>

definition build_tls :: "start_env \<Rightarrow> tls_settings \<Rightarrow> (string + tls_conf) \<times> service_effect list" where
  "build_tls env t =
     (if ts_certs t = [] then (Inl ''TLS certificate required'', [])
      else if \<not> list_all (se_loads env) (ts_certs t) then (Inl ''certificate'', [])
      else if se_keylog env = Some False then (Inl ''key log'', [])
      else (let es = (if se_keylog env = Some True then [KeyLogOpened] else []) in
            case parseCipherSuites (se_secure env) (se_insecure env) (ts_suites t) of
              (Inl e, _) \<Rightarrow> (Inl e, es)
            | (Inr suites, _) \<Rightarrow>
                (case parseTLSVersion (ts_min t) of
                   Inl e \<Rightarrow> (Inl e, es)
                 | Inr lo \<Rightarrow>
                     (case parseTLSVersion (ts_max t) of
                        Inl e \<Rightarrow> (Inl e, es)
                      | Inr hi \<Rightarrow> (Inr \<lparr>tc_alpn = tlsALPNProtocols (ts_alpn t), tc_certs = ts_certs t, tc_suites = suites,
                                     tc_min = lo, tc_max = hi\<rparr>, es)))))"

text \<open>The listeners in their order, until one fails.\<close>

fun listen_all :: "start_env \<Rightarrow> (string \<times> int) list \<Rightarrow> sip_service \<Rightarrow> (sip_service \<times> service_effect list) \<times> string option" where
  "listen_all env [] s = ((s, []), None)"
| "listen_all env ((proto, port) # ls) s =
     (if \<not> se_listens env proto then ((s, []), Some proto)
      else (case listen_all env ls (s\<lparr>sx_listeners := sx_listeners s @ [(proto, port)]\<rparr>) of
              ((s', es), err) \<Rightarrow> ((s', ListenerOpened proto port # es), err)))"

text \<open>A port of the configuration, cut to 16 bits.\<close>

definition listen_port :: "int \<Rightarrow> int" where
  "listen_port p = p mod 65536"

definition server_listeners :: "svc_config \<Rightarrow> bool \<Rightarrow> (string \<times> int) list" where
  "server_listeners conf tls =
     [(''udp'', listen_port (cf_sip_listen conf)), (''tcp'', listen_port (cf_sip_listen conf))]
     @ (case cf_tls conf of Some t \<Rightarrow> if tls then [(''tls'', listen_port (ts_listen t))] else [] | None \<Rightarrow> [])"

definition Server_Start :: "start_env \<Rightarrow> svc_config \<Rightarrow> bool \<Rightarrow> sip_service \<Rightarrow> (sip_service \<times> service_effect list) \<times> string option" where
  "Server_Start env conf tls s =
     (if \<not> se_server env then ((s, []), Some ''server'')
      else (let s1 = s\<lparr>sx_server := True\<rparr> in
            if \<not> se_ip env then ((s1, []), Some ''listen ip'')
            else listen_all env (server_listeners conf tls) s1))"

definition Client_Start :: "start_env \<Rightarrow> sip_service \<Rightarrow> sip_service \<times> string option" where
  "Client_Start env s = (if se_client env then (s\<lparr>sx_client := True\<rparr>, None) else (s, Some ''client''))"

definition start_agent ::
  "start_env \<Rightarrow> svc_config \<Rightarrow> bool \<Rightarrow> sip_service \<Rightarrow> (sip_service \<times> service_effect list) \<times> string option" where
  "start_agent env conf tls s =
     (if \<not> se_agent env then ((s, []), Some ''user agent'')
      else (case Client_Start env s of
              (s1, Some e) \<Rightarrow> ((s1, []), Some e)
            | (s1, None) \<Rightarrow> Server_Start env conf tls s1))"

definition Service_Start :: "start_env \<Rightarrow> svc_config \<Rightarrow> sip_service \<Rightarrow> (sip_service \<times> service_effect list) \<times> string option" where
  "Service_Start env conf s =
     (case Monitor_Start (se_fault env) (sx_registry s) of
        None \<Rightarrow> ((s, [StartPanic]), Some ''monitor'')
      | Some reg \<Rightarrow>
          (let s1 = s\<lparr>sx_registry := reg\<rparr> in
           case cf_tls conf of
             None \<Rightarrow> start_agent env conf False s1
           | Some t \<Rightarrow>
               (case build_tls env t of
                  (res, es) \<Rightarrow>
                    (let s2 = s1\<lparr>sx_closers := sx_closers s1 + length es\<rparr> in
                     case res of
                       Inl e \<Rightarrow> ((s2, es), Some e)
                     | Inr _ \<Rightarrow> (case start_agent env conf True s2 of ((s3, es'), err) \<Rightarrow> ((s3, es @ es'), err))))))"

text \<open>How the library's loop over a listener ends, and whether the goroutine around it panics.\<close>

datatype serve_end = ServeNil | ServeNetClosed | ServeFailed

definition serve_panics :: "string \<Rightarrow> serve_end \<Rightarrow> bool" where
  "serve_panics proto e = (case e of ServeNil \<Rightarrow> False | ServeNetClosed \<Rightarrow> proto = ''udp'' | ServeFailed \<Rightarrow> True)"

definition Server_Stop :: "sip_service \<Rightarrow> sip_service \<times> service_effect list" where
  "Server_Stop s =
     (s\<lparr>sx_closing := True\<rparr>,
      [CallsShutdown] @ (if sx_server s then [ServerClosed] else []) @ map (\<lambda>(p, n). ListenerClosed p n) (sx_listeners s))"

definition Client_Shut :: "sip_service \<Rightarrow> sip_service \<times> service_effect list" where
  "Client_Shut s = (s\<lparr>sx_client := False\<rparr>, if sx_client s then [ClientClosed] else [])"

definition Service_Stop :: "sip_service \<Rightarrow> sip_service \<times> service_effect list" where
  "Service_Stop s =
     andThen (andThen (Client_Shut s) Server_Stop)
       (\<lambda>s. (s\<lparr>sx_registry := Monitor_Stop (sx_registry s)\<rparr>, MonitorStopped # replicate (sx_closers s) KeyLogClosed))"

section \<open>The service process\<close>

definition health_code :: "health_status \<Rightarrow> nat" where
  "health_code st = (case st of HealthOK \<Rightarrow> 200 | HealthUnderLoad \<Rightarrow> 429 | _ \<Rightarrow> 503)"

text \<open>The ports of the metrics, profiling and health servers.\<close>

definition http_ports :: "int \<Rightarrow> int \<Rightarrow> int \<Rightarrow> (string \<times> int) list" where
  "http_ports prom pprof health =
     filter (\<lambda>(_, p). p > 0) [(''prometheus'', prom), (''pprof'', pprof), (''health'', health)]"

datatype run_phase = NotRunning | Ready | Draining | Finished

text \<open>The goroutine of the signals: it waits for one signal, and stops the service with it.\<close>

datatype signal_phase = AwaitsSignal | Stopping bool | HandlerGone

record svc_process =
  sw_phase :: run_phase
  sw_ports :: "(string \<times> int) list"
  sw_rpc :: bool
  sw_topic :: bool
  sw_shutdown :: bool
  sw_killed :: bool
  sw_health_stopped :: bool
  sw_signals :: signal_phase

datatype process_effect =
    HttpOpened string
  | HttpClosed string
  | RpcStarted
  | RpcStopped
  | TopicRegistered
  | TopicDeregistered
  | WaitingForCalls nat
  | SipStopped bool nat
  | RunFailed string

definition new_process :: svc_process where
  "new_process = \<lparr>sw_phase = NotRunning, sw_ports = [], sw_rpc = False, sw_topic = False, sw_shutdown = False,
     sw_killed = False, sw_health_stopped = False, sw_signals = AwaitsSignal\<rparr>"

record run_env =
  re_ports :: "(string \<times> int) list"
  re_listens :: "string \<Rightarrow> bool"
  re_rpc :: bool
  re_topic :: bool

definition http_opened :: "run_env \<Rightarrow> (string \<times> int) list" where
  "http_opened env = takeWhile (\<lambda>(n, _). re_listens env n) (re_ports env)"

definition open_ports :: "(string \<times> int) list \<Rightarrow> process_effect list" where
  "open_ports ps = map (\<lambda>(n, _). HttpOpened n) ps"

definition close_ports :: "(string \<times> int) list \<Rightarrow> process_effect list" where
  "close_ports ps = rev (map (\<lambda>(n, _). HttpClosed n) ps)"

text \<open>\<open>Run\<close> up to where it waits for the shutdown; the deferred closings run when it fails.\<close>

definition run_begins :: "run_env \<Rightarrow> svc_process \<Rightarrow> svc_process \<times> process_effect list" where
  "run_begins env p =
     (let ps = http_opened env; es = open_ports ps in
      if sw_phase p \<noteq> NotRunning then (p, [])
      else if length ps < length (re_ports env)
      then (p\<lparr>sw_phase := Finished\<rparr>, es @ close_ports ps @ [RunFailed ''listen''])
      else if \<not> re_rpc env then (p\<lparr>sw_phase := Finished\<rparr>, es @ close_ports ps @ [RunFailed ''rpc''])
      else if \<not> re_topic env
      then (p\<lparr>sw_phase := Finished, sw_rpc := True\<rparr>, es @ [RpcStarted, RpcStopped] @ close_ports ps @ [RunFailed ''topic''])
      else (p\<lparr>sw_phase := Ready, sw_ports := ps, sw_rpc := True, sw_topic := True\<rparr>, es @ [RpcStarted, TopicRegistered]))"

text \<open>The loop that waits for the calls, at its test; \<open>calls\<close> is the number of active calls.\<close>

definition drain_test :: "nat \<Rightarrow> svc_process \<Rightarrow> svc_process \<times> process_effect list" where
  "drain_test calls p =
     (if sw_killed p \<or> calls = 0
      then (p\<lparr>sw_phase := Finished\<rparr>, [SipStopped (sw_killed p) calls, RpcStopped] @ close_ports (sw_ports p))
      else (p\<lparr>sw_phase := Draining\<rparr>, [WaitingForCalls calls]))"

definition run_proceeds :: "nat \<Rightarrow> svc_process \<Rightarrow> svc_process \<times> process_effect list" where
  "run_proceeds calls p =
     (if sw_phase p = Ready \<and> sw_shutdown p
      then (case drain_test calls (p\<lparr>sw_topic := False\<rparr>) of (p', es) \<Rightarrow> (p', TopicDeregistered # es))
      else (p, []))"

definition drain_tick :: "nat \<Rightarrow> svc_process \<Rightarrow> svc_process \<times> process_effect list" where
  "drain_tick calls p = (if sw_phase p = Draining then drain_test calls p else (p, []))"

text \<open>
  \<open>Stop\<close> in its two parts: the monitor and the fuse, then the flag. \<open>kill\<close>: the signal is SIGINT; a signal that
  comes when the goroutine of the signals has gone on is not received.
\<close>

definition signal_arrives :: "bool \<Rightarrow> svc_process \<Rightarrow> svc_process" where
  "signal_arrives kill p =
     (if sw_signals p = AwaitsSignal
      then p\<lparr>sw_signals := Stopping kill, sw_health_stopped := True, sw_shutdown := True\<rparr> else p)"

definition stop_finishes :: "svc_process \<Rightarrow> svc_process" where
  "stop_finishes p =
     (case sw_signals p of Stopping kill \<Rightarrow> p\<lparr>sw_killed := kill, sw_signals := HandlerGone\<rparr> | _ \<Rightarrow> p)"

datatype process_op =
    RunBegins run_env
  | RunProceeds nat
  | DrainTick nat
  | SignalArrives bool
  | StopFinishes

fun process_step :: "process_op \<Rightarrow> svc_process \<Rightarrow> svc_process \<times> process_effect list" where
  "process_step (RunBegins env) p = run_begins env p"
| "process_step (RunProceeds calls) p = run_proceeds calls p"
| "process_step (DrainTick calls) p = drain_tick calls p"
| "process_step (SignalArrives kill) p = (signal_arrives kill p, [])"
| "process_step StopFinishes p = (stop_finishes p, [])"

section \<open>Lemmas: start and stop\<close>

definition new_sip_service :: "string list \<Rightarrow> sip_service" where
  "new_sip_service names =
     \<lparr>sx_registry = \<lparr>rg_names = names, rg_own = [], rg_started = False\<rparr>, sx_closers = 0, sx_listeners = [],
      sx_client = False, sx_server = False, sx_closing = False\<rparr>"

lemma new_sip_service_fields [simp]:
  "sx_registry (new_sip_service names) = \<lparr>rg_names = names, rg_own = [], rg_started = False\<rparr>"
  "sx_closers (new_sip_service names) = 0" "sx_listeners (new_sip_service names) = []"
  by (simp_all add: new_sip_service_def)

fun opened :: "service_effect \<Rightarrow> (string \<times> int) list" where
  "opened (ListenerOpened p n) = [(p, n)]"
| "opened _ = []"

fun shut :: "service_effect \<Rightarrow> (string \<times> int) list" where
  "shut (ListenerClosed p n) = [(p, n)]"
| "shut _ = []"

text \<open>What a start has to show for its effects: the listeners and key logs a service now holds.\<close>

definition holds :: "sip_service \<Rightarrow> sip_service \<times> service_effect list \<Rightarrow> bool" where
  "holds s r \<longleftrightarrow> sx_listeners (fst r) = sx_listeners s @ concat (map opened (snd r))
     \<and> sx_closers (fst r) = sx_closers s + count_by (\<lambda>e. e = KeyLogOpened) (snd r)
     \<and> sx_registry (fst r) = sx_registry s \<and> StartPanic \<notin> set (snd r)"

lemma listen_all_holds: "holds s (fst (listen_all env ls s))"
proof (induction env ls s rule: listen_all.induct)
  case (2 env proto port ls s)
  then show ?case by (simp add: holds_def split_def)
qed (simp add: holds_def)

lemma start_agent_holds: "holds s (fst (start_agent env conf tls s))"
proof -
  have none: "holds s (s, [])" "holds s (s\<lparr>sx_client := c\<rparr>, [])" "holds s (s\<lparr>sx_client := c, sx_server := b\<rparr>, [])" for c b
    by (simp_all add: holds_def)
  have "holds s (fst (listen_all env ls (s\<lparr>sx_client := c, sx_server := b\<rparr>)))" for ls c b
    using listen_all_holds [of "s\<lparr>sx_client := c, sx_server := b\<rparr>" env ls] by (simp add: holds_def)
  with none show ?thesis by (simp add: start_agent_def Client_Start_def Server_Start_def Let_def)
qed

lemma build_tls_effects: "snd (build_tls env t) = [] \<or> snd (build_tls env t) = [KeyLogOpened]"
  by (auto simp: build_tls_def Let_def split: sum.split prod.split)

lemma listen_all_done:
  "snd (listen_all env ls s) = None \<Longrightarrow> concat (map opened (snd (fst (listen_all env ls s)))) = ls"
  by (induction env ls s rule: listen_all.induct) (auto simp: split_def split: if_splits)

lemma shut_listeners [simp]: "concat (map (shut \<circ> (\<lambda>(p, n). ListenerClosed p n)) ls) = ls"
  by (induction ls) auto

lemma Service_Stop_eq:
  "Service_Stop s =
     (s\<lparr>sx_client := False, sx_closing := True, sx_registry := Monitor_Stop (sx_registry s)\<rparr>,
      (if sx_client s then [ClientClosed] else []) @ CallsShutdown # (if sx_server s then [ServerClosed] else [])
      @ map (\<lambda>(p, n). ListenerClosed p n) (sx_listeners s) @ MonitorStopped # replicate (sx_closers s) KeyLogClosed)"
  by (simp add: Service_Stop_def Client_Shut_def Server_Stop_def andThen_pair)

lemma Service_Stop_releases:
  "concat (map shut (snd (Service_Stop s))) = sx_listeners s"
  "count_by (\<lambda>e. e = KeyLogClosed) (snd (Service_Stop s)) = sx_closers s"
  "sx_registry (fst (Service_Stop s)) = Monitor_Stop (sx_registry s)"
  by (simp_all add: Service_Stop_eq split_def comp_def count_by_def flip: shut_listeners)

text \<open>A start, whatever fails in it: the monitor's registration apart, it only adds what it holds.\<close>

lemma Service_Start_holds:
  assumes "Monitor_Start (se_fault env) (sx_registry s) = Some reg"
  shows "holds (s\<lparr>sx_registry := reg\<rparr>) (fst (Service_Start env conf s))"
proof (cases "cf_tls conf")
  case None
  then show ?thesis using assms start_agent_holds by (simp add: Service_Start_def Let_def)
next
  case (Some t)
  obtain res es where tls: "build_tls env t = (res, es)" by fastforce
  let ?s = "s\<lparr>sx_registry := reg\<rparr>" and ?s2 = "s\<lparr>sx_registry := reg, sx_closers := sx_closers s + length es\<rparr>"
  have es: "es = [] \<or> es = [KeyLogOpened]" using build_tls_effects [of env t] tls by simp
  have "holds ?s2 (fst (start_agent env conf True ?s2))" by (rule start_agent_holds)
  with es show ?thesis using assms Some tls
    by (cases res) (auto simp: Service_Start_def Let_def holds_def split_def)
qed

lemma start_agent_done:
  assumes "snd (start_agent env conf tls s) = None"
  shows "concat (map opened (snd (fst (start_agent env conf tls s)))) = server_listeners conf tls"
  using assms listen_all_done [of env "server_listeners conf tls" "s\<lparr>sx_client := True, sx_server := True\<rparr>"]
  by (auto simp: start_agent_def Client_Start_def Server_Start_def Let_def split: if_splits)

lemma Service_Start_done:
  assumes "Monitor_Start (se_fault env) (sx_registry s) = Some reg" "snd (Service_Start env conf s) = None"
  shows "concat (map opened (snd (fst (Service_Start env conf s)))) = server_listeners conf (cf_tls conf \<noteq> None)"
proof (cases "cf_tls conf")
  case None
  then show ?thesis using assms start_agent_done [of env conf False] by (simp add: Service_Start_def Let_def)
next
  case (Some t)
  obtain res es where tls: "build_tls env t = (res, es)" by fastforce
  let ?s2 = "s\<lparr>sx_registry := reg, sx_closers := sx_closers s + length es\<rparr>"
  have "es = [] \<or> es = [KeyLogOpened]" using build_tls_effects [of env t] tls by simp
  then have "concat (map opened es) = []" by auto
  with start_agent_done [of env conf True ?s2] show ?thesis using assms Some tls
    by (cases res) (auto simp: Service_Start_def Let_def split_def)
qed

lemma second_signal_lost:
  "sw_signals p \<noteq> AwaitsSignal \<Longrightarrow> signal_arrives kill p = p"
  by (simp add: signal_arrives_def)

lemma udp_close_panics: "serve_panics ''udp'' ServeNetClosed" "\<not> serve_panics ''tcp'' ServeNetClosed" "\<not> serve_panics ''tls'' ServeNetClosed"
  by (simp_all add: serve_panics_def)

section \<open>Lemmas: the process\<close>

text \<open>The first signal of a sequence of operations; \<open>Some True\<close> for SIGINT.\<close>

fun first_signal :: "process_op list \<Rightarrow> bool option" where
  "first_signal [] = None"
| "first_signal (SignalArrives kill # ops) = Some kill"
| "first_signal (_ # ops) = first_signal ops"

lemma first_signal_append:
  "first_signal (xs @ ys) = (case first_signal xs of Some k \<Rightarrow> Some k | None \<Rightarrow> first_signal ys)"
  by (induction xs rule: first_signal.induct) simp_all

text \<open>Stopping the SIP service is right if it was killed by the first signal, or no call is left.\<close>

definition stop_right :: "process_op list \<Rightarrow> process_effect \<Rightarrow> bool" where
  "stop_right ops e = (case e of SipStopped killed n \<Rightarrow> if killed then first_signal ops = Some True else first_signal ops \<noteq> None \<and> n = 0 | _ \<Rightarrow> True)"

definition is_stop :: "process_effect \<Rightarrow> bool" where
  "is_stop e = (case e of SipStopped _ _ \<Rightarrow> True | _ \<Rightarrow> False)"

definition signals_inv :: "process_op list \<Rightarrow> svc_process \<Rightarrow> bool" where
  "signals_inv ops p =
     ((case sw_signals p of
         AwaitsSignal \<Rightarrow> first_signal ops = None \<and> \<not> sw_killed p \<and> \<not> sw_shutdown p
       | Stopping k \<Rightarrow> first_signal ops = Some k \<and> \<not> sw_killed p \<and> sw_shutdown p
       | HandlerGone \<Rightarrow> first_signal ops = Some (sw_killed p) \<and> sw_shutdown p)
      \<and> (sw_phase p = Draining \<longrightarrow> sw_shutdown p))"

lemmas process_defs = run_begins_def run_proceeds_def drain_tick_def drain_test_def signal_arrives_def stop_finishes_def Let_def

lemma signals_inv_step: "signals_inv ops p \<Longrightarrow> signals_inv (ops @ [op]) (fst (process_step op p))"
  by (cases op; cases "sw_signals p") (auto simp: signals_inv_def process_defs first_signal_append split_def)

lemma stop_right_step:
  assumes "signals_inv ops p"
  shows "list_all (stop_right (ops @ [op])) (snd (process_step op p))"
proof -
  have ports: "list_all (stop_right ops') (close_ports ps)" "list_all (stop_right ops') (open_ports ps)" for ops' ps
    by (auto simp: close_ports_def open_ports_def stop_right_def list_all_iff)
  show ?thesis using assms
    by (cases op; cases "sw_signals p")
       (auto simp: process_defs signals_inv_def first_signal_append stop_right_def split_def ports)
qed

lemma stop_right_more: "stop_right ops e \<Longrightarrow> stop_right (ops @ more_ops) e"
  by (auto simp: stop_right_def first_signal_append split: process_effect.splits option.splits if_splits)

lemma process_history:
  "signals_inv ops (fst (run process_step ops new_process)) \<and> list_all (stop_right ops) (snd (run process_step ops new_process))"
proof (rule run_history_induct [where Q = "\<lambda>ops es s. signals_inv ops s \<and> list_all (stop_right ops) es"])
  show "signals_inv [] new_process \<and> list_all (stop_right []) []"
    by (simp add: signals_inv_def new_process_def)
next
  fix ops es s op
  assume "signals_inv ops s \<and> list_all (stop_right ops) es"
  then show "signals_inv (ops @ [op]) (fst (process_step op s)) \<and> list_all (stop_right (ops @ [op])) (es @ snd (process_step op s))"
    using signals_inv_step stop_right_step stop_right_more by (auto simp: list_all_iff)
qed

text \<open>A process stops SIP at most once, and what it opened it closes by its end.\<close>

definition still_open :: "string \<Rightarrow> svc_process \<Rightarrow> nat" where
  "still_open n p = (if sw_phase p \<in> {Ready, Draining} then count_by (\<lambda>(m, _). m = n) (sw_ports p) else 0)"

definition balance :: "process_effect list \<Rightarrow> svc_process \<Rightarrow> bool" where
  "balance es p = ((\<forall>n. count_by (\<lambda>e. e = HttpOpened n) es = count_by (\<lambda>e. e = HttpClosed n) es + still_open n p)
     \<and> count_by (\<lambda>e. e = RpcStarted) es = count_by (\<lambda>e. e = RpcStopped) es + (if sw_phase p \<in> {Ready, Draining} then 1 else 0)
     \<and> count_by (\<lambda>e. e = TopicRegistered) es
         = count_by (\<lambda>e. e = TopicDeregistered) es + (if sw_phase p = Ready then 1 else 0)
     \<and> count_by is_stop es + (if sw_phase p = Finished then 0 else 1) \<le> 1)"

lemma count_ports:
  "count_by (\<lambda>e. e = HttpOpened n) (open_ports ps) = count_by (\<lambda>(m, _). m = n) ps"
  "count_by (\<lambda>e. e = HttpClosed n) (close_ports ps) = count_by (\<lambda>(m, _). m = n) ps"
  "count_by (\<lambda>e. e = HttpClosed n) (open_ports ps) = 0"
  "count_by (\<lambda>e. e = HttpOpened n) (close_ports ps) = 0"
  "e' \<in> {RpcStarted, RpcStopped, TopicRegistered, TopicDeregistered} \<Longrightarrow> count_by (\<lambda>e. e = e') (open_ports ps) = 0"
  "e' \<in> {RpcStarted, RpcStopped, TopicRegistered, TopicDeregistered} \<Longrightarrow> count_by (\<lambda>e. e = e') (close_ports ps) = 0"
  "count_by is_stop (open_ports ps) = 0" "count_by is_stop (close_ports ps) = 0"
  by (auto simp: count_by_def close_ports_def open_ports_def rev_filter [symmetric] filter_map comp_def split_def is_stop_def)

lemma is_stop_simps [simp]:
  "is_stop (SipStopped k n)" "\<not> is_stop RpcStarted" "\<not> is_stop RpcStopped" "\<not> is_stop TopicRegistered"
  "\<not> is_stop TopicDeregistered" "\<not> is_stop (WaitingForCalls n)" "\<not> is_stop (RunFailed m)"
  by (simp_all add: is_stop_def)

lemma balance_step: "balance es p \<Longrightarrow> balance (es @ snd (process_step op p)) (fst (process_step op p))"
  by (cases op; cases "sw_phase p"; cases "sw_signals p")
     (auto simp: balance_def still_open_def process_defs split_def count_ports)

interpretation process_books: traced process_step balance
  by unfold_locales (rule balance_step)

lemma process_balance: "balance (snd (run process_step ops new_process)) (fst (run process_step ops new_process))"
  by (rule process_books.run_rel_start) (simp add: balance_def still_open_def new_process_def)

text \<open>From any state in which the process has begun: a signal taken, its stop done, and no call left end it.\<close>

lemma process_ends:
  assumes "signals_inv ops p" "sw_phase p \<noteq> NotRunning"
  shows "sw_phase (fst (run process_step [SignalArrives kill, StopFinishes, RunProceeds n, DrainTick 0] p)) = Finished"
  using assms by (cases "sw_phase p"; cases "sw_signals p") (auto simp: signals_inv_def process_defs split_def)

section \<open>Lemmas: the dispatch\<close>

definition answer_accepts :: "dispatch_response \<Rightarrow> bool" where
  "answer_accepts a \<longleftrightarrow> dr_result a = AnswerAccept \<or> dr_result a = LegacyAcceptOrPin \<and> \<not> dr_request_pin a"

lemma dispatch_accepts:
  "cd_result (fst (DispatchCall upgrade answer)) = DispatchAccept \<longleftrightarrow> pred_option (answer_accepts \<circ> upgrade) answer \<and> answer \<noteq> None"
  by (cases answer)
     (auto simp: DispatchCall_def Let_def answer_accepts_def no_dispatch_def accepted_dispatch_def split: dispatch_answer.splits)

text \<open>A dispatch that answer_accepts has a room, and only that: attributes and headers come with the room or not at all.\<close>

lemma dispatch_room:
  "fst (snd (DispatchCall upgrade answer))
     = (if cd_result (fst (DispatchCall upgrade answer)) = DispatchAccept then map_option (answer_room \<circ> upgrade) answer else None)"
  "cd_result (fst (DispatchCall upgrade answer)) \<noteq> DispatchAccept
     \<Longrightarrow> cd_attrs (fst (DispatchCall upgrade answer)) = None \<and> cd_headers (fst (DispatchCall upgrade answer)) = None"
proof -
  have "fst (snd (DispatchCall upgrade answer))
      = (if cd_result (fst (DispatchCall upgrade answer)) = DispatchAccept then map_option (answer_room \<circ> upgrade) answer else None)
    \<and> (cd_result (fst (DispatchCall upgrade answer)) = DispatchAccept
       \<or> cd_attrs (fst (DispatchCall upgrade answer)) = None \<and> cd_headers (fst (DispatchCall upgrade answer)) = None)"
  proof (cases answer)
    case None
    then show ?thesis by (simp add: DispatchCall_def no_dispatch_def)
  next
    case (Some a)
    then show ?thesis
      by (cases "dr_result (upgrade a)") (simp_all add: DispatchCall_def Let_def no_dispatch_def accepted_dispatch_def)
  qed
  then show "fst (snd (DispatchCall upgrade answer))
      = (if cd_result (fst (DispatchCall upgrade answer)) = DispatchAccept then map_option (answer_room \<circ> upgrade) answer else None)"
    "cd_result (fst (DispatchCall upgrade answer)) \<noteq> DispatchAccept
      \<Longrightarrow> cd_attrs (fst (DispatchCall upgrade answer)) = None \<and> cd_headers (fst (DispatchCall upgrade answer)) = None"
    by blast+
qed

section \<open>Properties\<close>

text \<open>
  C11. Stopping the SIP service after a start that may have failed anywhere (the registration, the TLS
  configuration, the agent, client or server, any listener) closes exactly the listeners the start opened, in
  their order, and its key log. The metrics registry then has the collectors it had before the start, without
  the default collector of the Go runtime: the start takes it out, and the stop does not put it back (a start
  that panics ends the process). A start without an error has opened UDP, TCP and, if configured, TLS.
\<close>

theorem service_stop_releases:
  "case Service_Start env conf (new_sip_service names) of ((s, es), err) \<Rightarrow>
     (case Service_Stop s of (s', es') \<Rightarrow>
        concat (map shut es') = concat (map opened es)
        \<and> count_by (\<lambda>e. e = KeyLogClosed) es' = count_by (\<lambda>e. e = KeyLogOpened) es
        \<and> (if StartPanic \<in> set es then True
            else rg_names (sx_registry s') = filter (\<lambda>n. n \<noteq> go_collector) names)
        \<and> (if err = None then concat (map opened es) = server_listeners conf (cf_tls conf \<noteq> None) else True))"
proof (cases "Monitor_Start (se_fault env) (sx_registry (new_sip_service names))")
  case None
  then show ?thesis
    by (simp add: Service_Start_def Service_Stop_eq new_sip_service_def Monitor_Stop_def count_by_def)
next
  case (Some reg)
  let ?r = "Service_Start env conf (new_sip_service names)"
  have "holds ((new_sip_service names)\<lparr>sx_registry := reg\<rparr>) (fst ?r)" using Some by (rule Service_Start_holds)
  moreover have "rg_names (Monitor_Stop reg) = filter (\<lambda>n. n \<noteq> go_collector) names"
    using start_stop_names(2) [OF Some] by simp
  moreover have "if snd ?r = None then concat (map opened (snd (fst ?r))) = server_listeners conf (cf_tls conf \<noteq> None) else True"
    using Service_Start_done [OF Some] by simp
  ultimately show ?thesis by (simp add: split_def holds_def Service_Stop_releases)
qed

text \<open>
  C10. Under any interleaving of signals, \<open>Run\<close> and its ticker the service stops SIP at most once, and then because
  the first signal was SIGINT, or after a signal and with no call left: a SIGTERM never ends a call, whatever signals
  follow. At the end of \<open>Run\<close> every HTTP listener and RPC server that was opened is closed, and the topic is
  deregistered.
\<close>

theorem service_drains:
  "case run process_step ops new_process of (p, es) \<Rightarrow>
     count_by is_stop es \<le> 1
     \<and> list_all (stop_right ops) es
     \<and> (if sw_phase p = Finished
        then (\<forall>n. count_by (\<lambda>e. e = HttpOpened n) es = count_by (\<lambda>e. e = HttpClosed n) es)
             \<and> count_by (\<lambda>e. e = RpcStarted) es = count_by (\<lambda>e. e = RpcStopped) es
             \<and> count_by (\<lambda>e. e = TopicRegistered) es = count_by (\<lambda>e. e = TopicDeregistered) es
        else True)"
  using process_history [of ops] process_balance [of ops]
  by (auto simp: split_def balance_def still_open_def split: if_splits)

text \<open>
  C40. From every reachable state in which \<open>Run\<close> has begun, the service comes to its end: once a signal (any, if
  none came before) has been handled and a tick finds no call left, \<open>Run\<close> has returned.
\<close>

theorem service_finishes:
  "case run process_step ops new_process of (p, es) \<Rightarrow>
     if sw_phase p = NotRunning then True
     else sw_phase (fst (run process_step [SignalArrives kill, StopFinishes, RunProceeds n, DrainTick 0] p)) = Finished"
proof -
  let ?p = "fst (run process_step ops new_process)"
  have "if sw_phase ?p = NotRunning then True
    else sw_phase (fst (run process_step [SignalArrives kill, StopFinishes, RunProceeds n, DrainTick 0] ?p)) = Finished"
    using process_ends [of ops ?p kill n] process_history [of ops] by (auto simp del: run.simps)
  then show ?thesis by (simp add: split_def del: run.simps)
qed

end
