(* ===== verification/Dispatch_Join.thy ===== *)
theory Dispatch_Join
  imports Inbound_Outcome Service_Run
begin

text \<open>
  The dispatch service and the inbound call together: every dispatch a call gets is \<open>DispatchCall\<close> of
  \<open>pkg/service/psrpc.go\<close> on an answer of the service. Which rooms does the call then join? The call is the
  machine of \<open>Inbound_Flow\<close>; here are the lemmas, the property is in the root theory.
\<close>

section \<open>A call with a dispatch service\<close>

text \<open>
  The answer to the first request, the answers to the requests of the pin prompt by pin, and every other
  operation of the call.
\<close>

datatype service_op =
    ServiceAnswers "dispatch_response option" nanos
  | PinAnswers pin_event "string \<Rightarrow> bool \<Rightarrow> dispatch_response option" nanos
  | CallOp flow_op

definition flow_op_of :: "(dispatch_response \<Rightarrow> dispatch_response) \<Rightarrow> service_op \<Rightarrow> flow_op" where
  "flow_op_of upgrade op = (case op of
       ServiceAnswers ans now \<Rightarrow> Dispatched (fst (DispatchCall upgrade ans)) now
     | PinAnswers e svc now \<Rightarrow> PinWakes e (\<lambda>pin noPin. fst (DispatchCall upgrade (svc pin noPin))) now
     | CallOp op \<Rightarrow> op)"

definition not_dispatch :: "service_op \<Rightarrow> bool" where
  "not_dispatch op = (case op of
       CallOp op \<Rightarrow> (case op of Dispatched d now \<Rightarrow> False | PinWakes e ask now \<Rightarrow> False | _ \<Rightarrow> True) | _ \<Rightarrow> True)"

text \<open>The answers the service gives in a sequence of operations.\<close>

definition gives :: "dispatch_response \<Rightarrow> service_op \<Rightarrow> bool" where
  "gives a op = (case op of
       ServiceAnswers ans now \<Rightarrow> ans = Some a
     | PinAnswers e svc now \<Rightarrow> (\<exists>pin. svc pin (pin = []) = Some a)
     | CallOp op \<Rightarrow> False)"

definition accepted_room :: "(dispatch_response \<Rightarrow> dispatch_response) \<Rightarrow> service_op list \<Rightarrow> string \<Rightarrow> bool" where
  "accepted_room upgrade ops room \<longleftrightarrow>
     (\<exists>a. list_ex (gives a) ops \<and> answer_accepts (upgrade a) \<and> room = dr_room (upgrade a))"

lemma accepted_room_mono: "accepted_room upgrade ops room \<Longrightarrow> accepted_room upgrade (ops @ ops') room"
  by (auto simp: accepted_room_def)

lemma accepted_room_first:
  assumes "cd_result (fst (DispatchCall upgrade ans)) = DispatchAccept" "\<And>a. ans = Some a \<Longrightarrow> gives a op"
  shows "accepted_room upgrade (ops @ [op]) (cd_room (fst (DispatchCall upgrade ans)))"
proof -
  obtain a where a: "ans = Some a" "answer_accepts (upgrade a)"
    using assms(1) by (auto simp: dispatch_accepts)
  then have "cd_room (fst (DispatchCall upgrade ans)) = dr_room (upgrade a)"
    by (auto simp: DispatchCall_def Let_def answer_accepts_def accepted_dispatch_def)
  with a assms(2) show ?thesis by (auto simp: accepted_room_def)
qed

section \<open>Only \<open>joinRoom\<close> enters a room\<close>

definition joins :: "call_effect \<Rightarrow> bool" where
  "joins e = (case e of RoomConnect room attrs \<Rightarrow> True | _ \<Rightarrow> False)"

definition outside :: "call_effect list \<Rightarrow> bool" where
  "outside es = list_all (\<lambda>e. \<not> joins e) es"

lemma outside_simps [simp]:
  "outside []" "outside (es @ es') = (outside es \<and> outside es')" "outside (e # es) = (\<not> joins e \<and> outside es)"
  "outside (map OnDialog ds)" "outside (map OnMetric ms)" "outside (map OnReport rs)" "outside (map OnPort ps)"
  by (auto simp: outside_def list_all_iff joins_def)

lemma joins_simps [simp]:
  "\<not> joins (DropTag s)" "\<not> joins (DeregisterTransfer s)" "\<not> joins (RegisterTransfer s)" "\<not> joins (SessionEnd p l i r)"
  "\<not> joins CancelCall" "\<not> joins (Play pr)" "\<not> joins (AskDispatch pin noPin)" "\<not> joins (RoomStatus s)" "\<not> joins RoomSubscribe"
  "\<not> joins RoomTrack" "\<not> joins RoomVideoTrack" "\<not> joins RoomKeyFrame" "\<not> joins (RoomSendDtmf b)" "\<not> joins (RoomOutput x)"
  "\<not> joins RoomDtmfOutput" "\<not> joins RoomVideoOutput" "\<not> joins RoomClose" "\<not> joins (PortOut x)" "joins (RoomConnect room attrs)"
  by (simp_all add: joins_def)

lemma outside_parts [simp]:
  "outside (snd (on_dialog f c))" "outside (snd (on_monitor g c))" "outside (snd (on_report h c))"
  "outside (snd (report_update env u c))" "outside (snd (on_port k c))" "outside (snd (closeMedia c))" "outside (setStatus v c)"
  by (simp_all add: on_dialog_def on_monitor_def on_report_def report_update_def on_port_def closeMedia_def setStatus_def
      split: prod.split option.split)

lemma outside_close [simp]: "outside (snd (close_call env a c))"
  by (cases a) (simp add: close_call_def andThen_pair)

lemma outside_closes [simp]:
  "outside (snd (closeWithTimeout env b c))" "outside (snd (closeWithNoACK env c))" "outside (snd (closeWithCancelled env c))"
  "outside (snd (closeWithHangup env c))" "outside (snd (reject_call env code reason st c))"
  "outside (snd (fst (mediaTimeout env c)))"
  by (simp_all add: closeWithTimeout_def closeWithNoACK_def closeWithCancelled_def closeWithHangup_def closeWithReason_def
      reject_call_def mediaTimeout_def andThen_pair)

lemma outside_waits [simp]:
  "outside (snd (fst (waitMedia env e c)))" "outside (snd (fst (waitSubscribe env e c)))"
  "outside (snd (fst (call_end_step env mt ee armed c)))"
  by (auto simp: waitMedia_def waitSubscribe_def call_end_step_def split_def split: wait_end.split end_event.split)

lemma outside_check_pin [simp]: "outside (snd (fst (check_pin env ask keys c)))"
  by (simp add: check_pin_def Let_def andThen_pair)

lemma outside_pin [simp]: "outside (snd (fst (pin_step env ask pe keys c)))"
  by (cases pe) (auto simp: pin_step_def Let_def andThen_pair Call_Close_def split_def)

lemma outside_setupVideo: "outside (snd (fst (setupVideo env pb offer answer c)))"
  by (auto simp: setupVideo_def Let_def split: sum.split option.split prod.split)

lemma outside_apply: "outside (snd (fst (apply_config env pb mc answer c)))"
  by (auto simp: apply_config_def Let_def split: option.split prod.split)

lemma outside_new_port: "outside (snd (fst (new_port env mconf pb c)))"
  by (auto simp: new_port_def Let_def split: option.split prod.split)

lemma outside_negotiate: "outside (snd (fst (negotiate env mconf pb offer c)))"
  by (simp add: negotiate_def split_def outside_setupVideo outside_apply split: sum.split)

lemma outside_runMedia [simp]: "outside (snd (fst (runMedia env mconf pb offer c)))"
proof -
  have "outside (snd (fst (runMediaConn env mconf pb offer c)))"
    using outside_new_port [of env mconf pb c] outside_negotiate [of env mconf pb "fst (sanitizeSDPCryptoSessionParams offer)"]
    by (auto simp: runMediaConn_def Let_def split_def split: prod.splits bool.splits)
  then show ?thesis by (auto simp: runMedia_def andThen_pair split_def split: prod.splits sum.splits)
qed

lemma outside_acceptCall [simp]: "outside (snd (fst (acceptCall env ev now mt d answer c)))"
  by (auto simp: acceptCall_def media_on_def Let_def andThen_pair split: prod.split option.split accept_error.split)

lemma outside_publish [simp]: "outside (snd (fst (publishTrack tr vt pr c)))"
  using outside_parts(5) [of "\<lambda>p. case WriteAudioTo pr ''room'' p of None \<Rightarrow> (p, []) | Some r \<Rightarrow> r" c]
  by (auto simp: publishTrack_def publishVideoTrack_def Let_def split_def split: option.split)

lemma outside_activate [simp]: "outside (snd (fst (activate env mconf now c)))"
  by (simp add: activate_def andThen_pair)

lemma outside_steps [simp]:
  "outside (snd (fst (begin_call env i now c)))" "outside (snd (fst (dispatched env d c)))"
  "outside (snd (fst (media_step env d mconf pin pb offer c)))"
  "outside (snd (fst (accept_step env d mconf pin answer ev now c)))"
  "outside (snd (fst (wait_media_step env d mconf pin answer we now c)))"
  "outside (snd (fst (pin_prompt_step env ask mconf answer keys pe c)))"
  "outside (snd (fst (publish_step env d mconf pin answer tr vt pr now c)))"
  "outside (snd (fst (subscribe_step env d mconf answer we c)))"
  "outside (snd (fst (in_call_step env armed mt ee c)))"
  by (auto simp: begin_call_def dispatched_def media_step_def accept_step_def wait_media_step_def pin_prompt_step_def
      publish_step_def subscribe_step_def in_call_step_def Let_def andThen_pair split_def
      split: sum.split option.split bool.split pin_verdict.split)

lemma outside_other: "outside (snd (other_step env op c))"
  by (cases op) (auto simp: other_step_def andThen_pair Call_Close_def Bye_def handleDTMF_def requestVideoKeyframe_def Shutdown_def)

lemma settle_effects: "\<exists>es'. snd (settle env now r) = snd (fst r) @ es' \<and> outside es'"
  by (auto simp: settle_def andThen_pair on_return_def split_def split: prod.split outcome.split)

lemma settle_outside [simp]: "outside (snd (settle env now r)) = outside (snd (fst r))"
  using settle_effects [of env now r] by auto

text \<open>The join: at most one entry, into the room of the dispatch.\<close>

definition enters :: "string \<Rightarrow> call_effect list \<Rightarrow> bool" where
  "enters room es \<longleftrightarrow> count_by joins es \<le> 1 \<and> list_all (\<lambda>e. case e of RoomConnect r attrs \<Rightarrow> r = room | _ \<Rightarrow> True) es"

lemma outside_count: "outside es \<longleftrightarrow> count_by joins es = 0"
  by (auto simp: outside_def count_by_zero_iff list_all_iff)

lemma outside_enters: "outside es \<Longrightarrow> enters room es"
  using outside_count [of es] by (auto simp: enters_def outside_def list_all_iff joins_def split: call_effect.splits)

lemma enters_outside: "enters room es \<Longrightarrow> outside es' \<Longrightarrow> enters room (es @ es')"
  using outside_enters [of es' room] by (simp add: enters_def outside_count)

lemma join_enters: "enters (cd_room d) (snd (fst (join_step env d mconf pin answer jp c)))"
proof -
  let ?d = "complete_dispatch env c d"
  have create: "enters (cd_room ?d) (snd (fst (createLiveKitParticipant env jp ?d st c)))" for st
    by (auto simp: createLiveKitParticipant_def Let_def enters_def split: option.split sum.split)
  have join: "enters (cd_room ?d) (snd (fst (joinRoom env jp ?d st c)))" for st
  proof -
    obtain r e where r: "createLiveKitParticipant env jp ?d st c = (r, e)" by fastforce
    with create [of st] have "enters (cd_room ?d) (snd r)" by simp
    with r show ?thesis by (cases e) (simp_all add: joinRoom_def andThen_pair enters_outside)
  qed
  obtain r e where r: "joinRoom env jp ?d (if pin then CallActive else CallRinging) c = (r, e)" by fastforce
  with join [of "if pin then CallActive else CallRinging"] have "enters (cd_room d) (snd r)"
    by (simp add: complete_dispatch_def)
  with r show ?thesis by (cases e) (simp_all add: join_step_def Let_def)
qed

section \<open>The rooms of a run\<close>

text \<open>The entries a phase still has to come, and what it knows of its dispatch.\<close>

definition entries_left :: "phase \<Rightarrow> nat" where
  "entries_left ph = (case ph of
       AtStart \<Rightarrow> 1 | AtDispatch \<Rightarrow> 1 | AtMedia d m pin \<Rightarrow> 1 | AtPin m a keys \<Rightarrow> 1 | AtJoin d m pin a \<Rightarrow> 1
     | AtAccept d m pin a \<Rightarrow> if pin then 1 else 0 | AtWaitMedia d m pin a \<Rightarrow> if pin then 1 else 0 | _ \<Rightarrow> 0)"

definition phase_from :: "(dispatch_response \<Rightarrow> dispatch_response) \<Rightarrow> service_op list \<Rightarrow> phase \<Rightarrow> bool" where
  "phase_from upgrade ops ph = (case ph of
       AtMedia d m pin \<Rightarrow> pin \<or> accepted_room upgrade ops (cd_room d)
     | AtJoin d m pin a \<Rightarrow> accepted_room upgrade ops (cd_room d)
     | _ \<Rightarrow> True)"

definition rooms_known :: "(dispatch_response \<Rightarrow> dispatch_response) \<Rightarrow> service_op list \<Rightarrow> call_effect list \<Rightarrow> bool" where
  "rooms_known upgrade ops es =
     list_all (\<lambda>e. case e of RoomConnect room attrs \<Rightarrow> accepted_room upgrade ops room | _ \<Rightarrow> True) es"

definition room_rel ::
  "(dispatch_response \<Rightarrow> dispatch_response) \<Rightarrow> service_op list \<Rightarrow> call_effect list \<Rightarrow> inbound_flow \<Rightarrow> bool" where
  "room_rel upgrade ops es f \<longleftrightarrow> rooms_known upgrade ops es \<and> count_by joins es + entries_left (fl_phase f) \<le> 1
     \<and> phase_from upgrade ops (fl_phase f)"

lemma rooms_known_more: "rooms_known upgrade ops es \<Longrightarrow> rooms_known upgrade (ops @ ops') es"
  by (auto simp: rooms_known_def list_all_iff accepted_room_mono split: call_effect.splits)

lemma phase_from_more: "phase_from upgrade ops ph \<Longrightarrow> phase_from upgrade (ops @ ops') ph"
  by (auto simp: phase_from_def accepted_room_mono split: phase.splits)

lemma rooms_known_outside: "outside es \<Longrightarrow> rooms_known upgrade ops es"
  by (auto simp: rooms_known_def outside_def list_all_iff joins_def split: call_effect.splits)

lemma rooms_known_enters: "enters room es \<Longrightarrow> accepted_room upgrade ops room \<Longrightarrow> rooms_known upgrade ops es"
  by (auto simp: rooms_known_def enters_def list_all_iff split: call_effect.splits)

lemma rooms_known_append: "rooms_known upgrade ops (es @ es') = (rooms_known upgrade ops es \<and> rooms_known upgrade ops es')"
  by (simp add: rooms_known_def)

lemma phase_from_simps [simp]:
  "phase_from upgrade ops AtStart" "phase_from upgrade ops AtDispatch" "phase_from upgrade ops (AtAccept d m pin a)"
  "phase_from upgrade ops (AtWaitMedia d m pin a)" "phase_from upgrade ops (AtPin m a keys)"
  "phase_from upgrade ops (AtPublish d m pin a)" "phase_from upgrade ops (AtSubscribe d m a)"
  "phase_from upgrade ops (InCall x y)" "phase_from upgrade ops (Returned e)" "phase_from upgrade ops Crashed"
  "phase_from upgrade ops (AtMedia d m pin) = (pin \<or> accepted_room upgrade ops (cd_room d))"
  "phase_from upgrade ops (AtJoin d m pin a) = accepted_room upgrade ops (cd_room d)"
  by (simp_all add: phase_from_def)

lemma entries_left_simps [simp]:
  "entries_left AtStart = 1" "entries_left AtDispatch = 1" "entries_left (AtMedia d m pin) = 1"
  "entries_left (AtPin m a keys) = 1" "entries_left (AtJoin d m pin a) = 1"
  "entries_left (AtAccept d m pin a) = (if pin then 1 else 0)" "entries_left (AtWaitMedia d m pin a) = (if pin then 1 else 0)"
  "entries_left (AtPublish d m pin a) = 0" "entries_left (AtSubscribe d m a) = 0" "entries_left (InCall x y) = 0"
  "entries_left (Returned e) = 0" "entries_left Crashed = 0"
  by (simp_all add: entries_left_def)

text \<open>A step that does not join: where it goes decides.\<close>

lemma settle_room:
  assumes "room_rel upgrade ops es f" "outside (snd (fst r))"
    and "\<And>ph. snd r = Goto ph \<Longrightarrow> phase_from upgrade (ops @ [op]) ph \<and> entries_left ph \<le> entries_left (fl_phase f)"
  shows "room_rel upgrade (ops @ [op]) (es @ snd (settle env now r)) (fst (settle env now r))"
proof -
  have out: "outside (snd (settle env now r))" using assms(2) by simp
  have "phase_from upgrade (ops @ [op]) (fl_phase (fst (settle env now r)))
      \<and> entries_left (fl_phase (fst (settle env now r))) \<le> entries_left (fl_phase f)"
    using assms(3) by (cases "snd r") (simp_all add: settle_shape)
  with assms(1) out rooms_known_more [of upgrade ops es "[op]"] rooms_known_outside [OF out, of upgrade "ops @ [op]"]
  show ?thesis by (simp add: room_rel_def rooms_known_append outside_count)
qed

lemma settle_join:
  assumes "room_rel upgrade ops es f" "fl_phase f = AtJoin d mconf pin answer"
  shows "room_rel upgrade (ops @ [op]) (es @ snd (settle env now (join_step env d mconf pin answer jp c)))
    (fst (settle env now (join_step env d mconf pin answer jp c)))"
proof -
  let ?r = "join_step env d mconf pin answer jp c"
  obtain es' where es': "snd (settle env now ?r) = snd (fst ?r) @ es'" "outside es'" using settle_effects by blast
  then have "enters (cd_room d) (snd (settle env now ?r))" using join_enters by (simp add: enters_outside)
  moreover have "accepted_room upgrade (ops @ [op]) (cd_room d)"
    using assms by (simp add: room_rel_def accepted_room_mono)
  moreover have "fl_phase (fst (settle env now ?r)) \<in> {AtPublish (complete_dispatch env c d) mconf pin answer} \<union> range Returned"
    by (cases "snd ?r") (auto simp: settle_shape dest!: goes)
  moreover have "count_by joins es = 0" "rooms_known upgrade ops es" using assms by (simp_all add: room_rel_def)
  ultimately show ?thesis
    using rooms_known_enters [of "cd_room d" "snd (settle env now ?r)" upgrade "ops @ [op]"]
      rooms_known_more [of upgrade ops es "[op]"]
    by (auto simp: room_rel_def rooms_known_append enters_def)
qed

lemma pin_prompt_accepted:
  assumes "snd (pin_prompt_step env ask mconf answer keys pe c) = Goto (AtJoin d m pin a)"
  shows "\<exists>typed. d = ask typed (typed = []) \<and> cd_result d = DispatchAccept"
  using assms
  by (cases pe) (auto simp: pin_prompt_step_def pin_step_def check_pin_def Let_def split_def
      split: if_splits prod.splits pin_verdict.splits)

lemma verdict_none: "dispatch_verdict r = None \<Longrightarrow> r = DispatchAccept \<or> r = DispatchRequestPin"
  by (cases r) (simp_all add: dispatch_verdict_def)

lemma room_stays:
  assumes "room_rel upgrade ops es f" "outside es'" "fl_phase f' = fl_phase f"
  shows "room_rel upgrade (ops @ [op]) (es @ es') f'"
  using assms rooms_known_more [of upgrade ops es "[op]"] phase_from_more [of upgrade ops "fl_phase f" "[op]"]
    rooms_known_outside [OF assms(2), of upgrade "ops @ [op]"]
  by (simp add: room_rel_def rooms_known_append outside_count)

lemma room_step_dispatch:
  assumes "room_rel upgrade ops es f" "op = ServiceAnswers ans now"
  shows "room_rel upgrade (ops @ [op]) (es @ snd (handler_step env (flow_op_of upgrade op) f))
    (fst (handler_step env (flow_op_of upgrade op) f))"
proof (cases "fl_phase f = AtDispatch")
  case True
  let ?d = "fst (DispatchCall upgrade ans)"
  have "accepted_room upgrade (ops @ [op]) (cd_room ?d)" if "cd_result ?d = DispatchAccept"
    using that assms(2) by (intro accepted_room_first) (simp_all add: gives_def)
  then have "room_rel upgrade (ops @ [op]) (es @ snd (settle env now (dispatched env ?d (fl_call f))))
      (fst (settle env now (dispatched env ?d (fl_call f))))"
    using True by (intro settle_room [OF assms(1)]) (auto dest!: goes verdict_none)
  with True assms(2) show ?thesis by (simp add: handler_step_def flow_op_of_def Let_def)
next
  case False
  then have "handler_step env (flow_op_of upgrade op) f = (f, [])"
    using assms(2) by (cases "fl_phase f") (simp_all add: handler_step_def flow_op_of_def Let_def)
  with room_stays [OF assms(1), of "[]" f op] show ?thesis by simp
qed

lemma room_step_pin:
  assumes "room_rel upgrade ops es f" "op = PinAnswers e svc now"
  shows "room_rel upgrade (ops @ [op]) (es @ snd (handler_step env (flow_op_of upgrade op) f))
    (fst (handler_step env (flow_op_of upgrade op) f))"
proof -
  let ?ask = "\<lambda>pin noPin. fst (DispatchCall upgrade (svc pin noPin))"
  have known: "accepted_room upgrade (ops @ [op]) (cd_room (?ask pin (pin = [])))"
    if "cd_result (?ask pin (pin = [])) = DispatchAccept" for pin
    using that assms(2) by (intro accepted_room_first) (auto simp: gives_def)
  have "room_rel upgrade (ops @ [op]) (es @ snd (settle env now (pin_prompt_step env ?ask m a keys e c)))
      (fst (settle env now (pin_prompt_step env ?ask m a keys e c)))" if "fl_phase f = AtPin m a keys" for m a keys c
  proof (intro settle_room [OF assms(1)])
    fix ph
    assume g: "snd (pin_prompt_step env ?ask m a keys e c) = Goto ph"
    with goes(6) [OF this] that known pin_prompt_accepted [of env ?ask m a keys e c]
    show "phase_from upgrade (ops @ [op]) ph \<and> entries_left ph \<le> entries_left (fl_phase f)" by fastforce
  qed simp
  with assms(2) room_stays [OF assms(1), of "[]" f op] show ?thesis
    by (cases "fl_phase f") (simp_all add: handler_step_def flow_op_of_def Let_def)
qed

lemma room_step_call:
  assumes "room_rel upgrade ops es f" "op = CallOp fop" "not_dispatch op"
  shows "room_rel upgrade (ops @ [op]) (es @ snd (handler_step env fop f)) (fst (handler_step env fop f))"
proof -
  have same: "room_rel upgrade (ops @ [x]) es f" for x using room_stays [OF assms(1), of "[]" f x] by simp
  have here: "phase_from upgrade (ops @ [op]) (fl_phase f)"
    using assms(1) by (simp add: room_rel_def phase_from_more)
  show ?thesis
    using assms(2,3) here
    by (cases fop; cases "fl_phase f")
      (auto simp: handler_step_def Let_def not_dispatch_def same
        intro!: settle_room [OF assms(1)] settle_join [OF assms(1)] dest!: goes)
qed

lemma room_step_any:
  assumes "room_rel upgrade ops es f" "not_dispatch op"
  shows "room_rel upgrade (ops @ [op]) (es @ snd (flow_step env (flow_op_of upgrade op) f))
    (fst (flow_step env (flow_op_of upgrade op) f))"
proof (cases "of_handler (flow_op_of upgrade op)")
  case True
  with room_step_dispatch [OF assms(1), of op] room_step_pin [OF assms(1), of op] room_step_call [OF assms(1), of op]
    assms(2) show ?thesis
    by (cases op) (simp_all add: flow_step_def flow_op_of_def)
next
  case False
  with room_stays [OF assms(1) outside_other, of _ op] show ?thesis by (simp add: flow_step_def split_def)
qed

lemma run_rooms:
  assumes "list_all not_dispatch ops" "fl_phase f = AtStart"
  shows "room_rel upgrade ops (snd (run (\<lambda>op. flow_step env (flow_op_of upgrade op)) ops f))
    (fst (run (\<lambda>op. flow_step env (flow_op_of upgrade op)) ops f))"
proof -
  have "list_all not_dispatch ops \<longrightarrow> room_rel upgrade ops (snd (run (\<lambda>op. flow_step env (flow_op_of upgrade op)) ops f))
      (fst (run (\<lambda>op. flow_step env (flow_op_of upgrade op)) ops f))"
  proof (rule run_history_induct [where Q = "\<lambda>ops es f. list_all not_dispatch ops \<longrightarrow> room_rel upgrade ops es f"])
    show "list_all not_dispatch [] \<longrightarrow> room_rel upgrade [] [] f"
      using assms(2) by (simp add: room_rel_def rooms_known_def)
  qed (simp add: room_step_any)
  with assms(1) show ?thesis by blast
qed

section \<open>A sample service\<close>

definition sample_answer :: dispatch_response where
  "sample_answer = \<lparr>dr_result = AnswerAccept, dr_request_pin = False, dr_project = [], dr_trunk = ''ST_1'', dr_rule = ''SDR_1'',
     dr_url = ''wss://lk'', dr_token = ''token'', dr_room = ''room'', dr_identity = ''sip_bob'', dr_name = ''Bob'', dr_attrs = [],
     dr_headers = None, dr_hdr_to_attr = [], dr_include = SIP_NO_HEADERS, dr_attr_to_hdr = [], dr_flags = [], dr_ringing = 0,
     dr_max_duration = 0,
     dr_media = \<lparr>mr_encryption = ENCRYPT_DISABLE, mr_only_listed = False, mr_codecs = [], mr_timeout = None\<rparr>\<rparr>"

definition sample_service_ops :: "service_op list" where
  "sample_service_ops = [CallOp (Begin (Some ''call-1'') 1), ServiceAnswers (Some sample_answer) 2,
     CallOp (MediaDone sample_probe ''offer'' 3), CallOp (JoinDone sample_join 4)]"

lemma sample_service_joins:
  "count_by joins (snd (run (\<lambda>op. flow_step sample_call_env (flow_op_of (\<lambda>a. a) op)) sample_service_ops sample_flow)) = 1"
  by code_simp

end
