(* ===== verification/Call_Transfers.thy ===== *)
theory Call_Transfers
  imports Inbound_Flow Outbound_Flow
begin

text \<open>
  \<open>transferCall\<close> of \<open>pkg/sip/outbound.go\<close> as a whole, with its deferred functions, and the proof that both
  \<open>transferCall\<close>s, this one and that of \<open>pkg/sip/inbound.go\<close>, are runs of the steps \<open>Inbound_Flow\<close> and
  \<open>Outbound_Flow\<close> interleave with the rest of a call: begin, REFER, end.
\<close>

section \<open>The transfer of an outbound call\<close>

text \<open>
  \<open>out\<close>: the room has an output, which the dial tone mutes and which is put back if the transfer fails, or else
  closed; closing an output that is not there panics. \<open>meanwhile\<close>: the call is closed in the meantime.
\<close>

definition out_call_transfer ::
  "bool \<Rightarrow> string \<Rightarrow> nanos \<Rightarrow> nanos \<Rightarrow> string \<Rightarrow> str_map option \<Rightarrow> bool \<Rightarrow> bool \<Rightarrow> err + (int \<times> string) \<Rightarrow> out_refer_wait
    \<Rightarrow> bool \<Rightarrow> outbound_call \<Rightarrow> out_result \<times> err option" where
  "out_call_transfer closing tid now ended transferTo headers dialtone out answer w meanwhile c =
     (let (c1, es1) = on_state (StartTransfer tid now transferTo) c;
          tone = (dialtone \<and> oc_started c \<and> \<not> oc_stopped c);
          e = snd (out_transferCall closing transferTo headers answer w (with_headers c1));
          (c2, sent) = on_out (out_transfer_send closing transferTo headers) c1;
          tone_es = (if \<not> tone then []
                     else if e \<noteq> None \<and> \<not> meanwhile then [OutRoomOutput out]
                     else if out then [OutWriterClosed] else [OutPanic]);
          (c3, es3) = on_state (EndTransfer tid ended e) c2
      in ((c3, es1 @ (if tone then [OutRoomOutput False, OutDialTone] else []) @ sent
               @ (if e = None then [OutScheduleClose referByeTimeout] else []) @ tone_es @ es3), e))"

section \<open>Transfers are runs of the machines\<close>

definition out_step_effect :: "out_call_effect \<Rightarrow> bool" where
  "out_step_effect e = (case e of OutDialog d \<Rightarrow> True | OutReport r \<Rightarrow> True | _ \<Rightarrow> False)"

definition in_step_effect :: "call_effect \<Rightarrow> bool" where
  "in_step_effect e = (case e of OnDialog d \<Rightarrow> True | OnReport r \<Rightarrow> True | _ \<Rightarrow> False)"

lemma on_parts_kept [simp]:
  "filter out_step_effect (snd (on_state f c)) = snd (on_state f c)" "filter out_step_effect (snd (on_out g c)) = snd (on_out g c)"
  by (simp_all add: on_state_def on_out_def split_def out_step_effect_def)

lemma step_effects_kept [simp]:
  "filter in_step_effect (map OnDialog ds) = map OnDialog ds" "filter in_step_effect (map OnReport rs) = map OnReport rs"
  by (simp_all add: in_step_effect_def)

text \<open>The outbound transfer: its end is the step \<open>FinishTransfer\<close> with the error that is returned.\<close>

lemma out_transfer_runs:
  assumes "out_call_transfer closing tid now ended to h dialtone out answer w meanwhile c = ((c', es), e)"
  shows "run (out_flow_step env) [BeginTransfer tid now to, SendRefer to h, FinishTransfer tid ended e]
      \<lparr>fo_call = c, fo_phase = ph, fo_closing = closing\<rparr>
    = (\<lparr>fo_call = c', fo_phase = ph, fo_closing = closing\<rparr>, filter out_step_effect es)"
  using assms
  by (auto simp: out_call_transfer_def out_flow_step_def of_dialer_def client_closes_def is_closer_def out_other_def Let_def
      split_def out_step_effect_def)

text \<open>The inbound transfer: \<open>TransferBegins\<close>, \<open>ReferSent\<close>, \<open>TransferEnds\<close>.\<close>

lemma in_transfer_runs:
  assumes "transferCall tid now ended to h dialtone answer w closed_meanwhile c = ((c', es), e)"
  shows "run (flow_step env) [TransferBegins tid now to, ReferSent to h, TransferEnds tid ended e]
      \<lparr>fl_call = c, fl_phase = ph\<rparr>
    = (\<lparr>fl_call = c', fl_phase = ph\<rparr>, filter in_step_effect es)"
  using assms
  by (auto simp: transferCall_def flow_step_def of_handler_def other_step_def on_report_def on_dialog_def Let_def split_def
      in_step_effect_def)

section \<open>The dial tone\<close>

text \<open>
  After a transfer with a dial tone that succeeded the room has no output. A second one that succeeds before the
  call is closed closes an output that is not there.
\<close>

lemma second_transfer_panics:
  assumes "oc_started c" "\<not> oc_stopped c" "snd (out_call_transfer closing tid now fin to h True False answer w meanwhile c) = None"
  shows "OutPanic \<in> set (snd (fst (out_call_transfer closing tid now fin to h True False answer w meanwhile c)))"
  using assms by (auto simp: out_call_transfer_def Let_def split_def)

text \<open>With an output there is no panic.\<close>

lemma transfer_with_output:
  "OutPanic \<notin> set (snd (fst (out_call_transfer closing tid now fin to h dialtone True answer w meanwhile c)))"
  by (auto simp: out_call_transfer_def Let_def split_def on_state_def on_out_def)

end
