(* ===== verification/Node_Setup.thy ===== *)
theory Node_Setup
  imports Service_Config Sip_Protocol Media_Stats
begin

text \<open>
  Smaller parts around a call: reading the configuration and finding an address (\<open>pkg/config/config.go\<close>), the
  check of certificates (\<open>pkg/sip/tls.go\<close>), the JSON methods a room calls (\<open>pkg/sip/rpc.go\<close>), the headers that
  become attributes (\<open>pkg/sip/participant.go\<close>), and the latency wrappers of PCM (\<open>pkg/sip/media_latency.go\<close>).
  YAML, JSON, X.509 and the list of network interfaces are libraries: arguments.
\<close>

section \<open>Configuration\<close>

text \<open>\<open>has_redis\<close>: the configuration names a Redis server. The \<open>parse\<close> starts from the values of the environment.\<close>

definition NewConfig :: "('c \<Rightarrow> string \<Rightarrow> string + 'c) \<Rightarrow> ('c \<Rightarrow> bool) \<Rightarrow> 'c \<Rightarrow> string \<Rightarrow> string + 'c" where
  "NewConfig parse has_redis from_env body =
     (case (if body = [] then Inr from_env else parse from_env body) of
        Inl e \<Rightarrow> Inl (''could not parse config: '' @ e)
      | Inr c \<Rightarrow> if has_redis c then Inr c else Inl ''redis configuration is required'')"

record net_iface =
  nf_up :: bool
  nf_running :: bool
  nf_point_to_point :: bool
  nf_loopback :: bool
  nf_addrs :: "addr list option"

text \<open>\<open>None\<close>: the interfaces or the addresses of one cannot be read. Only IPv4 addresses of networks count.\<close>

definition iface_candidates :: "net_iface \<Rightarrow> addr list" where
  "iface_candidates i =
     (if \<not> nf_up i \<or> \<not> nf_running i \<or> nf_point_to_point i \<or> nf_loopback i then []
      else (case nf_addrs i of
              None \<Rightarrow> []
            | Some as \<Rightarrow> filter (\<lambda>a. case a of IPv4 w \<Rightarrow> True | _ \<Rightarrow> False) as))"

definition config_GetLocalIP :: "net_iface list option \<Rightarrow> string + addr" where
  "config_GetLocalIP ifaces =
     (case ifaces of
        None \<Rightarrow> Inr NoAddr
      | Some is \<Rightarrow> (case concat (map iface_candidates is) of [] \<Rightarrow> Inl ''no local IP found'' | a # _ \<Rightarrow> Inr a))"

text \<open>An error of the operating system is lost: the address is the invalid one and there is no error.\<close>

lemma unread_interfaces_no_error: "config_GetLocalIP None = Inr NoAddr"
  by (simp add: config_GetLocalIP_def)

lemma local_ip_is_ipv4:
  "config_GetLocalIP (Some is) = Inr a \<Longrightarrow> \<exists>w. a = IPv4 w"
proof -
  assume "config_GetLocalIP (Some is) = Inr a"
  then obtain rest where "concat (map iface_candidates is) = a # rest"
    by (auto simp: config_GetLocalIP_def split: list.splits)
  then have "a \<in> set (concat (map iface_candidates is))" by (metis list.set_intros(1))
  then show ?thesis by (auto simp: iface_candidates_def split: if_splits option.splits addr.splits)
qed

definition GetLoggerValues :: "string \<Rightarrow> (string \<times> string) list" where
  "GetLoggerValues node = (if node = [] then [] else [(''nodeID'', node)])"

definition GetLoggerFields :: "string \<Rightarrow> string \<Rightarrow> (string \<times> string) list" where
  "GetLoggerFields service node = (''logger'', service) # GetLoggerValues node"

section \<open>TLS\<close>

text \<open>The suites of the TLS library by name; of two with one name the later counts.\<close>

definition makeTLSCipherMap :: "(string \<times> u16) list \<Rightarrow> string \<rightharpoonup> u16" where
  "makeTLSCipherMap suites = foldl (\<lambda>m (n, i). m(n \<mapsto> i)) Map.empty suites"

text \<open>
  The check of the chain of the other side that \<open>ConfigureTLS\<close> installs: every certificate parses, and the first
  one verifies with the others between it and the roots; the name of the server is not checked. \<open>None\<close> is a panic.
\<close>

fun parse_certs :: "('b \<Rightarrow> string + 'c) \<Rightarrow> 'b list \<Rightarrow> string + 'c list" where
  "parse_certs parse [] = Inr []"
| "parse_certs parse (b # bs) =
     (case parse b of
        Inl e \<Rightarrow> Inl (''failed to parse certificate from server: '' @ e)
      | Inr c \<Rightarrow> (case parse_certs parse bs of Inl e \<Rightarrow> Inl e | Inr cs \<Rightarrow> Inr (c # cs)))"

definition verify_peer :: "('b \<Rightarrow> string + 'c) \<Rightarrow> ('c \<Rightarrow> 'c list \<Rightarrow> string option) \<Rightarrow> 'b list \<Rightarrow> string option option" where
  "verify_peer parse verify raw =
     (case parse_certs parse raw of
        Inl e \<Rightarrow> Some (Some e)
      | Inr [] \<Rightarrow> None
      | Inr (leaf # rest) \<Rightarrow> Some (verify leaf rest))"

lemma parse_certs_all: "parse_certs parse raw = Inr cs \<Longrightarrow> map parse raw = map Inr cs"
  by (induction raw arbitrary: cs) (auto split: sum.splits)

text \<open>A chain that is accepted was parsed as a whole, and its leaf verified.\<close>

lemma verify_peer_accepts:
  assumes "verify_peer parse verify raw = Some None"
  shows "\<exists>leaf rest. map parse raw = map Inr (leaf # rest) \<and> verify leaf rest = None"
  using assms parse_certs_all [of parse raw]
  by (auto simp: verify_peer_def split: sum.splits list.splits)

section \<open>Methods a room can call\<close>

definition rpc_method ::
  "('req \<Rightarrow> string \<Rightarrow> string + 'req) \<Rightarrow> ('resp \<Rightarrow> string + string) \<Rightarrow> 'req \<Rightarrow> ('req \<Rightarrow> string + 'resp) \<Rightarrow> string
    \<Rightarrow> string + string" where
  "rpc_method decode encode zero f payload =
     (case (if payload = [] then Inr zero else decode zero payload) of
        Inl e \<Rightarrow> Inl e
      | Inr req \<Rightarrow> (case f req of Inl e \<Rightarrow> Inl e | Inr resp \<Rightarrow> encode resp))"

text \<open>\<open>lk.sip.GetRemoteHeaders\<close>; a request is the lists of headers to include and to exclude.\<close>

definition GetRemoteHeaders ::
  "(string list \<times> string list \<Rightarrow> string \<Rightarrow> string + string list \<times> string list) \<Rightarrow> (str_map \<Rightarrow> string + string)
    \<Rightarrow> header list \<Rightarrow> string \<Rightarrow> string + string" where
  "GetRemoteHeaders decode encode headers =
     rpc_method decode encode ([], []) (\<lambda>(incl, excl). Inr (rpcGetHeaders headers incl excl))"

lemma GetRemoteHeaders_empty:
  "GetRemoteHeaders decode encode headers [] = encode (rpcGetHeaders headers [] [])"
  by (simp add: GetRemoteHeaders_def rpc_method_def)

section \<open>Headers of providers\<close>

definition headerToLog :: str_entries where
  "headerToLog = [(''X-Twilio-AccountSid'', ''twilioAccSID''), (''X-Twilio-CallSid'', ''twilioCallSID''),
     (''X-call_leg_id'', ''telnyxCallLegID''), (''X-call_session_id'', ''telnyxCallSessionID'')]"

text \<open>\<open>prefix\<close> is \<open>livekit.AttrSIPPrefix\<close>.\<close>

definition headerToAttr :: "string \<Rightarrow> str_entries" where
  "headerToAttr pre =
     [(''X-Twilio-AccountSid'', pre @ ''twilio.accountSid''), (''X-Twilio-CallSid'', pre @ ''twilio.callSid''),
      (''X-call_leg_id'', pre @ ''telnyx.callLegID''), (''X-call_session_id'', pre @ ''telnyx.callSessionID''),
      (''X-Amzn-ConnectContactId'', pre @ ''amazon.contactId''),
      (''X-Amzn-ConnectInitialContactId'', pre @ ''amazon.initialContactId''),
      (''X-Amzn-SourceAccount'', pre @ ''amazon.sourceAccount''), (''X-Amzn-SourceArn'', pre @ ''amazon.sourceArn''),
      (''X-Amzn-TargetArn'', pre @ ''amazon.targetArn''), (''X-Lk-Test-Id'', ''lktest.id'')]"

text \<open>No two headers write the same attribute, and every header is named once.\<close>

lemma headerToAttr_distinct: "distinct (map fst (headerToAttr ''sip.''))" "distinct (map snd (headerToAttr ''sip.''))"
  by code_simp+

section \<open>Latency of PCM\<close>

definition latencyPCMEntry :: "(nanos \<times> pcm_frame, 's, 'r) handler \<Rightarrow> (nanos \<times> pcm_frame, int \<times> 's, 'r) handler" where
  "latencyPCMEntry = latencyEntry"

text \<open>Without statistics the writer is used as it is.\<close>

definition latencyPCMExit ::
  "(nat \<Rightarrow> nanos) \<Rightarrow> nanos \<Rightarrow> (nanos \<times> pcm_frame, 's, 'r) handler
    \<Rightarrow> (nanos \<times> pcm_frame, (latency_stats \<times> nat) \<times> 's, 'r) handler" where
  "latencyPCMExit = latencyExit"

end
