(* ===== verification/Test_Client.thy ===== *)
theory Test_Client
  imports Video_Sdp Media_Stats Node_Setup
begin

text \<open>
  \<open>pkg/siptest/client.go\<close>: the SIP client that the tests of the repository call with. Its state is what \<open>Close\<close>
  has to release, the dialog, and the last CSeq; its operations dial, notify, hang up, and compare tones.

  The SIP stack, the digest library, SDP, codecs and the Fourier transform are arguments. \<open>Dial\<close> asks again for
  as long as the server answers 407, which need not end.
\<close>

section \<open>State\<close>

text \<open>Of a callback only whether it is set matters; that for media timeouts panics by default.\<close>

record siptest_conf =
  tf_ip :: addr
  tf_port :: u16
  tf_number :: string
  tf_user :: string
  tf_pass :: string
  tf_codec :: string
  tf_on_bye :: bool
  tf_on_dtmf :: bool
  tf_on_refer :: bool

record siptest_client =
  tk_id :: string
  tk_conf :: siptest_conf
  tk_audio_type :: u8
  tk_ack :: bool
  tk_socket :: bool
  tk_sip_client :: bool
  tk_sip_server :: bool
  tk_listener :: bool
  tk_dialog :: bool
  tk_cseq :: u32
  tk_closed :: bool

datatype siptest_effect =
    TkOpened string
  | TkReleased string
  | TkInvite "string option" "string option"
  | TkAck
  | TkBye u32
  | TkNotify u32 string
  | TkDest string int
  | TkTimeoutOn
  | TkReply nat
  | TkCallback string

section \<open>Making a client\<close>

text \<open>
  The defaults of the configuration. \<open>ifaces\<close> are the interfaces of the host, \<open>ulaw\<close> is the name of the G.711
  mu-law codec in the SDP library.
\<close>

definition siptest_defaults :: "net_iface list option \<Rightarrow> string \<Rightarrow> siptest_conf \<Rightarrow> string + siptest_conf" where
  "siptest_defaults ifaces ulaw conf =
     (case (if tf_ip conf = NoAddr then config_GetLocalIP ifaces else Inr (tf_ip conf)) of
        Inl e \<Rightarrow> Inl e
      | Inr ip \<Rightarrow> Inr (conf\<lparr>tf_ip := ip, tf_number := (if tf_number conf = [] then ''1000'' else tf_number conf),
                           tf_codec := (if tf_codec conf = [] then ulaw else tf_codec conf)\<rparr>))"

text \<open>A codec is its default payload type and whether that type is static.\<close>

definition siptest_audio_type :: "u8 \<times> bool \<Rightarrow> u8" where
  "siptest_audio_type info = (case info of (def_type, static) \<Rightarrow> if static then def_type else 102)"

definition fresh_siptest :: "string \<Rightarrow> siptest_conf \<Rightarrow> u8 \<Rightarrow> siptest_client" where
  "fresh_siptest cid conf audio_type =
     \<lparr>tk_id = cid, tk_conf = conf, tk_audio_type = audio_type, tk_ack = False, tk_socket = False, tk_sip_client = False,
      tk_sip_server = False, tk_listener = False, tk_dialog = False, tk_cseq = 0, tk_closed = False\<rparr>"

text \<open>What is made on the way, and what the client then holds to be released; \<open>port\<close> is the port that was bound.\<close>

definition siptest_parts :: "string list" where
  "siptest_parts = [''mixer'', ''media'', ''agent'', ''client'', ''server'', ''listener'']"

definition note_part :: "u16 \<Rightarrow> string \<Rightarrow> siptest_client \<Rightarrow> siptest_client" where
  "note_part port part c =
     (if part = ''media'' then c\<lparr>tk_socket := True\<rparr>
      else if part = ''client'' then c\<lparr>tk_sip_client := True\<rparr>
      else if part = ''server'' then c\<lparr>tk_sip_server := True\<rparr>
      else if part = ''listener'' then c\<lparr>tk_listener := True, tk_conf := (tk_conf c)\<lparr>tf_port := port\<rparr>\<rparr>
      else c)"

text \<open>\<open>Close\<close>; the answer of the server to the BYE does not matter, nor whether an ACK ends the
  wait for it: the flag is not read again.\<close>

definition siptest_Close :: "siptest_client \<Rightarrow> siptest_client \<times> siptest_effect list" where
  "siptest_Close c =
     (if tk_closed c then (c, [])
      else (c\<lparr>tk_closed := True, tk_socket := False, tk_sip_client := False, tk_sip_server := False, tk_listener := False,
              tk_dialog := False, tk_cseq := (if tk_dialog c then tk_cseq c + 1 else tk_cseq c)\<rparr>,
            (if tk_socket c then [TkReleased ''media''] else [])
            @ (if tk_dialog c then [TkBye (tk_cseq c + 1)] else [])
            @ (if tk_sip_client c then [TkReleased ''client''] else [])
            @ (if tk_sip_server c then [TkReleased ''server''] else [])
            @ (if tk_listener c then [TkReleased ''listener''] else [])))"

text \<open>\<open>fault\<close> is what cannot be made; the first of them ends it, with the client closed.\<close>

fun make_parts ::
  "(string \<Rightarrow> bool) \<Rightarrow> u16 \<Rightarrow> string list \<Rightarrow> siptest_client \<Rightarrow> (siptest_client \<times> siptest_effect list) \<times> bool" where
  "make_parts fault port [] c = ((c, []), True)"
| "make_parts fault port (p # ps) c =
     (if fault p then (siptest_Close c, False)
      else (case make_parts fault port ps (note_part port p c) of ((c', es), ok) \<Rightarrow> ((c', TkOpened p # es), ok)))"

text \<open>Without an address nothing was made yet; a codec the SDP library does not know panics.\<close>

datatype siptest_made = NoLocalIP string | CodecPanic | Made siptest_client "siptest_effect list" | NotMade siptest_client "siptest_effect list"

definition siptest_NewClient ::
  "(string \<Rightarrow> bool) \<Rightarrow> net_iface list option \<Rightarrow> string \<Rightarrow> (string \<Rightarrow> (u8 \<times> bool) option) \<Rightarrow> u16 \<Rightarrow> string \<Rightarrow> siptest_conf
    \<Rightarrow> siptest_made" where
  "siptest_NewClient fault ifaces ulaw codecs port cid conf =
     (case siptest_defaults ifaces ulaw conf of
        Inl e \<Rightarrow> NoLocalIP e
      | Inr conf' \<Rightarrow>
          (case codecs (tf_codec conf') of
             None \<Rightarrow> CodecPanic
           | Some info \<Rightarrow>
               (case make_parts fault port siptest_parts (fresh_siptest cid conf' (siptest_audio_type info)) of
                  ((c, es), ok) \<Rightarrow> if ok then Made c es else NotMade c es)))"

text \<open>The handlers of its SIP server. The channel for ACKs holds one; a second is dropped.\<close>

datatype siptest_request = ByeReq | AckReq | ReferReq

fun siptest_serve :: "siptest_request \<Rightarrow> siptest_client \<Rightarrow> siptest_client \<times> siptest_effect list" where
  "siptest_serve ByeReq c = (c, TkReply 200 # (if tf_on_bye (tk_conf c) then [TkCallback ''bye''] else []))"
| "siptest_serve AckReq c = (c\<lparr>tk_ack := True\<rparr>, [])"
| "siptest_serve ReferReq c = (c, (if tf_on_refer (tk_conf c) then [TkCallback ''refer''] else []) @ [TkReply 202])"

section \<open>Dialing\<close>

text \<open>
  What an INVITE brings: no final response, or its status, with the challenge (\<open>None\<close>: it does not parse), whether
  it has a To header, and for an answer the SDP and the CSeq of the request. A 407 without a challenge panics.
\<close>

datatype invite_reply = NoFinal | Refused int | NoChallenge | Challenge407 "string option" bool | Answered200 "sdp_session option" u32

datatype dial_end = DialFailed string | DialAnswered "sdp_session option" u32 | DialPanic

text \<open>\<open>getResponse\<close>: provisional responses are passed over; the count of them goes into the error.\<close>

fun getResponse :: "nat \<Rightarrow> int list \<Rightarrow> nat + int" where
  "getResponse n [] = Inl n"
| "getResponse n (s # ss) = (if s \<in> {100, 180, 183} then getResponse (n + 1) ss else Inr s)"

text \<open>
  The headers of the INVITE, with \<open>ip\<close> and \<open>port\<close> as they are printed; the order of the extra ones is open in
  the code.
\<close>

definition invite_headers ::
  "string \<Rightarrow> string \<Rightarrow> string option \<Rightarrow> string option \<Rightarrow> (string \<times> string) list \<Rightarrow> siptest_client \<Rightarrow> (string \<times> string) list" where
  "invite_headers ip port call_id auth headers c =
     (case call_id of None \<Rightarrow> [] | Some i \<Rightarrow> [(''Call-ID'', i)])
     @ [(''Content-Type'', ''application/sdp''), (''Contact'', ''<sip:livekit@'' @ ip @ '':'' @ port @ ''>''),
        (''Allow'', ''INVITE, ACK, CANCEL, BYE, NOTIFY, REFER, MESSAGE, OPTIONS, INFO, SUBSCRIBE'')]
     @ (if tk_id c = [] then [] else [(''X-Lk-Test-Id'', tk_id c)])
     @ (case auth of None \<Rightarrow> [] | Some a \<Rightarrow> [(''Proxy-Authorization'', a)])
     @ headers"

text \<open>
  The loop of \<open>Dial\<close>: \<open>answer n\<close> is what the n-th INVITE brings, \<open>digest\<close> the credentials for a challenge,
  \<open>call_id\<close> the Call-ID the stack gave the first request.
\<close>

partial_function (option) dial_loop ::
  "(nat \<Rightarrow> invite_reply) \<Rightarrow> (string \<Rightarrow> string) \<Rightarrow> bool \<Rightarrow> string \<Rightarrow> nat \<Rightarrow> string option
    \<Rightarrow> (siptest_effect list \<times> dial_end) option" where
  "dial_loop answer digest has_creds call_id n auth =
     (let es = [TkInvite (if n = 0 then None else Some call_id) auth] in
      case answer n of
        NoFinal \<Rightarrow> Some (es, DialFailed ''no response'')
      | Refused st \<Rightarrow> Some (es, DialFailed ''unexpected status from INVITE response'')
      | Answered200 sdp cseq \<Rightarrow> Some (es, DialAnswered sdp cseq)
      | NoChallenge \<Rightarrow> Some (es, if has_creds then DialPanic else DialFailed ''no username or password was provided'')
      | Challenge407 ch to \<Rightarrow>
          if \<not> has_creds then Some (es, DialFailed ''no username or password was provided'')
          else (case ch of
                  None \<Rightarrow> Some (es, DialFailed ''challenge'')
                | Some x \<Rightarrow>
                    if \<not> to then Some (es, DialFailed ''no To header on Request'')
                    else Option.bind (dial_loop answer digest has_creds call_id (n + 1) (Some (digest x)))
                           (\<lambda>(es', r). Some (es @ es', r))))"

declare dial_loop.simps [code]

text \<open>\<open>parseSDPAnswer\<close>; an answer without connection line or media panics.\<close>

definition parseSDPAnswer :: "sdp_session option \<Rightarrow> (string + string \<times> int) option" where
  "parseSDPAnswer sdp =
     (case sdp of
        None \<Rightarrow> Some (Inl ''sdp'')
      | Some s \<Rightarrow>
          (case (ss_conn s, ss_media s) of
             (Some (Some a), m # _) \<Rightarrow> Some (Inr (a, sm_port m))
           | _ \<Rightarrow> None))"

text \<open>\<open>ack\<close>: the ACK can be written; \<open>resolves\<close>: the address of the answer is one.\<close>

definition siptest_Dial ::
  "(nat \<Rightarrow> invite_reply) \<Rightarrow> (string \<Rightarrow> string) \<Rightarrow> string \<Rightarrow> bool \<Rightarrow> (string \<times> int \<Rightarrow> bool) \<Rightarrow> siptest_client
    \<Rightarrow> ((siptest_client \<times> siptest_effect list) \<times> dial_end) option" where
  "siptest_Dial answer digest call_id ack resolves c =
     (case dial_loop answer digest (tf_user (tk_conf c) \<noteq> [] \<and> tf_pass (tk_conf c) \<noteq> []) call_id 0 None of
        None \<Rightarrow> None
      | Some (es, DialAnswered sdp cseq) \<Rightarrow>
          if \<not> ack then Some ((c, es @ [TkTimeoutOn]), DialFailed ''ack'')
          else (case parseSDPAnswer sdp of
                  None \<Rightarrow> Some ((c, es @ [TkTimeoutOn, TkAck]), DialPanic)
                | Some (Inl e) \<Rightarrow> Some ((c, es @ [TkTimeoutOn, TkAck]), DialFailed e)
                | Some (Inr (a, p)) \<Rightarrow>
                    if \<not> resolves (a, p) then Some ((c, es @ [TkTimeoutOn, TkAck]), DialFailed ''address'')
                    else Some ((c\<lparr>tk_dialog := True, tk_cseq := cseq\<rparr>, es @ [TkTimeoutOn, TkAck, TkDest a p]),
                               DialAnswered sdp cseq))
      | Some (es, r) \<Rightarrow> Some ((c, es), r))"

text \<open>\<open>createOffer\<close>: audio and DTMF on our media address. Origin, name and times are \<open>ss_rest\<close>.\<close>

definition siptest_offer :: "(nat \<Rightarrow> string) \<Rightarrow> string \<Rightarrow> int \<Rightarrow> nat \<Rightarrow> string \<Rightarrow> string \<Rightarrow> string \<Rightarrow> sdp_session" where
  "siptest_offer show_nat ip port audio_type codec dtmf_name rest =
     \<lparr>ss_conn = Some (Some ip),
      ss_media = [\<lparr>sm_media = ''audio'', sm_port = port, sm_protos = [''RTP'', ''AVP''],
                   sm_formats = [show_nat audio_type @ '' 101''], sm_conn = None,
                   sm_attrs = [attr ''rtpmap'' (show_nat audio_type @ '' '' @ codec), attr ''rtpmap'' (''101 '' @ dtmf_name)]\<rparr>],
      ss_rest = rest\<rparr>"

section \<open>Within the call\<close>

text \<open>
  A REFER as \<open>SendNotify\<close> reads it. The CSeq is taken before the last check, so a request that is not sent leaves a
  gap. Its headers are made from those of the REFER; \<open>status\<close> is the response.
\<close>

record refer_view =
  rf_contact :: bool
  rf_from :: bool
  rf_to :: bool
  rf_cseq :: "nat option"

definition SendNotify ::
  "(nat \<Rightarrow> string) \<Rightarrow> refer_view \<Rightarrow> int option \<Rightarrow> siptest_client \<Rightarrow> (siptest_client \<times> siptest_effect list) \<times> string option" where
  "SendNotify show_nat r status c =
     (if \<not> rf_contact r \<and> \<not> rf_from r then ((c, []), Some ''missing destination address'')
      else if \<not> rf_to r then ((c, []), Some ''missing To header in REFER request'')
      else if \<not> rf_from r then ((c, []), Some ''missing From header in REFER request'')
      else (let n = tk_cseq c + 1; c1 = c\<lparr>tk_cseq := n\<rparr> in
            case rf_cseq r of
              None \<Rightarrow> ((c1, []), Some ''missing CSeq header in REFER request'')
            | Some m \<Rightarrow>
                ((c1, [TkNotify n (''refer;id='' @ show_nat m)]),
                 case status of
                   None \<Rightarrow> Some ''transaction failed to complete''
                 | Some s \<Rightarrow> if s = 200 then None else Some ''NOTIFY failed'')))"

text \<open>A DTMF packet counts if its time is within a second of the last packet; \<open>rate\<close> is the clock.\<close>

definition dtmf_in_sync :: "int \<Rightarrow> u32 \<Rightarrow> u32 \<Rightarrow> bool" where
  "dtmf_in_sync rate ts last_ts =
     (let diff = (if last_ts > 0 then uint ts - uint last_ts else 0) in \<not> (diff > rate \<or> diff < - rate))"

definition dtmf_taken :: "int \<Rightarrow> u32 \<Rightarrow> ('p \<Rightarrow> 'd option) \<Rightarrow> u32 \<Rightarrow> 'p \<Rightarrow> siptest_client \<Rightarrow> 'd option" where
  "dtmf_taken rate last_ts decode ts packet c =
     (if \<not> dtmf_in_sync rate ts last_ts \<or> \<not> tf_on_dtmf (tk_conf c) then None else decode packet)"

section \<open>Tones\<close>

definition signalAmp :: int where "signalAmp = 32767 div 4"

definition signalAmpMin :: int where "signalAmpMin = signalAmp - signalAmp div 4"

definition signalAmpMax :: int where "signalAmpMax = signalAmp + signalAmp div 10"

text \<open>The comparison of \<open>WaitSignals\<close>: a wave is its index and amplitude, strongest first.\<close>

definition signals_match :: "int list \<Rightarrow> (int \<times> int) list \<Rightarrow> bool" where
  "signals_match vals out =
     (length vals \<le> length out
      \<and> list_all2 (\<lambda>v (i, a). i = v \<and> signalAmpMin \<le> a \<and> a \<le> signalAmpMax) vals (sort_key fst (take (length vals) out)))"

text \<open>A packet decides to go on, or that the signals are found; other payload types and silence do not count.\<close>

definition wait_packet ::
  "u8 \<Rightarrow> (rtp_packet \<Rightarrow> pcm_frame option) \<Rightarrow> (pcm_frame \<Rightarrow> (int \<times> int) list) \<Rightarrow> int list \<Rightarrow> rtp_packet \<Rightarrow> (bool option)" where
  "wait_packet audio_type decode find_signal vals p =
     (if pk_type p \<noteq> audio_type then Some False
      else (case decode p of
              None \<Rightarrow> None
            | Some pcm \<Rightarrow> if list_all (\<lambda>v. v = 0) pcm then Some False else Some (signals_match vals (find_signal pcm))))"

text \<open>\<open>SendSignal\<close>: the number of frames written before the context ends at tick \<open>ends\<close>, and whether that is an error.\<close>

definition SendSignal :: "int \<Rightarrow> nat option \<Rightarrow> (nat \<times> bool) option" where
  "SendSignal n ends =
     (if n \<le> 0 then (case ends of None \<Rightarrow> None | Some k \<Rightarrow> Some (k, False))
      else (case ends of
              None \<Rightarrow> Some (nat n, False)
            | Some k \<Rightarrow> if k < nat n then Some (k, True) else Some (nat n, False)))"

text \<open>Samples of a recording: little endian, two bytes each; an odd byte at the end panics.\<close>

fun le_samples :: "u8 list \<Rightarrow> int list option" where
  "le_samples [] = Some []"
| "le_samples [b] = None"
| "le_samples (lo # hi # bs) =
     map_option ((#) (sint (word_of_int (uint lo + 256 * uint hi) :: 16 word))) (le_samples bs)"

section \<open>Facts\<close>

lemma note_part_simps [simp]: "tk_closed (note_part n p c) = tk_closed c" "tk_dialog (note_part n p c) = tk_dialog c"
  by (simp_all add: note_part_def)

text \<open>Whatever fails while a client is made, what it opened and can release is released.\<close>

definition released_parts :: "siptest_effect list \<Rightarrow> bool" where
  "released_parts es =
     list_all (\<lambda>p. TkOpened p \<in> set es \<longleftrightarrow> TkReleased p \<in> set es) [''media'', ''client'', ''server'', ''listener'']"

lemma NewClient_releases:
  "case siptest_NewClient fault ifaces ulaw codecs port cid conf of NotMade c es \<Rightarrow> tk_closed c \<and> released_parts es | _ \<Rightarrow> True"
  by (auto simp: siptest_NewClient_def siptest_parts_def fresh_siptest_def note_part_def siptest_Close_def
      released_parts_def split: sum.split option.split)

interpretation siptest: close_once "\<lambda>(_ :: unit). siptest_Close" tk_closed
  by unfold_locales (simp_all add: siptest_Close_def)

text \<open>A dial that ends has met an answer that is not a challenge it can take up: with 407 for ever it does not end.\<close>

definition asks_again :: "bool \<Rightarrow> invite_reply \<Rightarrow> bool" where
  "asks_again has_creds r = (has_creds \<and> (case r of Challenge407 (Some x) True \<Rightarrow> True | _ \<Rightarrow> False))"

lemma dial_loop_ends:
  assumes "dial_loop answer digest has_creds call_id n auth = Some r"
  shows "\<exists>m \<ge> n. \<not> asks_again has_creds (answer m)"
proof (rule dial_loop.raw_induct
    [where P = "\<lambda>answer digest has_creds call_id n auth r. \<exists>m \<ge> n. \<not> asks_again has_creds (answer m)", OF _ assms])
  fix loop answer digest has_creds call_id auth r and n :: nat
  assume IH: "\<And>answer digest has_creds call_id n auth r.
      loop answer digest has_creds call_id n auth = Some r \<Longrightarrow> \<exists>m \<ge> n. \<not> asks_again has_creds (answer m)"
    and body: "(let es = [TkInvite (if n = 0 then None else Some call_id) auth] in
      case answer n of
        NoFinal \<Rightarrow> Some (es, DialFailed ''no response'')
      | Refused st \<Rightarrow> Some (es, DialFailed ''unexpected status from INVITE response'')
      | NoChallenge \<Rightarrow> Some (es, if has_creds then DialPanic else DialFailed ''no username or password was provided'')
      | Challenge407 ch to \<Rightarrow>
          if \<not> has_creds then Some (es, DialFailed ''no username or password was provided'')
          else (case ch of
                  None \<Rightarrow> Some (es, DialFailed ''challenge'')
                | Some x \<Rightarrow>
                    if \<not> to then Some (es, DialFailed ''no To header on Request'')
                    else Option.bind (loop answer digest has_creds call_id (n + 1) (Some (digest x)))
                           (\<lambda>(es', r). Some (es @ es', r)))
      | Answered200 sdp cseq \<Rightarrow> Some (es, DialAnswered sdp cseq)) = Some r"
  show "\<exists>m \<ge> n. \<not> asks_again has_creds (answer m)"
  proof (cases "asks_again has_creds (answer n)")
    case True
    then obtain x where x: "answer n = Challenge407 (Some x) True" "has_creds"
      by (auto simp: asks_again_def split: invite_reply.splits option.splits bool.splits)
    with body obtain r' where "loop answer digest has_creds call_id (n + 1) (Some (digest x)) = Some r'"
      by (auto simp: Let_def bind_eq_Some_conv)
    from IH [OF this] obtain m where "m \<ge> n + 1" "\<not> asks_again has_creds (answer m)" by blast
    then show ?thesis by (intro exI [of _ m]) simp
  qed blast
qed

lemma dial_without_end:
  "dial_loop (\<lambda>n. Challenge407 (Some x) True) digest True call_id 0 None = None"
  using dial_loop_ends [of "\<lambda>n. Challenge407 (Some x) True" digest True call_id 0 None]
  by (cases "dial_loop (\<lambda>n. Challenge407 (Some x) True) digest True call_id 0 None") (auto simp: asks_again_def)

text \<open>Tones that are asked for in an order that does not ascend are never found.\<close>

lemma signals_in_order: "signals_match vals out \<Longrightarrow> sorted vals"
proof -
  assume m: "signals_match vals out"
  then have "map fst (sort_key fst (take (length vals) out)) = vals"
    by (auto simp: signals_match_def list_all2_conv_all_nth intro!: nth_equalityI)
  then show "sorted vals" by (metis sorted_sort_key)
qed

end
