(* ===== verification/Media_Hooks.thy ===== *)
theory Media_Hooks
  imports Media_Port
begin

text \<open>
  What the owner of a media port sets on it while it runs (\<open>pkg/sip/media_port.go\<close>): the sink of the video, the
  callback for keyframes, the audio output, DTMF as tones, the timeout; and the loops that use them. The loops
  and the owner interleave. Functions are named by numbers; a function set to nil is \<open>None\<close>.
\<close>

section \<open>State\<close>

text \<open>
  \<open>ph_pli\<close>: the loop of keyframe requests runs, with the callback it was started with, or plain RTCP (\<open>None\<close>).
\<close>

record port_hooks =
  ph_video :: bool
  ph_on_sample :: "nat option"
  ph_on_keyframe :: "nat option"
  ph_out :: bool
  ph_dtmf_audio :: bool
  ph_received :: bool
  ph_streams :: u64
  ph_pli :: "nat option option"
  ph_closed :: bool

datatype hook_effect = SampleDropped | SampleGiven nat | KeyframeBy "nat option" | ReadsAudio | ReadsVideo

definition new_hooks :: "bool \<Rightarrow> bool \<Rightarrow> port_hooks" where
  "new_hooks video dtmf_audio =
     \<lparr>ph_video = video, ph_on_sample = None, ph_on_keyframe = None, ph_out = True, ph_dtmf_audio = dtmf_audio, ph_received = False,
      ph_streams = 0, ph_pli = None, ph_closed = False\<rparr>"

section \<open>Operations of the owner\<close>

definition DisableOut :: "port_hooks \<Rightarrow> port_hooks" where
  "DisableOut h = h\<lparr>ph_out := False\<rparr>"

definition EnableOut :: "port_hooks \<Rightarrow> port_hooks" where
  "EnableOut h = h\<lparr>ph_out := True\<rparr>"

definition WriteVideoTo :: "nat option \<Rightarrow> port_hooks \<Rightarrow> port_hooks" where
  "WriteVideoTo f h = (if ph_video h then h\<lparr>ph_on_sample := f\<rparr> else h)"

definition SetVideoKeyframeCallback :: "nat option \<Rightarrow> port_hooks \<Rightarrow> port_hooks" where
  "SetVideoKeyframeCallback f h = h\<lparr>ph_on_keyframe := f\<rparr>"

definition SetDTMFAudio :: "bool \<Rightarrow> port_hooks \<Rightarrow> port_hooks" where
  "SetDTMFAudio b h = h\<lparr>ph_dtmf_audio := b\<rparr>"

definition Port_EnableTimeout ::
  "nanos \<Rightarrow> nanos \<Rightarrow> nanos \<Rightarrow> nanos \<Rightarrow> bool \<Rightarrow> nanos \<Rightarrow> timeout_state \<Rightarrow> timeout_state" where
  "Port_EnableTimeout def_initial def_general initial general enabled now s =
     (if enabled then enableTimeout def_initial def_general now initial general s else disableTimeout s)"

definition Port_SetTimeout :: "nanos \<Rightarrow> nanos \<Rightarrow> nanos \<Rightarrow> nanos \<Rightarrow> nanos \<Rightarrow> timeout_state \<Rightarrow> timeout_state" where
  "Port_SetTimeout def_initial def_general initial general now s = enableTimeout def_initial def_general now initial general s"

section \<open>Steps of the loops\<close>

text \<open>A stream accepted by \<open>rtpLoop\<close>, one by \<open>videoRTPLoop\<close>, an access unit, a tick of the keyframe loop.\<close>

definition accept_audio :: "port_hooks \<Rightarrow> port_hooks \<times> hook_effect list" where
  "accept_audio h = (h\<lparr>ph_streams := ph_streams h + 1, ph_received := True\<rparr>, [ReadsAudio])"

definition accept_video :: "port_hooks \<Rightarrow> port_hooks \<times> hook_effect list" where
  "accept_video h =
     (h\<lparr>ph_received := True, ph_pli := (case ph_pli h of None \<Rightarrow> Some (ph_on_keyframe h) | Some f \<Rightarrow> Some f)\<rparr>, [ReadsVideo])"

definition deliver_sample :: "port_hooks \<Rightarrow> hook_effect list" where
  "deliver_sample h = (case ph_on_sample h of None \<Rightarrow> [SampleDropped] | Some f \<Rightarrow> [SampleGiven f])"

definition videoPLILoop :: "port_hooks \<Rightarrow> hook_effect list" where
  "videoPLILoop h = (case ph_pli h of Some f \<Rightarrow> if ph_closed h then [] else [KeyframeBy f] | None \<Rightarrow> [])"

datatype hook_op =
    SetsSink "nat option" | SetsKeyframe "nat option" | SetsOut bool | SetsDtmf bool
  | AudioStream | VideoStream | VideoSample | PliTick | HooksClosed

fun hook_step :: "hook_op \<Rightarrow> port_hooks \<Rightarrow> port_hooks \<times> hook_effect list" where
  "hook_step (SetsSink f) h = (WriteVideoTo f h, [])"
| "hook_step (SetsKeyframe f) h = (SetVideoKeyframeCallback f h, [])"
| "hook_step (SetsOut b) h = (if b then EnableOut h else DisableOut h, [])"
| "hook_step (SetsDtmf b) h = (SetDTMFAudio b h, [])"
| "hook_step AudioStream h = accept_audio h"
| "hook_step VideoStream h = accept_video h"
| "hook_step VideoSample h = (h, deliver_sample h)"
| "hook_step PliTick h = (h, videoPLILoop h)"
| "hook_step HooksClosed h = (h\<lparr>ph_closed := True\<rparr>, [])"

section \<open>The keyframe loop keeps its callback\<close>

lemmas hook_defs = DisableOut_def EnableOut_def WriteVideoTo_def SetVideoKeyframeCallback_def SetDTMFAudio_def accept_audio_def
  accept_video_def deliver_sample_def videoPLILoop_def

definition asked_by :: "nat option \<Rightarrow> port_hooks \<Rightarrow> bool" where
  "asked_by f h = (ph_pli h = Some f)"

definition by_only :: "nat option \<Rightarrow> hook_effect \<Rightarrow> bool" where
  "by_only f e = (case e of KeyframeBy g \<Rightarrow> g = f | _ \<Rightarrow> True)"

interpretation pli_loop: stepper hook_step "\<lambda>_. True" "asked_by f" for f
  by unfold_locales (rename_tac op h; case_tac op; simp add: asked_by_def hook_defs)

text \<open>
  Once the first video stream has come, every keyframe request goes to the callback that was set by then, or to
  RTCP if none was; a callback that is set later is never called.
\<close>

lemma keyframe_callback_fixed:
  assumes "ph_pli h = Some f"
  shows "list_all (by_only f) (snd (run hook_step ops h))"
proof -
  have "by_only f e" if "e \<in> set (snd (run hook_step ops h))" for e
  proof (rule pli_loop.run_effects [where f = f and as = ops and s = h])
    show "by_only f e" if "asked_by f s" "e \<in> set (snd (hook_step a s))" for s a e
      using that by (cases a) (auto simp: asked_by_def by_only_def hook_defs split: option.splits if_splits)
  qed (use that assms in \<open>simp_all add: asked_by_def list_all_iff\<close>)
  then show ?thesis by (simp add: list_all_iff)
qed

lemma late_callback_unused:
  "snd (run hook_step [VideoStream, SetsKeyframe (Some n), PliTick] (new_hooks True dtmf)) = [ReadsVideo, KeyframeBy None]"
  by (simp add: new_hooks_def hook_defs)

end
