(* ===== verification/Spec2Isabelle.thy ===== *)
theory Spec2Isabelle
  imports Termination_Class Call_State Inbound_Dialog Outbound_Dialog Media_Port Signal_Logger
    Service_Config Call_Monitor Transfer_Service Inbound_Server Inbound_Outcome Sip_Client
    Opus_Stream Rtp_Conn Monitor_Registry Room Service_Run Dispatch_Join Call_Transfers Node_Setup Test_Client Media_Hooks
begin

text \<open>
  Verification of the LiveKit SIP service: a program that turns SIP calls into participants of LiveKit
  rooms and back. This header says what is modelled where, what is proved, and what is left out.

  \<^bold>\<open>The program.\<close> The process (\<open>pkg/service/service.go\<close>) starts the SIP service (\<open>pkg/sip/service.go\<close>), which
  runs a server for calls that come in (\<open>server.go\<close>, \<open>inbound.go\<close>) and a client for calls it places
  (\<open>client.go\<close>, \<open>outbound.go\<close>). An INVITE that comes in is filtered, authorised against the trunk of the
  control plane and perhaps challenged; then \<open>handleInvite\<close> asks the dispatch service what to do
  (\<open>pkg/service/psrpc.go\<close>), answers, may prompt for a pin, joins the room and waits for an end. A request to
  create a participant makes an outbound call, which joins the room first and then dials. Both kinds of call
  own four objects: a dialog (\<open>sipInbound\<close>, \<open>sipOutbound\<close>), which keeps CSeqs and decides which SIP message
  may be sent; a media port (\<open>media_port.go\<close>), which owns the socket, the codecs and the media timeout; a
  room (\<open>room.go\<close>, \<open>room_video.go\<close>), which mixes the audio of the participants and hands their video to a
  compositor (\<open>pkg/media/video\<close>); and the reported state (\<open>analytics.go\<close>) with its monitor (\<open>pkg/stats\<close>).
  BYE, NOTIFY, DTMF, transfers, timeouts and shutdowns come from other goroutines and interleave.

  \<^bold>\<open>How it is modelled.\<close> A struct is a record, an enumeration a datatype, a Go method a function from its
  arguments and the state to the new state and a list of effects (messages, calls of other modules,
  reports). What lies outside the repository (the SIP stack, SDP, codecs, the mixer, WebRTC, GStreamer,
  Prometheus, psrpc, TLS, YAML) answers through arguments of the operation: no behaviour of it is made up.
  Integers whose wrap-around matters are words (RTP sequence numbers and timestamps, counters); durations
  and times are nanoseconds. An error is \<open>Inl\<close>, a nil pointer \<open>None\<close>. A section under a mutex is one
  operation; goroutines interleave as sequences of operations (\<open>run\<close>), so a property of every sequence is one
  of every interleaving of these operations. \<open>WriteRTP\<close> of the compositor, which takes no lock, is two. Some
  operations are coarser than the code: closing a call (\<open>close_call\<close>, \<open>out_close\<close>), closing a room
  (\<open>Room_CloseWithReason\<close>, \<open>closeVideo\<close>) and the steps of a dial go through several locked sections and calls
  of libraries one after the other, and are one step here, so that nothing comes between these sections. A
  panic is a state or an effect of its own.

  \<^bold>\<open>The theories\<close>, in the order of their imports:
  \<^item> \<open>Prelude\<close> and \<open>Go_Strings\<close>: integers, time, \<open>run\<close>, the locales below, the functions of Go's \<open>strings\<close>.
  \<^item> \<open>Sip_Types\<close>, \<open>Sip_Protocol\<close>, \<open>Sip_Messages\<close> (\<open>types.go\<close>, \<open>protocol.go\<close>, \<open>rpc.go\<close>): addresses, headers and
    attributes, status names, NOTIFY and Reason, REFER and the messages of a dialog.
  \<^item> \<open>Termination_Class\<close>, \<open>Call_State\<close>, \<open>Call_Monitor\<close>, \<open>Monitor_Registry\<close> (\<open>pkg/stats\<close>, \<open>analytics.go\<close>,
    \<open>errors.go\<close>): how a call ended, what is reported of it, its metrics and their declarations.
  \<^item> \<open>Inbound_Dialog\<close> and \<open>Outbound_Dialog\<close>: \<open>sipInbound\<close> and \<open>sipOutbound\<close>, one operation per method.
  \<^item> \<open>Media_Stats\<close>, \<open>Silence_Filler\<close>, \<open>Signal_Logger\<close>, \<open>Opus_Stream\<close>, \<open>Rtp_Conn\<close>, \<open>Media_Port\<close>, \<open>Media_Hooks\<close>:
    the chain of audio from the socket to the mixer, and the port that owns it.
  \<^item> \<open>Sdp_Offers\<close>, \<open>Video_Sdp\<close>, \<open>Video_Rtp\<close>, \<open>Compositor\<close>: offers and answers, the line of the video and its
    round trip, H.264 packets and key frames, the canvas with its tiles.
  \<^item> \<open>Room\<close>: the callbacks of a room, its tracks and their tiles, subscribing and closing.
  \<^item> \<open>Inbound_Server\<close> (\<open>processInvite\<close>, authentication, the table of invites, routing of requests),
    \<open>Inbound_Call\<close> (the operations of one call), \<open>Inbound_Flow\<close> (\<open>handleInvite\<close> as a state machine),
    \<open>Inbound_Outcome\<close> (what every run of it guarantees).
  \<^item> \<open>Outbound_Call\<close>, \<open>Outbound_Flow\<close> (\<open>Dial\<close>, \<open>connectSIP\<close>, \<open>WaitClose\<close>), \<open>Outbound_Outcome\<close>,
    \<open>Outbound_Properties\<close>: the same for a call that is placed; \<open>Call_Transfers\<close> composes \<open>transferCall\<close>.
  \<^item> \<open>Transfer_Service\<close>, \<open>Sip_Client\<close>, \<open>Service_Config\<close>, \<open>Node_Setup\<close>, \<open>Service_Run\<close>: the tables of calls and
    pending transfers, the client with all its calls, the configuration, start, stop and shutdown.
  \<^item> \<open>Dispatch_Join\<close>: the dispatch service and an inbound call together; the property is at the end of this file.
  \<^item> \<open>Test_Client\<close>: \<open>pkg/siptest/client.go\<close>, the peer that the tests of the repository call with.

  \<^bold>\<open>The interfaces\<close> are the locales of \<open>Prelude\<close>, and \<open>transparent\<close> of \<open>Media_Stats\<close>; each is interpreted on the
  operations of the components that keep the contract:
  \<^item> \<open>close_once\<close>: an operation behind a fuse or a flag does its work once (port, compositor, room, monitor,
    transfer, test client).
  \<^item> \<open>stepper\<close>, \<open>budgeted\<close>, \<open>sequenced\<close>, \<open>monotone_stepper\<close>: an invariant, a budget of effects, the order of
    CSeqs, a preorder, lifted from one operation to runs (dialogs, both call machines, server, room,
    compositor).
  \<^item> \<open>traced\<close>: a relation of the effects so far and the state (challenges issued, the Subscribed fuse, packet
    numbers, the books of the process).
  \<^item> \<open>registry\<close>: a table of live calls (both tables of the service, the calls of the client).
  \<^item> \<open>ledger\<close>: accounts that add up over a handler and over a run (what a call enters and leaves, the final
    responses of an INVITE, the branches of a pipeline).
  \<^item> \<open>transparent\<close>: a wrapper of a media handler passes every packet on unchanged.

  \<^bold>\<open>What the lemmas show.\<close> For a call: it is entered and removed, counted and reported once; it hangs up once;
  its INVITE gets one final response, unless a 200 could not be written again, and a 200 only after a positive
  dispatch; its port is closed when it is over; it joins one room, that of an accepting answer. For the server: no call under a trunk with a password
  without the digest of a challenge that was issued, and one answer to an INVITE. For the service: one transfer
  in flight per call, a created call is closed or findable, a shutdown waits for the calls and releases what a
  start opened. For media: wrappers are transparent, losses are counted across the wrap, silence is filled
  exactly, the timeout fires when its deadline has come, frames are sent whole, tiles stay on the canvas and do not
  overlap. The findings of the manifest name where the code or its comments depart from what they mean.

  \<^bold>\<open>Bounds and loops.\<close> An INVITE is sent at most five times, as the code counts; the pin has at most 16 digits;
  a read loop gives up after \<open>maxErrors\<close> = 50 errors in a row. The retransmission of a 200 and the
  repetition of an INVITE recur on the number of attempts that are left, scans of bytes on the length that
  remains: these functions are total. \<open>timeout_quiet\<close> recurs on how late its timers fire,
  one element per sleep; a theorem of \<open>Media_Port\<close> says how many are enough to reach the deadline.
  \<open>encode_loop\<close> (a frame size of zero) and \<open>dial_loop\<close> (a server that always answers 407) may run for ever and are \<open>partial_function\<close>s; \<open>Opus_Stream\<close> shows that the first returns for a
  positive frame size.

  \<^bold>\<open>Not modelled.\<close> The libraries named above; the text of log lines, traces and the JSON of statistics, which
  no decision reads; getters; weak fairness of the scheduler (a liveness property says which step is enabled
  and where it leads); floating point (levels of \<open>Signal_Logger\<close> are real numbers); memory that goroutines share
  without a lock. \<open>cmd/livekit-sip/main.go\<close> but for its signals, \<open>magefile.go\<close>, \<open>otel.go\<close> and \<open>media_file.go\<close> wire
  libraries together; \<open>test/\<close> and \<open>pkg/audiotest\<close> drive and measure the program in tests; \<open>res/\<close> holds sounds;
  \<open>healthstatus_string.go\<close> is generated. Of \<open>pkg/service\<close> the fields copied into requests, room presets and
  the HTTP handlers are left out, of \<open>pkg/siptest\<close> the playing and recording of files.
\<close>

section \<open>Properties across components\<close>

text \<open>
  C5. A call that gets its dispatches from the dispatch service, at first and for the pins that are typed, enters
  at most one room in every interleaving of its goroutines, and only the room of an answer of the service that
  accepts the call: errors, unknown answers, rejections and requests for a pin never lead into a room.
\<close>

theorem joins_accepted_room:
  assumes "list_all not_dispatch ops"
  shows "case run (\<lambda>op. flow_step env (flow_op_of upgrade op)) ops (new_flow env jitter lk sip from to cc st ts) of
     (f, es) \<Rightarrow> count_by joins es \<le> 1 \<and> rooms_known upgrade ops es"
proof -
  let ?f = "new_flow env jitter lk sip from to cc st ts"
  have "fl_phase ?f = AtStart" by (simp add: new_flow_def)
  from run_rooms [OF assms this, of upgrade env] show ?thesis by (simp add: room_rel_def split_def)
qed

lemma joins_accepted_room_witness:
  "case run (\<lambda>op. flow_step sample_call_env (flow_op_of (\<lambda>a. a) op)) sample_service_ops sample_flow of
     (f, es) \<Rightarrow> count_by joins es = 1 \<and> rooms_known (\<lambda>a. a) sample_service_ops es"
proof -
  have "list_all not_dispatch sample_service_ops" by (simp add: sample_service_ops_def not_dispatch_def)
  from joins_accepted_room [OF this, where env = sample_call_env and upgrade = "\<lambda>a. a" and jitter = False and lk = "''SCL_1''"
      and sip = "''call-1''" and cc = sample_dialog]
  show ?thesis using sample_service_joins unfolding sample_flow_def by (simp add: split_def)
qed
end
